(* ===== verification/Errors.thy ===== *)
theory Errors
  imports Py_Prelude
begin

text \<open>
  The failure taxonomy, \<open>src/vestibule/errors/registry.py\<close>: severities, error codes and the
  \<open>ErrorRegistry\<close> (a dictionary guarded by one lock, so that every method is one atomic step and
  a concurrent execution is a sequence of method calls). The lemmas show that the registry only
  grows, that an entry never changes, and that an unknown code is classified as transient.
\<close>

section \<open>Data\<close>

datatype severity = PERMANENT | TRANSIENT

record error_code =
  ec_code :: string
  ec_severity :: severity
  ec_description :: string

text \<open>The \<open>severity\<close> argument of \<open>register\<close>, which the code tests with \<open>isinstance\<close>.\<close>

datatype severity_arg = Sev severity | NotSeverity

text \<open>
  \<open>ErrorCodeRegistrationInvalid\<close> with its \<open>attempted_code\<close>, its \<open>reason\<close> and the entry already
  registered, if any.
\<close>

datatype registration_error =
  ErrorCodeRegistrationInvalid pyval string "error_code option"

type_synonym error_registry = "(string, error_code) dict"

section \<open>Operations\<close>

definition empty_registry :: error_registry where
  "empty_registry = []"

definition codes_get :: "error_registry \<Rightarrow> pyval \<Rightarrow> error_code option" where
  "codes_get r code = (case code of PyStr s \<Rightarrow> dict_get r s | _ \<Rightarrow> None)"

definition register ::
    "error_registry \<Rightarrow> pyval \<Rightarrow> severity_arg \<Rightarrow> pyval \<Rightarrow>
     (registration_error, error_code, error_registry) outcome" where
  "register r code severity description =
     (case codes_get r code of
        Some existing \<Rightarrow>
          (Inl (ErrorCodeRegistrationInvalid code ''duplicate registration'' (Some existing)), r)
      | None \<Rightarrow>
          (case code of
             PyStr c \<Rightarrow>
               if c = [] then (Inl (ErrorCodeRegistrationInvalid code ''invalid code'' None), r)
               else (case severity of
                   NotSeverity \<Rightarrow>
                     (Inl (ErrorCodeRegistrationInvalid code ''invalid severity'' None), r)
                 | Sev sv \<Rightarrow>
                     (case description of
                        PyStr d \<Rightarrow>
                          if d = []
                          then (Inl (ErrorCodeRegistrationInvalid code ''invalid description'' None), r)
                          else (let entry = \<lparr>ec_code = c, ec_severity = sv, ec_description = d\<rparr>
                                in (Inr entry, dict_set c entry r))
                      | _ \<Rightarrow> (Inl (ErrorCodeRegistrationInvalid code ''invalid description'' None), r)))
           | _ \<Rightarrow> (Inl (ErrorCodeRegistrationInvalid code ''invalid code'' None), r)))"

definition classify :: "error_registry \<Rightarrow> string \<Rightarrow> severity" where
  "classify r code = (case dict_get r code of None \<Rightarrow> TRANSIENT | Some entry \<Rightarrow> ec_severity entry)"

definition all_codes :: "error_registry \<Rightarrow> error_code list" where
  "all_codes r = dict_values r"

text \<open>The registrations a process performs, in the order the lock serialises them.\<close>

fun register_all ::
    "error_registry \<Rightarrow> (pyval \<times> severity_arg \<times> pyval) list \<Rightarrow> error_registry" where
  "register_all r [] = r"
| "register_all r ((c, s, d) # calls) = register_all (snd (register r c s d)) calls"

section \<open>Invariant\<close>

definition registry_ok :: "error_registry \<Rightarrow> bool" where
  "registry_ok r \<longleftrightarrow> dict_ok r \<and>
     (\<forall>(k, e) \<in> set r. k = ec_code e \<and> k \<noteq> [] \<and> ec_description e \<noteq> [])"

lemma register_cases:
  obtains (ok) c sv d where "code = PyStr c" "severity = Sev sv" "description = PyStr d"
      "c \<noteq> []" "d \<noteq> []" "map_of r c = None"
      "register r code severity description =
        (Inr \<lparr>ec_code = c, ec_severity = sv, ec_description = d\<rparr>,
         r @ [(c, \<lparr>ec_code = c, ec_severity = sv, ec_description = d\<rparr>)])"
  | (err) e where "register r code severity description = (Inl e, r)"
proof -
  have "(\<exists>e. register r code severity description = (Inl e, r)) \<or>
    (\<exists>c sv d. code = PyStr c \<and> severity = Sev sv \<and> description = PyStr d \<and> c \<noteq> [] \<and> d \<noteq> [] \<and>
       map_of r c = None)"
    by (auto simp: register_def codes_get_def Let_def
        split: option.splits if_splits pyval.splits severity_arg.splits)
  then show ?thesis
  proof (elim disjE exE conjE)
    fix e
    assume "register r code severity description = (Inl e, r)"
    then show ?thesis by (rule err)
  next
    fix c sv d
    assume h: "code = PyStr c" "severity = Sev sv" "description = PyStr d" "c \<noteq> []" "d \<noteq> []"
      "map_of r c = None"
    then show ?thesis
      by (intro ok [OF h]) (simp add: register_def codes_get_def Let_def dict_set_fresh)
  qed
qed

lemma registry_ok_empty: "registry_ok empty_registry"
  by (simp add: registry_ok_def empty_registry_def)

lemma registry_ok_register:
  assumes "registry_ok r"
  shows "registry_ok (snd (register r c s d))"
  using assms
  by (cases c s d r rule: register_cases) (auto simp: registry_ok_def map_of_eq_None_iff)

lemma register_extends: "\<exists>t. snd (register r c s d) = r @ t"
  by (cases c s d r rule: register_cases) auto

lemma registry_ok_register_all: "registry_ok r \<Longrightarrow> registry_ok (register_all r calls)"
  by (induction calls arbitrary: r) (auto simp: registry_ok_register)

lemma register_all_extends: "\<exists>t. register_all r calls = r @ t"
proof (induction calls arbitrary: r)
  case Nil
  then show ?case by simp
next
  case (Cons call calls)
  obtain c s d where call: "call = (c, s, d)" by (cases call)
  obtain t where t: "snd (register r c s d) = r @ t" using register_extends by blast
  obtain u where "register_all (r @ t) calls = (r @ t) @ u" using Cons.IH by blast
  with call t show ?case by simp
qed

lemma register_all_append:
  "register_all r (calls @ calls') = register_all (register_all r calls) calls'"
  by (induction calls arbitrary: r) auto

lemma register_all_lookup:
  "map_of r k = Some e \<Longrightarrow> map_of (register_all r calls) k = Some e"
proof -
  assume k: "map_of r k = Some e"
  obtain t where "register_all r calls = r @ t" using register_all_extends by blast
  with k show ?thesis by (simp add: map_add_def)
qed

section \<open>Properties\<close>

text \<open>
  A successful registration is permanent: whatever registrations follow, in whatever order
  the lock admits them, the code keeps the severity it was registered with, and every later
  attempt to register the same code is refused with the original entry and changes nothing.
\<close>

theorem registration_immutable:
  assumes "register r (PyStr c) s d = (Inr e, r')"
  shows "classify (register_all r' calls) c = ec_severity e \<and>
         register (register_all r' calls) (PyStr c) s2 d2 =
           (Inl (ErrorCodeRegistrationInvalid (PyStr c) ''duplicate registration'' (Some e)),
            register_all r' calls)"
proof -
  have "map_of r' c = Some e"
    using assms by (cases "PyStr c" s d r rule: register_cases) (auto simp: map_add_def)
  then have "map_of (register_all r' calls) c = Some e" by (rule register_all_lookup)
  then show ?thesis by (simp add: classify_def register_def codes_get_def)
qed

theorem registration_immutable_witness:
  "classify (register_all [(''E'', \<lparr>ec_code = ''E'', ec_severity = PERMANENT, ec_description = ''x''\<rparr>)]
      [(PyStr ''E'', Sev TRANSIENT, PyStr ''y'')]) ''E'' = PERMANENT"
  using registration_immutable [of "[]" "''E''" "Sev PERMANENT" "PyStr ''x''"
      "\<lparr>ec_code = ''E'', ec_severity = PERMANENT, ec_description = ''x''\<rparr>"
      "[(''E'', \<lparr>ec_code = ''E'', ec_severity = PERMANENT, ec_description = ''x''\<rparr>)]"
      "[(PyStr ''E'', Sev TRANSIENT, PyStr ''y'')]" NotSeverity PyNone]
  by (simp add: register_def codes_get_def Let_def)

text \<open>
  The registry reachable by any sequence of registrations is well formed (each code listed
  once, under its own name, with a description), the snapshot lists entries in registration
  order and only grows, and a code that is not listed is classified as transient.
\<close>

theorem registry_history:
  "registry_ok (register_all empty_registry calls) \<and>
   (\<exists>later. all_codes (register_all empty_registry (calls @ later_calls)) =
      all_codes (register_all empty_registry calls) @ later) \<and>
   classify (register_all empty_registry calls) c =
     (case find (\<lambda>e. ec_code e = c) (all_codes (register_all empty_registry calls)) of
        None \<Rightarrow> TRANSIENT | Some e \<Rightarrow> ec_severity e)"
proof -
  let ?r = "register_all empty_registry calls"
  have ok: "registry_ok ?r" by (intro registry_ok_register_all registry_ok_empty)
  have "register_all empty_registry (calls @ later_calls) = register_all ?r later_calls"
    by (rule register_all_append)
  then have grow: "\<exists>later. all_codes (register_all empty_registry (calls @ later_calls)) = all_codes ?r @ later"
    using register_all_extends [of ?r later_calls] by (auto simp: all_codes_def)
  have "map_of r c = find (\<lambda>e. ec_code e = c) (map snd r)"
    if "\<forall>(k, e) \<in> set r. k = ec_code e" for r :: error_registry
    using that by (induction r) auto
  with ok have "map_of ?r c = find (\<lambda>e. ec_code e = c) (all_codes ?r)"
    by (auto simp: registry_ok_def all_codes_def)
  with ok grow show ?thesis by (simp add: classify_def)
qed

end
