(* ===== verification/Identity.thy ===== *)
theory Identity
  imports Sha256 Errors
begin

text \<open>
  Document and chunk identity, \<open>src/vestibule/identity/derive.py\<close>. The arguments are \<open>pyval\<close>s
  because the functions test their dynamic type. The lemmas give the exact acceptance conditions,
  the shape of every identifier, and which pairs of inputs can share one.
\<close>

section \<open>Definitions\<close>

datatype identity_error = IdentityInvalid string string

abbreviation IDENTITY_INVALID :: string where
  "IDENTITY_INVALID \<equiv> ''IDENTITY_INVALID''"

definition validate_non_empty_str :: "pyval \<Rightarrow> string \<Rightarrow> identity_error + string" where
  "validate_non_empty_str v field_name = (case v of
       PyStr s \<Rightarrow> if s = [] then Inl (IdentityInvalid field_name ''empty string'') else Inr s
     | _ \<Rightarrow> Inl (IdentityInvalid field_name ''not a string''))"

definition validate_chunk_index :: "pyval \<Rightarrow> identity_error + int" where
  "validate_chunk_index v = (case v of
       PyInt i \<Rightarrow> if i < 0 then Inl (IdentityInvalid ''chunk_index'' ''negative int'') else Inr i
     | _ \<Rightarrow> Inl (IdentityInvalid ''chunk_index'' ''not an int''))"

definition validate_id_format :: "pyval \<Rightarrow> string \<Rightarrow> identity_error + string" where
  "validate_id_format v field_name = (case v of
       PyStr s \<Rightarrow> if dollar_match hex64 s then Inr s
                  else Inl (IdentityInvalid field_name ''not 64 hex chars'')
     | _ \<Rightarrow> Inl (IdentityInvalid field_name ''not a string''))"

definition derive_doc_id :: "pyval \<Rightarrow> pyval \<Rightarrow> identity_error + string" where
  "derive_doc_id source blob_path =
     bind_res (validate_non_empty_str source ''source'') (\<lambda>s.
     bind_res (validate_non_empty_str blob_path ''blob_path'') (\<lambda>p.
       Inr (sha256_hexdigest (utf8_encode (s @ p)))))"

definition derive_chunk_id :: "pyval \<Rightarrow> pyval \<Rightarrow> identity_error + string" where
  "derive_chunk_id doc_id chunk_index =
     bind_res (validate_id_format doc_id ''doc_id'') (\<lambda>d.
     bind_res (validate_chunk_index chunk_index) (\<lambda>i.
       Inr (sha256_hexdigest (utf8_encode (d @ str_int i)))))"

fun derive_chunk_ids_loop ::
    "pyval \<Rightarrow> (int, string) dict \<Rightarrow> pyval list \<Rightarrow> identity_error + (int, string) dict" where
  "derive_chunk_ids_loop doc_id result [] = Inr result"
| "derive_chunk_ids_loop doc_id result (chunk_index # rest) =
     (case derive_chunk_id doc_id chunk_index of
        Inl e \<Rightarrow> Inl e
      | Inr c \<Rightarrow> (case chunk_index of
            PyInt i \<Rightarrow> derive_chunk_ids_loop doc_id (dict_set i c result) rest
          | _ \<Rightarrow> Inr result))"

definition derive_chunk_ids_batch ::
    "pyval \<Rightarrow> pyval list \<Rightarrow> identity_error + (int, string) dict" where
  "derive_chunk_ids_batch doc_id chunk_indices = derive_chunk_ids_loop doc_id [] chunk_indices"

section \<open>Acceptance\<close>

abbreviation valid_id :: "string \<Rightarrow> bool" where
  "valid_id s \<equiv> dollar_match hex64 s"

lemma dollar_match_full [simp, intro]: "full s \<Longrightarrow> dollar_match full s"
  by (simp add: dollar_match_def)

lemma valid_id_cases:
  assumes "valid_id s"
  obtains "hex64 s" | t where "s = t @ [CHR 0x0A]" "hex64 t"
  using assms by (auto simp: dollar_match_def) (metis append_butlast_last_id)

lemma validate_id_format_str [simp]:
  "validate_id_format (PyStr s) f =
     (if valid_id s then Inr s else Inl (IdentityInvalid f ''not 64 hex chars''))"
  by (simp add: validate_id_format_def)

lemma validate_id_format_Inr [simp]:
  "validate_id_format v f = Inr d \<longleftrightarrow> v = PyStr d \<and> valid_id d"
  by (cases v) (auto simp: validate_id_format_def)

lemma validate_non_empty_str_Inr [simp]:
  "validate_non_empty_str v f = Inr s \<longleftrightarrow> v = PyStr s \<and> s \<noteq> []"
  by (cases v) (auto simp: validate_non_empty_str_def)

lemma validate_chunk_index_Inr [simp]:
  "validate_chunk_index v = Inr i \<longleftrightarrow> v = PyInt i \<and> 0 \<le> i"
  by (cases v) (auto simp: validate_chunk_index_def)

lemma derive_chunk_id_Inr:
  "derive_chunk_id doc_id ci = Inr c \<longleftrightarrow>
     (\<exists>d i. doc_id = PyStr d \<and> ci = PyInt i \<and> valid_id d \<and> 0 \<le> i \<and>
            c = sha256_hexdigest (utf8_encode (d @ str_int i)))"
  by (auto simp: derive_chunk_id_def)

text \<open>An identifier for concrete instances.\<close>

definition demo_id :: string where
  "demo_id = replicate 64 (CHR ''a'')"

lemma valid_demo_id [simp]: "valid_id demo_id"
  by (simp add: demo_id_def hex64_def is_lower_hex_def list_all_iff less_eq_char_def)

section \<open>Encodings are unambiguous\<close>

lemma utf8_char_decode:
  "utf8_char c @ xs = utf8_char d @ ys \<Longrightarrow> c = d \<and> xs = ys"
proof -
  assume eq: "utf8_char c @ xs = utf8_char d @ ys"
  have bound: "0 \<le> (of_char x :: int) \<and> (of_char x :: int) < 256" for x
    by (metis of_char_eq_iff of_nat_0_le_iff of_nat_less_numeral_iff of_nat_of_char nat_of_char_less_256)
  have "(of_char c :: int) = of_char d \<and> xs = ys"
    using eq bound [of c] bound [of d]
    by (auto simp: utf8_char_def Let_def simp del: of_char_eq_iff split: if_splits)
      (metis div_mult_mod_eq)
  then show ?thesis by (simp add: of_char_eq_iff)
qed

lemma utf8_encode_inj: "utf8_encode s = utf8_encode t \<longleftrightarrow> s = t"
proof
  show "utf8_encode s = utf8_encode t \<Longrightarrow> s = t"
  proof (induction s arbitrary: t)
    case Nil
    then show ?case
      by (cases t) (auto simp: utf8_encode_def utf8_char_def Let_def split: if_splits)
  next
    case (Cons c s)
    then obtain d t' where t: "t = d # t'"
      by (cases t) (auto simp: utf8_encode_def utf8_char_def Let_def split: if_splits)
    with Cons.prems have "utf8_char c @ utf8_encode s = utf8_char d @ utf8_encode t'"
      by (simp add: utf8_encode_def)
    with utf8_char_decode Cons.IH t show ?case by blast
  qed
qed simp

lemma not_digit_newline: "\<not> is_digit (CHR 0x0A)"
  by (simp add: is_digit_def less_eq_char_def)

text \<open>
  The text hashed for a chunk determines the document and the index: an accepted identifier is 64
  hexadecimal characters, possibly followed by a newline, and the index is written in digits.
\<close>

lemma chunk_text_inj:
  assumes d: "valid_id d" "valid_id d'" and i: "0 \<le> i" "0 \<le> j"
    and eq: "d @ str_int i = d' @ str_int j"
  shows "d = d' \<and> i = j"
proof -
  have digit: "is_digit c" if "c \<in> set (str_int i) \<union> set (str_int j)" for c
    using that str_int_digits i by auto
  have clash: False if "t @ (CHR 0x0A) # str_int a = t' @ str_int b"
    and "hex64 t" "hex64 t'" and "\<forall>c \<in> set (str_int b). is_digit c" for t t' a b
  proof -
    from that(2,3) have "length t = length t'" by (simp add: hex64_def)
    with that(1) have "(CHR 0x0A) # str_int a = str_int b" by simp
    with that(4) have "is_digit (CHR 0x0A)" by (metis list.set_intros(1))
    with not_digit_newline show False by simp
  qed
  have len: "length t = 64" if "hex64 t" for t using that by (simp add: hex64_def)
  from d(1) show ?thesis
  proof (cases rule: valid_id_cases)
    case 1
    from d(2) show ?thesis
    proof (cases rule: valid_id_cases)
      case 1
      with \<open>hex64 d\<close> eq len show ?thesis by (simp add: str_int_inj)
    next
      case (2 t')
      with eq \<open>hex64 d\<close> clash [of t' j d i] digit show ?thesis by (auto simp: eq_commute)
    qed
  next
    case (2 t)
    from d(2) show ?thesis
    proof (cases rule: valid_id_cases)
      case 1
      with eq 2 clash [of t i d' j] digit show ?thesis by auto
    next
      case (2 t')
      with eq \<open>d = t @ [CHR 0x0A]\<close> \<open>hex64 t\<close> len show ?thesis by (simp add: str_int_inj)
    qed
  qed
qed

section \<open>The batch helper\<close>

lemma derive_chunk_ids_loop_ok:
  assumes "valid_id d" and "\<forall>v \<in> set vs. \<exists>i. v = PyInt i \<and> 0 \<le> i"
  shows "\<exists>m. derive_chunk_ids_loop (PyStr d) acc vs = Inr m \<and>
     map_of m = (\<lambda>i. if PyInt i \<in> set vs
        then Some (sha256_hexdigest (utf8_encode (d @ str_int i))) else map_of acc i)"
  using assms(2)
proof (induction vs arbitrary: acc)
  case Nil
  then show ?case by simp
next
  case (Cons v vs)
  then obtain i where v: "v = PyInt i" "0 \<le> i" by auto
  let ?c = "sha256_hexdigest (utf8_encode (d @ str_int i))"
  have "derive_chunk_id (PyStr d) v = Inr ?c"
    using assms(1) v by (simp add: derive_chunk_id_Inr)
  with Cons.IH [of "dict_set i ?c acc"] Cons.prems v show ?case
    by (auto simp: fun_eq_iff)
qed

lemma derive_chunk_ids_loop_err:
  "derive_chunk_id doc_id v = Inl e \<Longrightarrow> \<forall>u \<in> set us. \<exists>c. derive_chunk_id doc_id u = Inr c \<Longrightarrow>
   derive_chunk_ids_loop doc_id acc (us @ v # vs) = Inl e"
proof (induction us arbitrary: acc)
  case Nil
  then show ?case by simp
next
  case (Cons u us)
  then obtain c where c: "derive_chunk_id doc_id u = Inr c" by auto
  then obtain i where "u = PyInt i" by (auto simp: derive_chunk_id_Inr)
  with c Cons show ?case by simp
qed

section \<open>Properties\<close>

text \<open>
  Identifiers compose: \<open>derive_doc_id\<close> succeeds exactly on two non-empty strings, its result is
  64 lower-case hexadecimal characters, so it passes \<open>validate_id_format\<close>, and every non-negative
  chunk index derives a chunk identifier of the same shape from it.
\<close>

theorem derived_ids_well_formed:
  "((\<exists>d. derive_doc_id source blob_path = Inr d) \<longleftrightarrow>
      (\<exists>s p. source = PyStr s \<and> blob_path = PyStr p \<and> s \<noteq> [] \<and> p \<noteq> [])) \<and>
   (derive_doc_id source blob_path = Inr d \<longrightarrow>
      hex64 d \<and> validate_id_format (PyStr d) f = Inr d \<and>
      (0 \<le> i \<longrightarrow> (\<exists>c. derive_chunk_id (PyStr d) (PyInt i) = Inr c \<and> hex64 c)))"
  by (auto simp: derive_doc_id_def derive_chunk_id_Inr sha256_hexdigest_hex64)

theorem derived_ids_well_formed_witness:
  "\<exists>d c. derive_doc_id (PyStr ''blob:hr'') (PyStr ''a.pdf'') = Inr d \<and> hex64 d \<and>
     derive_chunk_id (PyStr d) (PyInt 0) = Inr c \<and> hex64 c"
proof -
  let ?s = "PyStr ''blob:hr''" and ?p = "PyStr ''a.pdf''"
  have "\<exists>d. derive_doc_id ?s ?p = Inr d"
    by (rule derived_ids_well_formed [THEN conjunct1, THEN iffD2]) simp
  then obtain d where d: "derive_doc_id ?s ?p = Inr d" ..
  from derived_ids_well_formed [THEN conjunct2, THEN mp, OF d]
  have "hex64 d \<and> ((0::int) \<le> 0 \<longrightarrow> (\<exists>c. derive_chunk_id (PyStr d) (PyInt 0) = Inr c \<and> hex64 c))"
    by iprover
  with d show ?thesis by auto
qed

text \<open>
  Distinct chunks get distinct identifiers: two accepted (document, index) pairs with the same
  chunk identifier are the same pair, unless their two distinct texts are a SHA-256 collision.
\<close>

theorem chunk_id_injective:
  assumes "derive_chunk_id (PyStr d) (PyInt i) = Inr c"
    and "derive_chunk_id (PyStr d') (PyInt j) = Inr c"
    and "inj_on sha256_hexdigest {utf8_encode (d @ str_int i), utf8_encode (d' @ str_int j)}"
  shows "d = d' \<and> i = j"
proof -
  from assms(1,2) have "sha256_hexdigest (utf8_encode (d @ str_int i)) =
      sha256_hexdigest (utf8_encode (d' @ str_int j))"
    by (simp add: derive_chunk_id_Inr)
  then have "utf8_encode (d @ str_int i) = utf8_encode (d' @ str_int j)"
    by (rule inj_onD [OF assms(3)]) simp_all
  then have "d @ str_int i = d' @ str_int j" by (simp only: utf8_encode_inj)
  with assms(1,2) show ?thesis by (intro chunk_text_inj) (simp_all add: derive_chunk_id_Inr)
qed

theorem chunk_id_injective_witness:
  "(replicate 64 (CHR ''0'') = replicate 64 (CHR ''0'') \<and> (7::int) = 7) \<and>
   (\<exists>c. derive_chunk_id (PyStr (replicate 64 (CHR ''0''))) (PyInt 7) = Inr c)"
proof -
  let ?d = "replicate 64 (CHR ''0'')"
  have "hex64 ?d" by (simp add: hex64_def is_lower_hex_def list_all_iff)
  then have "derive_chunk_id (PyStr ?d) (PyInt 7) =
      Inr (sha256_hexdigest (utf8_encode (?d @ str_int 7)))"
    by (simp add: derive_chunk_id_Inr)
  from this chunk_id_injective [OF this this] show ?thesis by auto
qed

text \<open>
  The batch helper is all or nothing and agrees with the single calls: on valid indices it
  returns exactly one entry per distinct index, the value the single call gives; and if some index
  is refused, the whole call raises the exception of the first refused one.
\<close>

theorem chunk_ids_batch_correct:
  "(valid_id d \<longrightarrow> (\<forall>v \<in> set vs. \<exists>i. v = PyInt i \<and> 0 \<le> i) \<longrightarrow>
     (\<exists>m. derive_chunk_ids_batch (PyStr d) vs = Inr m \<and>
        (\<forall>i. map_of m i = (if PyInt i \<in> set vs
           then Some (projr (derive_chunk_id (PyStr d) (PyInt i))) else None)))) \<and>
   (derive_chunk_id doc_id v = Inl e \<longrightarrow> (\<forall>u \<in> set us. \<exists>c. derive_chunk_id doc_id u = Inr c) \<longrightarrow>
     derive_chunk_ids_batch doc_id (us @ v # ws) = Inl e)"
proof (intro conjI impI)
  assume d: "valid_id d" and vs: "\<forall>v \<in> set vs. \<exists>i. v = PyInt i \<and> 0 \<le> i"
  have one: "derive_chunk_id (PyStr d) (PyInt i) = Inr (sha256_hexdigest (utf8_encode (d @ str_int i)))"
    if "PyInt i \<in> set vs" for i
    using that vs d by (auto simp: derive_chunk_id_Inr)
  from derive_chunk_ids_loop_ok [OF d vs, of "[]"]
  show "\<exists>m. derive_chunk_ids_batch (PyStr d) vs = Inr m \<and>
        (\<forall>i. map_of m i = (if PyInt i \<in> set vs
           then Some (projr (derive_chunk_id (PyStr d) (PyInt i))) else None))"
    using one by (auto simp: derive_chunk_ids_batch_def)
next
  assume "derive_chunk_id doc_id v = Inl e" "\<forall>u \<in> set us. \<exists>c. derive_chunk_id doc_id u = Inr c"
  then show "derive_chunk_ids_batch doc_id (us @ v # ws) = Inl e"
    by (simp add: derive_chunk_ids_batch_def derive_chunk_ids_loop_err)
qed

theorem chunk_ids_batch_correct_witness:
  "derive_chunk_ids_batch PyNone ([] @ PyInt 3 # [PyInt 4]) =
     Inl (IdentityInvalid ''doc_id'' ''not a string'')"
  using chunk_ids_batch_correct [of "[]" "[]" PyNone "PyInt 3"
      "IdentityInvalid ''doc_id'' ''not a string''" "[]" "[PyInt 4]"]
  by (simp add: derive_chunk_id_def validate_id_format_def)

text \<open>
  The identifier of a document does not separate its two parts: moving characters from the
  end of the source to the front of the path, with both parts kept non-empty, gives the same
  \<open>doc_id\<close>, although the two documents are different.
\<close>

theorem doc_id_boundary_collision:
  assumes "s \<noteq> []" and "p \<noteq> []"
  shows "derive_doc_id (PyStr (s @ t)) (PyStr p) = derive_doc_id (PyStr s) (PyStr (t @ p))"
  using assms by (simp add: derive_doc_id_def validate_non_empty_str_def)

theorem doc_id_boundary_collision_witness:
  "derive_doc_id (PyStr ''blob:hr'') (PyStr ''x.pdf'') = derive_doc_id (PyStr ''blob:h'') (PyStr ''rx.pdf'')"
  using doc_id_boundary_collision [of "''blob:h''" "''x.pdf''" "''r''"] by simp

text \<open>
  What \<open>validate_id_format\<close> accepts is exactly a string of 64 lower-case hexadecimal
  characters, or such a string followed by one newline: the pattern's end anchor lets a
  65-character value through.
\<close>

theorem validate_id_format_accepts:
  "validate_id_format v f = Inr s \<longleftrightarrow>
     v = PyStr s \<and> (hex64 s \<or> (\<exists>t. s = t @ [CHR 0x0A] \<and> hex64 t))"
proof -
  have "(s \<noteq> [] \<and> last s = CHR 0x0A \<and> hex64 (butlast s)) \<longleftrightarrow> (\<exists>t. s = t @ [CHR 0x0A] \<and> hex64 t)"
    by (metis append_butlast_last_id butlast_snoc last_snoc snoc_eq_iff_butlast)
  then show ?thesis by (simp add: dollar_match_def)
qed

end
