(* ===== verification/Envelope.thy ===== *)
theory Envelope
  imports Identity
begin

text \<open>
  The arrival envelope, \<open>src/vestibule/envelope/model.py\<close>: the validators of \<open>ArrivalEnvelope\<close>,
  the producer's factory and the queue codec. What pydantic and the JSON reader contribute is a
  parameter: \<open>err_msg\<close> renders the text of a \<open>ValueError\<close> raised by a validator, \<open>decode\<close> reads
  and coerces a message into typed fields (or reports a malformed message or ill-typed fields),
  \<open>dump\<close> is \<open>model_dump_json\<close>. Field validators run on every field and their errors are collected
  in field order; the model validator runs only when there were none.
\<close>

section \<open>Definitions\<close>

datatype trust_tier = PUBLIC | INTERNAL | CONFIDENTIAL | RESTRICTED

record arrival_envelope =
  ae_doc_id :: string
  ae_source :: string
  ae_blob_path :: string
  ae_vertical :: "string option"
  ae_scenario_id :: "string option"
  ae_allowed_groups :: "string list"
  ae_trust_tier :: trust_tier
  ae_content_hash :: string
  ae_received_at :: datetime

type_synonym field_error = "string \<times> string"

datatype envelope_exn =
  EnvelopeValidationError "field_error list"
| EscapedIdentityInvalid identity_error

definition compute_doc_id :: "pyval \<Rightarrow> pyval \<Rightarrow> identity_error + string" where
  "compute_doc_id source blob_path = derive_doc_id source blob_path"

definition content_hash_is_sha256_hex :: "string \<Rightarrow> string option" where
  "content_hash_is_sha256_hex v =
     (if dollar_match hex64 v then None
      else Some ''content_hash must be 64 lowercase hex characters'')"

definition non_empty :: "string \<Rightarrow> string option" where
  "non_empty v = (if v = [] then Some ''must be non-empty'' else None)"

definition field_check :: "(string \<Rightarrow> string) \<Rightarrow> string \<Rightarrow> string option \<Rightarrow> field_error list" where
  "field_check err_msg field problem = (case problem of None \<Rightarrow> [] | Some m \<Rightarrow> [(field, err_msg m)])"

definition verify_doc_id :: "arrival_envelope \<Rightarrow> identity_error + string option" where
  "verify_doc_id e = (case compute_doc_id (PyStr (ae_source e)) (PyStr (ae_blob_path e)) of
       Inl x \<Rightarrow> Inl x
     | Inr expected \<Rightarrow> Inr (if ae_doc_id e \<noteq> expected
         then Some (''doc_id does not match sha256(source + blob_path); expected '' @ expected) else None))"

text \<open>\<open>ArrivalEnvelope(...)\<close> on fields of the declared types, its \<open>ValidationError\<close> wrapped.\<close>

definition make_envelope ::
    "(string \<Rightarrow> string) \<Rightarrow> arrival_envelope \<Rightarrow> envelope_exn + arrival_envelope" where
  "make_envelope err_msg e =
     (let errors = field_check err_msg ''source'' (non_empty (ae_source e)) @
                   field_check err_msg ''blob_path'' (non_empty (ae_blob_path e)) @
                   field_check err_msg ''content_hash'' (content_hash_is_sha256_hex (ae_content_hash e))
      in if errors \<noteq> [] then Inl (EnvelopeValidationError errors)
         else case verify_doc_id e of
           Inl x \<Rightarrow> Inl (EscapedIdentityInvalid x)
         | Inr (Some m) \<Rightarrow> Inl (EnvelopeValidationError [(''__root__'', err_msg m)])
         | Inr None \<Rightarrow> Inr e)"

definition wrap_identity_error :: "identity_error \<Rightarrow> envelope_exn" where
  "wrap_identity_error x = (case x of IdentityInvalid field_name reason \<Rightarrow>
     EnvelopeValidationError [(field_name, reason)])"

definition build_envelope ::
    "(string \<Rightarrow> string) \<Rightarrow> datetime \<Rightarrow> pyval \<Rightarrow> pyval \<Rightarrow> string \<Rightarrow> trust_tier \<Rightarrow> string list option \<Rightarrow>
     string option \<Rightarrow> string option \<Rightarrow> datetime option \<Rightarrow> envelope_exn + arrival_envelope" where
  "build_envelope err_msg now source blob_path content_hash tier allowed_groups vertical scenario_id received_at =
     (case compute_doc_id source blob_path of
        Inl x \<Rightarrow> Inl (wrap_identity_error x)
      | Inr doc_id \<Rightarrow>
          (case (source, blob_path) of
             (PyStr s, PyStr p) \<Rightarrow>
               make_envelope err_msg
                 \<lparr>ae_doc_id = doc_id, ae_source = s, ae_blob_path = p, ae_vertical = vertical,
                  ae_scenario_id = scenario_id,
                  ae_allowed_groups = (case allowed_groups of None \<Rightarrow> [] | Some g \<Rightarrow> g),
                  ae_trust_tier = tier, ae_content_hash = content_hash,
                  ae_received_at = (case received_at of None \<Rightarrow> now | Some t \<Rightarrow> t)\<rparr>
           | _ \<Rightarrow> Inl (EnvelopeValidationError [])))"

definition envelope_to_json :: "(arrival_envelope \<Rightarrow> string) \<Rightarrow> arrival_envelope \<Rightarrow> string" where
  "envelope_to_json dump e = dump e"

definition envelope_from_json ::
    "(string \<Rightarrow> string) \<Rightarrow> (string \<Rightarrow> field_error list + arrival_envelope) \<Rightarrow> string \<Rightarrow>
     envelope_exn + arrival_envelope" where
  "envelope_from_json err_msg decode raw = (case decode raw of
       Inl errors \<Rightarrow> Inl (EnvelopeValidationError errors)
     | Inr e \<Rightarrow> make_envelope err_msg e)"

section \<open>Lemmas\<close>

definition envelope_ok :: "arrival_envelope \<Rightarrow> bool" where
  "envelope_ok e \<longleftrightarrow> ae_source e \<noteq> [] \<and> ae_blob_path e \<noteq> [] \<and> dollar_match hex64 (ae_content_hash e) \<and>
     derive_doc_id (PyStr (ae_source e)) (PyStr (ae_blob_path e)) = Inr (ae_doc_id e)"

lemmas envelope_check_defs = make_envelope_def field_check_def non_empty_def
  content_hash_is_sha256_hex_def verify_doc_id_def compute_doc_id_def Let_def

lemma derive_doc_id_total:
  "s \<noteq> [] \<Longrightarrow> p \<noteq> [] \<Longrightarrow>
   derive_doc_id (PyStr s) (PyStr p) = Inr (sha256_hexdigest (utf8_encode (s @ p)))"
  by (simp add: derive_doc_id_def validate_non_empty_str_def)

lemma make_envelope_Inr: "make_envelope m e = Inr e' \<longleftrightarrow> e' = e \<and> envelope_ok e"
  by (auto simp: envelope_check_defs envelope_ok_def derive_doc_id_total split: sum.splits option.splits)

lemma make_envelope_Inl:
  "make_envelope m e = Inl x \<Longrightarrow> \<exists>errors. x = EnvelopeValidationError errors \<and> errors \<noteq> []"
  by (auto simp: envelope_check_defs derive_doc_id_total split: if_splits sum.splits option.splits)

lemma validate_non_empty_str_Inl:
  "validate_non_empty_str v f = Inl x \<Longrightarrow> \<exists>r. x = IdentityInvalid f r"
  by (auto simp: validate_non_empty_str_def split: pyval.splits if_splits)

section \<open>Properties\<close>

text \<open>
  Every envelope the producer's factory returns is bound to its document: its \<open>doc_id\<close> is the
  digest of its own source and path, the content hash has passed the hexadecimal check, access is
  denied by default when no groups are given, and the factory accepts exactly the non-empty
  source and path with such a content hash.
\<close>

theorem build_envelope_correct:
  "build_envelope m now source blob_path ch tier groups vert scen recv = Inr e \<longleftrightarrow>
     (\<exists>s p. source = PyStr s \<and> blob_path = PyStr p \<and> s \<noteq> [] \<and> p \<noteq> [] \<and> dollar_match hex64 ch \<and>
        e = \<lparr>ae_doc_id = sha256_hexdigest (utf8_encode (s @ p)), ae_source = s, ae_blob_path = p,
             ae_vertical = vert, ae_scenario_id = scen,
             ae_allowed_groups = (if groups = None then [] else the groups),
             ae_trust_tier = tier, ae_content_hash = ch,
             ae_received_at = (if recv = None then now else the recv)\<rparr>)"
  by (cases source; cases blob_path)
    (auto simp: build_envelope_def compute_doc_id_def make_envelope_Inr envelope_ok_def derive_doc_id_def
      validate_non_empty_str_def wrap_identity_error_def
      split: sum.splits if_splits option.splits identity_error.splits)

text \<open>
  Every refusal of the factory and of the queue reader is an \<open>EnvelopeValidationError\<close>: the
  identity module's own exception never escapes, whatever the arguments.
\<close>

theorem envelope_errors_closed:
  "(build_envelope m now source blob_path ch tier groups vert scen recv = Inl x \<longrightarrow>
      (\<exists>errors. x = EnvelopeValidationError errors \<and> errors \<noteq> [])) \<and>
   (envelope_from_json m decode raw = Inl y \<longrightarrow> (\<exists>errors. y = EnvelopeValidationError errors))"
proof (intro conjI impI)
  assume fail: "build_envelope m now source blob_path ch tier groups vert scen recv = Inl x"
  show "\<exists>errors. x = EnvelopeValidationError errors \<and> errors \<noteq> []"
  proof (cases "compute_doc_id source blob_path")
    case (Inl e)
    with fail show ?thesis
      by (cases e) (auto simp: build_envelope_def wrap_identity_error_def)
  next
    case (Inr d)
    then obtain s p where "source = PyStr s" "blob_path = PyStr p"
      by (auto simp: compute_doc_id_def derive_doc_id_def)
    with fail Inr show ?thesis
      by (auto simp: build_envelope_def dest: make_envelope_Inl)
  qed
next
  assume "envelope_from_json m decode raw = Inl y"
  then show "\<exists>errors. y = EnvelopeValidationError errors"
    by (auto simp: envelope_from_json_def split: sum.splits dest: make_envelope_Inl)
qed

theorem envelope_errors_closed_witness:
  "\<exists>errors. EnvelopeValidationError [(''source'', ''not a string'')] = EnvelopeValidationError errors \<and> errors \<noteq> []"
  using envelope_errors_closed [of id 0 PyNone "PyStr ''p''" "[]" PUBLIC None None None None
      "EnvelopeValidationError [(''source'', ''not a string'')]"]
  by (simp add: build_envelope_def compute_doc_id_def derive_doc_id_def validate_non_empty_str_def
      wrap_identity_error_def)

text \<open>
  The queue reader re-checks what it reads: a message is accepted exactly when its fields
  decode, source and path are non-empty, the content hash passes, and the carried \<open>doc_id\<close> is the
  digest of the carried source and path; so a message whose \<open>doc_id\<close> was replaced is refused.
\<close>

theorem envelope_from_json_correct:
  "envelope_from_json m decode raw = Inr e \<longleftrightarrow>
     decode raw = Inr e \<and> ae_source e \<noteq> [] \<and> ae_blob_path e \<noteq> [] \<and> dollar_match hex64 (ae_content_hash e) \<and>
     ae_doc_id e = sha256_hexdigest (utf8_encode (ae_source e @ ae_blob_path e))"
  by (cases "decode raw")
    (auto simp: envelope_from_json_def make_envelope_Inr envelope_ok_def derive_doc_id_total)



end
