(* ===== verification/Ledger.thy ===== *)
theory Ledger
  imports Identity "HOL-Library.Sublist"
begin

text \<open>
  The state ledger, \<open>src/vestibule/ledger/store.py\<close>: the status machine and its transition table,
  \<open>validate_transition\<close>, the triage of lost races, and \<open>InMemoryLedgerStore\<close>. Every method of the
  store runs under one lock, so a method call is one atomic step and a concurrent execution is a
  sequence of calls. \<open>datetime.now\<close> is the argument \<open>now\<close>.

  The lemmas refine the table to an abstract status machine, show what every reachable store
  satisfies, and describe how one row can evolve over any sequence of calls.
\<close>

section \<open>Statuses and tables\<close>

datatype status =
  PENDING | ANALYZING | CHUNKING | EMBEDDING | INDEXING | INDEXED | FAILED | NEEDS_REVIEW | ARCHIVED

instantiation status :: enum
begin

definition enum_status :: "status list" where
  "enum_status = [PENDING, ANALYZING, CHUNKING, EMBEDDING, INDEXING, INDEXED, FAILED,
     NEEDS_REVIEW, ARCHIVED]"

definition enum_all_status :: "(status \<Rightarrow> bool) \<Rightarrow> bool" where
  "enum_all_status P \<longleftrightarrow> list_all P enum_class.enum"

definition enum_ex_status :: "(status \<Rightarrow> bool) \<Rightarrow> bool" where
  "enum_ex_status P \<longleftrightarrow> list_ex P enum_class.enum"

instance
proof
  have all: "x \<in> set (enum_class.enum :: status list)" for x
    by (cases x) (simp_all add: enum_status_def)
  show univ: "UNIV = set (enum_class.enum :: status list)" using all by auto
  show "distinct (enum_class.enum :: status list)" by (simp add: enum_status_def)
  show "enum_class.enum_all P \<longleftrightarrow> Ball UNIV P" for P :: "status \<Rightarrow> bool"
    by (simp add: enum_all_status_def list_all_iff univ)
  show "enum_class.enum_ex P \<longleftrightarrow> Bex UNIV P" for P :: "status \<Rightarrow> bool"
    by (simp add: enum_ex_status_def list_ex_iff univ)
qed

end

fun status_value :: "status \<Rightarrow> string" where
  "status_value PENDING = ''pending''"
| "status_value ANALYZING = ''analyzing''"
| "status_value CHUNKING = ''chunking''"
| "status_value EMBEDDING = ''embedding''"
| "status_value INDEXING = ''indexing''"
| "status_value INDEXED = ''indexed''"
| "status_value FAILED = ''failed''"
| "status_value NEEDS_REVIEW = ''needs_review''"
| "status_value ARCHIVED = ''archived''"

definition terminal_statuses :: "status set" where
  "terminal_statuses = {INDEXED, FAILED, ARCHIVED}"

fun legal_transitions :: "status \<Rightarrow> status set" where
  "legal_transitions PENDING = {ANALYZING, FAILED, NEEDS_REVIEW}"
| "legal_transitions ANALYZING = {CHUNKING, FAILED}"
| "legal_transitions CHUNKING = {EMBEDDING, FAILED}"
| "legal_transitions EMBEDDING = {INDEXING, FAILED}"
| "legal_transitions INDEXING = {INDEXED, FAILED}"
| "legal_transitions INDEXED = {}"
| "legal_transitions FAILED = {PENDING, ARCHIVED}"
| "legal_transitions NEEDS_REVIEW = {PENDING, FAILED}"
| "legal_transitions ARCHIVED = {}"

definition forward_order :: "status list" where
  "forward_order = [PENDING, ANALYZING, CHUNKING, EMBEDDING, INDEXING, INDEXED]"

section \<open>Rows and exceptions\<close>

record ledger_row =
  lr_doc_id :: string
  lr_status :: status
  lr_stage :: status
  lr_attempts :: int
  lr_last_error_code :: "string option"
  lr_last_error_message :: "string option"
  lr_config_version :: string
  lr_ingested_at :: datetime
  lr_updated_at :: datetime
  lr_assigned_scenario_id :: "string option"

record envelope_summary =
  es_config_version :: string

record transition_invalid =
  ti_doc_id :: string
  ti_reason :: string
  ti_observed_row :: "ledger_row option"
  ti_attempted_to_status :: status
  ti_attempted_stage :: status

datatype ledger_exn =
  LedgerIdentityInvalid identity_error
| LedgerTransitionInvalid transition_invalid

section \<open>Triage of a lost race\<close>

text \<open>\<open>_FORWARD_ORDER.index(x)\<close>: \<open>None\<close> stands for the \<open>ValueError\<close> of an absent element.\<close>

fun tuple_index :: "'a list \<Rightarrow> 'a \<Rightarrow> nat option" where
  "tuple_index [] x = None"
| "tuple_index (y # ys) x = (if y = x then Some 0 else map_option Suc (tuple_index ys x))"

definition is_benign_concurrent_loss ::
    "ledger_row option \<Rightarrow> status \<Rightarrow> status \<Rightarrow> bool option" where
  "is_benign_concurrent_loss observed_row attempted_to_status attempted_stage =
     (if attempted_stage \<noteq> attempted_to_status then Some False
      else case observed_row of
        None \<Rightarrow> Some False
      | Some row \<Rightarrow>
          if lr_status row \<noteq> lr_stage row then Some False
          else if attempted_to_status = FAILED then Some (lr_status row = INDEXED)
          else if lr_status row = FAILED then Some False
          else if attempted_to_status = NEEDS_REVIEW then Some (lr_status row \<noteq> PENDING)
          else if lr_status row = NEEDS_REVIEW then Some False
          else if attempted_to_status = ARCHIVED then Some (lr_status row = ARCHIVED)
          else if lr_status row = ARCHIVED then Some False
          else (case (tuple_index forward_order (lr_status row),
                      tuple_index forward_order attempted_to_status) of
                  (Some i, Some j) \<Rightarrow> Some (j \<le> i)
                | _ \<Rightarrow> None))"

section \<open>Legality\<close>

definition reject ::
    "string \<Rightarrow> string \<Rightarrow> ledger_row option \<Rightarrow> status \<Rightarrow> status \<Rightarrow> ledger_exn" where
  "reject doc_id reason observed_row to_status stage =
     LedgerTransitionInvalid \<lparr>ti_doc_id = doc_id, ti_reason = reason, ti_observed_row = observed_row,
       ti_attempted_to_status = to_status, ti_attempted_stage = stage\<rparr>"

definition validate_transition ::
    "string \<Rightarrow> ledger_row option \<Rightarrow> status \<Rightarrow> status \<Rightarrow> string option \<Rightarrow> ledger_exn + unit" where
  "validate_transition doc_id current to_status stage error_code =
     (case current of
        None \<Rightarrow> Inl (reject doc_id ''unknown doc_id'' None to_status stage)
      | Some row \<Rightarrow>
          if stage \<noteq> to_status
          then Inl (reject doc_id ''stage must equal to_status'' current to_status stage)
          else if lr_status row \<in> terminal_statuses \<and> to_status \<notin> legal_transitions (lr_status row)
          then Inl (reject doc_id ''no transitions out of terminal status'' current to_status stage)
          else if \<not> (to_status \<in> legal_transitions (lr_status row) \<or> to_status = lr_status row)
          then Inl (reject doc_id
                 (''illegal transition from '' @ status_value (lr_status row) @ '' to '' @
                  status_value to_status) current to_status stage)
          else if to_status = FAILED \<and> error_code = None
          then Inl (reject doc_id ''error_code required for failed transition'' current to_status stage)
          else Inr ())"

section \<open>Field updates\<close>

definition next_attempts :: "ledger_row \<Rightarrow> status \<Rightarrow> int" where
  "next_attempts current to_status =
     (if to_status = FAILED then lr_attempts current
      else if lr_status current = FAILED \<and> to_status = PENDING then 0
      else if to_status = lr_status current then lr_attempts current + 1
      else 1)"

definition next_error_fields ::
    "ledger_row \<Rightarrow> status \<Rightarrow> string option \<Rightarrow> string option \<Rightarrow> string option \<times> string option" where
  "next_error_fields current to_status error_code error_message =
     (if to_status = lr_status current \<and> error_code = None
      then (lr_last_error_code current, lr_last_error_message current)
      else (error_code, error_message))"

definition next_assigned_scenario_id :: "ledger_row \<Rightarrow> string option \<Rightarrow> string option" where
  "next_assigned_scenario_id current assigned =
     (if assigned \<noteq> None then assigned else lr_assigned_scenario_id current)"

text \<open>The row that \<open>transition\<close> builds.\<close>

definition next_row ::
    "datetime \<Rightarrow> string \<Rightarrow> ledger_row \<Rightarrow> status \<Rightarrow> status \<Rightarrow> string option \<Rightarrow> string option \<Rightarrow>
     string option \<Rightarrow> ledger_row" where
  "next_row now doc_id current to_status stage error_code error_message assigned =
     (let (new_last_error_code, new_last_error_message) =
            next_error_fields current to_status error_code error_message
      in \<lparr>lr_doc_id = doc_id, lr_status = to_status, lr_stage = stage,
          lr_attempts = next_attempts current to_status,
          lr_last_error_code = new_last_error_code,
          lr_last_error_message = new_last_error_message,
          lr_config_version = lr_config_version current,
          lr_ingested_at = lr_ingested_at current,
          lr_updated_at = now,
          lr_assigned_scenario_id = next_assigned_scenario_id current assigned\<rparr>)"

section \<open>InMemoryLedgerStore\<close>

record ledger_store =
  ls_default_list_limit :: int
  ls_rows :: "(string, ledger_row) dict"

definition ledger_init :: "int \<Rightarrow> ledger_store" where
  "ledger_init default_list_limit =
     \<lparr>ls_default_list_limit = default_list_limit, ls_rows = []\<rparr>"

definition ledger_get :: "ledger_store \<Rightarrow> string \<Rightarrow> ledger_row option" where
  "ledger_get L doc_id = dict_get (ls_rows L) doc_id"

definition ledger_put :: "string \<Rightarrow> ledger_row \<Rightarrow> ledger_store \<Rightarrow> ledger_store" where
  "ledger_put doc_id row L = L\<lparr>ls_rows := dict_set doc_id row (ls_rows L)\<rparr>"

definition fresh_row :: "datetime \<Rightarrow> string \<Rightarrow> envelope_summary \<Rightarrow> ledger_row" where
  "fresh_row now doc_id summary =
     \<lparr>lr_doc_id = doc_id, lr_status = PENDING, lr_stage = PENDING, lr_attempts = 0,
      lr_last_error_code = None, lr_last_error_message = None,
      lr_config_version = es_config_version summary, lr_ingested_at = now, lr_updated_at = now,
      lr_assigned_scenario_id = None\<rparr>"

definition ledger_create ::
    "datetime \<Rightarrow> string \<Rightarrow> envelope_summary \<Rightarrow> ledger_store \<Rightarrow>
     (ledger_exn, ledger_row, ledger_store) outcome" where
  "ledger_create now doc_id summary L =
     (case validate_id_format (PyStr doc_id) ''doc_id'' of
        Inl e \<Rightarrow> (Inl (LedgerIdentityInvalid e), L)
      | Inr _ \<Rightarrow>
          (case ledger_get L doc_id of
             Some existing \<Rightarrow> (Inr existing, L)
           | None \<Rightarrow>
               (let row = fresh_row now doc_id summary
                in (Inr row, ledger_put doc_id row L))))"

definition ledger_transition ::
    "datetime \<Rightarrow> string \<Rightarrow> status \<Rightarrow> status \<Rightarrow> string option \<Rightarrow> string option \<Rightarrow> string option \<Rightarrow>
     ledger_store \<Rightarrow> (ledger_exn, ledger_row, ledger_store) outcome" where
  "ledger_transition now doc_id to_status stage error_code error_message assigned L =
     (case validate_id_format (PyStr doc_id) ''doc_id'' of
        Inl e \<Rightarrow> (Inl (LedgerIdentityInvalid e), L)
      | Inr _ \<Rightarrow>
          (case validate_transition doc_id (ledger_get L doc_id) to_status stage error_code of
             Inl e \<Rightarrow> (Inl e, L)
           | Inr _ \<Rightarrow>
               (let new_row = next_row now doc_id (the (ledger_get L doc_id)) to_status stage
                      error_code error_message assigned
                in (Inr new_row, ledger_put doc_id new_row L))))"

definition ledger_list_by_status :: "ledger_store \<Rightarrow> status \<Rightarrow> int \<Rightarrow> ledger_row list" where
  "ledger_list_by_status L status limit =
     (if limit \<le> 0 then []
      else slice_to limit (sort_desc lr_updated_at
             (filter (\<lambda>row. lr_status row = status) (dict_values (ls_rows L)))))"

section \<open>Executions\<close>

datatype ledger_op =
  CreateOp datetime string envelope_summary
| TransitionOp datetime string status status "string option" "string option" "string option"

fun ledger_step :: "ledger_store \<Rightarrow> ledger_op \<Rightarrow> ledger_store" where
  "ledger_step L (CreateOp now d s) = snd (ledger_create now d s L)"
| "ledger_step L (TransitionOp now d to st ec em a) = snd (ledger_transition now d to st ec em a L)"

fun ledger_run :: "ledger_store \<Rightarrow> ledger_op list \<Rightarrow> ledger_store" where
  "ledger_run L [] = L"
| "ledger_run L (a # as) = ledger_run (ledger_step L a) as"

text \<open>The stores an execution goes through, the first and the last included.\<close>

fun ledger_trace :: "ledger_store \<Rightarrow> ledger_op list \<Rightarrow> ledger_store list" where
  "ledger_trace L [] = [L]"
| "ledger_trace L (a # as) = L # ledger_trace (ledger_step L a) as"

section \<open>The abstract status machine\<close>

definition active_statuses :: "status set" where
  "active_statuses = {PENDING, ANALYZING, CHUNKING, EMBEDDING, INDEXING, NEEDS_REVIEW}"

inductive fsm_edge :: "status \<Rightarrow> status \<Rightarrow> bool" where
  start: "fsm_edge PENDING ANALYZING"
| analyzed: "fsm_edge ANALYZING CHUNKING"
| chunked: "fsm_edge CHUNKING EMBEDDING"
| embedded: "fsm_edge EMBEDDING INDEXING"
| finish: "fsm_edge INDEXING INDEXED"
| park: "fsm_edge PENDING NEEDS_REVIEW"
| assign: "fsm_edge NEEDS_REVIEW PENDING"
| requeue: "fsm_edge FAILED PENDING"
| archive: "fsm_edge FAILED ARCHIVED"
| fail: "s \<in> active_statuses \<Longrightarrow> fsm_edge s FAILED"
| retry: "s \<in> active_statuses \<Longrightarrow> fsm_edge s s"

inductive_simps fsm_edge_from [simp]:
  "fsm_edge PENDING t" "fsm_edge ANALYZING t" "fsm_edge CHUNKING t" "fsm_edge EMBEDDING t"
  "fsm_edge INDEXING t" "fsm_edge INDEXED t" "fsm_edge FAILED t" "fsm_edge NEEDS_REVIEW t"
  "fsm_edge ARCHIVED t"

inductive_cases fsm_edgeE: "fsm_edge s t"

lemmas status_set_defs [simp] = terminal_statuses_def active_statuses_def

lemma fsm_edge_iff:
  "fsm_edge s t \<longleftrightarrow> t \<in> legal_transitions s \<or> (t = s \<and> s \<notin> terminal_statuses)"
  by (cases s; cases t) simp_all

lemma validate_transition_ok_iff:
  "validate_transition d current to stage ec = Inr u \<longleftrightarrow>
     (\<exists>row. current = Some row \<and> stage = to \<and> fsm_edge (lr_status row) to \<and>
            (to = FAILED \<longrightarrow> ec \<noteq> None))"
  by (cases current) (auto simp: validate_transition_def fsm_edge_iff)

lemma validate_transition_err:
  "validate_transition d current to stage ec = Inl e \<Longrightarrow>
     \<exists>reason. e = LedgerTransitionInvalid \<lparr>ti_doc_id = d, ti_reason = reason,
       ti_observed_row = current, ti_attempted_to_status = to, ti_attempted_stage = stage\<rparr>"
  by (cases current) (auto simp: validate_transition_def reject_def split: if_splits)

lemma validate_transition_no_edge:
  assumes "\<not> (\<exists>row. current = Some row \<and> stage = to \<and> fsm_edge (lr_status row) to \<and>
            (to = FAILED \<longrightarrow> ec \<noteq> None))"
  shows "\<exists>reason. validate_transition d current to stage ec =
     Inl (LedgerTransitionInvalid \<lparr>ti_doc_id = d, ti_reason = reason,
       ti_observed_row = current, ti_attempted_to_status = to, ti_attempted_stage = stage\<rparr>)"
proof (cases "validate_transition d current to stage ec")
  case (Inl e)
  then show ?thesis using validate_transition_err by blast
next
  case (Inr u)
  then show ?thesis using assms validate_transition_ok_iff by blast
qed

section \<open>The in-memory store\<close>

lemma ledger_get_put [simp]:
  "ledger_get (ledger_put d row L) d' = (if d' = d then Some row else ledger_get L d')"
  by (simp add: ledger_get_def ledger_put_def)

lemma next_row_fields [simp]:
  "lr_doc_id (next_row now d r to st ec em a) = d"
  "lr_status (next_row now d r to st ec em a) = to"
  "lr_stage (next_row now d r to st ec em a) = st"
  "lr_attempts (next_row now d r to st ec em a) = next_attempts r to"
  "lr_config_version (next_row now d r to st ec em a) = lr_config_version r"
  "lr_ingested_at (next_row now d r to st ec em a) = lr_ingested_at r"
  "lr_updated_at (next_row now d r to st ec em a) = now"
  "lr_assigned_scenario_id (next_row now d r to st ec em a) = next_assigned_scenario_id r a"
  "lr_last_error_code (next_row now d r to st ec em a) = fst (next_error_fields r to ec em)"
  "lr_last_error_message (next_row now d r to st ec em a) = snd (next_error_fields r to ec em)"
  by (simp_all add: next_row_def split: prod.splits)

lemma ledger_transition_cases:
  obtains (refused) e where "ledger_transition now d to st ec em a L = (Inl e, L)"
  | (applied) r where "valid_id d" "ledger_get L d = Some r" "st = to" "fsm_edge (lr_status r) to"
      "to = FAILED \<longrightarrow> ec \<noteq> None"
      "ledger_transition now d to st ec em a L =
        (Inr (next_row now d r to to ec em a), ledger_put d (next_row now d r to to ec em a) L)"
proof (cases "valid_id d")
  case False
  then show ?thesis by (intro refused) (simp add: ledger_transition_def)
next
  case True
  show ?thesis
  proof (cases "validate_transition d (ledger_get L d) to st ec")
    case (Inl e)
    with True show ?thesis by (intro refused) (simp add: ledger_transition_def)
  next
    case (Inr u)
    then obtain r where r: "ledger_get L d = Some r" "st = to" "fsm_edge (lr_status r) to"
      "to = FAILED \<longrightarrow> ec \<noteq> None" by (auto simp: validate_transition_ok_iff)
    with True Inr show ?thesis
      by (intro applied [of r]) (simp_all add: ledger_transition_def Let_def)
  qed
qed

lemma ledger_create_cases:
  obtains (kept) x where "ledger_create now d s L = (x, L)"
  | (created) "valid_id d" "ledger_get L d = None"
      "ledger_create now d s L = (Inr (fresh_row now d s), ledger_put d (fresh_row now d s) L)"
proof (cases "valid_id d \<and> ledger_get L d = None")
  case True
  then show ?thesis by (intro created) (simp_all add: ledger_create_def Let_def)
next
  case False
  have "\<exists>x. ledger_create now d s L = (x, L)"
    using False by (cases "ledger_get L d") (auto simp: ledger_create_def)
  then show ?thesis using kept by blast
qed

section \<open>Invariant\<close>

definition row_ok :: "string \<Rightarrow> ledger_row \<Rightarrow> bool" where
  "row_ok d r \<longleftrightarrow> lr_doc_id r = d \<and> valid_id d \<and> lr_stage r = lr_status r \<and> 0 \<le> lr_attempts r \<and>
     (lr_status r = FAILED \<longrightarrow> lr_last_error_code r \<noteq> None)"

definition ledger_ok :: "ledger_store \<Rightarrow> bool" where
  "ledger_ok L \<longleftrightarrow> dict_ok (ls_rows L) \<and> (\<forall>d r. ledger_get L d = Some r \<longrightarrow> row_ok d r)"

lemma ledger_ok_init: "ledger_ok (ledger_init n)"
  by (simp add: ledger_ok_def ledger_init_def ledger_get_def)

lemma ledger_ok_put: "ledger_ok L \<Longrightarrow> row_ok d r \<Longrightarrow> ledger_ok (ledger_put d r L)"
  by (auto simp: ledger_ok_def) (simp add: ledger_put_def)

lemma ledger_okD: "ledger_ok L \<Longrightarrow> ledger_get L d = Some r \<Longrightarrow> row_ok d r"
  by (simp add: ledger_ok_def)

lemma row_ok_next_row:
  assumes "row_ok d r" and "fsm_edge (lr_status r) to" and "to = FAILED \<longrightarrow> ec \<noteq> None"
  shows "row_ok d (next_row now d r to to ec em a)"
  using assms by (auto simp: row_ok_def next_attempts_def next_error_fields_def)

lemma ledger_ok_transition:
  assumes "ledger_ok L"
  shows "ledger_ok (snd (ledger_transition now d to st ec em a L))"
  using assms
  by (cases now d to st ec em a L rule: ledger_transition_cases)
    (auto intro!: ledger_ok_put row_ok_next_row dest: ledger_okD)

lemma ledger_ok_create:
  assumes "ledger_ok L"
  shows "ledger_ok (snd (ledger_create now d s L))"
  using assms
  by (cases now d s L rule: ledger_create_cases) (auto intro!: ledger_ok_put simp: row_ok_def fresh_row_def)

lemma ledger_ok_step: "ledger_ok L \<Longrightarrow> ledger_ok (ledger_step L a)"
  by (cases a) (simp_all add: ledger_ok_create ledger_ok_transition)

lemma ledger_ok_run: "ledger_ok L \<Longrightarrow> ledger_ok (ledger_run L as)"
  by (induction as arbitrary: L) (auto simp: ledger_ok_step)

section \<open>The port its clients rely on\<close>

locale ledger_port =
  fixes invar :: "'s \<Rightarrow> bool"
    and get :: "'s \<Rightarrow> string \<Rightarrow> ledger_row option"
    and transition :: "datetime \<Rightarrow> string \<Rightarrow> status \<Rightarrow> status \<Rightarrow> string option \<Rightarrow> string option \<Rightarrow>
          string option \<Rightarrow> 's \<Rightarrow> (ledger_exn, ledger_row, 's) outcome"
    and create :: "datetime \<Rightarrow> string \<Rightarrow> envelope_summary \<Rightarrow> 's \<Rightarrow> (ledger_exn, ledger_row, 's) outcome"
  assumes invar_transition: "invar s \<Longrightarrow> invar (snd (transition now d to st ec em a s))"
    and invar_create: "invar s \<Longrightarrow> invar (snd (create now d sm s))"
    and get_row_ok: "invar s \<Longrightarrow> get s d = Some r \<Longrightarrow> row_ok d r"
    and transition_refuses: "valid_id d \<Longrightarrow> validate_transition d (get s d) to st ec = Inl e \<Longrightarrow>
          transition now d to st ec em a s = (Inl e, s)"
    and transition_applies: "valid_id d \<Longrightarrow> get s d = Some r \<Longrightarrow>
          validate_transition d (get s d) to st ec = Inr u \<Longrightarrow>
          \<exists>s'. transition now d to st ec em a s = (Inr (next_row now d r to st ec em a), s') \<and>
               get s' = (get s)(d \<mapsto> next_row now d r to st ec em a)"
    and create_idempotent: "valid_id d \<Longrightarrow> get s d = Some r \<Longrightarrow> create now d sm s = (Inr r, s)"
    and create_fresh: "valid_id d \<Longrightarrow> get s d = None \<Longrightarrow>
          \<exists>r s'. create now d sm s = (Inr r, s') \<and> get s' = (get s)(d \<mapsto> r) \<and> lr_status r = PENDING"
begin

text \<open>Along an edge of the status machine a transition always succeeds.\<close>

lemma transition_along_edge:
  assumes "invar s" and "get s d = Some r" and "fsm_edge (lr_status r) to"
    and "to = FAILED \<longrightarrow> ec \<noteq> None"
  shows "\<exists>s'. transition now d to to ec em a s = (Inr (next_row now d r to to ec em a), s') \<and>
              get s' = (get s)(d \<mapsto> next_row now d r to to ec em a) \<and> invar s'"
proof -
  have "valid_id d" using get_row_ok [OF assms(1,2)] by (simp add: row_ok_def)
  moreover have "validate_transition d (get s d) to to ec = Inr ()"
    using assms by (simp add: validate_transition_ok_iff)
  ultimately obtain s' where
    s': "transition now d to to ec em a s = (Inr (next_row now d r to to ec em a), s')"
    "get s' = (get s)(d \<mapsto> next_row now d r to to ec em a)"
    using transition_applies [OF _ assms(2)] by blast
  moreover have "invar s'" using invar_transition [OF assms(1), of now d to to ec em a] s' by simp
  ultimately show ?thesis by blast
qed

text \<open>Off the edges it is refused, changes nothing, and the exception shows the row it saw.\<close>

lemma transition_off_edge:
  assumes "invar s" and "get s d = Some r" and "\<not> fsm_edge (lr_status r) to"
  shows "\<exists>x. transition now d to to ec em a s = (Inl (LedgerTransitionInvalid x), s) \<and>
             ti_observed_row x = Some r"
proof -
  have "valid_id d" using get_row_ok [OF assms(1,2)] by (simp add: row_ok_def)
  moreover obtain reason where "validate_transition d (get s d) to to ec =
     Inl (LedgerTransitionInvalid \<lparr>ti_doc_id = d, ti_reason = reason,
       ti_observed_row = get s d, ti_attempted_to_status = to, ti_attempted_stage = to\<rparr>)"
    using validate_transition_no_edge [of "get s d" to to ec d] assms by auto
  ultimately show ?thesis using transition_refuses assms(2) by fastforce
qed

lemma transition_unknown:
  assumes "valid_id d" and "get s d = None"
  shows "\<exists>x. transition now d to st ec em a s = (Inl (LedgerTransitionInvalid x), s) \<and>
             ti_observed_row x = None"
proof -
  obtain reason where "validate_transition d (get s d) to st ec =
     Inl (LedgerTransitionInvalid \<lparr>ti_doc_id = d, ti_reason = reason,
       ti_observed_row = get s d, ti_attempted_to_status = to, ti_attempted_stage = st\<rparr>)"
    using validate_transition_no_edge [of "get s d" st to ec d] assms by auto
  then show ?thesis using transition_refuses assms by fastforce
qed

end

interpretation mem: ledger_port ledger_ok ledger_get ledger_transition ledger_create
proof unfold_locales
  show "\<exists>s'. ledger_transition now d to st ec em a s = (Inr (next_row now d r to st ec em a), s') \<and>
               ledger_get s' = (ledger_get s)(d \<mapsto> next_row now d r to st ec em a)"
    if "valid_id d" "ledger_get s d = Some r"
      "validate_transition d (ledger_get s d) to st ec = Inr u" for d s r to st ec u now em a
    using that by (auto simp: ledger_transition_def Let_def fun_eq_iff)
  show "\<exists>r s'. ledger_create now d sm s = (Inr r, s') \<and> ledger_get s' = (ledger_get s)(d \<mapsto> r) \<and>
      lr_status r = PENDING" if "valid_id d" "ledger_get s d = None" for d s now sm
    using that by (auto simp: ledger_create_def Let_def fun_eq_iff fresh_row_def)
  show "ledger_transition now d to st ec em a s = (Inl e, s)"
    if "valid_id d" "validate_transition d (ledger_get s d) to st ec = Inl e"
    for d s to st ec e now em a
    using that by (simp add: ledger_transition_def)
  show "ledger_create now d sm s = (Inr r, s)" if "valid_id d" "ledger_get s d = Some r"
    for d s r now sm
    using that by (simp add: ledger_create_def)
qed (blast intro: ledger_ok_transition ledger_ok_create ledger_okD)+

section \<open>How a row evolves\<close>

definition row_later :: "ledger_row \<Rightarrow> ledger_row \<Rightarrow> bool" where
  "row_later r r' \<longleftrightarrow> lr_config_version r' = lr_config_version r \<and> lr_ingested_at r' = lr_ingested_at r \<and>
     (lr_assigned_scenario_id r \<noteq> None \<longrightarrow> lr_assigned_scenario_id r' \<noteq> None) \<and>
     fsm_edge\<^sup>*\<^sup>* (lr_status r) (lr_status r')"

lemma row_later_refl [simp]: "row_later r r"
  by (simp add: row_later_def)

lemma row_later_trans: "row_later r s \<Longrightarrow> row_later s t \<Longrightarrow> row_later r t"
  by (auto simp: row_later_def)

lemma row_later_next_row:
  "fsm_edge (lr_status r) to \<Longrightarrow> row_later r (next_row now d r to to ec em a)"
  by (auto simp: row_later_def next_assigned_scenario_id_def)

lemma ledger_step_row:
  assumes "ledger_get L d = Some r"
  obtains (same) "ledger_get (ledger_step L a) d = Some r"
  | (moved) now to ec em asg where "fsm_edge (lr_status r) to"
      "ledger_get (ledger_step L a) d = Some (next_row now d r to to ec em asg)"
proof (cases a)
  case (CreateOp now d' s)
  with assms have "ledger_get (ledger_step L a) d = Some r"
    by (cases now d' s L rule: ledger_create_cases) auto
  then show ?thesis by (rule same)
next
  case (TransitionOp now d' to st ec em asg)
  show ?thesis
  proof (cases now d' to st ec em asg L rule: ledger_transition_cases)
    case (refused e)
    with assms TransitionOp show ?thesis by (intro same) simp
  next
    case (applied r')
    with assms TransitionOp same moved [of to now ec em asg] show ?thesis
      by (cases "d' = d") auto
  qed
qed

lemma ledger_run_row:
  "ledger_get L d = Some r \<Longrightarrow> \<exists>r'. ledger_get (ledger_run L as) d = Some r' \<and> row_later r r'"
proof (induction as arbitrary: L r)
  case Nil
  then show ?case by simp
next
  case (Cons a as)
  obtain r1 where r1: "ledger_get (ledger_step L a) d = Some r1" "row_later r r1"
    by (cases rule: ledger_step_row [OF Cons.prems, of a]) (auto intro: row_later_next_row)
  with Cons.IH [OF r1(1)] show ?case by (auto intro: row_later_trans)
qed

lemma ledger_step_closed:
  assumes "ledger_get L d = Some r" and "lr_status r \<in> {INDEXED, ARCHIVED}"
  shows "ledger_get (ledger_step L a) d = Some r"
  using assms(2) by (cases rule: ledger_step_row [OF assms(1), of a]) auto

lemma ledger_run_closed:
  "ledger_get L d = Some r \<Longrightarrow> lr_status r \<in> {INDEXED, ARCHIVED} \<Longrightarrow>
   ledger_get (ledger_run L as) d = Some r"
  by (induction as arbitrary: L) (simp_all add: ledger_step_closed)

section \<open>Stages are visited in order\<close>

definition row_status :: "ledger_store \<Rightarrow> string \<Rightarrow> status option" where
  "row_status L d = map_option lr_status (ledger_get L d)"

fun stages_before :: "status \<Rightarrow> status list" where
  "stages_before PENDING = [PENDING]"
| "stages_before ANALYZING = [PENDING, ANALYZING]"
| "stages_before CHUNKING = [PENDING, ANALYZING, CHUNKING]"
| "stages_before EMBEDDING = [PENDING, ANALYZING, CHUNKING, EMBEDDING]"
| "stages_before INDEXING = [PENDING, ANALYZING, CHUNKING, EMBEDDING, INDEXING]"
| "stages_before INDEXED = [PENDING, ANALYZING, CHUNKING, EMBEDDING, INDEXING, INDEXED]"
| "stages_before FAILED = [PENDING, FAILED]"
| "stages_before NEEDS_REVIEW = [PENDING, NEEDS_REVIEW]"
| "stages_before ARCHIVED = [PENDING, FAILED, ARCHIVED]"

lemma stages_before_edge:
  assumes "fsm_edge s t" and "subseq (stages_before s) xs"
  shows "subseq (stages_before t) (xs @ [t])"
proof -
  have ext: "subseq (stages_before s @ [t]) (xs @ [t])"
    by (rule list_emb_append_mono [OF assms(2)]) simp
  have "subseq (stages_before t) (stages_before s @ [t])"
    by (cases s; cases t) (use assms(1) in simp_all)
  with ext show ?thesis by (rule subseq_order.trans [rotated])
qed

lemma subseq_snoc: "subseq xs ys \<Longrightarrow> subseq xs (ys @ [y])"
  by (rule list_emb_prefix)

lemma ledger_step_status:
  "row_status (ledger_step L a) d = row_status L d \<or>
   (\<exists>s t. row_status L d = Some s \<and> row_status (ledger_step L a) d = Some t \<and> fsm_edge s t) \<or>
   (row_status L d = None \<and> row_status (ledger_step L a) d = Some PENDING)"
proof (cases "ledger_get L d")
  case (Some r)
  then show ?thesis
    by (cases rule: ledger_step_row [OF Some, of a]) (auto simp: row_status_def)
next
  case None
  show ?thesis
  proof (cases a)
    case (CreateOp now d' s)
    with None show ?thesis
      by (cases now d' s L rule: ledger_create_cases) (auto simp: row_status_def fresh_row_def)
  next
    case (TransitionOp now d' to st ec em asg)
    with None show ?thesis
      by (cases now d' to st ec em asg L rule: ledger_transition_cases) (auto simp: row_status_def)
  qed
qed

definition statuses_seen :: "string \<Rightarrow> ledger_store list \<Rightarrow> status list" where
  "statuses_seen d Ls = List.map_filter (\<lambda>L. row_status L d) Ls"

lemma ledger_trace_snoc:
  "ledger_trace L (as @ [a]) = ledger_trace L as @ [ledger_step (ledger_run L as) a]"
  by (induction as arbitrary: L) auto

lemma ledger_run_snoc: "ledger_run L (as @ [a]) = ledger_step (ledger_run L as) a"
  by (induction as arbitrary: L) auto

lemma statuses_seen_snoc:
  "statuses_seen d (Ls @ [L]) = statuses_seen d Ls @ (case row_status L d of None \<Rightarrow> [] | Some s \<Rightarrow> [s])"
  by (simp add: statuses_seen_def List.map_filter_def split: option.splits)

lemma ledger_trace_stages:
  "row_status (ledger_run (ledger_init n) as) d = Some s \<Longrightarrow>
   subseq (stages_before s) (statuses_seen d (ledger_trace (ledger_init n) as))"
proof (induction as arbitrary: s rule: rev_induct)
  case Nil
  then show ?case by (simp add: row_status_def ledger_get_def ledger_init_def)
next
  case (snoc a as)
  let ?L = "ledger_run (ledger_init n) as"
  let ?seen = "statuses_seen d (ledger_trace (ledger_init n) as)"
  have now: "row_status (ledger_step ?L a) d = Some s"
    using snoc.prems by (simp add: ledger_run_snoc)
  then have seen: "statuses_seen d (ledger_trace (ledger_init n) (as @ [a])) = ?seen @ [s]"
    by (simp add: ledger_trace_snoc statuses_seen_snoc)
  from ledger_step_status [of ?L a d] show ?case
  proof (elim disjE exE conjE)
    assume "row_status (ledger_step ?L a) d = row_status ?L d"
    with now snoc.IH have "subseq (stages_before s) ?seen" by simp
    then show ?case unfolding seen by (rule subseq_snoc)
  next
    fix u t
    assume "row_status ?L d = Some u" "row_status (ledger_step ?L a) d = Some t" "fsm_edge u t"
    with now snoc.IH [of u] show ?case unfolding seen by (auto intro: stages_before_edge)
  next
    assume "row_status (ledger_step ?L a) d = Some PENDING"
    with now show ?case unfolding seen by (auto intro: list_emb_append2)
  qed
qed

section \<open>Triage\<close>

text \<open>The linear pipeline, one stage at a time.\<close>

inductive pipeline_advance :: "status \<Rightarrow> status \<Rightarrow> bool" where
  "pipeline_advance PENDING ANALYZING"
| "pipeline_advance ANALYZING CHUNKING"
| "pipeline_advance CHUNKING EMBEDDING"
| "pipeline_advance EMBEDDING INDEXING"
| "pipeline_advance INDEXING INDEXED"

lemma tuple_index_forward:
  "tuple_index forward_order s \<noteq> None \<longleftrightarrow> s \<notin> {FAILED, NEEDS_REVIEW, ARCHIVED}"
  by (cases s) (simp_all add: forward_order_def)

lemma pipeline_advance_le:
  "pipeline_advance\<^sup>*\<^sup>* s t \<Longrightarrow> tuple_index forward_order s = Some i \<Longrightarrow>
   tuple_index forward_order t = Some j \<Longrightarrow> i \<le> j"
proof (induction arbitrary: j rule: rtranclp_induct)
  case base
  then show ?case by simp
next
  case (step t u)
  from step.hyps(2) step.prems obtain k where "tuple_index forward_order t = Some k" "k \<le> j"
    by cases (auto simp: forward_order_def)
  with step show ?case by fastforce
qed

lemma forward_order_advances:
  "i \<le> j \<Longrightarrow> j < length forward_order \<Longrightarrow> pipeline_advance\<^sup>*\<^sup>* (forward_order ! i) (forward_order ! j)"
proof (induction j rule: dec_induct)
  case base
  then show ?case by simp
next
  case (step n)
  then have "n = 0 \<or> n = 1 \<or> n = 2 \<or> n = 3 \<or> n = 4" by (auto simp: forward_order_def)
  then have "pipeline_advance (forward_order ! n) (forward_order ! Suc n)"
    by (auto simp: forward_order_def intro: pipeline_advance.intros)
  with step show ?case by (simp add: rtranclp.rtrancl_into_rtrancl)
qed

lemma tuple_index_nth: "tuple_index xs x = Some i \<Longrightarrow> i < length xs \<and> xs ! i = x"
  by (induction xs arbitrary: i) (auto split: if_splits)

lemma tuple_index_le_iff:
  assumes "tuple_index forward_order s = Some i" and "tuple_index forward_order t = Some j"
  shows "i \<le> j \<longleftrightarrow> pipeline_advance\<^sup>*\<^sup>* s t"
  using assms pipeline_advance_le forward_order_advances [of i j] tuple_index_nth by metis

lemma is_benign_some: "is_benign_concurrent_loss obs to st \<noteq> None"
proof (cases obs)
  case (Some r)
  then show ?thesis
    by (cases to; cases "lr_status r") (simp_all add: is_benign_concurrent_loss_def forward_order_def del: not_None_eq)
qed (simp add: is_benign_concurrent_loss_def del: not_None_eq)

text \<open>What the triage promises: \<open>lost_to t s\<close> when a request for \<open>t\<close> lost to a row now at \<open>s\<close>.\<close>

fun lost_to :: "status \<Rightarrow> status \<Rightarrow> bool" where
  "lost_to FAILED s = (s = INDEXED)"
| "lost_to NEEDS_REVIEW s = (s \<notin> {PENDING, FAILED})"
| "lost_to ARCHIVED s = (s = ARCHIVED)"
| "lost_to t s = (s \<notin> {FAILED, NEEDS_REVIEW, ARCHIVED} \<and> pipeline_advance\<^sup>*\<^sup>* t s)"

lemma is_benign_row:
  assumes "lr_stage r = lr_status r"
  shows "is_benign_concurrent_loss (Some r) to to = Some (lost_to to (lr_status r))"
proof (cases "to \<in> {FAILED, NEEDS_REVIEW, ARCHIVED} \<or> lr_status r \<in> {FAILED, NEEDS_REVIEW, ARCHIVED}")
  case True
  show ?thesis
    by (cases to; cases "lr_status r")
      (use True assms in \<open>simp_all add: is_benign_concurrent_loss_def\<close>)
next
  case False
  then obtain i j where i: "tuple_index forward_order (lr_status r) = Some i"
      and j: "tuple_index forward_order to = Some j"
    using tuple_index_forward [of "lr_status r"] tuple_index_forward [of to] by auto
  have le: "j \<le> i \<longleftrightarrow> pipeline_advance\<^sup>*\<^sup>* to (lr_status r)" by (rule tuple_index_le_iff [OF j i])
  from False assms have "is_benign_concurrent_loss (Some r) to to = Some (j \<le> i)"
    by (simp add: is_benign_concurrent_loss_def i j)
  with False le show ?thesis by (cases to) simp_all
qed

text \<open>The triage relation on concrete stages.\<close>

lemma pipeline_advance_rtranclp_iff:
  assumes "s \<notin> {FAILED, NEEDS_REVIEW, ARCHIVED}" and "t \<notin> {FAILED, NEEDS_REVIEW, ARCHIVED}"
  shows "pipeline_advance\<^sup>*\<^sup>* s t \<longleftrightarrow> the (tuple_index forward_order s) \<le> the (tuple_index forward_order t)"
proof -
  obtain i j where "tuple_index forward_order s = Some i" "tuple_index forward_order t = Some j"
    using assms tuple_index_forward [of s] tuple_index_forward [of t] by auto
  with tuple_index_le_iff [OF this] show ?thesis by simp
qed

lemma lost_to_stage [simp]:
  "lost_to ANALYZING s \<longleftrightarrow> s \<in> {ANALYZING, CHUNKING, EMBEDDING, INDEXING, INDEXED}"
  "lost_to CHUNKING s \<longleftrightarrow> s \<in> {CHUNKING, EMBEDDING, INDEXING, INDEXED}"
  "lost_to EMBEDDING s \<longleftrightarrow> s \<in> {EMBEDDING, INDEXING, INDEXED}"
  "lost_to INDEXING s \<longleftrightarrow> s \<in> {INDEXING, INDEXED}"
  "lost_to INDEXED s \<longleftrightarrow> s = INDEXED"
  by (cases s; simp add: pipeline_advance_rtranclp_iff forward_order_def)+

declare lost_to.simps(4-) [simp del]

lemma is_benign_None [simp]: "is_benign_concurrent_loss None to st = Some False"
  by (simp add: is_benign_concurrent_loss_def)

text \<open>
  The idiom every client wraps around \<open>transition\<close>: a \<open>LedgerTransitionInvalid\<close> that the triage
  calls benign is swallowed and the observed row stands in for the new one.
\<close>

definition triaged ::
    "status \<Rightarrow> (ledger_exn, ledger_row, 's) outcome \<Rightarrow> (ledger_exn, ledger_row, 's) outcome" where
  "triaged to_status result = (case result of
       (Inl (LedgerTransitionInvalid x), L) \<Rightarrow>
         if is_benign_concurrent_loss (ti_observed_row x) to_status to_status = Some True
         then (Inr (the (ti_observed_row x)), L) else result
     | _ \<Rightarrow> result)"

lemma triaged_Inr [simp]: "triaged to (Inr r, L) = (Inr r, L)"
  by (simp add: triaged_def)

lemma snd_triaged [simp]: "snd (triaged to x) = snd x"
  by (auto simp: triaged_def split: prod.splits sum.splits ledger_exn.splits)

section \<open>Listing\<close>

lemma list_by_status_set:
  assumes "0 < limit" and "int (length (filter (\<lambda>r. lr_status r = st) (dict_values (ls_rows L)))) \<le> limit"
  shows "set (ledger_list_by_status L st limit) = {r \<in> set (dict_values (ls_rows L)). lr_status r = st}"
  using assms by (auto simp: ledger_list_by_status_def slice_to_all)

lemma list_by_status_mem:
  assumes "ledger_ok L" and "r \<in> set (ledger_list_by_status L st limit)"
  shows "ledger_get L (lr_doc_id r) = Some r \<and> lr_status r = st"
proof -
  from assms(2) have "r \<in> set (dict_values (ls_rows L))" "lr_status r = st"
    using set_slice_subset by (fastforce simp: ledger_list_by_status_def split: if_splits)+
  moreover from this assms(1) obtain d where d: "ledger_get L d = Some r"
    by (auto simp: ledger_ok_def ledger_get_def)
  moreover from assms(1) d have "lr_doc_id r = d" by (auto simp: ledger_ok_def row_ok_def)
  ultimately show ?thesis by simp
qed

lemma list_by_status_cut:
  assumes "x \<in> set (ledger_list_by_status L st limit)"
    and "y \<in> set (dict_values (ls_rows L))" and "lr_status y = st"
    and "y \<notin> set (ledger_list_by_status L st limit)"
  shows "lr_updated_at y \<le> lr_updated_at x"
proof -
  let ?s = "sort_desc lr_updated_at (filter (\<lambda>r. lr_status r = st) (dict_values (ls_rows L)))"
  from assms(1) have lim: "0 < limit" by (auto simp: ledger_list_by_status_def split: if_splits)
  have "y \<in> set ?s" using assms(2,3) by simp
  then have "y \<in> set (take (nat limit) ?s) \<union> set (drop (nat limit) ?s)"
    by (simp flip: set_append)
  with assms(4) lim have "y \<in> set (drop (nat limit) ?s)"
    by (simp add: ledger_list_by_status_def slice_to_def)
  moreover have "x \<in> set (take (nat limit) ?s)"
    using assms(1) lim by (simp add: ledger_list_by_status_def slice_to_def)
  moreover have "sorted_wrt (\<lambda>a b. lr_updated_at b \<le> lr_updated_at a) (take (nat limit) ?s @ drop (nat limit) ?s)"
    using sorted_sort_desc by simp
  ultimately show ?thesis by (simp only: sorted_wrt_append)
qed

section \<open>Completion\<close>

text \<open>The transitions that bring a row from a status to \<open>INDEXED\<close>.\<close>

fun completion :: "status \<Rightarrow> status list" where
  "completion PENDING = [ANALYZING, CHUNKING, EMBEDDING, INDEXING, INDEXED]"
| "completion ANALYZING = [CHUNKING, EMBEDDING, INDEXING, INDEXED]"
| "completion CHUNKING = [EMBEDDING, INDEXING, INDEXED]"
| "completion EMBEDDING = [INDEXING, INDEXED]"
| "completion INDEXING = [INDEXED]"
| "completion FAILED = [PENDING, ANALYZING, CHUNKING, EMBEDDING, INDEXING, INDEXED]"
| "completion NEEDS_REVIEW = [PENDING, ANALYZING, CHUNKING, EMBEDDING, INDEXING, INDEXED]"
| "completion _ = []"

definition advance_op :: "string \<Rightarrow> status \<Rightarrow> ledger_op" where
  "advance_op d to = TransitionOp 0 d to to None None None"

fun fsm_path :: "status \<Rightarrow> status list \<Rightarrow> bool" where
  "fsm_path s [] = True"
| "fsm_path s (t # ts) = (fsm_edge s t \<and> t \<noteq> FAILED \<and> fsm_path t ts)"

lemma ledger_run_path:
  "ledger_ok L \<Longrightarrow> row_status L d = Some s \<Longrightarrow> fsm_path s ts \<Longrightarrow>
   row_status (ledger_run L (map (advance_op d) ts)) d = Some (last (s # ts))"
proof (induction ts arbitrary: L s)
  case Nil
  then show ?case by simp
next
  case (Cons t ts)
  from Cons.prems obtain r where r: "ledger_get L d = Some r" "lr_status r = s"
    by (auto simp: row_status_def)
  with Cons.prems obtain L' where L':
    "ledger_transition 0 d t t None None None L = (Inr (next_row 0 d r t t None None None), L')"
    "ledger_get L' = (ledger_get L)(d \<mapsto> next_row 0 d r t t None None None)" "ledger_ok L'"
    using mem.transition_along_edge [OF Cons.prems(1) r(1), of t None 0 None None] by auto
  then have "row_status L' d = Some t" by (simp add: row_status_def)
  from Cons.IH [OF L'(3) this] Cons.prems(3) L'(1) show ?case by (simp add: advance_op_def)
qed

lemma completion_path: "s \<notin> {INDEXED, ARCHIVED} \<Longrightarrow> fsm_path s (completion s) \<and> last (s # completion s) = INDEXED"
  by (cases s) simp_all

section \<open>Retries\<close>

fun retries :: "nat \<Rightarrow> string \<Rightarrow> status \<Rightarrow> ledger_op list" where
  "retries 0 d s = []"
| "retries (Suc n) d s = advance_op d s # retries n d s"

lemma ledger_run_retries:
  "ledger_ok L \<Longrightarrow> ledger_get L d = Some r \<Longrightarrow> lr_status r \<in> active_statuses \<Longrightarrow>
   \<exists>r'. ledger_get (ledger_run L (retries n d (lr_status r))) d = Some r' \<and>
     lr_status r' = lr_status r \<and> lr_attempts r' = lr_attempts r + int n \<and>
     lr_last_error_code r' = lr_last_error_code r"
proof (induction n arbitrary: L r)
  case 0
  then show ?case by simp
next
  case (Suc n)
  let ?r1 = "next_row 0 d r (lr_status r) (lr_status r) None None None"
  have edge: "fsm_edge (lr_status r) (lr_status r)" using Suc.prems(3) by (rule fsm_edge.retry)
  have nf: "lr_status r \<noteq> FAILED" using Suc.prems(3) by auto
  obtain L1 where L1: "ledger_transition 0 d (lr_status r) (lr_status r) None None None L = (Inr ?r1, L1)"
    "ledger_get L1 = (ledger_get L)(d \<mapsto> ?r1)" "ledger_ok L1"
    using mem.transition_along_edge [OF Suc.prems(1,2) edge, of None 0 None None] nf by auto
  have "ledger_get L1 d = Some ?r1" using L1(2) by simp
  from Suc.IH [OF L1(3) this] Suc.prems(3) nf L1(1) show ?case
    by (simp add: advance_op_def next_attempts_def next_error_fields_def add.assoc)
qed

lemmas ledger_eval = ledger_create_def ledger_transition_def ledger_get_def ledger_put_def ledger_init_def
  validate_transition_def reject_def next_row_def next_attempts_def next_error_fields_def
  next_assigned_scenario_id_def fresh_row_def row_status_def advance_op_def Let_def

section \<open>Properties\<close>

text \<open>
  C2. The table and the checks of \<open>validate_transition\<close> implement the documented status machine:
  a request is accepted exactly when the row exists, the stage equals the target, the abstract
  machine has the edge, and a failure carries an error code; every refusal is a
  \<open>LedgerTransitionInvalid\<close> that carries the row seen and the original request.
\<close>

theorem validate_transition_refines_fsm:
  "(validate_transition d current to stage ec = Inr () \<longleftrightarrow>
     (\<exists>row. current = Some row \<and> stage = to \<and> fsm_edge (lr_status row) to \<and>
            \<not> (to = FAILED \<and> ec = None))) \<and>
   (validate_transition d current to stage ec = Inr () \<or>
     (\<exists>reason. validate_transition d current to stage ec =
        Inl (LedgerTransitionInvalid \<lparr>ti_doc_id = d, ti_reason = reason,
          ti_observed_row = current, ti_attempted_to_status = to, ti_attempted_stage = stage\<rparr>)))"
  using validate_transition_ok_iff [of d current to stage ec "()"]
    validate_transition_no_edge [of current stage to ec d] by blast

text \<open>
  C5. Every store reachable by any sequence of calls, in any interleaving, is well formed: one row
  per identifier, stored under its own valid identifier, with stage equal to status, a
  non-negative attempt count, and an error code on every failed row.
\<close>

theorem ledger_reachable_ok:
  "dict_ok (ls_rows (ledger_run (ledger_init n) ops)) \<and>
   (case ledger_get (ledger_run (ledger_init n) ops) d of
      None \<Rightarrow> True
    | Some r \<Rightarrow> lr_doc_id r = d \<and> valid_id d \<and> lr_stage r = lr_status r \<and> 0 \<le> lr_attempts r \<and>
        \<not> (lr_status r = FAILED \<and> lr_last_error_code r = None))"
  using ledger_ok_run [OF ledger_ok_init, of n ops]
  by (auto simp: ledger_ok_def row_ok_def split: option.splits)

text \<open>
  C23. \<open>INDEXED\<close> and \<open>ARCHIVED\<close> are final: no sequence of calls changes any field of such a row.
\<close>

theorem ledger_final_rows_immutable:
  assumes "ledger_get L d = Some r" and "lr_status r = INDEXED \<or> lr_status r = ARCHIVED"
  shows "ledger_get (ledger_run L ops) d = Some r"
  using assms by (auto intro: ledger_run_closed)

theorem ledger_final_rows_immutable_witness:
  "row_status (ledger_run (ledger_put demo_id
       (next_row 3 demo_id (fresh_row 0 demo_id \<lparr>es_config_version = ''1''\<rparr>) INDEXED INDEXED None None None)
       (ledger_init 100))
     [TransitionOp 4 demo_id FAILED FAILED (Some ''E'') None None]) demo_id = Some INDEXED"
  using ledger_final_rows_immutable [of "ledger_put demo_id
       (next_row 3 demo_id (fresh_row 0 demo_id \<lparr>es_config_version = ''1''\<rparr>) INDEXED INDEXED None None None)
       (ledger_init 100)" demo_id _ "[TransitionOp 4 demo_id FAILED FAILED (Some ''E'') None None]"]
  by (simp add: row_status_def)

text \<open>
  C6. No stage is skipped: in every execution from an empty store, the statuses a document has
  gone through contain, in order, every pipeline stage before its current one; in particular an
  indexed document was pending, analysed, chunked, embedded and being indexed, and an archived one
  had failed.
\<close>

theorem ledger_stage_order:
  assumes "row_status (ledger_run (ledger_init n) ops) d = Some s"
  shows "subseq (stages_before s) (statuses_seen d (ledger_trace (ledger_init n) ops))"
  using assms by (rule ledger_trace_stages)

theorem ledger_stage_order_witness:
  "subseq [PENDING, ANALYZING] (statuses_seen demo_id (ledger_trace (ledger_init 100)
     [CreateOp 0 demo_id \<lparr>es_config_version = ''1''\<rparr>, advance_op demo_id ANALYZING]))"
  using ledger_stage_order [of 100
      "[CreateOp 0 demo_id \<lparr>es_config_version = ''1''\<rparr>, advance_op demo_id ANALYZING]" demo_id ANALYZING]
  by (simp add: ledger_eval)

text \<open>
  What a row keeps over any sequence of calls: it never disappears, its configuration version
  and ingestion time never change, a recorded scenario assignment is never cleared, and its new
  status is reachable from the old one in the status machine.
\<close>

theorem ledger_row_history:
  assumes "ledger_get L d = Some r"
  obtains r' where "ledger_get (ledger_run L ops) d = Some r'"
    and "lr_config_version r' = lr_config_version r" and "lr_ingested_at r' = lr_ingested_at r"
    and "lr_assigned_scenario_id r \<noteq> None \<longrightarrow> lr_assigned_scenario_id r' \<noteq> None"
    and "fsm_edge\<^sup>*\<^sup>* (lr_status r) (lr_status r')"
  using ledger_run_row [OF assms, of ops] by (auto simp: row_later_def)

theorem ledger_row_history_witness:
  "\<exists>r'. ledger_get (ledger_run (ledger_put demo_id (fresh_row 7 demo_id \<lparr>es_config_version = ''1''\<rparr>)
       (ledger_init 100)) [advance_op demo_id ANALYZING]) demo_id = Some r' \<and> lr_ingested_at r' = 7"
  by (rule ledger_row_history [of "ledger_put demo_id (fresh_row 7 demo_id \<lparr>es_config_version = ''1''\<rparr>)
       (ledger_init 100)" demo_id "fresh_row 7 demo_id \<lparr>es_config_version = ''1''\<rparr>" "[advance_op demo_id ANALYZING]"])
    (simp_all add: fresh_row_def)

text \<open>
  Creation is idempotent under at-least-once delivery: after any further calls, creating the
  same document again returns the row as it now is and changes nothing, whatever summary and
  time the repeated call carries.
\<close>

theorem ledger_create_idempotent:
  assumes "ledger_create now d s L = (Inr row, L')"
  shows "\<exists>r. ledger_get (ledger_run L' ops) d = Some r \<and>
     ledger_create now2 d s2 (ledger_run L' ops) = (Inr r, ledger_run L' ops)"
proof -
  have "valid_id d" "\<exists>r. ledger_get L' d = Some r"
    using assms by (auto simp: ledger_create_def Let_def split: option.splits if_splits)
  then show ?thesis
    using ledger_run_row mem.create_idempotent by blast
qed

theorem ledger_create_idempotent_witness:
  "\<exists>r. ledger_create 9 demo_id \<lparr>es_config_version = ''2''\<rparr>
      (ledger_put demo_id (fresh_row 0 demo_id \<lparr>es_config_version = ''1''\<rparr>) (ledger_init 100)) =
    (Inr r, ledger_put demo_id (fresh_row 0 demo_id \<lparr>es_config_version = ''1''\<rparr>) (ledger_init 100))"
  using ledger_create_idempotent [of 0 demo_id "\<lparr>es_config_version = ''1''\<rparr>" "ledger_init 100"
      "fresh_row 0 demo_id \<lparr>es_config_version = ''1''\<rparr>" _ "[]" 9 "\<lparr>es_config_version = ''2''\<rparr>"]
  by (auto simp: ledger_create_def ledger_init_def ledger_get_def Let_def)

text \<open>
  C25. The triage of a lost race never raises, and for a consistent row it answers exactly what its
  contract says: a target on the pipeline is a benign loss when the observed row is on the
  pipeline at that stage or later; a failure only lost to \<open>INDEXED\<close>; a parking lost to anything but
  \<open>PENDING\<close> and \<open>FAILED\<close>; an archiving only to \<open>ARCHIVED\<close>; an unknown document is never benign.
\<close>

theorem benign_loss_characterised:
  "is_benign_concurrent_loss obs to st \<noteq> None \<and>
   is_benign_concurrent_loss None to st = Some False \<and>
   is_benign_concurrent_loss (Some (r\<lparr>lr_stage := lr_status r\<rparr>)) to to = Some (lost_to to (lr_status r))"
  using is_benign_some is_benign_row [of "r\<lparr>lr_stage := lr_status r\<rparr>" to] by simp

text \<open>
  \<open>list_by_status\<close> returns rows of the store that have the status, newest first, at most
  \<open>limit\<close> of them and all of them when they fit; no row it leaves out is newer than one it
  returns; and a limit that is not positive gives the empty list.
\<close>

theorem list_by_status_correct:
  assumes "ledger_ok L"
  shows "(\<forall>r. r \<in> set (ledger_list_by_status L st limit) \<longrightarrow>
            ledger_get L (lr_doc_id r) = Some r \<and> lr_status r = st) \<and>
     sorted_wrt (\<lambda>a b. lr_updated_at b \<le> lr_updated_at a) (ledger_list_by_status L st limit) \<and>
     int (length (ledger_list_by_status L st limit)) \<le> max 0 limit \<and>
     (\<forall>x y d. x \<in> set (ledger_list_by_status L st limit) \<and> ledger_get L d = Some y \<and> lr_status y = st \<and>
        y \<notin> set (ledger_list_by_status L st limit) \<longrightarrow> lr_updated_at y \<le> lr_updated_at x) \<and>
     (0 < limit \<and> int (length (filter (\<lambda>r. lr_status r = st) (dict_values (ls_rows L)))) \<le> limit \<longrightarrow>
        set (ledger_list_by_status L st limit) = {r. lr_status r = st \<and> (\<exists>d. ledger_get L d = Some r)})"
proof (intro conjI)
  show "sorted_wrt (\<lambda>a b. lr_updated_at b \<le> lr_updated_at a) (ledger_list_by_status L st limit)"
    by (simp add: ledger_list_by_status_def sorted_wrt_slice sorted_sort_desc)
  show "int (length (ledger_list_by_status L st limit)) \<le> max 0 limit"
    by (cases "limit \<le> 0") (simp_all add: ledger_list_by_status_def length_slice)
  show "\<forall>x y d. x \<in> set (ledger_list_by_status L st limit) \<and> ledger_get L d = Some y \<and> lr_status y = st \<and>
        y \<notin> set (ledger_list_by_status L st limit) \<longrightarrow> lr_updated_at y \<le> lr_updated_at x"
    using list_by_status_cut dict_value_mem by (metis dict_get_def ledger_get_def)
  show "0 < limit \<and> int (length (filter (\<lambda>r. lr_status r = st) (dict_values (ls_rows L)))) \<le> limit \<longrightarrow>
        set (ledger_list_by_status L st limit) = {r. lr_status r = st \<and> (\<exists>d. ledger_get L d = Some r)}"
    using assms dict_values_iff [of "ls_rows L"]
    by (auto simp: list_by_status_set ledger_ok_def ledger_get_def simp del: set_map)
qed (use list_by_status_mem [OF assms] in blast)

theorem list_by_status_correct_witness:
  "ledger_ok (ledger_init 100) \<and> int (length (ledger_list_by_status (ledger_init 100) FAILED 5)) \<le> 5"
  using list_by_status_correct [OF ledger_ok_init, of 100 FAILED 5] ledger_ok_init by simp

text \<open>
  C24. No document is stuck: from every reachable store, a row that is neither indexed nor archived
  can be brought to \<open>INDEXED\<close> by the listed transitions, all of which are accepted.
\<close>

theorem ledger_can_complete:
  assumes "row_status (ledger_run (ledger_init n) ops) d = Some s"
    and "s \<noteq> INDEXED" and "s \<noteq> ARCHIVED"
  shows "row_status (ledger_run (ledger_run (ledger_init n) ops)
           (map (advance_op d) (completion s))) d = Some INDEXED"
  using ledger_run_path [OF ledger_ok_run [OF ledger_ok_init] assms(1)] completion_path [of s] assms(2,3)
  by simp

theorem ledger_can_complete_witness:
  "row_status (ledger_run (ledger_run (ledger_init 100) [CreateOp 0 demo_id \<lparr>es_config_version = ''1''\<rparr>])
     (map (advance_op demo_id) (completion PENDING))) demo_id = Some INDEXED"
  by (rule ledger_can_complete) (simp_all add: ledger_eval)

text \<open>
  Attempts count retries: \<open>n\<close> retries of a row in a non-terminal status leave its status and
  its last error in place and add exactly \<open>n\<close> to its attempt count.
\<close>

theorem retries_counted:
  assumes "ledger_ok L" and "ledger_get L d = Some r" and "lr_status r \<notin> terminal_statuses"
  shows "\<exists>r'. ledger_get (ledger_run L (retries k d (lr_status r))) d = Some r' \<and>
     lr_status r' = lr_status r \<and> lr_attempts r' = lr_attempts r + int k \<and>
     lr_last_error_code r' = lr_last_error_code r"
proof -
  have "lr_status r \<in> active_statuses" using assms(3) by (cases "lr_status r") simp_all
  with assms show ?thesis by (intro ledger_run_retries)
qed

theorem retries_counted_witness:
  "\<exists>r'. ledger_get (ledger_run (ledger_put demo_id (fresh_row 0 demo_id \<lparr>es_config_version = ''1''\<rparr>)
      (ledger_init 100)) (retries 3 demo_id PENDING)) demo_id = Some r' \<and> lr_attempts r' = 3"
proof -
  let ?r = "fresh_row 0 demo_id \<lparr>es_config_version = ''1''\<rparr>"
  have "row_ok demo_id ?r" by (simp add: row_ok_def fresh_row_def)
  then have "ledger_ok (ledger_put demo_id ?r (ledger_init 100))"
    by (intro ledger_ok_put ledger_ok_init)
  from retries_counted [OF this, of demo_id ?r 3] show ?thesis by (auto simp: fresh_row_def)
qed

end
