(* ===== verification/Scenario.thy ===== *)
theory Scenario
  imports Errors
begin

text \<open>
  Scenarios, \<open>src/vestibule/scenario/model.py\<close> and \<open>_validation.py\<close>: the settings records and the
  checks that \<open>Scenario(...)\<close> runs on them. A \<open>ValueError\<close> is its message. \<open>make_scenario\<close> is the
  pydantic constructor on fields of the declared types: the non-empty checks of all fields are
  collected, and the cross-field checks run, first failure first, only when there were none.
\<close>

section \<open>Data\<close>

record chunker_settings =
  cst_target_chunk_tokens :: int
  cst_overlap_tokens :: int
  cst_min_chunk_tokens :: int
  cst_max_chunk_tokens :: int

datatype embedder_adapter = AzureOpenAI | FastEmbed

fun adapter_value :: "embedder_adapter \<Rightarrow> string" where
  "adapter_value AzureOpenAI = ''azure_openai''"
| "adapter_value FastEmbed = ''fastembed''"

record embedder_settings =
  emb_adapter :: embedder_adapter
  emb_model :: string
  emb_target_dimensions :: "int option"

record indexer_settings =
  ixs_metric :: string
  ixs_dimensions :: int
  ixs_hnsw_m :: int
  ixs_hnsw_ef_construction :: int
  ixs_hnsw_ef_search :: int

datatype acl_source = AclEnvelope | AclBlobMetadata | AclSourceSystem

record scenario =
  sc_scenario_id :: string
  sc_vertical :: string
  sc_config_version :: string
  sc_index_name :: string
  sc_chunker :: chunker_settings
  sc_embedder :: embedder_settings
  sc_indexer :: indexer_settings
  sc_acl_source :: acl_source
  sc_default_trust_tier :: string
  sc_enabled :: bool
  sc_created_at :: datetime
  sc_updated_at :: datetime
  sc_index_template_id :: "string option"

record scenario_error =
  se_scenario_id :: string
  se_reason :: string
  se_error_code :: string

abbreviation SCENARIO_NOT_FOUND :: string where "SCENARIO_NOT_FOUND \<equiv> ''SCENARIO_NOT_FOUND''"
abbreviation SCENARIO_INVALID :: string where "SCENARIO_INVALID \<equiv> ''SCENARIO_INVALID''"
abbreviation SCENARIO_STORE_READ_ONLY :: string where
  "SCENARIO_STORE_READ_ONLY \<equiv> ''SCENARIO_STORE_READ_ONLY''"
abbreviation SCENARIO_CONFLICT :: string where "SCENARIO_CONFLICT \<equiv> ''SCENARIO_CONFLICT''"
abbreviation SCENARIO_STORE_UNAVAILABLE :: string where
  "SCENARIO_STORE_UNAVAILABLE \<equiv> ''SCENARIO_STORE_UNAVAILABLE''"

definition scenario_exn :: "string \<Rightarrow> string \<Rightarrow> string \<Rightarrow> scenario_error" where
  "scenario_exn scenario_id reason code =
     \<lparr>se_scenario_id = scenario_id, se_reason = reason, se_error_code = code\<rparr>"

section \<open>Checks\<close>

text \<open>The pattern \<open>[a-z0-9][a-z0-9-]{0,126}[a-z0-9]\<close> on a whole string.\<close>

definition index_name_full :: "string \<Rightarrow> bool" where
  "index_name_full s \<longleftrightarrow> 2 \<le> length s \<and> length s \<le> 128 \<and>
     is_lower_alnum (hd s) \<and> is_lower_alnum (last s) \<and>
     list_all (\<lambda>c. is_lower_alnum c \<or> c = CHR ''-'') (butlast (tl s))"

definition validate_index_name :: "string \<Rightarrow> string + unit" where
  "validate_index_name index_name =
     (if \<not> dollar_match index_name_full index_name
      then Inl (''index_name='' @ py_repr index_name @ '' is invalid: must be 2-128 characters, '' @
        ''lowercase alphanumeric or dashes, and not start/end with a dash'')
      else Inr ())"

definition validate_chunker_bounds :: "chunker_settings \<Rightarrow> string + unit" where
  "validate_chunker_bounds c =
     (if \<not> (cst_min_chunk_tokens c \<le> cst_target_chunk_tokens c \<and>
             cst_target_chunk_tokens c \<le> cst_max_chunk_tokens c)
      then Inl (''chunker token bounds violated: expected min_chunk_tokens '' @
        ''('' @ str_int (cst_min_chunk_tokens c) @ '') <= target_chunk_tokens '' @
        ''('' @ str_int (cst_target_chunk_tokens c) @ '') <= max_chunk_tokens '' @
        ''('' @ str_int (cst_max_chunk_tokens c) @ '')'')
      else Inr ())"

definition native_dimensions :: "(string \<times> string, int) dict" where
  "native_dimensions =
     [((''azure_openai'', ''text-embedding-3-large''), 3072),
      ((''fastembed'', ''nomic-ai/nomic-embed-text-v1.5''), 768)]"

definition repr_int_option :: "int option \<Rightarrow> string" where
  "repr_int_option x = (case x of None \<Rightarrow> ''None'' | Some i \<Rightarrow> str_int i)"

definition validate_dimension_consistency :: "embedder_settings \<Rightarrow> indexer_settings \<Rightarrow> string + unit" where
  "validate_dimension_consistency embedder indexer =
     (case dict_get native_dimensions (adapter_value (emb_adapter embedder), emb_model embedder) of
        None \<Rightarrow> Inl (''embedder (adapter='' @ py_repr (adapter_value (emb_adapter embedder)) @ '', model='' @
          py_repr (emb_model embedder) @ '') is not a recognized (adapter, model) combination in the '' @
          ''native-dimensions registry; add an entry to _NATIVE_DIMENSIONS'')
      | Some native \<Rightarrow>
          (let target = emb_target_dimensions embedder in
           if target \<noteq> None \<and> the target > native
           then Inl (''embedder.target_dimensions='' @ str_int (the target) @ '' exceeds model '' @
             py_repr (emb_model embedder) @ CHR 0x27 # ''s native_dimensions='' @ str_int native)
           else (let effective = (if target \<noteq> None then the target else native) in
             if ixs_dimensions indexer \<noteq> effective
             then Inl (''indexer.dimensions='' @ str_int (ixs_dimensions indexer) @
               '' does not match the embedder'' @ CHR 0x27 # ''s effective dimensions='' @ str_int effective @
               '' (target_dimensions='' @ repr_int_option target @ '', native='' @ str_int native @ '')'')
             else Inr ())))"

definition validate_cross_field_invariants :: "scenario \<Rightarrow> string + unit" where
  "validate_cross_field_invariants s =
     bind_res (validate_index_name (sc_index_name s)) (\<lambda>_.
     bind_res (validate_chunker_bounds (sc_chunker s)) (\<lambda>_.
       validate_dimension_consistency (sc_embedder s) (sc_indexer s)))"

definition scenario_non_empty :: "string \<Rightarrow> string \<Rightarrow> (string \<times> string) list" where
  "scenario_non_empty field v = (if v = [] then [(field, ''must be non-empty'')] else [])"

text \<open>The constructor: the collected (field, message) errors, or the scenario.\<close>

definition make_scenario :: "scenario \<Rightarrow> (string \<times> string) list + scenario" where
  "make_scenario s =
     (let errors = scenario_non_empty ''scenario_id'' (sc_scenario_id s) @
                   scenario_non_empty ''vertical'' (sc_vertical s) @
                   scenario_non_empty ''default_trust_tier'' (sc_default_trust_tier s)
      in if errors \<noteq> [] then Inl errors
         else case validate_cross_field_invariants s of
           Inl m \<Rightarrow> Inl [([], m)]
         | Inr _ \<Rightarrow> Inr s)"

section \<open>Lemmas\<close>

definition effective_dimensions :: "embedder_settings \<Rightarrow> int option" where
  "effective_dimensions e =
     (case map_of native_dimensions (adapter_value (emb_adapter e), emb_model e) of
        None \<Rightarrow> None
      | Some n \<Rightarrow> (case emb_target_dimensions e of
            None \<Rightarrow> Some n | Some t \<Rightarrow> if t \<le> n then Some t else None))"

lemma validate_dimension_consistency_ok:
  "validate_dimension_consistency e i = Inr u \<longleftrightarrow> effective_dimensions e = Some (ixs_dimensions i)"
  by (auto simp: validate_dimension_consistency_def effective_dimensions_def Let_def
      split: option.splits if_splits)

definition scenario_ok :: "scenario \<Rightarrow> bool" where
  "scenario_ok s \<longleftrightarrow> sc_scenario_id s \<noteq> [] \<and> sc_vertical s \<noteq> [] \<and> sc_default_trust_tier s \<noteq> [] \<and>
     dollar_match index_name_full (sc_index_name s) \<and>
     cst_min_chunk_tokens (sc_chunker s) \<le> cst_target_chunk_tokens (sc_chunker s) \<and>
     cst_target_chunk_tokens (sc_chunker s) \<le> cst_max_chunk_tokens (sc_chunker s) \<and>
     effective_dimensions (sc_embedder s) = Some (ixs_dimensions (sc_indexer s))"

lemma make_scenario_Inr: "make_scenario s = Inr s' \<longleftrightarrow> s' = s \<and> scenario_ok s"
proof -
  have "validate_cross_field_invariants s = Inr () \<longleftrightarrow>
      dollar_match index_name_full (sc_index_name s) \<and>
      cst_min_chunk_tokens (sc_chunker s) \<le> cst_target_chunk_tokens (sc_chunker s) \<and>
      cst_target_chunk_tokens (sc_chunker s) \<le> cst_max_chunk_tokens (sc_chunker s) \<and>
      effective_dimensions (sc_embedder s) = Some (ixs_dimensions (sc_indexer s))"
    by (auto simp: validate_cross_field_invariants_def validate_index_name_def
        validate_chunker_bounds_def validate_dimension_consistency_ok)
  then show ?thesis
    by (auto simp: make_scenario_def scenario_non_empty_def scenario_ok_def Let_def split: sum.splits)
qed

section \<open>Properties\<close>

text \<open>
  No invalid scenario can be constructed, and no valid one is refused: the constructor accepts
  exactly the settings with non-empty keys, an accepted index name, ordered chunk bounds, a known
  embedding model, a truncation target within the model's native size, and an index dimension
  equal to the dimension the embedder will really produce.
\<close>

theorem make_scenario_accepts:
  "make_scenario s = Inr s' \<longleftrightarrow> s' = s \<and>
     sc_scenario_id s \<noteq> [] \<and> sc_vertical s \<noteq> [] \<and> sc_default_trust_tier s \<noteq> [] \<and>
     dollar_match index_name_full (sc_index_name s) \<and>
     cst_min_chunk_tokens (sc_chunker s) \<le> cst_target_chunk_tokens (sc_chunker s) \<and>
     cst_target_chunk_tokens (sc_chunker s) \<le> cst_max_chunk_tokens (sc_chunker s) \<and>
     (\<exists>native. map_of native_dimensions (adapter_value (emb_adapter (sc_embedder s)), emb_model (sc_embedder s)) = Some native \<and>
        (case emb_target_dimensions (sc_embedder s) of
           None \<Rightarrow> ixs_dimensions (sc_indexer s) = native
         | Some t \<Rightarrow> t \<le> native \<and> ixs_dimensions (sc_indexer s) = t))"
proof -
  have "effective_dimensions e = Some d \<longleftrightarrow>
      (\<exists>native. map_of native_dimensions (adapter_value (emb_adapter e), emb_model e) = Some native \<and>
        (case emb_target_dimensions e of None \<Rightarrow> d = native | Some t \<Rightarrow> t \<le> native \<and> d = t))" for e d
    by (auto simp: effective_dimensions_def split: option.splits if_splits)
  then show ?thesis by (simp add: make_scenario_Inr scenario_ok_def)
qed

text \<open>A scenario for concrete instances.\<close>

definition demo_scenario :: scenario where
  "demo_scenario = \<lparr>sc_scenario_id = ''hr-v1'', sc_vertical = ''hr'', sc_config_version = ''1'',
     sc_index_name = ''hr'',
     sc_chunker = \<lparr>cst_target_chunk_tokens = 512, cst_overlap_tokens = 64, cst_min_chunk_tokens = 64,
       cst_max_chunk_tokens = 1024\<rparr>,
     sc_embedder = \<lparr>emb_adapter = FastEmbed, emb_model = ''nomic-ai/nomic-embed-text-v1.5'',
       emb_target_dimensions = Some 512\<rparr>,
     sc_indexer = \<lparr>ixs_metric = ''cosine'', ixs_dimensions = 512, ixs_hnsw_m = 4,
       ixs_hnsw_ef_construction = 400, ixs_hnsw_ef_search = 500\<rparr>,
     sc_acl_source = AclEnvelope, sc_default_trust_tier = ''internal'', sc_enabled = True,
     sc_created_at = 0, sc_updated_at = 0, sc_index_template_id = None\<rparr>"

lemma demo_scenario_ok: "scenario_ok demo_scenario"
  by (simp add: demo_scenario_def scenario_ok_def dollar_match_def index_name_full_def
      is_lower_alnum_def less_eq_char_def effective_dimensions_def native_dimensions_def)

end
