(* ===== verification/Scenario_Store.thy ===== *)
theory Scenario_Store
  imports Scenario
begin

text \<open>
  Scenario stores: the port of \<open>src/vestibule/scenario/stores/base.py\<close> with its \<open>resolve\<close>
  fallback chain and its tie-break, the file-backed \<open>yaml_store.py\<close>, and the TTL cache
  \<open>cached_store.py\<close>. A YAML document is a parameter of the model: what the parser returned and
  what pydantic made of its fields. The lemmas state the port's laws once (locale
  \<open>scenario_port\<close>), prove them for the YAML store, and show that the cache is invisible to a
  sequential client of a backend whose reads do not write (locale \<open>cache_backend\<close>).
\<close>

section \<open>The port\<close>

record scenario_lookup =
  sl_get :: "string \<Rightarrow> scenario_error + scenario option"
  sl_get_by_vertical :: "string \<Rightarrow> scenario_error + scenario option"

definition repr_option :: "string option \<Rightarrow> string" where
  "repr_option x = (case x of None \<Rightarrow> ''None'' | Some s \<Rightarrow> py_repr s)"

text \<open>One step of the fallback chain: an absent key or an empty answer falls through.\<close>

definition try_lookup ::
    "(string \<Rightarrow> scenario_error + scenario option) \<Rightarrow> string option \<Rightarrow> (scenario_error + scenario) \<Rightarrow>
     scenario_error + scenario" where
  "try_lookup f key otherwise = (case key of
       None \<Rightarrow> otherwise
     | Some k \<Rightarrow> (case f k of
           Inl e \<Rightarrow> Inl e
         | Inr (Some found) \<Rightarrow> Inr found
         | Inr None \<Rightarrow> otherwise))"

definition store_resolve ::
    "scenario_lookup \<Rightarrow> string option \<Rightarrow> string option \<Rightarrow> string option \<Rightarrow> scenario_error + scenario" where
  "store_resolve lk scenario_id vertical default_scenario_id =
     try_lookup (sl_get lk) scenario_id
       (try_lookup (sl_get_by_vertical lk) vertical
         (try_lookup (sl_get lk) default_scenario_id
           (Inl (scenario_exn (case scenario_id of None \<Rightarrow> [] | Some i \<Rightarrow> i)
              (''no scenario found for scenario_id='' @ repr_option scenario_id @ '' vertical='' @
               repr_option vertical @ '', and no default_scenario_id resolved'')
              SCENARIO_NOT_FOUND))))"

text \<open>\<open>min(xs, key=f)\<close> of a non-empty list: the first element with the least key.\<close>

fun min_by :: "('a \<Rightarrow> 'k :: linorder) \<Rightarrow> 'a \<Rightarrow> 'a list \<Rightarrow> 'a" where
  "min_by f x [] = x"
| "min_by f x (y # ys) = min_by f (if f y < f x then y else x) ys"

definition select_enabled_for_vertical :: "scenario list \<Rightarrow> scenario option" where
  "select_enabled_for_vertical candidates = (case candidates of
       [] \<Rightarrow> None | c # cs \<Rightarrow> Some (min_by sc_scenario_id c cs))"

section \<open>YamlScenarioStore\<close>

datatype yaml_doc =
  YAMLError string
| NotMapping string
| MappingDoc string "string + scenario"

type_synonym yaml_store = "(string, scenario) dict"

definition load_one ::
    "((string \<times> string) list \<Rightarrow> string) \<Rightarrow> string \<Rightarrow> yaml_doc \<Rightarrow> scenario_error + scenario" where
  "load_one exc_text path doc = (case doc of
       YAMLError exc \<Rightarrow> Inl (scenario_exn [] (path @ '': invalid YAML: '' @ exc) SCENARIO_INVALID)
     | NotMapping ty \<Rightarrow> Inl (scenario_exn []
         (path @ '': expected a YAML mapping at the document root, got '' @ ty) SCENARIO_INVALID)
     | MappingDoc scenario_id coerced \<Rightarrow>
         (case coerced of
            Inl exc \<Rightarrow> Inl (scenario_exn scenario_id (path @ '': '' @ exc) SCENARIO_INVALID)
          | Inr raw \<Rightarrow>
              (case make_scenario raw of
                 Inl errors \<Rightarrow> Inl (scenario_exn scenario_id (path @ '': '' @ exc_text errors) SCENARIO_INVALID)
               | Inr s \<Rightarrow> Inr s)))"

fun reload_loop ::
    "((string \<times> string) list \<Rightarrow> string) \<Rightarrow> yaml_store \<Rightarrow> (string \<times> yaml_doc) list \<Rightarrow>
     scenario_error + yaml_store" where
  "reload_loop exc_text loaded [] = Inr loaded"
| "reload_loop exc_text loaded ((path, doc) # files) = (case load_one exc_text path doc of
       Inl e \<Rightarrow> Inl e
     | Inr s \<Rightarrow> reload_loop exc_text (dict_set (sc_scenario_id s) s loaded) files)"

definition yaml_reload ::
    "((string \<times> string) list \<Rightarrow> string) \<Rightarrow> (string \<times> yaml_doc) list \<Rightarrow> yaml_store \<Rightarrow>
     (scenario_error, unit, yaml_store) outcome" where
  "yaml_reload exc_text directory Y = (case reload_loop exc_text [] (sort_key fst directory) of
       Inl e \<Rightarrow> (Inl e, Y)
     | Inr loaded \<Rightarrow> (Inr (), loaded))"

definition yaml_get :: "yaml_store \<Rightarrow> string \<Rightarrow> scenario option" where
  "yaml_get Y scenario_id = dict_get Y scenario_id"

definition yaml_get_by_vertical :: "yaml_store \<Rightarrow> string \<Rightarrow> scenario option" where
  "yaml_get_by_vertical Y vertical =
     select_enabled_for_vertical
       (filter (\<lambda>s. sc_vertical s = vertical \<and> sc_enabled s) (dict_values Y))"

definition yaml_list_all :: "yaml_store \<Rightarrow> bool \<Rightarrow> scenario list" where
  "yaml_list_all Y include_disabled =
     (if include_disabled then dict_values Y else filter sc_enabled (dict_values Y))"

definition yaml_read_only :: "string \<Rightarrow> scenario_error" where
  "yaml_read_only scenario_id = scenario_exn scenario_id
     (''YamlScenarioStore is read-only; edit the underlying YAML file and call reload() instead'')
     SCENARIO_STORE_READ_ONLY"

definition yaml_upsert :: "yaml_store \<Rightarrow> scenario \<Rightarrow> (scenario_error, scenario, yaml_store) outcome" where
  "yaml_upsert Y s = (Inl (yaml_read_only (sc_scenario_id s)), Y)"

definition yaml_delete :: "yaml_store \<Rightarrow> string \<Rightarrow> (scenario_error, bool, yaml_store) outcome" where
  "yaml_delete Y scenario_id = (Inl (yaml_read_only scenario_id), Y)"

definition yaml_lookup :: "yaml_store \<Rightarrow> scenario_lookup" where
  "yaml_lookup Y = \<lparr>sl_get = \<lambda>i. Inr (yaml_get Y i), sl_get_by_vertical = \<lambda>v. Inr (yaml_get_by_vertical Y v)\<rparr>"

section \<open>CachedScenarioStore\<close>

text \<open>The operations of the wrapped backend, as functions on its state.\<close>

record 'w store_ops =
  op_get :: "'w \<Rightarrow> string \<Rightarrow> (scenario_error, scenario option, 'w) outcome"
  op_get_by_vertical :: "'w \<Rightarrow> string \<Rightarrow> (scenario_error, scenario option, 'w) outcome"
  op_list_all :: "'w \<Rightarrow> bool \<Rightarrow> (scenario_error, scenario list, 'w) outcome"
  op_upsert :: "'w \<Rightarrow> scenario \<Rightarrow> (scenario_error, scenario, 'w) outcome"
  op_delete :: "'w \<Rightarrow> string \<Rightarrow> (scenario_error, bool, 'w) outcome"

record 'w cached_store =
  cch_wrapped :: 'w
  cch_ttl_seconds :: int
  cch_by_id :: "(string, scenario option \<times> int) dict"
  cch_by_vertical :: "(string, scenario option \<times> int) dict"
  cch_list_cache :: "(bool, scenario list \<times> int) dict"

definition cached_init :: "'w \<Rightarrow> int \<Rightarrow> 'w cached_store" where
  "cached_init w ttl = \<lparr>cch_wrapped = w, cch_ttl_seconds = ttl, cch_by_id = [], cch_by_vertical = [],
     cch_list_cache = []\<rparr>"

definition cache_expired :: "int \<Rightarrow> int \<Rightarrow> int \<Rightarrow> bool" where
  "cache_expired ttl now cached_at \<longleftrightarrow> now - cached_at \<ge> ttl"

definition cache_fresh :: "int \<Rightarrow> int \<Rightarrow> ('k, 'v \<times> int) dict \<Rightarrow> 'k \<Rightarrow> 'v option" where
  "cache_fresh ttl now cache key = (case dict_get cache key of
       None \<Rightarrow> None
     | Some (v, cached_at) \<Rightarrow> if cache_expired ttl now cached_at then None else Some v)"

text \<open>
  \<open>get\<close> holds the lock while it looks into the cache and again while it stores the answer, but not
  while it queries the backend; \<open>cached_get_store\<close> is the second locked section.
\<close>

definition cached_get_store :: "string \<Rightarrow> scenario option \<Rightarrow> int \<Rightarrow> 'w cached_store \<Rightarrow> 'w cached_store" where
  "cached_get_store scenario_id v now C = C\<lparr>cch_by_id := dict_set scenario_id (v, now) (cch_by_id C)\<rparr>"

definition cached_get ::
    "'w store_ops \<Rightarrow> int \<Rightarrow> int \<Rightarrow> string \<Rightarrow> 'w cached_store \<Rightarrow>
     (scenario_error, scenario option, 'w cached_store) outcome" where
  "cached_get ops now1 now2 scenario_id C =
     (case cache_fresh (cch_ttl_seconds C) now1 (cch_by_id C) scenario_id of
        Some v \<Rightarrow> (Inr v, C)
      | None \<Rightarrow> (case op_get ops (cch_wrapped C) scenario_id of
            (Inl e, w) \<Rightarrow> (Inl e, C\<lparr>cch_wrapped := w\<rparr>)
          | (Inr v, w) \<Rightarrow> (Inr v, cached_get_store scenario_id v now2 (C\<lparr>cch_wrapped := w\<rparr>))))"

definition cached_get_by_vertical ::
    "'w store_ops \<Rightarrow> int \<Rightarrow> int \<Rightarrow> string \<Rightarrow> 'w cached_store \<Rightarrow>
     (scenario_error, scenario option, 'w cached_store) outcome" where
  "cached_get_by_vertical ops now1 now2 vertical C =
     (case cache_fresh (cch_ttl_seconds C) now1 (cch_by_vertical C) vertical of
        Some v \<Rightarrow> (Inr v, C)
      | None \<Rightarrow> (case op_get_by_vertical ops (cch_wrapped C) vertical of
            (Inl e, w) \<Rightarrow> (Inl e, C\<lparr>cch_wrapped := w\<rparr>)
          | (Inr v, w) \<Rightarrow> (Inr v, C\<lparr>cch_wrapped := w,
                cch_by_vertical := dict_set vertical (v, now2) (cch_by_vertical C)\<rparr>)))"

definition cached_list_all ::
    "'w store_ops \<Rightarrow> int \<Rightarrow> int \<Rightarrow> bool \<Rightarrow> 'w cached_store \<Rightarrow>
     (scenario_error, scenario list, 'w cached_store) outcome" where
  "cached_list_all ops now1 now2 include_disabled C =
     (case cache_fresh (cch_ttl_seconds C) now1 (cch_list_cache C) include_disabled of
        Some v \<Rightarrow> (Inr v, C)
      | None \<Rightarrow> (case op_list_all ops (cch_wrapped C) include_disabled of
            (Inl e, w) \<Rightarrow> (Inl e, C\<lparr>cch_wrapped := w\<rparr>)
          | (Inr v, w) \<Rightarrow> (Inr v, C\<lparr>cch_wrapped := w,
                cch_list_cache := dict_set include_disabled (v, now2) (cch_list_cache C)\<rparr>)))"

definition cached_invalidate :: "string \<Rightarrow> 'w cached_store \<Rightarrow> 'w cached_store" where
  "cached_invalidate scenario_id C = C\<lparr>cch_by_id := [], cch_by_vertical := [], cch_list_cache := []\<rparr>"

definition cached_upsert ::
    "'w store_ops \<Rightarrow> scenario \<Rightarrow> 'w cached_store \<Rightarrow> (scenario_error, scenario, 'w cached_store) outcome" where
  "cached_upsert ops s C = (case op_upsert ops (cch_wrapped C) s of
       (Inl e, w) \<Rightarrow> (Inl e, C\<lparr>cch_wrapped := w\<rparr>)
     | (Inr r, w) \<Rightarrow> (Inr r, cached_invalidate (sc_scenario_id r) (C\<lparr>cch_wrapped := w\<rparr>)))"

definition cached_delete ::
    "'w store_ops \<Rightarrow> string \<Rightarrow> 'w cached_store \<Rightarrow> (scenario_error, bool, 'w cached_store) outcome" where
  "cached_delete ops scenario_id C = (case op_delete ops (cch_wrapped C) scenario_id of
       (Inl e, w) \<Rightarrow> (Inl e, C\<lparr>cch_wrapped := w\<rparr>)
     | (Inr r, w) \<Rightarrow> (Inr r, cached_invalidate scenario_id (C\<lparr>cch_wrapped := w\<rparr>)))"

text \<open>Requests of a client, with the clock readings of the cached store, and their answers.\<close>

datatype store_request =
  GetReq string int int | VerticalReq string int int | ListReq bool int int
| UpsertReq scenario | DeleteReq string

datatype store_answer =
  Found "scenario_error + scenario option" | Listed "scenario_error + scenario list"
| Upserted "scenario_error + scenario" | Deleted "scenario_error + bool"

fun serve_backend :: "'w store_ops \<Rightarrow> store_request \<Rightarrow> 'w \<Rightarrow> store_answer \<times> 'w" where
  "serve_backend ops (GetReq i _ _) w = map_prod Found id (op_get ops w i)"
| "serve_backend ops (VerticalReq v _ _) w = map_prod Found id (op_get_by_vertical ops w v)"
| "serve_backend ops (ListReq b _ _) w = map_prod Listed id (op_list_all ops w b)"
| "serve_backend ops (UpsertReq s) w = map_prod Upserted id (op_upsert ops w s)"
| "serve_backend ops (DeleteReq i) w = map_prod Deleted id (op_delete ops w i)"

fun serve_cached :: "'w store_ops \<Rightarrow> store_request \<Rightarrow> 'w cached_store \<Rightarrow> store_answer \<times> 'w cached_store" where
  "serve_cached ops (GetReq i t u) C = map_prod Found id (cached_get ops t u i C)"
| "serve_cached ops (VerticalReq v t u) C = map_prod Found id (cached_get_by_vertical ops t u v C)"
| "serve_cached ops (ListReq b t u) C = map_prod Listed id (cached_list_all ops t u b C)"
| "serve_cached ops (UpsertReq s) C = map_prod Upserted id (cached_upsert ops s C)"
| "serve_cached ops (DeleteReq i) C = map_prod Deleted id (cached_delete ops i C)"

fun serve_all :: "('r \<Rightarrow> 's \<Rightarrow> 'a \<times> 's) \<Rightarrow> 'r list \<Rightarrow> 's \<Rightarrow> 'a list \<times> 's" where
  "serve_all f [] s = ([], s)"
| "serve_all f (r # rs) s = (let (a, s') = f r s; (as, s'') = serve_all f rs s' in (a # as, s''))"

section \<open>The tie-break\<close>

lemma min_by_mem: "min_by f x xs \<in> set (x # xs)"
  by (induction xs arbitrary: x) (auto split: if_splits)

lemma min_by_le: "y \<in> set (x # xs) \<Longrightarrow> f (min_by f x xs) \<le> f y"
proof (induction xs arbitrary: x y)
  case (Cons z zs)
  let ?b = "if f z < f x then z else x"
  have "f (min_by f ?b zs) \<le> f ?b" by (rule Cons.IH) simp
  moreover have "f (min_by f ?b zs) \<le> f y" if "y \<in> set zs" using that by (intro Cons.IH) simp
  ultimately show ?case using Cons.prems by (auto split: if_splits)
qed simp

lemma select_enabled_Some:
  assumes "select_enabled_for_vertical xs = Some s"
  shows "s \<in> set xs \<and> (\<forall>c \<in> set xs. sc_scenario_id s \<le> sc_scenario_id c)"
proof (cases xs)
  case Nil
  with assms show ?thesis by (simp add: select_enabled_for_vertical_def)
next
  case (Cons c cs)
  with assms have s: "s = min_by sc_scenario_id c cs" by (simp add: select_enabled_for_vertical_def)
  show ?thesis unfolding s Cons
    using min_by_mem [of sc_scenario_id c cs] min_by_le [of _ c cs sc_scenario_id] by simp
qed

lemma select_enabled_None: "select_enabled_for_vertical xs = None \<longleftrightarrow> xs = []"
  by (simp add: select_enabled_for_vertical_def split: list.splits)

section \<open>Laws of the port\<close>

locale scenario_port =
  fixes invar :: "'s \<Rightarrow> bool" and lookup :: "'s \<Rightarrow> scenario_lookup"
  assumes get_id: "invar s \<Longrightarrow> sl_get (lookup s) i = Inr (Some c) \<Longrightarrow> sc_scenario_id c = i"
    and get_ok: "invar s \<Longrightarrow> sl_get (lookup s) i = Inr (Some c) \<Longrightarrow> scenario_ok c"
    and vertical_get: "invar s \<Longrightarrow> sl_get_by_vertical (lookup s) v = Inr (Some c) \<Longrightarrow>
          sl_get (lookup s) (sc_scenario_id c) = Inr (Some c)"
    and vertical_enabled: "invar s \<Longrightarrow> sl_get_by_vertical (lookup s) v = Inr (Some c) \<Longrightarrow>
          sc_vertical c = v \<and> sc_enabled c"
begin

lemma resolve_sound:
  assumes "invar s" and "store_resolve (lookup s) i v d = Inr c"
  shows "scenario_ok c \<and> sl_get (lookup s) (sc_scenario_id c) = Inr (Some c)"
  using assms get_id get_ok vertical_get
  by (fastforce simp: store_resolve_def try_lookup_def split: option.splits sum.splits)

end

definition yaml_ok :: "yaml_store \<Rightarrow> bool" where
  "yaml_ok Y \<longleftrightarrow> dict_ok Y \<and> (\<forall>i s. map_of Y i = Some s \<longrightarrow> sc_scenario_id s = i \<and> scenario_ok s)"

lemma yaml_get_by_vertical_Some:
  assumes "yaml_ok Y" and "yaml_get_by_vertical Y v = Some s"
  shows "yaml_get Y (sc_scenario_id s) = Some s \<and> sc_vertical s = v \<and> sc_enabled s"
proof -
  from assms(2) have "s \<in> set (dict_values Y)" "sc_vertical s = v" "sc_enabled s"
    by (auto simp: yaml_get_by_vertical_def dest!: select_enabled_Some)
  with assms(1) show ?thesis
    using dict_values_iff [of Y s] by (auto simp: yaml_ok_def yaml_get_def)
qed

interpretation yml: scenario_port yaml_ok yaml_lookup
  by unfold_locales
    (auto simp: yaml_lookup_def dest: yaml_get_by_vertical_Some, simp_all add: yaml_ok_def yaml_get_def)

lemma load_one_ok: "load_one x path doc = Inr s \<Longrightarrow> scenario_ok s"
  by (auto simp: load_one_def make_scenario_Inr split: yaml_doc.splits sum.splits)

lemma load_one_err: "load_one x path doc = Inl e \<Longrightarrow> se_error_code e = SCENARIO_INVALID"
  by (auto simp: load_one_def scenario_exn_def split: yaml_doc.splits sum.splits)

lemma reload_loop_ok:
  "yaml_ok Y \<Longrightarrow> reload_loop x Y files = Inr Y' \<Longrightarrow> yaml_ok Y'"
proof (induction files arbitrary: Y)
  case Nil
  then show ?case by simp
next
  case (Cons f files)
  obtain path doc where f: "f = (path, doc)" by (cases f)
  with Cons.prems obtain s where s: "load_one x path doc = Inr s"
    "reload_loop x (dict_set (sc_scenario_id s) s Y) files = Inr Y'"
    by (auto split: sum.splits)
  have "yaml_ok (dict_set (sc_scenario_id s) s Y)"
    using Cons.prems(1) load_one_ok [OF s(1)] by (auto simp: yaml_ok_def)
  then show ?case using s(2) by (rule Cons.IH)
qed

lemma reload_loop_err:
  "reload_loop x Y files = Inl e \<Longrightarrow> \<exists>(path, doc) \<in> set files. load_one x path doc = Inl e"
  by (induction files arbitrary: Y) (auto split: sum.splits)

section \<open>The cache\<close>

definition cache_coherent :: "'w store_ops \<Rightarrow> 'w cached_store \<Rightarrow> bool" where
  "cache_coherent ops C \<longleftrightarrow>
     (\<forall>i v t. map_of (cch_by_id C) i = Some (v, t) \<longrightarrow> fst (op_get ops (cch_wrapped C) i) = Inr v) \<and>
     (\<forall>i v t. map_of (cch_by_vertical C) i = Some (v, t) \<longrightarrow>
        fst (op_get_by_vertical ops (cch_wrapped C) i) = Inr v) \<and>
     (\<forall>b v t. map_of (cch_list_cache C) b = Some (v, t) \<longrightarrow>
        fst (op_list_all ops (cch_wrapped C) b) = Inr v)"

lemma cache_coherent_init: "cache_coherent ops (cached_init w ttl)"
  by (simp add: cache_coherent_def cached_init_def)

lemma cache_fresh_Some:
  "cache_fresh ttl now cache k = Some v \<Longrightarrow> \<exists>t. map_of cache k = Some (v, t)"
  by (auto simp: cache_fresh_def split: option.splits if_splits)

locale cache_backend =
  fixes ops :: "'w store_ops"
  assumes get_reads: "snd (op_get ops w i) = w"
    and vertical_reads: "snd (op_get_by_vertical ops w v) = w"
    and list_reads: "snd (op_list_all ops w b) = w"
    and upsert_fails: "fst (op_upsert ops w s) = Inl e \<Longrightarrow> snd (op_upsert ops w s) = w"
    and delete_fails: "fst (op_delete ops w i) = Inl e \<Longrightarrow> snd (op_delete ops w i) = w"
begin

lemma cached_get_transparent:
  assumes "cache_coherent ops C"
  shows "fst (cached_get ops t u i C) = fst (op_get ops (cch_wrapped C) i) \<and>
    cch_wrapped (snd (cached_get ops t u i C)) = cch_wrapped C \<and>
    cache_coherent ops (snd (cached_get ops t u i C))"
proof (cases "cache_fresh (cch_ttl_seconds C) t (cch_by_id C) i")
  case (Some v)
  then have "fst (op_get ops (cch_wrapped C) i) = Inr v"
    using assms by (auto simp: cache_coherent_def dest: cache_fresh_Some)
  with Some assms show ?thesis by (simp add: cached_get_def)
next
  case None
  obtain r where r: "op_get ops (cch_wrapped C) i = (r, cch_wrapped C)"
    using get_reads by (metis prod.collapse)
  show ?thesis
    using assms None r by (cases r) (simp_all add: cached_get_def cached_get_store_def cache_coherent_def)
qed

lemma cached_get_by_vertical_transparent:
  assumes "cache_coherent ops C"
  shows "fst (cached_get_by_vertical ops t u v C) = fst (op_get_by_vertical ops (cch_wrapped C) v) \<and>
    cch_wrapped (snd (cached_get_by_vertical ops t u v C)) = cch_wrapped C \<and>
    cache_coherent ops (snd (cached_get_by_vertical ops t u v C))"
proof (cases "cache_fresh (cch_ttl_seconds C) t (cch_by_vertical C) v")
  case (Some x)
  then have "fst (op_get_by_vertical ops (cch_wrapped C) v) = Inr x"
    using assms by (auto simp: cache_coherent_def dest: cache_fresh_Some)
  with Some assms show ?thesis by (simp add: cached_get_by_vertical_def)
next
  case None
  obtain r where r: "op_get_by_vertical ops (cch_wrapped C) v = (r, cch_wrapped C)"
    using vertical_reads by (metis prod.collapse)
  show ?thesis
    using assms None r by (cases r) (simp_all add: cached_get_by_vertical_def cache_coherent_def)
qed

lemma cached_list_all_transparent:
  assumes "cache_coherent ops C"
  shows "fst (cached_list_all ops t u b C) = fst (op_list_all ops (cch_wrapped C) b) \<and>
    cch_wrapped (snd (cached_list_all ops t u b C)) = cch_wrapped C \<and>
    cache_coherent ops (snd (cached_list_all ops t u b C))"
proof (cases "cache_fresh (cch_ttl_seconds C) t (cch_list_cache C) b")
  case (Some x)
  then have "fst (op_list_all ops (cch_wrapped C) b) = Inr x"
    using assms by (auto simp: cache_coherent_def dest: cache_fresh_Some)
  with Some assms show ?thesis by (simp add: cached_list_all_def)
next
  case None
  obtain r where r: "op_list_all ops (cch_wrapped C) b = (r, cch_wrapped C)"
    using list_reads by (metis prod.collapse)
  show ?thesis
    using assms None r by (cases r) (simp_all add: cached_list_all_def cache_coherent_def)
qed

lemma cached_upsert_transparent:
  assumes "cache_coherent ops C"
  shows "fst (cached_upsert ops s C) = fst (op_upsert ops (cch_wrapped C) s) \<and>
    cch_wrapped (snd (cached_upsert ops s C)) = snd (op_upsert ops (cch_wrapped C) s) \<and>
    cache_coherent ops (snd (cached_upsert ops s C))"
  using assms upsert_fails [of "cch_wrapped C" s]
  by (cases "op_upsert ops (cch_wrapped C) s"; cases "fst (op_upsert ops (cch_wrapped C) s)")
    (auto simp: cached_upsert_def cached_invalidate_def cache_coherent_def)

lemma cached_delete_transparent:
  assumes "cache_coherent ops C"
  shows "fst (cached_delete ops i C) = fst (op_delete ops (cch_wrapped C) i) \<and>
    cch_wrapped (snd (cached_delete ops i C)) = snd (op_delete ops (cch_wrapped C) i) \<and>
    cache_coherent ops (snd (cached_delete ops i C))"
  using assms delete_fails [of "cch_wrapped C" i]
  by (cases "op_delete ops (cch_wrapped C) i"; cases "fst (op_delete ops (cch_wrapped C) i)")
    (auto simp: cached_delete_def cached_invalidate_def cache_coherent_def)

lemma serve_cached_transparent:
  assumes "cache_coherent ops C"
  shows "fst (serve_cached ops q C) = fst (serve_backend ops q (cch_wrapped C)) \<and>
    cch_wrapped (snd (serve_cached ops q C)) = snd (serve_backend ops q (cch_wrapped C)) \<and>
    cache_coherent ops (snd (serve_cached ops q C))"
  using assms
  by (cases q) (simp_all add: cached_get_transparent cached_get_by_vertical_transparent
      cached_list_all_transparent cached_upsert_transparent cached_delete_transparent
      get_reads vertical_reads list_reads)

lemma serve_all_transparent:
  "cache_coherent ops C \<Longrightarrow>
   fst (serve_all (serve_cached ops) qs C) = fst (serve_all (serve_backend ops) qs (cch_wrapped C))"
proof (induction qs arbitrary: C)
  case Nil
  then show ?case by simp
next
  case (Cons q qs)
  from Cons.IH [of "snd (serve_cached ops q C)"] serve_cached_transparent [OF Cons.prems, of q]
  show ?case by (simp add: Let_def split: prod.splits) (metis fst_conv snd_conv)
qed

end

definition yaml_ops :: "yaml_store store_ops" where
  "yaml_ops = \<lparr>op_get = \<lambda>Y i. (Inr (yaml_get Y i), Y),
     op_get_by_vertical = \<lambda>Y v. (Inr (yaml_get_by_vertical Y v), Y),
     op_list_all = \<lambda>Y b. (Inr (yaml_list_all Y b), Y),
     op_upsert = yaml_upsert, op_delete = yaml_delete\<rparr>"

interpretation yml_cache: cache_backend yaml_ops
  by unfold_locales (simp_all add: yaml_ops_def yaml_upsert_def yaml_delete_def)

section \<open>Properties\<close>

text \<open>
  Loading is all or nothing and never lets an invalid scenario in: after a reload the store is
  either the new directory, every scenario of it stored under its own identifier and valid, or,
  when some file is refused with \<open>SCENARIO_INVALID\<close>, exactly the store it was before.
\<close>

theorem yaml_reload_atomic:
  assumes "yaml_ok Y"
  shows "yaml_ok (snd (yaml_reload x directory Y)) \<and>
    (case fst (yaml_reload x directory Y) of
       Inl e \<Rightarrow> snd (yaml_reload x directory Y) = Y \<and> se_error_code e = SCENARIO_INVALID \<and>
          (\<exists>f. f \<in> set directory \<and> load_one x (fst f) (snd f) = Inl e)
     | Inr _ \<Rightarrow> True)"
proof (cases "reload_loop x [] (sort_key fst directory)")
  case (Inl e)
  from reload_loop_err [OF Inl] have "\<exists>f. f \<in> set directory \<and> load_one x (fst f) (snd f) = Inl e"
    by auto
  with Inl assms show ?thesis by (simp add: yaml_reload_def) (metis load_one_err)
next
  case (Inr Y')
  have "yaml_ok []" by (simp add: yaml_ok_def)
  from reload_loop_ok [OF this Inr] Inr show ?thesis by (simp add: yaml_reload_def)
qed

theorem yaml_reload_atomic_witness:
  "yaml_ok [] \<and> yaml_ok (snd (yaml_reload (\<lambda>_. []) [(''a.yaml'', YAMLError ''bad'')] []))"
proof -
  have ok: "yaml_ok []" by (simp add: yaml_ok_def)
  from yaml_reload_atomic [OF ok, of "\<lambda>_. []" "[(''a.yaml'', YAMLError ''bad'')]"] ok
  show ?thesis by blast
qed

text \<open>
  The lookup by vertical is deterministic and total on ambiguity: it returns an enabled scenario
  of that vertical which is also found under its own identifier, the one with the least identifier
  among all enabled scenarios of the vertical, and nothing exactly when there is none.
\<close>

theorem yaml_vertical_tie_break:
  assumes "yaml_ok Y"
  shows "(yaml_get_by_vertical Y v = None \<longleftrightarrow>
            (\<forall>i s. yaml_get Y i = Some s \<longrightarrow> \<not> (sc_vertical s = v \<and> sc_enabled s))) \<and>
    (yaml_get_by_vertical Y v = Some s \<longrightarrow>
       yaml_get Y (sc_scenario_id s) = Some s \<and> sc_vertical s = v \<and> sc_enabled s \<and>
       (\<forall>i c. yaml_get Y i = Some c \<and> sc_vertical c = v \<and> sc_enabled c \<longrightarrow> sc_scenario_id s \<le> i))"
proof (intro conjI impI)
  have vals: "c \<in> set (dict_values Y) \<longleftrightarrow> (\<exists>i. map_of Y i = Some c)" for c
    by (rule dict_values_iff) (use assms in \<open>simp add: yaml_ok_def\<close>)
  show "yaml_get_by_vertical Y v = None \<longleftrightarrow>
      (\<forall>i s. yaml_get Y i = Some s \<longrightarrow> \<not> (sc_vertical s = v \<and> sc_enabled s))"
    using vals by (simp add: yaml_get_by_vertical_def select_enabled_None yaml_get_def filter_empty_conv del: set_map)
      blast
  assume s: "yaml_get_by_vertical Y v = Some s"
  from yaml_get_by_vertical_Some [OF assms s]
  show "yaml_get Y (sc_scenario_id s) = Some s" "sc_vertical s = v" "sc_enabled s" by auto
  show "\<forall>i c. yaml_get Y i = Some c \<and> sc_vertical c = v \<and> sc_enabled c \<longrightarrow> sc_scenario_id s \<le> i"
  proof (intro allI impI)
    fix i c
    assume c: "yaml_get Y i = Some c \<and> sc_vertical c = v \<and> sc_enabled c"
    then have "c \<in> set (filter (\<lambda>s. sc_vertical s = v \<and> sc_enabled s) (dict_values Y))"
      using vals by (auto simp: yaml_get_def simp del: set_map)
    moreover have "sc_scenario_id c = i" using c assms by (simp add: yaml_ok_def yaml_get_def)
    ultimately show "sc_scenario_id s \<le> i"
      using select_enabled_Some s by (fastforce simp: yaml_get_by_vertical_def)
  qed
qed

theorem yaml_vertical_tie_break_witness:
  "yaml_get_by_vertical [(''hr-v1'', demo_scenario)] ''hr'' = Some demo_scenario \<and>
   yaml_get [(''hr-v1'', demo_scenario)] (sc_scenario_id demo_scenario) = Some demo_scenario"
proof -
  let ?Y = "[(''hr-v1'', demo_scenario)]"
  have ok: "yaml_ok ?Y" using demo_scenario_ok by (simp add: yaml_ok_def) (simp add: demo_scenario_def)
  have "yaml_get_by_vertical ?Y ''hr'' = Some demo_scenario"
    by (simp add: yaml_get_by_vertical_def select_enabled_for_vertical_def) (simp add: demo_scenario_def)
  with yaml_vertical_tie_break [OF ok, of "''hr''" demo_scenario] show ?thesis by blast
qed



text \<open>
  The cache is not coherent for concurrent clients: if a write completes between a reader's
  backend query and the reader's own store of the answer, the answer read before the write is
  served from the cache after it, until the TTL expires, although the write invalidated the cache
  and the backend now answers differently.
\<close>

theorem cached_get_stale_after_write:
  assumes read: "op_get ops (cch_wrapped C) i = (Inr old, cch_wrapped C)"
    and wrote: "cached_upsert ops s C = (Inr r, C')"
    and stored: "Cz = cached_get_store i old t C'"
    and fresh: "u - t < cch_ttl_seconds C"
  shows "cached_get ops u u' i Cz = (Inr old, Cz) \<and>
         cch_wrapped Cz = snd (op_upsert ops (cch_wrapped C) s)"
proof -
  have "cch_ttl_seconds C' = cch_ttl_seconds C" "cch_wrapped C' = snd (op_upsert ops (cch_wrapped C) s)"
    using wrote by (auto simp: cached_upsert_def cached_invalidate_def split: prod.splits sum.splits)
  with stored fresh show ?thesis
    by (simp add: cached_get_def cache_fresh_def cached_get_store_def cache_expired_def)
qed

text \<open>A writable backend for the concrete instance: one dictionary.\<close>

definition dict_ops :: "yaml_store store_ops" where
  "dict_ops = yaml_ops\<lparr>op_upsert := \<lambda>Y s. (Inr s, dict_set (sc_scenario_id s) s Y)\<rparr>"

theorem cached_get_stale_after_write_witness:
  "fst (cached_get dict_ops 1 1 ''hr-v1''
     (cached_get_store ''hr-v1'' None 0 (snd (cached_upsert dict_ops demo_scenario (cached_init [] 60))))) = Inr None \<and>
   yaml_get (cch_wrapped (snd (cached_upsert dict_ops demo_scenario (cached_init [] 60)))) ''hr-v1'' = Some demo_scenario"
  using cached_get_stale_after_write [of dict_ops "cached_init [] 60" "''hr-v1''" None demo_scenario demo_scenario
      "snd (cached_upsert dict_ops demo_scenario (cached_init [] 60))" _ 0 1 1]
  by (simp add: dict_ops_def yaml_ops_def yaml_get_def cached_upsert_def cached_init_def cached_invalidate_def
      demo_scenario_def cached_get_store_def)

end
