(* ===== verification/Review_Queue.thy ===== *)
theory Review_Queue
  imports Ledger Scenario_Store
begin

text \<open>
  The human review queue, \<open>src/vestibule/vertical/review_queue.py\<close>, with the exceptions of
  \<open>src/vestibule/vertical/model.py\<close>: the side table of parking metadata, the listing, and the two
  decisions. An operation that checks the row and then writes it is split where another thread can
  run in between: \<open>review_assign_commit\<close> and \<open>review_reject_commit\<close> are the parts after the check.
\<close>

section \<open>Data\<close>

abbreviation VERTICAL_UNRESOLVED :: string where "VERTICAL_UNRESOLVED \<equiv> ''VERTICAL_UNRESOLVED''"
abbreviation VERTICAL_MAPPING_INVALID :: string where
  "VERTICAL_MAPPING_INVALID \<equiv> ''VERTICAL_MAPPING_INVALID''"
abbreviation VERTICAL_REJECTED :: string where "VERTICAL_REJECTED \<equiv> ''VERTICAL_REJECTED''"
abbreviation REVIEW_ITEM_NOT_FOUND :: string where "REVIEW_ITEM_NOT_FOUND \<equiv> ''REVIEW_ITEM_NOT_FOUND''"

record vertical_error =
  ve_doc_id :: string
  ve_reason :: string
  ve_error_code :: string

datatype vertical_exn =
  VerticalError vertical_error
| VScenarioError scenario_error
| VLedgerError ledger_exn

definition vertical_exn :: "string \<Rightarrow> string \<Rightarrow> string \<Rightarrow> vertical_exn" where
  "vertical_exn doc_id reason code =
     VerticalError \<lparr>ve_doc_id = doc_id, ve_reason = reason, ve_error_code = code\<rparr>"

record parked_metadata =
  pm_source :: string
  pm_blob_path :: string
  pm_suggested_verticals :: "string list"

type_synonym review_registry = "(string, parked_metadata) dict"

record review_item =
  ri_doc_id :: string
  ri_source :: string
  ri_blob_path :: string
  ri_reason :: string
  ri_parked_at :: datetime
  ri_suggested_verticals :: "string list"

text \<open>The ledger and the registry a loader and a queue share.\<close>

record review_state =
  rs_ledger :: ledger_store
  rs_registry :: review_registry

section \<open>Operations\<close>

definition registry_record ::
    "string \<Rightarrow> string \<Rightarrow> string \<Rightarrow> string list \<Rightarrow> review_registry \<Rightarrow> review_registry" where
  "registry_record doc_id source blob_path suggested R =
     dict_set doc_id \<lparr>pm_source = source, pm_blob_path = blob_path, pm_suggested_verticals = suggested\<rparr> R"

definition registry_get :: "review_registry \<Rightarrow> string \<Rightarrow> parked_metadata option" where
  "registry_get R doc_id = dict_get R doc_id"

definition registry_discard :: "string \<Rightarrow> review_registry \<Rightarrow> review_registry" where
  "registry_discard doc_id R = dict_pop doc_id R"

definition review_item_of :: "review_registry \<Rightarrow> ledger_row \<Rightarrow> review_item" where
  "review_item_of R row =
     (let metadata = registry_get R (lr_doc_id row) in
      \<lparr>ri_doc_id = lr_doc_id row,
       ri_source = (case metadata of Some m \<Rightarrow> pm_source m | None \<Rightarrow> []),
       ri_blob_path = (case metadata of Some m \<Rightarrow> pm_blob_path m | None \<Rightarrow> []),
       ri_reason = str_or (lr_last_error_message row) [],
       ri_parked_at = lr_updated_at row,
       ri_suggested_verticals = (case metadata of Some m \<Rightarrow> pm_suggested_verticals m | None \<Rightarrow> [])\<rparr>)"

definition list_pending :: "review_state \<Rightarrow> int \<Rightarrow> review_item list" where
  "list_pending S limit =
     map (review_item_of (rs_registry S)) (ledger_list_by_status (rs_ledger S) NEEDS_REVIEW limit)"

definition require_needs_review :: "ledger_store \<Rightarrow> string \<Rightarrow> string \<Rightarrow> vertical_exn + unit" where
  "require_needs_review L doc_id caller =
     (let exn = vertical_exn doc_id (caller @ ''() called for a doc_id not currently in needs_review'')
                  REVIEW_ITEM_NOT_FOUND
      in case ledger_get L doc_id of
           None \<Rightarrow> Inl exn
         | Some row \<Rightarrow> if lr_status row \<noteq> NEEDS_REVIEW then Inl exn else Inr ())"

text \<open>The triaged write followed by the removal of the registry entry.\<close>

definition review_commit ::
    "status \<Rightarrow> string \<Rightarrow> (ledger_store \<Rightarrow> (ledger_exn, ledger_row, ledger_store) outcome) \<Rightarrow>
     review_state \<Rightarrow> (vertical_exn, unit, review_state) outcome" where
  "review_commit to_status doc_id transition S =
     (case triaged to_status (transition (rs_ledger S)) of
        (Inl e, L) \<Rightarrow> (Inl (VLedgerError e), S\<lparr>rs_ledger := L\<rparr>)
      | (Inr _, L) \<Rightarrow> (Inr (), S\<lparr>rs_ledger := L, rs_registry := registry_discard doc_id (rs_registry S)\<rparr>))"

definition review_assign_commit ::
    "datetime \<Rightarrow> string \<Rightarrow> string \<Rightarrow> review_state \<Rightarrow> (vertical_exn, unit, review_state) outcome" where
  "review_assign_commit now doc_id scenario_id S =
     review_commit PENDING doc_id
       (ledger_transition now doc_id PENDING PENDING None None (Some scenario_id)) S"

definition review_assign ::
    "scenario_lookup \<Rightarrow> datetime \<Rightarrow> string \<Rightarrow> string \<Rightarrow> review_state \<Rightarrow>
     (vertical_exn, unit, review_state) outcome" where
  "review_assign lk now doc_id scenario_id S =
     (case sl_get lk scenario_id of
        Inl e \<Rightarrow> (Inl (VScenarioError e), S)
      | Inr None \<Rightarrow> (Inl (VScenarioError (scenario_exn scenario_id
          (''assign() referenced scenario_id='' @ py_repr scenario_id @ '', which does not exist'')
          SCENARIO_NOT_FOUND)), S)
      | Inr (Some _) \<Rightarrow>
          (case require_needs_review (rs_ledger S) doc_id ''assign'' of
             Inl e \<Rightarrow> (Inl e, S)
           | Inr _ \<Rightarrow> review_assign_commit now doc_id scenario_id S))"

definition review_reject_commit ::
    "datetime \<Rightarrow> string \<Rightarrow> string \<Rightarrow> review_state \<Rightarrow> (vertical_exn, unit, review_state) outcome" where
  "review_reject_commit now doc_id reason S =
     review_commit FAILED doc_id
       (ledger_transition now doc_id FAILED FAILED (Some VERTICAL_REJECTED) (Some reason) None) S"

definition review_reject ::
    "datetime \<Rightarrow> string \<Rightarrow> string \<Rightarrow> review_state \<Rightarrow> (vertical_exn, unit, review_state) outcome" where
  "review_reject now doc_id reason S =
     (case require_needs_review (rs_ledger S) doc_id ''reject'' of
        Inl e \<Rightarrow> (Inl e, S)
      | Inr _ \<Rightarrow> review_reject_commit now doc_id reason S)"

section \<open>Lemmas\<close>

lemma require_needs_review_ok:
  "require_needs_review L d c = Inr u \<longleftrightarrow> (\<exists>row. ledger_get L d = Some row \<and> lr_status row = NEEDS_REVIEW)"
  by (auto simp: require_needs_review_def Let_def split: option.splits)

lemma require_needs_review_err:
  "require_needs_review L d c = Inl e \<Longrightarrow>
   \<exists>x. e = VerticalError x \<and> ve_error_code x = REVIEW_ITEM_NOT_FOUND \<and> ve_doc_id x = d"
  by (auto simp: require_needs_review_def Let_def vertical_exn_def split: option.splits if_splits)

text \<open>Along an edge the commit always succeeds, and clears the registry entry.\<close>

lemma review_commit_along_edge:
  assumes "ledger_ok (rs_ledger S)" and "ledger_get (rs_ledger S) d = Some r"
    and "fsm_edge (lr_status r) to" and "to = FAILED \<longrightarrow> ec \<noteq> None"
  shows "\<exists>L'. review_commit to d (ledger_transition now d to to ec em a) S =
      (Inr (), S\<lparr>rs_ledger := L', rs_registry := registry_discard d (rs_registry S)\<rparr>) \<and>
    ledger_get L' = (ledger_get (rs_ledger S))(d \<mapsto> next_row now d r to to ec em a) \<and> ledger_ok L'"
  using mem.transition_along_edge [OF assms, of now em a] by (auto simp: review_commit_def)

lemma list_pending_item:
  assumes "ledger_ok (rs_ledger S)" and "ledger_get (rs_ledger S) d = Some row" and "lr_status row = NEEDS_REVIEW"
    and "int (length (ls_rows (rs_ledger S))) \<le> limit"
  shows "review_item_of (rs_registry S) row \<in> set (list_pending S limit)"
proof -
  let ?rows = "ls_rows (rs_ledger S)"
  have "length (filter (\<lambda>r. lr_status r = NEEDS_REVIEW) (dict_values ?rows)) \<le> length (dict_values ?rows)"
    by (rule length_filter_le)
  then have few: "int (length (filter (\<lambda>r. lr_status r = NEEDS_REVIEW) (dict_values ?rows))) \<le> limit"
    using assms(4) by (simp only: length_map)
  have row: "row \<in> set (dict_values ?rows)"
    using assms(2) by (simp add: ledger_get_def dict_value_mem del: set_map)
  then have "0 < length ?rows" by (cases ?rows) auto
  with assms(4) have "0 < limit" by linarith
  from list_by_status_set [OF this few] row assms(3)
  have "row \<in> set (ledger_list_by_status (rs_ledger S) NEEDS_REVIEW limit)" by simp
  then show ?thesis by (simp add: list_pending_def)
qed

section \<open>Properties\<close>

text \<open>
  A decision applies to a parked document and to nothing else: on a document that is not in
  review both decisions raise \<open>REVIEW_ITEM_NOT_FOUND\<close>, an assignment to an unknown scenario raises
  \<open>SCENARIO_NOT_FOUND\<close>, and in each case ledger and registry are unchanged.
\<close>

theorem review_decisions_guarded:
  assumes "\<And>row. ledger_get (rs_ledger S) d = Some row \<Longrightarrow> lr_status row \<noteq> NEEDS_REVIEW"
  shows "(\<exists>x. review_reject now d reason S = (Inl (VerticalError x), S) \<and> ve_error_code x = REVIEW_ITEM_NOT_FOUND) \<and>
    (sl_get lk sid = Inr (Some c) \<longrightarrow>
       (\<exists>x. review_assign lk now d sid S = (Inl (VerticalError x), S) \<and> ve_error_code x = REVIEW_ITEM_NOT_FOUND)) \<and>
    (sl_get lk sid = Inr None \<longrightarrow>
       (\<exists>x. review_assign lk now d' sid S = (Inl (VScenarioError x), S) \<and> se_error_code x = SCENARIO_NOT_FOUND))"
proof -
  have "\<exists>e. require_needs_review (rs_ledger S) d caller = Inl e" for caller
    using assms require_needs_review_ok [of "rs_ledger S" d caller] by (metis sum.exhaust)
  then have guard: "\<exists>x. require_needs_review (rs_ledger S) d caller = Inl (VerticalError x) \<and>
      ve_error_code x = REVIEW_ITEM_NOT_FOUND" for caller
    using require_needs_review_err by blast
  from guard [of "''reject''"] guard [of "''assign''"] show ?thesis
    by (auto simp: review_reject_def review_assign_def scenario_exn_def)
qed

theorem review_decisions_guarded_witness:
  "\<exists>x. review_reject 1 demo_id ''no'' \<lparr>rs_ledger = ledger_init 100, rs_registry = []\<rparr> =
     (Inl (VerticalError x), \<lparr>rs_ledger = ledger_init 100, rs_registry = []\<rparr>)"
  using review_decisions_guarded [of "\<lparr>rs_ledger = ledger_init 100, rs_registry = []\<rparr>" demo_id 1 "''no''"
      "yaml_lookup []" "[]" undefined demo_id]
  by (auto simp: ledger_init_def ledger_get_def)

text \<open>
  A human rejection is recorded: a parked document becomes failed with \<open>VERTICAL_REJECTED\<close> and
  the reviewer's reason, its parking metadata is dropped, and no other row or entry changes.
\<close>

theorem review_reject_correct:
  assumes "ledger_ok (rs_ledger S)" and "ledger_get (rs_ledger S) d = Some row"
    and "lr_status row = NEEDS_REVIEW"
  shows "\<exists>S' row'. review_reject now d reason S = (Inr (), S') \<and>
    ledger_get (rs_ledger S') = (ledger_get (rs_ledger S))(d \<mapsto> row') \<and>
    lr_status row' = FAILED \<and> lr_last_error_code row' = Some VERTICAL_REJECTED \<and>
    lr_last_error_message row' = Some reason \<and> lr_attempts row' = lr_attempts row \<and>
    map_of (rs_registry S') = (map_of (rs_registry S))(d := None)"
proof -
  have "fsm_edge (lr_status row) FAILED" using assms(3) by simp
  from review_commit_along_edge [OF assms(1,2) this, of "Some VERTICAL_REJECTED" now "Some reason" None]
  obtain L' where "review_reject_commit now d reason S =
      (Inr (), S\<lparr>rs_ledger := L', rs_registry := registry_discard d (rs_registry S)\<rparr>)"
    "ledger_get L' = (ledger_get (rs_ledger S))(d \<mapsto>
       next_row now d row FAILED FAILED (Some VERTICAL_REJECTED) (Some reason) None)"
    by (auto simp: review_reject_commit_def)
  moreover have "require_needs_review (rs_ledger S) d ''reject'' = Inr ()"
    using assms(2,3) by (simp add: require_needs_review_ok)
  ultimately show ?thesis using assms(3)
    by (auto simp: review_reject_def next_error_fields_def next_attempts_def registry_discard_def)
qed

text \<open>A parked document for concrete instances.\<close>

definition demo_parked :: review_state where
  "demo_parked = \<lparr>rs_ledger = ledger_put demo_id
      (next_row 1 demo_id (fresh_row 0 demo_id \<lparr>es_config_version = ''1''\<rparr>) NEEDS_REVIEW NEEDS_REVIEW
        (Some VERTICAL_UNRESOLVED) (Some ''why'') None) (ledger_init 100), rs_registry = []\<rparr>"

lemma demo_parked_ok: "ledger_ok (rs_ledger demo_parked)"
  "\<exists>row. ledger_get (rs_ledger demo_parked) demo_id = Some row \<and> lr_status row = NEEDS_REVIEW"
proof -
  have "row_ok demo_id (next_row 1 demo_id (fresh_row 0 demo_id \<lparr>es_config_version = ''1''\<rparr>) NEEDS_REVIEW NEEDS_REVIEW
        (Some VERTICAL_UNRESOLVED) (Some ''why'') None)"
    by (simp add: row_ok_def next_attempts_def fresh_row_def)
  then show "ledger_ok (rs_ledger demo_parked)"
    by (simp add: demo_parked_def ledger_ok_put ledger_ok_init)
  show "\<exists>row. ledger_get (rs_ledger demo_parked) demo_id = Some row \<and> lr_status row = NEEDS_REVIEW"
    by (simp add: demo_parked_def)
qed

theorem review_reject_correct_witness:
  "\<exists>S' row'. review_reject 2 demo_id ''spam'' demo_parked = (Inr (), S') \<and>
     ledger_get (rs_ledger S') demo_id = Some row' \<and> lr_status row' = FAILED"
proof -
  obtain row where row: "ledger_get (rs_ledger demo_parked) demo_id = Some row" "lr_status row = NEEDS_REVIEW"
    using demo_parked_ok(2) by blast
  from review_reject_correct [OF demo_parked_ok(1) row, of 2 "''spam''"] show ?thesis
    by (metis fun_upd_same)
qed

end
