(* ===== verification/Fnmatch.thy ===== *)
theory Fnmatch
  imports Py_Prelude
begin

text \<open>
  \<open>fnmatch.fnmatchcase\<close> of the standard library: \<open>*\<close>, \<open>?\<close>, character classes with ranges and
  negation, an unclosed bracket as a literal, matched against the whole string.
\<close>

datatype glob_token = GStar | GAny | GLit char | GClass bool "(char \<times> char) list"

text \<open>The characters up to the first closing bracket, and those after it.\<close>

fun split_close :: "string \<Rightarrow> (string \<times> string) option" where
  "split_close [] = None"
| "split_close (c # cs) = (if c = CHR '']'' then Some ([], cs)
     else map_option (\<lambda>(a, b). (c # a, b)) (split_close cs))"

definition class_split :: "string \<Rightarrow> (string \<times> string) option" where
  "class_split rest =
     (let (p, r) = (case rest of c # cs \<Rightarrow> if c = CHR ''!'' then ([c], cs) else ([], rest) | [] \<Rightarrow> ([], []));
          (q, r') = (case r of c # cs \<Rightarrow> if c = CHR '']'' then ([c], cs) else ([], r) | [] \<Rightarrow> ([], []))
      in map_option (\<lambda>(a, b). (p @ q @ a, b)) (split_close r'))"

fun class_ranges :: "string \<Rightarrow> (char \<times> char) list" where
  "class_ranges (a # m # b # cs) = (if m = CHR ''-'' then (a, b) # class_ranges cs
     else (a, a) # class_ranges (m # b # cs))"
| "class_ranges (a # cs) = (a, a) # class_ranges cs"
| "class_ranges [] = []"

definition class_token :: "string \<Rightarrow> glob_token" where
  "class_token stuff = (case stuff of
       c # cs \<Rightarrow> if c = CHR ''!'' then GClass True (class_ranges cs) else GClass False (class_ranges stuff)
     | [] \<Rightarrow> GClass False [])"

lemma split_close_length: "split_close s = Some (a, b) \<Longrightarrow> length b < length s"
  by (induction s arbitrary: a) (fastforce split: if_splits)+

lemma class_split_length: "class_split s = Some (a, b) \<Longrightarrow> length b < length s"
  by (auto simp: class_split_def Let_def split: list.splits if_splits dest!: split_close_length)

function glob_parse :: "string \<Rightarrow> glob_token list" where
  "glob_parse [] = []"
| "glob_parse (c # cs) =
     (if c = CHR ''*'' then GStar # glob_parse cs
      else if c = CHR ''?'' then GAny # glob_parse cs
      else if c = CHR ''['' then (case class_split cs of
          None \<Rightarrow> GLit c # glob_parse cs
        | Some (stuff, rest) \<Rightarrow> class_token stuff # glob_parse rest)
      else GLit c # glob_parse cs)"
  by pat_completeness auto
termination
  by (relation "measure length") (auto dest: class_split_length)

fun token_matches :: "glob_token \<Rightarrow> char \<Rightarrow> bool" where
  "token_matches GStar c = False"
| "token_matches GAny c = True"
| "token_matches (GLit d) c = (c = d)"
| "token_matches (GClass neg rs) c = (list_ex (\<lambda>(a, b). a \<le> c \<and> c \<le> b) rs \<noteq> neg)"

fun glob_match :: "glob_token list \<Rightarrow> string \<Rightarrow> bool" where
  "glob_match [] s = (s = [])"
| "glob_match (GStar # ts) [] = glob_match ts []"
| "glob_match (GStar # ts) (c # cs) = (glob_match ts (c # cs) \<or> glob_match (GStar # ts) cs)"
| "glob_match (t # ts) [] = False"
| "glob_match (t # ts) (c # cs) = (token_matches t c \<and> glob_match ts cs)"

definition fnmatchcase :: "string \<Rightarrow> string \<Rightarrow> bool" where
  "fnmatchcase name pat = glob_match (glob_parse pat) name"

section \<open>Lemmas\<close>

lemma glob_match_star: "glob_match (GStar # ts) s \<longleftrightarrow> (\<exists>u v. s = u @ v \<and> glob_match ts v)"
proof (induction s)
  case Nil
  then show ?case by simp
next
  case (Cons c cs)
  then show ?case by (auto simp: Cons_eq_append_conv)
qed

definition plain :: "string \<Rightarrow> bool" where
  "plain p \<longleftrightarrow> CHR ''*'' \<notin> set p \<and> CHR ''?'' \<notin> set p \<and> CHR ''['' \<notin> set p"

lemma glob_match_plain:
  "plain p \<Longrightarrow> glob_match (glob_parse (p @ q)) s \<longleftrightarrow> (\<exists>t. s = p @ t \<and> glob_match (glob_parse q) t)"
proof (induction p arbitrary: s)
  case Nil
  then show ?case by simp
next
  case (Cons c p)
  then have "plain p" "glob_parse ((c # p) @ q) = GLit c # glob_parse (p @ q)"
    by (auto simp: plain_def)
  with Cons.IH show ?case by (cases s) auto
qed

text \<open>A pattern without metacharacters followed by a star matches exactly the extensions of its text.\<close>

lemma fnmatchcase_prefix: "plain p \<Longrightarrow> fnmatchcase s (p @ ''*'') \<longleftrightarrow> startswith s p"
proof -
  assume "plain p"
  then have "fnmatchcase s (p @ ''*'') \<longleftrightarrow> (\<exists>t. s = p @ t)"
    by (simp add: fnmatchcase_def glob_match_plain glob_match_star)
  also have "\<dots> \<longleftrightarrow> startswith s p"
    by (auto simp: startswith_def) (metis append_take_drop_id)
  finally show ?thesis .
qed

end
