(* ===== verification/Vertical_Loader.thy ===== *)
theory Vertical_Loader
  imports Review_Queue Fnmatch Envelope
begin

text \<open>
  The vertical loader, \<open>src/vestibule/vertical/loader.py\<close>, with the resolution record of
  \<open>src/vestibule/vertical/model.py\<close>: the strict resolution order (a reviewer's assignment, then the
  envelope's scenario, then its vertical, then a source mapping), the fetch of the scenario, and the
  parking of an unresolved document. The scenario store is the argument \<open>lk\<close>; \<open>load\<close> queries it
  twice, and \<open>lk2\<close> is what it answers the second time.
\<close>

section \<open>Data\<close>

record source_mapping_rule =
  sm_match :: string
  sm_vertical :: string

record vertical_loader_config =
  vc_source_mappings :: "source_mapping_rule list"
  vc_park_unresolved :: bool
  vc_suggest_verticals :: bool

datatype resolution_source =
  REVIEW_ASSIGNMENT | ENVELOPE_SCENARIO_ID | ENVELOPE_VERTICAL | SOURCE_MAPPING | UNRESOLVED

datatype confidence = Explicit | Inferred | Unresolved

record vertical_resolution =
  vr_vertical :: "string option"
  vr_scenario_id :: "string option"
  vr_source :: resolution_source
  vr_confidence :: confidence
  vr_reason :: string

section \<open>Source mappings\<close>

definition is_glob :: "string \<Rightarrow> bool" where
  "is_glob pattern = list_ex (\<lambda>char. char \<in> set pattern) [CHR ''*'', CHR ''?'', CHR ''['']"

definition select_source_rule :: "string \<Rightarrow> source_mapping_rule list \<Rightarrow> source_mapping_rule option" where
  "select_source_rule source rules =
     (case List.find (\<lambda>rule. \<not> is_glob (sm_match rule) \<and> sm_match rule = source) rules of
        Some rule \<Rightarrow> Some rule
      | None \<Rightarrow> List.find (\<lambda>rule. is_glob (sm_match rule) \<and> fnmatchcase source (sm_match rule)) rules)"

fun suggest_loop ::
    "string \<Rightarrow> string list \<Rightarrow> string set \<Rightarrow> source_mapping_rule list \<Rightarrow> string list" where
  "suggest_loop rprefix suggestions seen [] = suggestions"
| "suggest_loop rprefix suggestions seen (rule # rules) =
     (if split_first CHR '':'' (sm_match rule) = rprefix \<and> sm_vertical rule \<notin> seen
      then suggest_loop rprefix (suggestions @ [sm_vertical rule]) (insert (sm_vertical rule) seen) rules
      else suggest_loop rprefix suggestions seen rules)"

definition suggest_verticals :: "string \<Rightarrow> source_mapping_rule list \<Rightarrow> string list" where
  "suggest_verticals source rules = suggest_loop (split_first CHR '':'' source) [] {} rules"

fun validate_mappings :: "scenario_lookup \<Rightarrow> source_mapping_rule list \<Rightarrow> vertical_exn + unit" where
  "validate_mappings lk [] = Inr ()"
| "validate_mappings lk (rule # rules) = (case sl_get_by_vertical lk (sm_vertical rule) of
       Inl e \<Rightarrow> Inl (VScenarioError e)
     | Inr None \<Rightarrow> Inl (vertical_exn []
         (''source mapping match='' @ py_repr (sm_match rule) @ '' references vertical='' @
          py_repr (sm_vertical rule) @ '', which has no enabled scenario'') VERTICAL_MAPPING_INVALID)
     | Inr (Some _) \<Rightarrow> validate_mappings lk rules)"

section \<open>Resolution\<close>

definition resolution_of :: "scenario \<Rightarrow> resolution_source \<Rightarrow> confidence \<Rightarrow> string \<Rightarrow> vertical_resolution" where
  "resolution_of s src conf reason = \<lparr>vr_vertical = Some (sc_vertical s), vr_scenario_id = Some (sc_scenario_id s),
     vr_source = src, vr_confidence = conf, vr_reason = reason\<rparr>"

text \<open>A stated signal either resolves or is an error: there is no fallthrough.\<close>

definition require_scenario ::
    "(scenario_error + scenario option) \<Rightarrow> string \<Rightarrow> string \<Rightarrow> (scenario \<Rightarrow> vertical_resolution) \<Rightarrow>
     scenario_error + vertical_resolution" where
  "require_scenario found key missing mk = (case found of
       Inl e \<Rightarrow> Inl e
     | Inr None \<Rightarrow> Inl (scenario_exn key missing SCENARIO_NOT_FOUND)
     | Inr (Some s) \<Rightarrow> Inr (mk s))"

definition assigned_scenario_id :: "ledger_store \<Rightarrow> string \<Rightarrow> string option" where
  "assigned_scenario_id L doc_id = (case ledger_get L doc_id of
       None \<Rightarrow> None | Some row \<Rightarrow> lr_assigned_scenario_id row)"

definition resolve_review_assignment ::
    "scenario_lookup \<Rightarrow> string \<Rightarrow> scenario_error + vertical_resolution" where
  "resolve_review_assignment lk scenario_id =
     require_scenario (sl_get lk scenario_id) scenario_id
       (''ledger row carries assigned_scenario_id='' @ py_repr scenario_id @
        '' (from a prior ReviewQueue.assign()), but no such scenario exists'')
       (\<lambda>s. resolution_of s REVIEW_ASSIGNMENT Explicit
          (''human-assigned scenario_id='' @ py_repr scenario_id @ '' via ReviewQueue.assign()''))"

definition resolve_scenario_id :: "scenario_lookup \<Rightarrow> string \<Rightarrow> scenario_error + vertical_resolution" where
  "resolve_scenario_id lk scenario_id =
     require_scenario (sl_get lk scenario_id) scenario_id
       (''envelope declared scenario_id='' @ py_repr scenario_id @ '', but no such scenario exists'')
       (\<lambda>s. resolution_of s ENVELOPE_SCENARIO_ID Explicit
          (''envelope declared scenario_id='' @ py_repr scenario_id))"

definition resolve_vertical :: "scenario_lookup \<Rightarrow> string \<Rightarrow> scenario_error + vertical_resolution" where
  "resolve_vertical lk vertical =
     require_scenario (sl_get_by_vertical lk vertical) vertical
       (''envelope declared vertical='' @ py_repr vertical @ '', but no enabled scenario exists for it'')
       (\<lambda>s. resolution_of s ENVELOPE_VERTICAL Explicit (''envelope declared vertical='' @ py_repr vertical))"

definition match_source_mapping ::
    "scenario_lookup \<Rightarrow> vertical_loader_config \<Rightarrow> string \<Rightarrow> scenario_error + vertical_resolution option" where
  "match_source_mapping lk cfg source =
     (case select_source_rule source (vc_source_mappings cfg) of
        None \<Rightarrow> Inr None
      | Some rule \<Rightarrow> map_sum id Some (require_scenario (sl_get_by_vertical lk (sm_vertical rule)) (sm_vertical rule)
          (''source mapping match='' @ py_repr (sm_match rule) @ '' matched, but vertical='' @
           py_repr (sm_vertical rule) @ '' no longer has an enabled scenario'')
          (\<lambda>s. resolution_of s SOURCE_MAPPING Inferred
             (''source='' @ py_repr source @ '' matched mapping rule match='' @ py_repr (sm_match rule)))))"

definition unresolved_resolution :: "string \<Rightarrow> vertical_resolution" where
  "unresolved_resolution source = \<lparr>vr_vertical = None, vr_scenario_id = None, vr_source = UNRESOLVED,
     vr_confidence = Unresolved,
     vr_reason = ''no scenario_id/vertical on the envelope and no source mapping matched source='' @
                 py_repr source\<rparr>"

definition vertical_resolve ::
    "scenario_lookup \<Rightarrow> vertical_loader_config \<Rightarrow> ledger_store \<Rightarrow> arrival_envelope \<Rightarrow>
     scenario_error + vertical_resolution" where
  "vertical_resolve lk cfg L envelope =
     (case assigned_scenario_id L (ae_doc_id envelope) of
        Some assigned \<Rightarrow> resolve_review_assignment lk assigned
      | None \<Rightarrow>
     (case ae_scenario_id envelope of
        Some scenario_id \<Rightarrow> resolve_scenario_id lk scenario_id
      | None \<Rightarrow>
     (case ae_vertical envelope of
        Some vertical \<Rightarrow> resolve_vertical lk vertical
      | None \<Rightarrow>
     (case match_source_mapping lk cfg (ae_source envelope) of
        Inl e \<Rightarrow> Inl e
      | Inr (Some matched) \<Rightarrow> Inr matched
      | Inr None \<Rightarrow> Inr (unresolved_resolution (ae_source envelope))))))"

section \<open>Loading and parking\<close>

definition park ::
    "vertical_loader_config \<Rightarrow> datetime \<Rightarrow> arrival_envelope \<Rightarrow> vertical_resolution \<Rightarrow> review_state \<Rightarrow>
     vertical_exn \<times> review_state" where
  "park cfg now envelope resolution S =
     (let unresolved = vertical_exn (ae_doc_id envelope) (vr_reason resolution) VERTICAL_UNRESOLVED in
      if \<not> vc_park_unresolved cfg then (unresolved, S)
      else
        let suggested = (if vc_suggest_verticals cfg
              then suggest_verticals (ae_source envelope) (vc_source_mappings cfg) else []);
            R = registry_record (ae_doc_id envelope) (ae_source envelope) (ae_blob_path envelope)
                  suggested (rs_registry S)
        in case triaged NEEDS_REVIEW (ledger_transition now (ae_doc_id envelope) NEEDS_REVIEW NEEDS_REVIEW
                  (Some VERTICAL_UNRESOLVED) (Some (vr_reason resolution)) None (rs_ledger S)) of
             (Inl e, L) \<Rightarrow> (VLedgerError e, S\<lparr>rs_ledger := L, rs_registry := R\<rparr>)
           | (Inr _, L) \<Rightarrow> (unresolved, S\<lparr>rs_ledger := L, rs_registry := R\<rparr>))"

definition vertical_load ::
    "scenario_lookup \<Rightarrow> scenario_lookup \<Rightarrow> vertical_loader_config \<Rightarrow> datetime \<Rightarrow> arrival_envelope \<Rightarrow>
     review_state \<Rightarrow> (vertical_exn, scenario \<times> vertical_resolution, review_state) outcome" where
  "vertical_load lk lk2 cfg now envelope S =
     (case vertical_resolve lk cfg (rs_ledger S) envelope of
        Inl e \<Rightarrow> (Inl (VScenarioError e), S)
      | Inr resolution \<Rightarrow>
          (case vr_scenario_id resolution of
             None \<Rightarrow> map_prod Inl id (park cfg now envelope resolution S)
           | Some scenario_id \<Rightarrow>
               (case sl_get lk2 scenario_id of
                  Inl e \<Rightarrow> (Inl (VScenarioError e), S)
                | Inr None \<Rightarrow> (Inl (VScenarioError (scenario_exn scenario_id
                    ''scenario no longer exists (concurrent delete between resolve() and load())''
                    SCENARIO_NOT_FOUND)), S)
                | Inr (Some s) \<Rightarrow> (Inr (s, resolution), S))))"

section \<open>Lemmas\<close>

lemma require_scenario_Inr:
  "require_scenario found key missing mk = Inr r \<longleftrightarrow> (\<exists>s. found = Inr (Some s) \<and> r = mk s)"
  by (auto simp: require_scenario_def split: sum.splits option.splits)

lemma require_scenario_Inl:
  "require_scenario found key missing mk = Inl e \<longleftrightarrow>
     found = Inl e \<or> (found = Inr None \<and> e = scenario_exn key missing SCENARIO_NOT_FOUND)"
  by (auto simp: require_scenario_def split: sum.splits option.splits)

lemma match_source_mapping_Inr:
  assumes "match_source_mapping lk cfg src = Inr m"
  shows "(m = None \<and> select_source_rule src (vc_source_mappings cfg) = None) \<or>
    (\<exists>rule s reason. select_source_rule src (vc_source_mappings cfg) = Some rule \<and>
       sl_get_by_vertical lk (sm_vertical rule) = Inr (Some s) \<and> m = Some (resolution_of s SOURCE_MAPPING Inferred reason))"
proof (cases "select_source_rule src (vc_source_mappings cfg)")
  case None
  with assms show ?thesis by (simp add: match_source_mapping_def)
next
  case (Some rule)
  let ?found = "sl_get_by_vertical lk (sm_vertical rule)"
  from assms Some show ?thesis
    by (cases ?found rule: sum.exhaust; cases "projr ?found")
      (auto simp: match_source_mapping_def require_scenario_def)
qed

text \<open>Every successful resolution is the unresolved one or comes from a scenario of the store.\<close>

lemma vertical_resolve_Inr:
  assumes "vertical_resolve lk cfg L e = Inr r"
  obtains (by_id) i s src reason where "sl_get lk i = Inr (Some s)" "r = resolution_of s src Explicit reason"
      "(src = REVIEW_ASSIGNMENT \<and> assigned_scenario_id L (ae_doc_id e) = Some i) \<or>
       (src = ENVELOPE_SCENARIO_ID \<and> assigned_scenario_id L (ae_doc_id e) = None \<and> ae_scenario_id e = Some i)"
  | (by_vertical) v s src conf reason where "sl_get_by_vertical lk v = Inr (Some s)"
      "r = resolution_of s src conf reason" "assigned_scenario_id L (ae_doc_id e) = None" "ae_scenario_id e = None"
      "(src = ENVELOPE_VERTICAL \<and> ae_vertical e = Some v) \<or>
       (src = SOURCE_MAPPING \<and> ae_vertical e = None \<and>
         (\<exists>rule. select_source_rule (ae_source e) (vc_source_mappings cfg) = Some rule \<and> sm_vertical rule = v))"
  | (unresolved) "r = unresolved_resolution (ae_source e)" "assigned_scenario_id L (ae_doc_id e) = None"
      "ae_scenario_id e = None" "ae_vertical e = None"
      "select_source_rule (ae_source e) (vc_source_mappings cfg) = None"
proof (cases "assigned_scenario_id L (ae_doc_id e)")
  case (Some i)
  with assms by_id show ?thesis
    by (auto simp: vertical_resolve_def resolve_review_assignment_def require_scenario_Inr)
next
  case None
  note a = None
  show ?thesis
  proof (cases "ae_scenario_id e")
    case (Some i)
    with a assms by_id show ?thesis
      by (auto simp: vertical_resolve_def resolve_scenario_id_def require_scenario_Inr)
  next
    case None
    note i = None
    show ?thesis
    proof (cases "ae_vertical e")
      case (Some v)
      with a i assms by_vertical show ?thesis
        by (auto simp: vertical_resolve_def resolve_vertical_def require_scenario_Inr)
    next
      case None
      with a i assms obtain m where m: "match_source_mapping lk cfg (ae_source e) = Inr m"
        and r: "r = (case m of None \<Rightarrow> unresolved_resolution (ae_source e) | Some x \<Rightarrow> x)"
        by (auto simp: vertical_resolve_def split: sum.splits option.splits)
      from match_source_mapping_Inr [OF m] r None a i by_vertical unresolved show ?thesis by auto
    qed
  qed
qed

context scenario_port
begin

lemma resolve_loadable:
  assumes "invar s" and "vertical_resolve (lookup s) cfg L e = Inr r" and "vr_scenario_id r = Some i"
  shows "\<exists>c. sl_get (lookup s) i = Inr (Some c) \<and> scenario_ok c \<and> sc_scenario_id c = i \<and>
             vr_vertical r = Some (sc_vertical c)"
  using assms(2)
proof (cases rule: vertical_resolve_Inr)
  case (by_id j c src reason)
  with assms(1,3) get_id get_ok show ?thesis by (fastforce simp: resolution_of_def)
next
  case (by_vertical v c src conf reason)
  then have "sl_get (lookup s) (sc_scenario_id c) = Inr (Some c)" by (intro vertical_get [OF assms(1)])
  with by_vertical assms(1,3) get_ok show ?thesis by (auto simp: resolution_of_def)
next
  case unresolved
  with assms(3) show ?thesis by (simp add: unresolved_resolution_def)
qed

text \<open>With a store that does not change in between, the second fetch never fails.\<close>

lemma load_of_resolution:
  assumes "invar s" and "vertical_resolve (lookup s) cfg (rs_ledger S) e = Inr r"
    and "vr_scenario_id r = Some i"
  shows "\<exists>c. vertical_load (lookup s) (lookup s) cfg now e S = (Inr (c, r), S) \<and> scenario_ok c \<and>
             sc_scenario_id c = i \<and> vr_vertical r = Some (sc_vertical c)"
  using resolve_loadable [OF assms] assms(2,3) by (auto simp: vertical_load_def)

end

lemma find_Some_split:
  "List.find P xs = Some x \<longleftrightarrow> (\<exists>ys zs. xs = ys @ x # zs \<and> P x \<and> (\<forall>y \<in> set ys. \<not> P y))"
proof
  show "List.find P xs = Some x \<Longrightarrow> \<exists>ys zs. xs = ys @ x # zs \<and> P x \<and> (\<forall>y \<in> set ys. \<not> P y)"
  proof (induction xs)
    case (Cons a xs)
    show ?case
    proof (cases "P a")
      case True
      with Cons.prems show ?thesis by (intro exI [of _ "[]"] exI [of _ xs]) simp
    next
      case False
      with Cons obtain ys zs where "xs = ys @ x # zs" "P x" "\<forall>y \<in> set ys. \<not> P y" by auto
      with False show ?thesis by (intro exI [of _ "a # ys"] exI [of _ zs]) simp
    qed
  qed simp
next
  assume "\<exists>ys zs. xs = ys @ x # zs \<and> P x \<and> (\<forall>y \<in> set ys. \<not> P y)"
  then obtain ys zs where "xs = ys @ x # zs" "P x" "\<forall>y \<in> set ys. \<not> P y" by blast
  then show "List.find P xs = Some x" by (induction ys arbitrary: xs) auto
qed

lemma suggest_loop_spec:
  "set suggestions = seen \<Longrightarrow> distinct suggestions \<Longrightarrow>
   distinct (suggest_loop p suggestions seen rules) \<and>
   set (suggest_loop p suggestions seen rules) =
     seen \<union> {sm_vertical r | r. r \<in> set rules \<and> split_first CHR '':'' (sm_match r) = p}"
proof (induction rules arbitrary: suggestions seen)
  case (Cons r rules)
  show ?case
  proof (cases "split_first CHR '':'' (sm_match r) = p \<and> sm_vertical r \<notin> seen")
    case True
    with Cons.prems have "set (suggestions @ [sm_vertical r]) = insert (sm_vertical r) seen"
      "distinct (suggestions @ [sm_vertical r])" by auto
    from Cons.IH [OF this] True show ?thesis by auto
  next
    case False
    with Cons.IH [OF Cons.prems] show ?thesis by auto
  qed
qed simp

lemma validate_mappings_Inr:
  "validate_mappings lk rules = Inr () \<longleftrightarrow>
     (\<forall>rule \<in> set rules. \<exists>s. sl_get_by_vertical lk (sm_vertical rule) = Inr (Some s))"
  by (induction rules) (auto split: sum.splits option.splits)

lemma validate_mappings_yaml_Inl:
  "validate_mappings (yaml_lookup Y) rules = Inl x \<Longrightarrow>
     (\<exists>ve. x = VerticalError ve \<and> ve_error_code ve = VERTICAL_MAPPING_INVALID) \<and>
     (\<exists>rule \<in> set rules. yaml_get_by_vertical Y (sm_vertical rule) = None)"
  by (induction rules) (auto simp: yaml_lookup_def vertical_exn_def split: option.splits)

lemma select_source_rule_mem: "select_source_rule src rules = Some rule \<Longrightarrow> rule \<in> set rules"
  by (auto simp: select_source_rule_def find_Some_split split: option.splits)

text \<open>Parking a document that is pending or already parked.\<close>

lemma park_row:
  fixes now :: datetime and res :: vertical_resolution and e :: arrival_envelope
    and r :: ledger_row and cfg :: vertical_loader_config
  assumes "ledger_ok (rs_ledger S)" and "ledger_get (rs_ledger S) (ae_doc_id e) = Some r"
    and "lr_status r = PENDING \<or> lr_status r = NEEDS_REVIEW" and "vc_park_unresolved cfg"
  defines "row \<equiv> next_row now (ae_doc_id e) r NEEDS_REVIEW NEEDS_REVIEW (Some VERTICAL_UNRESOLVED)
      (Some (vr_reason res)) None"
    and "entry \<equiv> \<lparr>pm_source = ae_source e, pm_blob_path = ae_blob_path e, pm_suggested_verticals =
      (if vc_suggest_verticals cfg then suggest_verticals (ae_source e) (vc_source_mappings cfg) else [])\<rparr>"
  shows "\<exists>L'. park cfg now e res S = (vertical_exn (ae_doc_id e) (vr_reason res) VERTICAL_UNRESOLVED,
      S\<lparr>rs_ledger := L', rs_registry := dict_set (ae_doc_id e) entry (rs_registry S)\<rparr>) \<and>
    ledger_ok L' \<and> ledger_get L' = (ledger_get (rs_ledger S))(ae_doc_id e \<mapsto> row)"
proof -
  have "fsm_edge (lr_status r) NEEDS_REVIEW" using assms(3) by auto
  from mem.transition_along_edge [OF assms(1,2) this, of "Some VERTICAL_UNRESOLVED" now "Some (vr_reason res)" None]
  show ?thesis using assms(4)
    by (auto simp: park_def Let_def registry_record_def row_def entry_def)
qed

lemma vertical_resolve_yaml_err:
  "vertical_resolve (yaml_lookup Y) cfg L e = Inl x \<Longrightarrow> se_error_code x = SCENARIO_NOT_FOUND"
  by (auto simp: vertical_resolve_def resolve_review_assignment_def resolve_scenario_id_def resolve_vertical_def
      match_source_mapping_def require_scenario_Inl yaml_lookup_def scenario_exn_def map_sum_def
      split: option.splits sum.splits)

lemma vertical_load_unresolved:
  assumes "vertical_resolve lk cfg (rs_ledger S) e = Inr (unresolved_resolution src)"
  shows "vertical_load lk lk2 cfg now e S = map_prod Inl id (park cfg now e (unresolved_resolution src) S)"
  using assms by (simp add: vertical_load_def) (simp add: unresolved_resolution_def)

text \<open>Operations that record no assignment leave the recorded one alone.\<close>

fun op_assigns :: "ledger_op \<Rightarrow> string option" where
  "op_assigns (CreateOp now d s) = None"
| "op_assigns (TransitionOp now d to st ec em a) = a"

lemma assigned_step:
  assumes "assigned_scenario_id L d = Some i" and "op_assigns a = None"
  shows "assigned_scenario_id (ledger_step L a) d = Some i"
proof (cases a)
  case (CreateOp now d' s)
  with assms show ?thesis
    by (cases now d' s L rule: ledger_create_cases) (auto simp: assigned_scenario_id_def)
next
  case (TransitionOp now d' to st ec em asg)
  with assms show ?thesis
    by (cases now d' to st ec em asg L rule: ledger_transition_cases)
      (auto simp: assigned_scenario_id_def next_assigned_scenario_id_def split: option.splits)
qed

lemma assigned_run:
  "assigned_scenario_id L d = Some i \<Longrightarrow> \<forall>a \<in> set ops. op_assigns a = None \<Longrightarrow>
   assigned_scenario_id (ledger_run L ops) d = Some i"
  by (induction ops arbitrary: L) (auto simp: assigned_step)

lemma review_assign_parked:
  assumes "ledger_ok (rs_ledger S)" and "ledger_get (rs_ledger S) d = Some r" and "lr_status r = NEEDS_REVIEW"
    and "sl_get lk sid = Inr (Some c)"
  shows "\<exists>S'. review_assign lk now d sid S = (Inr (), S') \<and> ledger_ok (rs_ledger S') \<and>
    ledger_get (rs_ledger S') = (ledger_get (rs_ledger S))(d \<mapsto> next_row now d r PENDING PENDING None None (Some sid)) \<and>
    rs_registry S' = registry_discard d (rs_registry S)"
proof -
  have edge: "fsm_edge (lr_status r) PENDING" using assms(3) by simp
  have "require_needs_review (rs_ledger S) d ''assign'' = Inr ()"
    using assms(2,3) by (simp add: require_needs_review_ok)
  with review_commit_along_edge [OF assms(1,2) edge, of None now None "Some sid"] assms(4) show ?thesis
    by (auto simp: review_assign_def review_assign_commit_def)
qed

section \<open>Properties\<close>


text \<open>A pending document without signals, and a one-scenario store, for concrete instances.\<close>

definition demo_envelope :: arrival_envelope where
  "demo_envelope = \<lparr>ae_doc_id = demo_id, ae_source = ''blob:misc'', ae_blob_path = ''a.pdf'', ae_vertical = None,
     ae_scenario_id = None, ae_allowed_groups = [], ae_trust_tier = INTERNAL, ae_content_hash = demo_id,
     ae_received_at = 0\<rparr>"

definition demo_config :: vertical_loader_config where
  "demo_config = \<lparr>vc_source_mappings = [\<lparr>sm_match = ''blob:hr-*'', sm_vertical = ''hr''\<rparr>],
     vc_park_unresolved = True, vc_suggest_verticals = True\<rparr>"

definition demo_pending :: review_state where
  "demo_pending = \<lparr>rs_ledger = ledger_put demo_id (fresh_row 0 demo_id \<lparr>es_config_version = ''1''\<rparr>) (ledger_init 100),
     rs_registry = []\<rparr>"

definition demo_yaml :: yaml_store where
  "demo_yaml = [(''hr-v1'', demo_scenario)]"

lemma demo_yaml_ok: "yaml_ok demo_yaml"
  using demo_scenario_ok by (simp add: yaml_ok_def demo_yaml_def) (simp add: demo_scenario_def)

lemma demo_yaml_get: "yaml_get demo_yaml ''hr-v1'' = Some demo_scenario"
  by (simp add: yaml_get_def demo_yaml_def)

lemma demo_pending_row:
  "ledger_ok (rs_ledger demo_pending)"
  "ledger_get (rs_ledger demo_pending) demo_id = Some (fresh_row 0 demo_id \<lparr>es_config_version = ''1''\<rparr>)"
proof -
  have "row_ok demo_id (fresh_row 0 demo_id \<lparr>es_config_version = ''1''\<rparr>)" by (simp add: row_ok_def fresh_row_def)
  then show "ledger_ok (rs_ledger demo_pending)" by (simp add: demo_pending_def ledger_ok_put ledger_ok_init)
qed (simp add: demo_pending_def)

lemma demo_unresolved:
  "vertical_resolve lk demo_config (rs_ledger demo_pending) demo_envelope = Inr (unresolved_resolution ''blob:misc'')"
proof -
  have "assigned_scenario_id (rs_ledger demo_pending) demo_id = None"
    by (simp add: assigned_scenario_id_def demo_pending_row(2) fresh_row_def)
  moreover have "select_source_rule ''blob:misc'' (vc_source_mappings demo_config) = None"
    by (simp add: demo_config_def select_source_rule_def is_glob_def fnmatchcase_def)
  ultimately show ?thesis
    by (simp add: vertical_resolve_def demo_envelope_def match_source_mapping_def)
qed


text \<open>
  C12. The review round trip closes: after an unresolved document was parked and a reviewer assigned
  it a scenario, redelivery of the same envelope, under any later configuration and after any
  further ledger calls that assign nothing, loads exactly the assigned scenario.
\<close>

theorem park_assign_redeliver:
  assumes "yaml_ok Y" and "ledger_ok (rs_ledger S)" and "ledger_get (rs_ledger S) (ae_doc_id e) = Some row"
    and "lr_status row = PENDING" and "vc_park_unresolved cfg"
    and "vertical_resolve (yaml_lookup Y) cfg (rs_ledger S) e = Inr (unresolved_resolution (ae_source e))"
    and "yaml_get Y sid = Some c"
    and "vertical_load (yaml_lookup Y) (yaml_lookup Y) cfg t1 e S = (x, S1)"
    and "review_assign (yaml_lookup Y) t2 (ae_doc_id e) sid S1 = (y, S2)"
    and "\<forall>a \<in> set ops. op_assigns a = None"
    and "S3 = S2\<lparr>rs_ledger := ledger_run (rs_ledger S2) ops\<rparr>"
  shows "y = Inr () \<and> (\<exists>r. vertical_load (yaml_lookup Y) (yaml_lookup Y) cfg2 t3 e S3 = (Inr (c, r), S3) \<and>
     vr_source r = REVIEW_ASSIGNMENT \<and> vr_scenario_id r = Some sid)"
proof -
  let ?d = "ae_doc_id e"
  obtain L1 where L1: "rs_ledger S1 = L1" "ledger_ok L1"
    "\<exists>r1. ledger_get L1 ?d = Some r1 \<and> lr_status r1 = NEEDS_REVIEW"
    using park_row [OF assms(2,3) _ assms(5), of t1 "unresolved_resolution (ae_source e)"] assms(4,8)
      vertical_load_unresolved [OF assms(6), of "yaml_lookup Y" t1] by auto
  then obtain r1 where r1: "ledger_get (rs_ledger S1) ?d = Some r1" "lr_status r1 = NEEDS_REVIEW" by blast
  have get: "sl_get (yaml_lookup Y) sid = Inr (Some c)" using assms(7) by (simp add: yaml_lookup_def)
  have "y = Inr ()" and a2: "assigned_scenario_id (rs_ledger S2) ?d = Some sid"
    using review_assign_parked [OF L1(2) [folded L1(1)] r1 get, of t2] assms(9)
    by (auto simp: assigned_scenario_id_def next_assigned_scenario_id_def)
  from assigned_run [OF a2 assms(10)] have "assigned_scenario_id (rs_ledger S3) ?d = Some sid"
    using assms(11) by simp
  moreover have "sc_scenario_id c = sid" using yml.get_id [OF assms(1) get] .
  ultimately show ?thesis using \<open>y = Inr ()\<close> get
    by (simp add: vertical_load_def vertical_resolve_def resolve_review_assignment_def require_scenario_def
        resolution_of_def)
qed

theorem park_assign_redeliver_witness:
  "\<exists>S3 r. vertical_load (yaml_lookup demo_yaml) (yaml_lookup demo_yaml) demo_config 9 demo_envelope S3 =
     (Inr (demo_scenario, r), S3) \<and> vr_source r = REVIEW_ASSIGNMENT"
proof -
  have e: "ae_doc_id demo_envelope = demo_id" "ae_source demo_envelope = ''blob:misc''"
    by (simp_all add: demo_envelope_def)
  obtain x S1 where 1: "vertical_load (yaml_lookup demo_yaml) (yaml_lookup demo_yaml) demo_config 1 demo_envelope demo_pending = (x, S1)"
    by fastforce
  obtain y S2 where 2: "review_assign (yaml_lookup demo_yaml) 2 demo_id ''hr-v1'' S1 = (y, S2)" by fastforce
  have s: "lr_status (fresh_row 0 demo_id \<lparr>es_config_version = ''1''\<rparr>) = PENDING" "vc_park_unresolved demo_config"
    "\<forall>a \<in> set [advance_op demo_id ANALYZING]. op_assigns a = None"
    by (simp_all add: fresh_row_def demo_config_def advance_op_def)
  from park_assign_redeliver [OF demo_yaml_ok demo_pending_row(1) demo_pending_row(2) [folded e(1)]
      s(1) [folded e(1)] s(2)
      demo_unresolved [folded e(2)] demo_yaml_get 1 2 [folded e(1)] s(3) refl, of demo_config 9]
  show ?thesis by blast
qed

text \<open>
  An unresolved document is parked, not lost: \<open>load\<close> raises \<open>VERTICAL_UNRESOLVED\<close>, its row and
  no other moves to \<open>NEEDS_REVIEW\<close> with the reason recorded, and the review queue lists it with the
  envelope's source and path, the reason, and the suggested verticals.
\<close>

theorem unresolved_load_parks:
  assumes "ledger_ok (rs_ledger S)" and "ledger_get (rs_ledger S) (ae_doc_id e) = Some row"
    and "lr_status row = PENDING" and "vc_park_unresolved cfg" and "vc_suggest_verticals cfg"
    and "vertical_resolve lk cfg (rs_ledger S) e = Inr (unresolved_resolution (ae_source e))"
    and "vertical_load lk lk2 cfg now e S = (x, S')"
    and "int (length (ls_rows (rs_ledger S'))) \<le> limit"
  shows "(\<exists>v. x = Inl (VerticalError v) \<and> ve_error_code v = VERTICAL_UNRESOLVED) \<and>
     (\<exists>row'. ledger_get (rs_ledger S') = (ledger_get (rs_ledger S))(ae_doc_id e \<mapsto> row') \<and>
        lr_status row' = NEEDS_REVIEW \<and> lr_last_error_code row' = Some VERTICAL_UNRESOLVED) \<and>
     \<lparr>ri_doc_id = ae_doc_id e, ri_source = ae_source e, ri_blob_path = ae_blob_path e,
      ri_reason = vr_reason (unresolved_resolution (ae_source e)), ri_parked_at = now,
      ri_suggested_verticals = suggest_verticals (ae_source e) (vc_source_mappings cfg)\<rparr>
       \<in> set (list_pending S' limit)"
proof -
  let ?u = "unresolved_resolution (ae_source e)"
  let ?row = "next_row now (ae_doc_id e) row NEEDS_REVIEW NEEDS_REVIEW (Some VERTICAL_UNRESOLVED) (Some (vr_reason ?u)) None"
  obtain L' where L': "park cfg now e ?u S = (vertical_exn (ae_doc_id e) (vr_reason ?u) VERTICAL_UNRESOLVED,
      S\<lparr>rs_ledger := L', rs_registry := dict_set (ae_doc_id e) \<lparr>pm_source = ae_source e, pm_blob_path = ae_blob_path e,
        pm_suggested_verticals = suggest_verticals (ae_source e) (vc_source_mappings cfg)\<rparr> (rs_registry S)\<rparr>)"
    "ledger_ok L'" "ledger_get L' = (ledger_get (rs_ledger S))(ae_doc_id e \<mapsto> ?row)"
    using park_row [OF assms(1,2) _ assms(4), of now ?u] assms(3,5) by auto
  have r: "vr_reason ?u \<noteq> []" by (simp add: unresolved_resolution_def)
  have res: "(x, S') = map_prod Inl id (park cfg now e ?u S)"
    using assms(7) vertical_load_unresolved [OF assms(6), of lk2 now] by simp
  then have S': "rs_ledger S' = L'" "x = Inl (vertical_exn (ae_doc_id e) (vr_reason ?u) VERTICAL_UNRESOLVED)"
    "rs_registry S' = dict_set (ae_doc_id e) \<lparr>pm_source = ae_source e, pm_blob_path = ae_blob_path e,
        pm_suggested_verticals = suggest_verticals (ae_source e) (vc_source_mappings cfg)\<rparr> (rs_registry S)"
    using L'(1) by simp_all
  have "review_item_of (rs_registry S') ?row \<in> set (list_pending S' limit)"
    using L'(2,3) S'(1) assms(8) by (intro list_pending_item [where d = "ae_doc_id e"]) simp_all
  moreover have "review_item_of (rs_registry S') ?row = \<lparr>ri_doc_id = ae_doc_id e, ri_source = ae_source e,
      ri_blob_path = ae_blob_path e, ri_reason = vr_reason ?u, ri_parked_at = now,
      ri_suggested_verticals = suggest_verticals (ae_source e) (vc_source_mappings cfg)\<rparr>"
    using S'(3) r assms(3) by (simp add: review_item_of_def registry_get_def next_error_fields_def str_or_def)
  ultimately show ?thesis
    using S' L'(3) assms(3) by (auto simp: vertical_exn_def next_error_fields_def)
qed

theorem unresolved_load_parks_witness:
  "\<exists>S' i. i \<in> set (list_pending S' 1) \<and> ri_doc_id i = demo_id \<and> ri_suggested_verticals i = [''hr''] \<and>
     snd (vertical_load (yaml_lookup demo_yaml) (yaml_lookup demo_yaml) demo_config 1 demo_envelope demo_pending) = S'"
proof -
  have e: "ae_doc_id demo_envelope = demo_id" "ae_source demo_envelope = ''blob:misc''"
    by (simp_all add: demo_envelope_def)
  have s: "lr_status (fresh_row 0 demo_id \<lparr>es_config_version = ''1''\<rparr>) = PENDING" "vc_park_unresolved demo_config"
    "vc_suggest_verticals demo_config" "suggest_verticals ''blob:misc'' (vc_source_mappings demo_config) = [''hr'']"
    by (simp_all add: fresh_row_def demo_config_def suggest_verticals_def split_first_def)
  obtain x S1 where 1: "vertical_load (yaml_lookup demo_yaml) (yaml_lookup demo_yaml) demo_config 1 demo_envelope demo_pending = (x, S1)"
    by fastforce
  have "int (length (ls_rows (rs_ledger S1))) \<le> 1"
  proof -
    have "S1 = snd (park demo_config 1 demo_envelope (unresolved_resolution ''blob:misc'') demo_pending)"
      using 1 vertical_load_unresolved [OF demo_unresolved, of "yaml_lookup demo_yaml" "yaml_lookup demo_yaml" 1]
      by (metis apsnd_conv id_apply map_prod_simp snd_conv snd_map_prod)
    then show ?thesis
      by (simp add: park_def s e ledger_eval demo_pending_def triaged_def)
  qed
  from unresolved_load_parks [OF demo_pending_row(1) demo_pending_row(2) [folded e(1)] s(1) [folded e(1)] s(2,3)
      demo_unresolved [folded e(2)] 1 this] 1 s(4) e show ?thesis
    by fastforce
qed

text \<open>
  The mapping rule selected for a source is the first exact rule, or, when no exact rule
  matches, the first glob rule that matches; none is selected exactly when no rule matches. A glob
  rule made of a literal and a final star matches the sources that start with the literal.
\<close>

theorem source_rule_precedence:
  "(select_source_rule src rules = Some r \<longleftrightarrow>
      (\<exists>before after. rules = before @ r # after \<and>
        (\<not> is_glob (sm_match r) \<and> sm_match r = src \<and> (\<forall>q \<in> set before. sm_match q \<noteq> src \<or> is_glob (sm_match q)) \<or>
         is_glob (sm_match r) \<and> fnmatchcase src (sm_match r) \<and>
           (\<forall>q \<in> set rules. is_glob (sm_match q) \<or> sm_match q \<noteq> src) \<and>
           (\<forall>q \<in> set before. \<not> (is_glob (sm_match q) \<and> fnmatchcase src (sm_match q)))))) \<and>
   (select_source_rule src rules = None \<longleftrightarrow>
      (\<forall>q \<in> set rules. if is_glob (sm_match q) then \<not> fnmatchcase src (sm_match q) else sm_match q \<noteq> src)) \<and>
   (\<not> is_glob lit \<longrightarrow> (fnmatchcase src (lit @ ''*'') \<longleftrightarrow> startswith src lit))"
proof (intro conjI)
  let ?exact = "\<lambda>rule. \<not> is_glob (sm_match rule) \<and> sm_match rule = src"
  let ?glob = "\<lambda>rule. is_glob (sm_match rule) \<and> fnmatchcase src (sm_match rule)"
  show "select_source_rule src rules = None \<longleftrightarrow>
      (\<forall>q \<in> set rules. if is_glob (sm_match q) then \<not> fnmatchcase src (sm_match q) else sm_match q \<noteq> src)"
    by (auto simp: select_source_rule_def find_None_iff split: option.splits)
      (auto simp: find_Some_split)
  show "\<not> is_glob lit \<longrightarrow> (fnmatchcase src (lit @ ''*'') \<longleftrightarrow> startswith src lit)"
    using fnmatchcase_prefix [of lit src] by (auto simp: plain_def is_glob_def)
  show "select_source_rule src rules = Some r \<longleftrightarrow>
      (\<exists>before after. rules = before @ r # after \<and>
        (\<not> is_glob (sm_match r) \<and> sm_match r = src \<and> (\<forall>q \<in> set before. sm_match q \<noteq> src \<or> is_glob (sm_match q)) \<or>
         is_glob (sm_match r) \<and> fnmatchcase src (sm_match r) \<and>
           (\<forall>q \<in> set rules. is_glob (sm_match q) \<or> sm_match q \<noteq> src) \<and>
           (\<forall>q \<in> set before. \<not> (is_glob (sm_match q) \<and> fnmatchcase src (sm_match q)))))"
    (is "_ \<longleftrightarrow> ?rhs")
  proof (cases "List.find ?exact rules")
    case None
    then have "\<forall>q \<in> set rules. \<not> ?exact q" by (simp add: find_None_iff)
    with None show ?thesis
      by (simp add: select_source_rule_def find_Some_split) (use in_set_conv_decomp in fastforce)
  next
    case (Some q)
    then have "\<exists>q \<in> set rules. ?exact q" by (auto simp: find_Some_split)
    moreover have "select_source_rule src rules = Some r \<longleftrightarrow> List.find ?exact rules = Some r"
      using Some by (simp add: select_source_rule_def)
    ultimately show ?thesis unfolding find_Some_split by blast
  qed
qed

theorem source_rule_precedence_witness:
  "select_source_rule ''blob:hr-1'' [\<lparr>sm_match = ''blob:*'', sm_vertical = ''any''\<rparr>, \<lparr>sm_match = ''blob:hr-1'', sm_vertical = ''hr''\<rparr>] =
     Some \<lparr>sm_match = ''blob:hr-1'', sm_vertical = ''hr''\<rparr> \<and> startswith ''blob:hr-1'' ''blob:''"
proof -
  let ?any = "\<lparr>sm_match = ''blob:*'', sm_vertical = ''any''\<rparr>" and ?hr = "\<lparr>sm_match = ''blob:hr-1'', sm_vertical = ''hr''\<rparr>"
  have g: "\<not> is_glob ''blob:hr-1''" "is_glob ''blob:*''" "\<not> is_glob ''blob:''" by (simp_all add: is_glob_def)
  have "select_source_rule ''blob:hr-1'' [?any, ?hr] = Some ?hr"
    by (rule source_rule_precedence [of _ _ _ "[]", THEN conjunct1, THEN iffD2])
      (rule exI [of _ "[?any]"], rule exI [of _ "[]"], simp add: g)
  moreover have "fnmatchcase ''blob:hr-1'' (''blob:'' @ ''*'') \<longleftrightarrow> startswith ''blob:hr-1'' ''blob:''"
    using source_rule_precedence [of "''blob:hr-1''" "[]" ?hr "''blob:''"] g(3) by blast
  moreover have "fnmatchcase ''blob:hr-1'' (''blob:'' @ ''*'')" by (simp add: fnmatchcase_def)
  ultimately show ?thesis by blast
qed

text \<open>
  The construction-time check is what resolution needs: it fails exactly when some rule's
  vertical has no enabled scenario, with \<open>VERTICAL_MAPPING_INVALID\<close>, and once it passed, an envelope
  without an explicit signal always resolves to a mapping or to unresolved and never raises.
\<close>

theorem validated_mappings_resolve:
  assumes "validate_mappings (yaml_lookup Y) (vc_source_mappings cfg) = v"
  shows "(case v of
       Inl x \<Rightarrow> (\<exists>ve. x = VerticalError ve \<and> ve_error_code ve = VERTICAL_MAPPING_INVALID) \<and>
         (\<exists>rule \<in> set (vc_source_mappings cfg). yaml_get_by_vertical Y (sm_vertical rule) = None)
     | Inr _ \<Rightarrow> assigned_scenario_id L (ae_doc_id e) = None \<and> ae_scenario_id e = None \<and> ae_vertical e = None \<longrightarrow>
         (\<exists>r. vertical_resolve (yaml_lookup Y) cfg L e = Inr r \<and>
           (case select_source_rule (ae_source e) (vc_source_mappings cfg) of
              None \<Rightarrow> r = unresolved_resolution (ae_source e)
            | Some rule \<Rightarrow> vr_source r = SOURCE_MAPPING \<and> vr_scenario_id r \<noteq> None)))"
proof (cases v)
  case (Inl x)
  with assms have "validate_mappings (yaml_lookup Y) (vc_source_mappings cfg) = Inl x" by simp
  from validate_mappings_yaml_Inl [OF this] Inl show ?thesis by simp
next
  case (Inr u)
  then have all: "\<forall>rule \<in> set (vc_source_mappings cfg). \<exists>s. yaml_get_by_vertical Y (sm_vertical rule) = Some s"
    using assms validate_mappings_Inr [of "yaml_lookup Y" "vc_source_mappings cfg"] by (simp add: yaml_lookup_def)
  show ?thesis
  proof (cases "select_source_rule (ae_source e) (vc_source_mappings cfg)")
    case None
    with Inr show ?thesis by (simp add: vertical_resolve_def match_source_mapping_def)
  next
    case (Some rule)
    with all obtain s where "yaml_get_by_vertical Y (sm_vertical rule) = Some s"
      using select_source_rule_mem by blast
    with Inr Some show ?thesis
      by (simp add: vertical_resolve_def match_source_mapping_def require_scenario_def yaml_lookup_def resolution_of_def)
  qed
qed

theorem validated_mappings_resolve_witness:
  "\<exists>r. vertical_resolve (yaml_lookup demo_yaml) demo_config (rs_ledger demo_pending)
     (demo_envelope\<lparr>ae_source := ''blob:hr-1''\<rparr>) = Inr r \<and> vr_source r = SOURCE_MAPPING"
proof -
  let ?e = "demo_envelope\<lparr>ae_source := ''blob:hr-1''\<rparr>"
  have "yaml_get_by_vertical demo_yaml ''hr'' = Some demo_scenario"
    by (simp add: yaml_get_by_vertical_def demo_yaml_def select_enabled_for_vertical_def) (simp add: demo_scenario_def)
  then have "validate_mappings (yaml_lookup demo_yaml) (vc_source_mappings demo_config) = Inr ()"
    by (simp add: demo_config_def yaml_lookup_def)
  moreover have "select_source_rule ''blob:hr-1'' (vc_source_mappings demo_config) =
      Some \<lparr>sm_match = ''blob:hr-*'', sm_vertical = ''hr''\<rparr>"
    by (simp add: demo_config_def select_source_rule_def is_glob_def fnmatchcase_def)
  ultimately show ?thesis
    using validated_mappings_resolve [of demo_yaml demo_config "Inr ()" "rs_ledger demo_pending" ?e]
    by (simp add: demo_envelope_def assigned_scenario_id_def demo_pending_row(2))
      (auto simp: fresh_row_def)
qed

text \<open>
  Suggestions are hints without repetition: they are exactly the verticals of the rules whose
  text before the first colon equals that of the source.
\<close>

theorem suggestions_exact:
  "distinct (suggest_verticals src rules) \<and>
   set (suggest_verticals src rules) =
     {sm_vertical r | r. r \<in> set rules \<and> split_first CHR '':'' (sm_match r) = split_first CHR '':'' src}"
  using suggest_loop_spec [of "[]" "{}" "split_first CHR '':'' src" rules] by (simp add: suggest_verticals_def)

text \<open>
  Parking is not undone when it loses: for an unresolved document whose row has already moved
  on, \<open>load\<close> leaves the row as it is but still writes the registry entry, so the registry holds an
  entry for a document that is not in review; for a failed row it also raises the ledger's
  exception instead of \<open>VERTICAL_UNRESOLVED\<close>. A document already in review is parked again: its row
  gets a new attempt and a new time.
\<close>

theorem park_of_moved_document:
  assumes "ledger_ok (rs_ledger S)" and "ledger_get (rs_ledger S) (ae_doc_id e) = Some row"
    and "lr_status row \<noteq> PENDING" and "vc_park_unresolved cfg" and "park cfg now e res S = (x, S')"
  shows "map_of (rs_registry S') (ae_doc_id e) \<noteq> None \<and>
    (if lr_status row = NEEDS_REVIEW
     then \<exists>row'. ledger_get (rs_ledger S') (ae_doc_id e) = Some row' \<and> lr_status row' = NEEDS_REVIEW \<and>
       lr_attempts row' = lr_attempts row + 1 \<and> lr_updated_at row' = now
     else rs_ledger S' = rs_ledger S \<and>
       (if lr_status row = FAILED then \<exists>t. x = VLedgerError (LedgerTransitionInvalid t)
        else x = vertical_exn (ae_doc_id e) (vr_reason res) VERTICAL_UNRESOLVED))"
proof (cases "lr_status row = NEEDS_REVIEW")
  case True
  with park_row [OF assms(1,2) _ assms(4), of now res] assms(5) show ?thesis
    by (auto simp: next_attempts_def)
next
  case False
  have "\<not> fsm_edge (lr_status row) NEEDS_REVIEW" by (cases "lr_status row") (use assms(3) False in simp_all)
  then obtain t where t: "ledger_transition now (ae_doc_id e) NEEDS_REVIEW NEEDS_REVIEW (Some VERTICAL_UNRESOLVED)
      (Some (vr_reason res)) None (rs_ledger S) = (Inl (LedgerTransitionInvalid t), rs_ledger S)"
    "ti_observed_row t = Some row"
    using mem.transition_off_edge [OF assms(1,2), of NEEDS_REVIEW now "Some VERTICAL_UNRESOLVED" "Some (vr_reason res)" None]
    by blast
  have "is_benign_concurrent_loss (Some row) NEEDS_REVIEW NEEDS_REVIEW = Some (lr_status row \<noteq> FAILED)"
    using is_benign_row [of row NEEDS_REVIEW] ledger_okD [OF assms(1,2)] assms(3) by (simp add: row_ok_def)
  with t False assms(4,5) show ?thesis
    by (auto simp: park_def triaged_def registry_record_def Let_def split: if_splits)
qed

theorem park_of_moved_document_witness:
  "map_of (rs_registry (snd (park demo_config 5 demo_envelope (unresolved_resolution ''blob:misc'') demo_parked))) demo_id \<noteq> None"
proof -
  obtain row where row: "ledger_get (rs_ledger demo_parked) demo_id = Some row" "lr_status row = NEEDS_REVIEW"
    using demo_parked_ok(2) by blast
  have d: "ae_doc_id demo_envelope = demo_id" by (simp add: demo_envelope_def)
  have c: "vc_park_unresolved demo_config" "lr_status row \<noteq> PENDING" by (simp_all add: demo_config_def row(2))
  obtain x S' where 1: "park demo_config 5 demo_envelope (unresolved_resolution ''blob:misc'') demo_parked = (x, S')"
    by fastforce
  from park_of_moved_document [OF demo_parked_ok(1) row(1) [folded d] c(2,1) 1] 1 d show ?thesis by simp
qed

end
