(* ===== verification/Reprocessor.thy ===== *)
theory Reprocessor
  imports Ledger Errors "HOL-Library.Multiset"
begin

text \<open>
  The poison-queue reprocessor, \<open>src/vestibule/reprocessor/reprocessor.py\<close> and
  \<open>src/vestibule/reprocessor/model.py\<close>: listing and summarising failed documents, requeuing one or a
  batch, archiving. \<open>requeue\<close> and \<open>archive\<close> read the row and then write it; the ledger calls other
  threads make in between are the argument \<open>between\<close>, and those they make between two documents of
  a batch are part of the batch's interference, so that the empty lists give the sequential runs.
\<close>

section \<open>Data\<close>

abbreviation REPROCESS_NOT_FAILED :: string where "REPROCESS_NOT_FAILED \<equiv> ''REPROCESS_NOT_FAILED''"
abbreviation REPROCESS_DOC_NOT_FOUND :: string where "REPROCESS_DOC_NOT_FOUND \<equiv> ''REPROCESS_DOC_NOT_FOUND''"
abbreviation UNKNOWN_ERROR_CODE :: string where "UNKNOWN_ERROR_CODE \<equiv> ''UNKNOWN''"
abbreviation UNKNOWN_STAGE :: string where "UNKNOWN_STAGE \<equiv> ''unknown''"

record failed_item =
  fi_doc_id :: string
  fi_source :: "string option"
  fi_blob_path :: "string option"
  fi_stage :: string
  fi_error_code :: string
  fi_error_message :: "string option"
  fi_severity :: severity
  fi_attempts :: int
  fi_failed_at :: datetime
  fi_first_ingested_at :: datetime
  fi_assigned_scenario_id :: "string option"

record failure_summary =
  fs_total :: int
  fs_by_error_code :: "(string, int) dict"
  fs_by_stage :: "(string, int) dict"
  fs_oldest_failure_at :: "datetime option"
  fs_newest_failure_at :: "datetime option"

record requeue_result =
  rq_doc_id :: string
  rq_previous_error_code :: string
  rq_requeued_at :: datetime

record batch_requeue_result =
  br_error_code :: string
  br_requeued :: "string list"
  br_skipped :: "string list"

record reprocessor_error =
  rp_doc_id :: string
  rp_reason :: string
  rp_error_code :: string

datatype reprocessor_exn =
  ReprocessorError reprocessor_error
| RLedgerError ledger_exn

definition reprocessor_exn :: "string \<Rightarrow> string \<Rightarrow> string \<Rightarrow> reprocessor_exn" where
  "reprocessor_exn doc_id reason code =
     ReprocessorError \<lparr>rp_doc_id = doc_id, rp_reason = reason, rp_error_code = code\<rparr>"

definition SCAN_LIMIT :: int where "SCAN_LIMIT = 10000"

definition stage_prefixes :: "(string \<times> string) list" where
  "stage_prefixes =
     [(''ANALYZER_'', status_value ANALYZING), (''PARSER_'', status_value ANALYZING),
      (''DOCINT_'', status_value ANALYZING), (''CHUNKER_'', status_value CHUNKING),
      (''TOKENIZER_'', status_value CHUNKING), (''EMBEDDER_'', status_value EMBEDDING),
      (''INDEXER_'', status_value INDEXING)]"

section \<open>Reading\<close>

fun infer_stage_loop :: "string \<Rightarrow> (string \<times> string) list \<Rightarrow> string" where
  "infer_stage_loop error_code [] = UNKNOWN_STAGE"
| "infer_stage_loop error_code ((p, stage) # rest) =
     (if startswith error_code p then stage else infer_stage_loop error_code rest)"

definition infer_stage :: "string \<Rightarrow> string" where
  "infer_stage error_code = infer_stage_loop error_code stage_prefixes"

definition to_failed_item :: "error_registry \<Rightarrow> ledger_row \<Rightarrow> failed_item" where
  "to_failed_item reg row =
     (let error_code = str_or (lr_last_error_code row) UNKNOWN_ERROR_CODE in
      \<lparr>fi_doc_id = lr_doc_id row, fi_source = None, fi_blob_path = None,
       fi_stage = infer_stage error_code, fi_error_code = error_code,
       fi_error_message = lr_last_error_message row, fi_severity = classify reg error_code,
       fi_attempts = lr_attempts row, fi_failed_at = lr_updated_at row,
       fi_first_ingested_at = lr_ingested_at row,
       fi_assigned_scenario_id = lr_assigned_scenario_id row\<rparr>)"

text \<open>A filter that is applied only when its argument was given.\<close>

definition filter_by :: "'b option \<Rightarrow> ('b \<Rightarrow> 'a \<Rightarrow> bool) \<Rightarrow> 'a list \<Rightarrow> 'a list" where
  "filter_by x P items = (case x of None \<Rightarrow> items | Some v \<Rightarrow> filter (P v) items)"

definition list_failed ::
    "error_registry \<Rightarrow> ledger_store \<Rightarrow> int \<Rightarrow> string option \<Rightarrow> string option \<Rightarrow> datetime option \<Rightarrow>
     failed_item list" where
  "list_failed reg L limit error_code stage since =
     (if limit \<le> 0 then []
      else
        let rows = ledger_list_by_status L FAILED SCAN_LIMIT;
            items = map (to_failed_item reg) rows;
            items = filter_by error_code (\<lambda>c item. fi_error_code item = c) items;
            items = filter_by stage (\<lambda>s item. fi_stage item = s) items;
            items = filter_by since (\<lambda>t item. fi_failed_at item \<ge> t) items
        in slice_to limit items)"

definition count_in :: "string \<Rightarrow> (string, int) dict \<Rightarrow> (string, int) dict" where
  "count_in k d = dict_set k ((case dict_get d k of None \<Rightarrow> 0 | Some n \<Rightarrow> n) + 1) d"

fun summarize_loop :: "ledger_row list \<Rightarrow> failure_summary \<Rightarrow> failure_summary" where
  "summarize_loop [] acc = acc"
| "summarize_loop (row # rows) acc =
     (let error_code = str_or (lr_last_error_code row) UNKNOWN_ERROR_CODE;
          stage = infer_stage error_code;
          t = lr_updated_at row
      in summarize_loop rows (acc\<lparr>
           fs_by_error_code := count_in error_code (fs_by_error_code acc),
           fs_by_stage := count_in stage (fs_by_stage acc),
           fs_oldest_failure_at := (case fs_oldest_failure_at acc of
              None \<Rightarrow> Some t | Some old \<Rightarrow> if t < old then Some t else Some old),
           fs_newest_failure_at := (case fs_newest_failure_at acc of
              None \<Rightarrow> Some t | Some new \<Rightarrow> if t > new then Some t else Some new)\<rparr>))"

definition summarize :: "ledger_store \<Rightarrow> failure_summary" where
  "summarize L =
     (let rows = ledger_list_by_status L FAILED SCAN_LIMIT
      in summarize_loop rows \<lparr>fs_total = int (length rows), fs_by_error_code = [], fs_by_stage = [],
           fs_oldest_failure_at = None, fs_newest_failure_at = None\<rparr>)"

section \<open>Decisions\<close>

definition require_failed :: "ledger_store \<Rightarrow> string \<Rightarrow> string \<Rightarrow> reprocessor_exn + ledger_row" where
  "require_failed L doc_id caller = (case ledger_get L doc_id of
       None \<Rightarrow> Inl (reprocessor_exn doc_id (caller @ ''() called for an unknown doc_id'') REPROCESS_DOC_NOT_FOUND)
     | Some current \<Rightarrow>
         if lr_status current \<noteq> FAILED
         then Inl (reprocessor_exn doc_id (caller @ ''() called for a doc_id not currently failed (status='' @
                status_value (lr_status current) @ '')'') REPROCESS_NOT_FAILED)
         else Inr current)"

definition requeue ::
    "datetime \<Rightarrow> ledger_op list \<Rightarrow> string \<Rightarrow> ledger_store \<Rightarrow>
     (reprocessor_exn, requeue_result, ledger_store) outcome" where
  "requeue now between doc_id L =
     (case require_failed L doc_id ''requeue'' of
        Inl e \<Rightarrow> (Inl e, L)
      | Inr current \<Rightarrow>
          (let previous_error_code = str_or (lr_last_error_code current) UNKNOWN_ERROR_CODE in
           case triaged PENDING (ledger_transition now doc_id PENDING PENDING None None None (ledger_run L between)) of
             (Inl e, L') \<Rightarrow> (Inl (RLedgerError e), L')
           | (Inr row, L') \<Rightarrow> (Inr \<lparr>rq_doc_id = doc_id, rq_previous_error_code = previous_error_code,
                 rq_requeued_at = lr_updated_at row\<rparr>, L')))"

text \<open>What happens around one document of a batch: calls before it, between its read and write, and the clock.\<close>

type_synonym interference = "nat \<Rightarrow> ledger_op list \<times> ledger_op list \<times> datetime"

abbreviation quiet :: "(nat \<Rightarrow> datetime) \<Rightarrow> interference" where
  "quiet clock \<equiv> (\<lambda>i. ([], [], clock i))"

fun requeue_loop ::
    "interference \<Rightarrow> nat \<Rightarrow> string list \<Rightarrow> string list \<Rightarrow> string list \<Rightarrow> ledger_store \<Rightarrow>
     (reprocessor_exn, string list \<times> string list, ledger_store) outcome" where
  "requeue_loop env i [] requeued skipped L = (Inr (requeued, skipped), L)"
| "requeue_loop env i (doc_id # ids) requeued skipped L =
     (let (before, between, now) = env i in
      case requeue now between doc_id (ledger_run L before) of
        (Inl (ReprocessorError x), L') \<Rightarrow>
          if rp_error_code x \<noteq> REPROCESS_NOT_FAILED then (Inl (ReprocessorError x), L')
          else requeue_loop env (Suc i) ids requeued (skipped @ [doc_id]) L'
      | (Inl (RLedgerError e), L') \<Rightarrow> (Inl (RLedgerError e), L')
      | (Inr _, L') \<Rightarrow> requeue_loop env (Suc i) ids (requeued @ [doc_id]) skipped L')"

definition requeue_by_error_code ::
    "error_registry \<Rightarrow> int \<Rightarrow> interference \<Rightarrow> string \<Rightarrow> int \<Rightarrow> ledger_store \<Rightarrow>
     (reprocessor_exn, batch_requeue_result, ledger_store) outcome" where
  "requeue_by_error_code reg max_batch_requeue env error_code limit L =
     (let effective_limit = min limit max_batch_requeue;
          candidates = list_failed reg L effective_limit (Some error_code) None None
      in case requeue_loop env 0 (map fi_doc_id candidates) [] [] L of
           (Inl e, L') \<Rightarrow> (Inl e, L')
         | (Inr (requeued, skipped), L') \<Rightarrow>
             (Inr \<lparr>br_error_code = error_code, br_requeued = requeued, br_skipped = skipped\<rparr>, L'))"

definition archive ::
    "datetime \<Rightarrow> ledger_op list \<Rightarrow> string \<Rightarrow> string \<Rightarrow> ledger_store \<Rightarrow>
     (reprocessor_exn, unit, ledger_store) outcome" where
  "archive now between doc_id reason L =
     (case require_failed L doc_id ''archive'' of
        Inl e \<Rightarrow> (Inl e, L)
      | Inr current \<Rightarrow>
          (case triaged ARCHIVED (ledger_transition now doc_id ARCHIVED ARCHIVED (lr_last_error_code current)
                  (Some reason) None (ledger_run L between)) of
             (Inl e, L') \<Rightarrow> (Inl (RLedgerError e), L')
           | (Inr _, L') \<Rightarrow> (Inr (), L')))"

section \<open>Lemmas: reading\<close>

lemma filter_by_filter: "filter_by x P items = filter (\<lambda>i. case x of None \<Rightarrow> True | Some v \<Rightarrow> P v i) items"
  by (simp add: filter_by_def split: option.splits)

definition failed_matches :: "string option \<Rightarrow> string option \<Rightarrow> datetime option \<Rightarrow> failed_item \<Rightarrow> bool" where
  "failed_matches error_code stage since item \<longleftrightarrow>
     (error_code = None \<or> error_code = Some (fi_error_code item)) \<and>
     (stage = None \<or> stage = Some (fi_stage item)) \<and>
     (since = None \<or> the since \<le> fi_failed_at item)"

lemma list_failed_eq:
  "list_failed reg L limit c st t = (if limit \<le> 0 then [] else
     slice_to limit (filter (failed_matches c st t) (map (to_failed_item reg) (ledger_list_by_status L FAILED SCAN_LIMIT))))"
proof -
  have "(case c of None \<Rightarrow> True | Some v \<Rightarrow> fi_error_code i = v) \<and> (case st of None \<Rightarrow> True | Some v \<Rightarrow> fi_stage i = v) \<and>
      (case t of None \<Rightarrow> True | Some v \<Rightarrow> v \<le> fi_failed_at i) \<longleftrightarrow> failed_matches c st t i" for i
    by (auto simp: failed_matches_def split: option.splits)
  then show ?thesis by (simp add: list_failed_def filter_by_filter Let_def conj_ac cong: filter_cong)
qed

lemma to_failed_item_fields [simp]:
  "fi_doc_id (to_failed_item reg row) = lr_doc_id row"
  "fi_failed_at (to_failed_item reg row) = lr_updated_at row"
  by (simp_all add: to_failed_item_def Let_def)

lemma ledger_ids_distinct:
  assumes "ledger_ok L"
  shows "distinct (map lr_doc_id (dict_values (ls_rows L)))"
proof -
  have "map lr_doc_id (dict_values (ls_rows L)) = dict_keys (ls_rows L)"
    using assms by (auto simp: ledger_ok_def row_ok_def ledger_get_def intro!: map_cong)
  with assms show ?thesis by (simp only: ledger_ok_def)
qed

lemma list_by_status_distinct:
  assumes "ledger_ok L"
  shows "distinct (map lr_doc_id (ledger_list_by_status L st limit))"
proof -
  let ?rows = "filter (\<lambda>r. lr_status r = st) (dict_values (ls_rows L))"
  have "distinct (map lr_doc_id ?rows)"
    using ledger_ids_distinct [OF assms] by (rule distinct_map_filter)
  then have "distinct (map lr_doc_id (sort_desc lr_updated_at ?rows))"
    by (simp add: distinct_map sort_desc_def)
  then show ?thesis
    by (simp add: ledger_list_by_status_def slice_to_def flip: take_map)
qed

lemma list_failed_distinct:
  assumes "ledger_ok L"
  shows "distinct (map fi_doc_id (list_failed reg L limit c st t))"
proof -
  have "distinct (map fi_doc_id (map (to_failed_item reg) (ledger_list_by_status L FAILED SCAN_LIMIT)))"
    using list_by_status_distinct [OF assms] by (simp add: comp_def)
  then have "distinct (map fi_doc_id (filter (failed_matches c st t)
      (map (to_failed_item reg) (ledger_list_by_status L FAILED SCAN_LIMIT))))"
    by (rule distinct_map_filter)
  then show ?thesis by (simp add: list_failed_eq slice_to_def flip: take_map)
qed

lemma list_failed_mem:
  assumes "ledger_ok L" and "it \<in> set (list_failed reg L limit c st t)"
  shows "\<exists>row. ledger_get L (fi_doc_id it) = Some row \<and> lr_status row = FAILED \<and>
      it = to_failed_item reg row \<and> failed_matches c st t it"
proof -
  from assms(2) have "it \<in> set (filter (failed_matches c st t)
      (map (to_failed_item reg) (ledger_list_by_status L FAILED SCAN_LIMIT)))"
    using set_slice_subset by (fastforce simp: list_failed_eq split: if_splits)
  then obtain row where "it = to_failed_item reg row" "row \<in> set (ledger_list_by_status L FAILED SCAN_LIMIT)"
    "failed_matches c st t it" by auto
  with list_by_status_mem [OF assms(1)] show ?thesis by auto
qed

lemma list_failed_length: "int (length (list_failed reg L limit c st t)) \<le> max 0 limit"
proof (cases "limit \<le> 0")
  case False
  then have "int (length (list_failed reg L limit c st t)) \<le> limit" by (simp add: list_failed_eq length_slice)
  then show ?thesis by simp
qed (simp add: list_failed_eq)

lemma list_failed_sorted: "sorted_wrt (\<lambda>a b. fi_failed_at b \<le> fi_failed_at a) (list_failed reg L limit c st t)"
proof -
  have "sorted_wrt (\<lambda>a b. lr_updated_at b \<le> lr_updated_at a) (ledger_list_by_status L FAILED SCAN_LIMIT)"
    by (simp add: ledger_list_by_status_def sorted_wrt_slice sorted_sort_desc)
  then have "sorted_wrt (\<lambda>a b. fi_failed_at b \<le> fi_failed_at a)
      (map (to_failed_item reg) (ledger_list_by_status L FAILED SCAN_LIMIT))"
    by (simp add: sorted_wrt_map)
  then show ?thesis by (auto simp: list_failed_eq intro!: sorted_wrt_slice sorted_wrt_filter)
qed

definition failed_rows :: "ledger_store \<Rightarrow> ledger_row list" where
  "failed_rows L = filter (\<lambda>r. lr_status r = FAILED) (dict_values (ls_rows L))"

lemma list_failed_complete:
  assumes "ledger_get L d = Some row" and "lr_status row = FAILED" and "failed_matches c st t (to_failed_item reg row)"
    and "int (length (failed_rows L)) \<le> min limit SCAN_LIMIT"
  shows "to_failed_item reg row \<in> set (list_failed reg L limit c st t)"
proof -
  have row: "row \<in> set (dict_values (ls_rows L))"
    using assms(1) by (simp add: ledger_get_def dict_value_mem del: set_map)
  then have "row \<in> set (failed_rows L)" using assms(2) by (simp add: failed_rows_def del: set_map)
  then have "0 < length (failed_rows L)" by (cases "failed_rows L") auto
  with assms(4) have lim: "0 < limit" "0 < SCAN_LIMIT" by linarith+
  have rows: "row \<in> set (ledger_list_by_status L FAILED SCAN_LIMIT)"
    using list_by_status_set [OF lim(2), of FAILED L] assms(2,4) row by (simp add: failed_rows_def del: set_map)
  have "length (ledger_list_by_status L FAILED SCAN_LIMIT) \<le> length (failed_rows L)"
    by (simp add: ledger_list_by_status_def slice_to_def failed_rows_def)
  moreover have "length (filter (failed_matches c st t)
      (map (to_failed_item reg) (ledger_list_by_status L FAILED SCAN_LIMIT))) \<le>
      length (ledger_list_by_status L FAILED SCAN_LIMIT)"
    by (metis length_filter_le length_map)
  ultimately have "int (length (filter (failed_matches c st t)
      (map (to_failed_item reg) (ledger_list_by_status L FAILED SCAN_LIMIT)))) \<le> limit"
    using assms(4) by linarith
  with lim rows assms(3) show ?thesis by (auto simp: list_failed_eq slice_to_all)
qed

lemma summarize_loop_fields:
  "fs_total (summarize_loop rows acc) = fs_total acc"
  "fs_by_error_code (summarize_loop rows acc) =
     foldl (\<lambda>d r. count_in (str_or (lr_last_error_code r) UNKNOWN_ERROR_CODE) d) (fs_by_error_code acc) rows"
  "fs_by_stage (summarize_loop rows acc) =
     foldl (\<lambda>d r. count_in (infer_stage (str_or (lr_last_error_code r) UNKNOWN_ERROR_CODE)) d) (fs_by_stage acc) rows"
  by (induction rows arbitrary: acc) (simp_all add: Let_def)

lemma summarize_loop_oldest:
  "fs_oldest_failure_at acc = Some o1 \<Longrightarrow>
   fs_oldest_failure_at (summarize_loop rows acc) = Some (Min (insert o1 (lr_updated_at ` set rows)))"
proof (induction rows arbitrary: acc o1)
  case (Cons r rows)
  have "Min (insert o1 (lr_updated_at ` set (r # rows))) =
      Min (insert (if lr_updated_at r < o1 then lr_updated_at r else o1) (lr_updated_at ` set rows))"
    by (cases "rows = []") (auto simp: min_def)
  with Cons show ?case by (simp add: Let_def)
qed simp

lemma summarize_loop_newest:
  "fs_newest_failure_at acc = Some n1 \<Longrightarrow>
   fs_newest_failure_at (summarize_loop rows acc) = Some (Max (insert n1 (lr_updated_at ` set rows)))"
proof (induction rows arbitrary: acc n1)
  case (Cons r rows)
  have "Max (insert n1 (lr_updated_at ` set (r # rows))) =
      Max (insert (if lr_updated_at r > n1 then lr_updated_at r else n1) (lr_updated_at ` set rows))"
    by (cases "rows = []") (auto simp: max_def)
  with Cons show ?case by (simp add: Let_def)
qed simp

lemma map_of_count_in:
  "map_of (count_in k d) j = (if j = k then Some ((case map_of d k of None \<Rightarrow> 0 | Some n \<Rightarrow> n) + 1) else map_of d j)"
  by (simp add: count_in_def)

lemma map_of_tally:
  "map_of (foldl (\<lambda>d r. count_in (f r) d) d rows) k =
     (if \<exists>r \<in> set rows. f r = k
      then Some ((case map_of d k of None \<Rightarrow> 0 | Some n \<Rightarrow> n) + int (length (filter (\<lambda>r. f r = k) rows)))
      else map_of d k)"
  by (induction rows arbitrary: d) (auto simp: map_of_count_in filter_empty_conv split: option.splits)

lemma sum_count_in: "sum_list (dict_values (count_in k d)) = sum_list (dict_values d) + 1"
proof -
  have "sum_list (dict_values (dict_set k v d)) =
      sum_list (dict_values d) + v - (case map_of d k of None \<Rightarrow> 0 | Some n \<Rightarrow> n)" for v :: int
    by (induction d) (auto split: option.splits)
  then show ?thesis by (simp add: count_in_def)
qed

lemma sum_tally: "sum_list (dict_values (foldl (\<lambda>d r. count_in (f r) d) d rows)) = sum_list (dict_values d) + int (length rows)"
  by (induction rows arbitrary: d) (simp_all add: sum_count_in)

lemma length_filter_sort_desc: "length (filter P (sort_desc k xs)) = length (filter P xs)"
  by (metis mset_filter mset_sort size_mset sort_desc_def)

section \<open>Lemmas: decisions\<close>

lemma require_failed_cases:
  obtains (unknown) x where "ledger_get L d = None" "require_failed L d c = Inl (ReprocessorError x)"
      "rp_error_code x = REPROCESS_DOC_NOT_FOUND"
  | (other) r x where "ledger_get L d = Some r" "lr_status r \<noteq> FAILED"
      "require_failed L d c = Inl (ReprocessorError x)" "rp_error_code x = REPROCESS_NOT_FAILED"
  | (failed) r where "ledger_get L d = Some r" "lr_status r = FAILED" "require_failed L d c = Inr r"
proof (cases "ledger_get L d")
  case None
  then show ?thesis by (intro unknown) (auto simp: require_failed_def reprocessor_exn_def)
next
  case (Some r)
  show ?thesis
  proof (cases "lr_status r = FAILED")
    case True
    with Some show ?thesis by (intro failed) (auto simp: require_failed_def)
  next
    case False
    with Some show ?thesis by (intro other) (auto simp: require_failed_def reprocessor_exn_def)
  qed
qed

lemma pending_first: "s \<notin> {FAILED, NEEDS_REVIEW, ARCHIVED} \<Longrightarrow> pipeline_advance\<^sup>*\<^sup>* PENDING s"
proof -
  assume "s \<notin> {FAILED, NEEDS_REVIEW, ARCHIVED}"
  then obtain j where "tuple_index forward_order s = Some j" using tuple_index_forward [of s] by auto
  moreover have "tuple_index forward_order PENDING = Some 0" by (simp add: forward_order_def)
  ultimately show ?thesis using tuple_index_le_iff by blast
qed

text \<open>The write of \<open>requeue\<close>, on whatever row it finds.\<close>

lemma requeue_write:
  assumes "ledger_ok L" and "ledger_get L d = Some r"
  shows "case lr_status r of
     ARCHIVED \<Rightarrow> \<exists>x. triaged PENDING (ledger_transition now d PENDING PENDING None None None L) =
         (Inl (LedgerTransitionInvalid x), L) \<and> ti_observed_row x = Some r
   | s \<Rightarrow> if s \<in> {PENDING, FAILED, NEEDS_REVIEW}
       then \<exists>L'. triaged PENDING (ledger_transition now d PENDING PENDING None None None L) =
           (Inr (next_row now d r PENDING PENDING None None None), L') \<and> ledger_ok L' \<and>
           ledger_get L' = (ledger_get L)(d \<mapsto> next_row now d r PENDING PENDING None None None)
       else triaged PENDING (ledger_transition now d PENDING PENDING None None None L) = (Inr r, L)"
proof (cases "fsm_edge (lr_status r) PENDING")
  case True
  then obtain L' where L': "ledger_transition now d PENDING PENDING None None None L =
      (Inr (next_row now d r PENDING PENDING None None None), L')" "ledger_ok L'"
      "ledger_get L' = (ledger_get L)(d \<mapsto> next_row now d r PENDING PENDING None None None)"
    using mem.transition_along_edge [OF assms True, of None now None None] by auto
  from True have "lr_status r \<in> {PENDING, FAILED, NEEDS_REVIEW}" by (cases "lr_status r") simp_all
  with L' show ?thesis by (auto split: status.splits)
next
  case False
  then obtain x where x: "ledger_transition now d PENDING PENDING None None None L = (Inl (LedgerTransitionInvalid x), L)"
    "ti_observed_row x = Some r"
    using mem.transition_off_edge [OF assms False, of now None None None] by auto
  have "is_benign_concurrent_loss (Some r) PENDING PENDING = Some (lost_to PENDING (lr_status r))"
    using is_benign_row [of r PENDING] ledger_okD [OF assms] by (simp add: row_ok_def)
  with x False show ?thesis
    by (cases "lr_status r") (simp_all add: triaged_def pending_first lost_to.simps)
qed

text \<open>One call of \<open>requeue\<close> with interference, for a document that has a row.\<close>

lemma requeue_cases:
  assumes "ledger_ok L" and "ledger_get L d \<noteq> None"
  obtains (skipped) x where "requeue now between d L = (Inl (ReprocessorError x), L)"
      "rp_error_code x = REPROCESS_NOT_FAILED" "row_status L d \<noteq> Some FAILED"
  | (raised) x r where "requeue now between d L = (Inl (RLedgerError (LedgerTransitionInvalid x)), ledger_run L between)"
      "ti_observed_row x = Some r" "lr_status r = ARCHIVED"
  | (written) res r L' where "requeue now between d L = (Inr res, L')" "row_status L d = Some FAILED" "ledger_ok L'"
      "ledger_get (ledger_run L between) d = Some r" "lr_status r \<in> {PENDING, FAILED, NEEDS_REVIEW}"
      "ledger_get L' = (ledger_get (ledger_run L between))(d \<mapsto> next_row now d r PENDING PENDING None None None)"
  | (lost) res where "requeue now between d L = (Inr res, ledger_run L between)" "row_status L d = Some FAILED"
      "row_status (ledger_run L between) d \<notin> {Some PENDING, Some FAILED, Some NEEDS_REVIEW}"
proof (cases L d "''requeue''" rule: require_failed_cases)
  case (unknown x)
  with assms(2) show ?thesis by simp
next
  case (other r x)
  then show ?thesis by (intro skipped [of x]) (simp_all add: requeue_def row_status_def)
next
  case (failed r0)
  let ?L = "ledger_run L between"
  have ok: "ledger_ok ?L" by (rule ledger_ok_run [OF assms(1)])
  obtain r where r: "ledger_get ?L d = Some r" using ledger_run_row [OF failed(1)] by blast
  have st: "row_status L d = Some FAILED" using failed by (simp add: row_status_def)
  note w = requeue_write [OF ok r, of now]
  consider (arch) "lr_status r = ARCHIVED" | (reopen) "lr_status r \<in> {PENDING, FAILED, NEEDS_REVIEW}"
    | (further) "lr_status r \<notin> {PENDING, FAILED, NEEDS_REVIEW, ARCHIVED}" by blast
  then show ?thesis
  proof cases
    case arch
    with w failed r show ?thesis by (auto simp: requeue_def Let_def intro: raised)
  next
    case reopen
    with w obtain L' where L': "triaged PENDING (ledger_transition now d PENDING PENDING None None None ?L) =
        (Inr (next_row now d r PENDING PENDING None None None), L')" "ledger_ok L'"
      "ledger_get L' = (ledger_get ?L)(d \<mapsto> next_row now d r PENDING PENDING None None None)"
      by (auto split: status.splits)
    show ?thesis
      by (rule written [OF _ st L'(2) r reopen L'(3)]) (simp add: requeue_def failed Let_def L'(1))
  next
    case further
    with w have "triaged PENDING (ledger_transition now d PENDING PENDING None None None ?L) = (Inr r, ?L)"
      by (auto split: status.splits)
    then have "\<exists>res. requeue now between d L = (Inr res, ?L)" by (simp add: requeue_def failed Let_def)
    moreover have "row_status ?L d \<notin> {Some PENDING, Some FAILED, Some NEEDS_REVIEW}"
      using further r by (simp add: row_status_def)
    ultimately show ?thesis using lost st by blast
  qed
qed

text \<open>Rows never disappear.\<close>

lemma ledger_run_known: "ledger_get L d \<noteq> None \<Longrightarrow> ledger_get (ledger_run L ops) d \<noteq> None"
  using ledger_run_row by fastforce

lemma requeue_known:
  assumes "ledger_ok L" and "ledger_get L d \<noteq> None" and "requeue now between d L = (x, L')"
  shows "ledger_ok L' \<and> (\<forall>k. ledger_get L k \<noteq> None \<longrightarrow> ledger_get L' k \<noteq> None)"
  using assms(1,2)
proof (cases rule: requeue_cases [of L d now between])
  case (written res r L1)
  with assms(3) ledger_run_known show ?thesis by auto
qed (use assms ledger_run_known ledger_ok_run in auto)

definition accounted ::
    "string list \<Rightarrow> string list \<Rightarrow> string list \<Rightarrow>
     (reprocessor_exn, string list \<times> string list, ledger_store) outcome \<Rightarrow> bool" where
  "accounted ids rq sk result \<longleftrightarrow> (case fst result of
     Inl e \<Rightarrow> \<exists>x r. e = RLedgerError (LedgerTransitionInvalid x) \<and> ti_observed_row x = Some r \<and> lr_status r = ARCHIVED
   | Inr (rq', sk') \<Rightarrow> \<exists>us vs. rq' = rq @ us \<and> sk' = sk @ vs \<and> mset us + mset vs = mset ids \<and>
       subseq us ids \<and> subseq vs ids)"

lemma accounted_requeued: "accounted ids (rq @ [d]) sk result \<Longrightarrow> accounted (d # ids) rq sk result"
proof (cases "fst result")
  case (Inr p)
  obtain rq' sk' where p: "p = (rq', sk')" by (cases p)
  assume "accounted ids (rq @ [d]) sk result"
  with Inr p obtain us vs where "rq' = rq @ [d] @ us" "sk' = sk @ vs" "mset us + mset vs = mset ids"
    "subseq us ids" "subseq vs ids" by (auto simp: accounted_def)
  with Inr p show ?thesis
    by (auto simp: accounted_def intro!: exI [of _ "d # us"] exI [of _ vs])
qed (simp add: accounted_def)

lemma accounted_skipped: "accounted ids rq (sk @ [d]) result \<Longrightarrow> accounted (d # ids) rq sk result"
proof (cases "fst result")
  case (Inr p)
  obtain rq' sk' where p: "p = (rq', sk')" by (cases p)
  assume "accounted ids rq (sk @ [d]) result"
  with Inr p obtain us vs where "rq' = rq @ us" "sk' = sk @ [d] @ vs" "mset us + mset vs = mset ids"
    "subseq us ids" "subseq vs ids" by (auto simp: accounted_def)
  with Inr p show ?thesis
    by (auto simp: accounted_def intro!: exI [of _ us] exI [of _ "d # vs"])
qed (simp add: accounted_def)

lemma requeue_loop_accounts:
  "ledger_ok L \<Longrightarrow> \<forall>d \<in> set ids. ledger_get L d \<noteq> None \<Longrightarrow> accounted ids rq sk (requeue_loop env i ids rq sk L)"
proof (induction ids arbitrary: i rq sk L)
  case Nil
  then show ?case by (simp add: accounted_def)
next
  case (Cons d ids)
  obtain before between now where env: "env i = (before, between, now)" by (cases "env i") auto
  let ?L = "ledger_run L before"
  have ok: "ledger_ok ?L" and kn: "\<forall>k \<in> set (d # ids). ledger_get ?L k \<noteq> None"
    using Cons.prems ledger_ok_run ledger_run_known by blast+
  obtain x L' where x: "requeue now between d ?L = (x, L')" by fastforce
  from requeue_known [OF ok _ x] kn have L': "ledger_ok L'" "\<forall>k \<in> set ids. ledger_get L' k \<noteq> None" by auto
  note IH = Cons.IH [OF L']
  have "ledger_get ?L d \<noteq> None" using kn by simp
  with ok show ?case
  proof (cases rule: requeue_cases [of ?L d now between])
    case (skipped e)
    with x env accounted_skipped [OF IH] show ?thesis by auto
  next
    case (raised e r)
    with x env show ?thesis by (auto simp: accounted_def)
  next
    case (written res r L1)
    with x env accounted_requeued [OF IH] show ?thesis by auto
  next
    case (lost res)
    with x env accounted_requeued [OF IH] show ?thesis by auto
  qed
qed

text \<open>Without interference every candidate is requeued, and nothing else changes.\<close>

lemma requeue_loop_quiet:
  "ledger_ok L \<Longrightarrow> distinct ids \<Longrightarrow> \<forall>d \<in> set ids. row_status L d = Some FAILED \<Longrightarrow>
   \<exists>L'. requeue_loop (quiet clock) i ids rq sk L = (Inr (rq @ ids, sk), L') \<and> ledger_ok L' \<and>
     (\<forall>d. d \<notin> set ids \<longrightarrow> ledger_get L' d = ledger_get L d) \<and>
     (\<forall>d \<in> set ids. \<exists>t. ledger_get L' d = Some (next_row t d (the (ledger_get L d)) PENDING PENDING None None None))"
proof (induction ids arbitrary: i rq L)
  case Nil
  then show ?case by simp
next
  case (Cons d ids)
  obtain r where r: "ledger_get L d = Some r" "lr_status r = FAILED" using Cons.prems(3) by (auto simp: row_status_def)
  then have "require_failed L d ''requeue'' = Inr r" by (simp add: require_failed_def)
  with requeue_write [OF Cons.prems(1) r(1), of "clock i"] r(2) obtain res L1 where
    1: "requeue (clock i) [] d L = (Inr res, L1)" "ledger_ok L1"
    "ledger_get L1 = (ledger_get L)(d \<mapsto> next_row (clock i) d r PENDING PENDING None None None)"
    by (auto simp: requeue_def Let_def)
  have "\<forall>k \<in> set ids. row_status L1 k = Some FAILED"
    using Cons.prems(2,3) 1(3) by (auto simp: row_status_def)
  from Cons.IH [OF 1(2) _ this, of "Suc i" "rq @ [d]"] Cons.prems(2) obtain L' where
    L': "requeue_loop (quiet clock) (Suc i) ids (rq @ [d]) sk L1 = (Inr ((rq @ [d]) @ ids, sk), L')" "ledger_ok L'"
    "\<forall>k. k \<notin> set ids \<longrightarrow> ledger_get L' k = ledger_get L1 k"
    "\<forall>k \<in> set ids. \<exists>t. ledger_get L' k = Some (next_row t k (the (ledger_get L1 k)) PENDING PENDING None None None)"
    by auto
  have "\<forall>k \<in> set ids. k \<noteq> d" using Cons.prems(2) by auto
  with 1 L' r Cons.prems(2) show ?case by auto
qed

section \<open>Properties\<close>

text \<open>
  \<open>list_failed\<close> is faithful: every item describes a failed row of the ledger and passes the
  given filters, newest failures come first, no document appears twice, at most \<open>limit\<close> items are
  returned, and every matching failed document is returned when the failed documents fit the limit
  and the scan limit.
\<close>

theorem list_failed_correct:
  assumes "ledger_ok L" and items_def: "items = list_failed reg L limit error_code stage since"
  shows "(\<forall>it \<in> set items. \<exists>row. ledger_get L (fi_doc_id it) = Some row \<and> lr_status row = FAILED \<and>
        it = to_failed_item reg row \<and> failed_matches error_code stage since it) \<and>
     sorted_wrt (\<lambda>a b. fi_failed_at b \<le> fi_failed_at a) items \<and> distinct (map fi_doc_id items) \<and>
     int (length items) \<le> max 0 limit \<and>
     (int (length (failed_rows L)) \<le> min limit SCAN_LIMIT \<longrightarrow>
        (\<forall>d row. ledger_get L d = Some row \<and> lr_status row = FAILED \<and>
           failed_matches error_code stage since (to_failed_item reg row) \<longrightarrow> to_failed_item reg row \<in> set items))"
proof (intro conjI)
  show "int (length items) \<le> max 0 limit" unfolding items_def by (rule list_failed_length)
qed (use list_failed_mem [OF assms(1)] list_failed_sorted list_failed_distinct [OF assms(1)] list_failed_complete
    in \<open>auto simp: items_def\<close>)

text \<open>A ledger with one failed document, for concrete instances.\<close>

definition demo_failed :: ledger_store where
  "demo_failed = ledger_put demo_id (next_row 3 demo_id (fresh_row 0 demo_id \<lparr>es_config_version = ''1''\<rparr>)
     FAILED FAILED (Some ''PARSER_ERROR'') (Some ''bad'') None) (ledger_init 100)"

lemma demo_failed_ok: "ledger_ok demo_failed"
  "ledger_get demo_failed demo_id = Some (next_row 3 demo_id (fresh_row 0 demo_id \<lparr>es_config_version = ''1''\<rparr>)
     FAILED FAILED (Some ''PARSER_ERROR'') (Some ''bad'') None)"
proof -
  have "row_ok demo_id (next_row 3 demo_id (fresh_row 0 demo_id \<lparr>es_config_version = ''1''\<rparr>)
     FAILED FAILED (Some ''PARSER_ERROR'') (Some ''bad'') None)"
    by (simp add: row_ok_def next_attempts_def next_error_fields_def fresh_row_def)
  then show "ledger_ok demo_failed" by (simp add: demo_failed_def ledger_ok_put ledger_ok_init)
qed (simp add: demo_failed_def)

theorem list_failed_correct_witness:
  "\<exists>it. it \<in> set (list_failed empty_registry demo_failed 10 (Some ''PARSER_ERROR'') (Some ''analyzing'') None) \<and>
     fi_doc_id it = demo_id"
proof -
  let ?row = "next_row 3 demo_id (fresh_row 0 demo_id \<lparr>es_config_version = ''1''\<rparr>)
     FAILED FAILED (Some ''PARSER_ERROR'') (Some ''bad'') None"
  have "failed_matches (Some ''PARSER_ERROR'') (Some ''analyzing'') None (to_failed_item empty_registry ?row)"
    by (simp add: failed_matches_def to_failed_item_def str_or_def infer_stage_def stage_prefixes_def startswith_def
        next_error_fields_def fresh_row_def Let_def)
  moreover have "int (length (failed_rows demo_failed)) \<le> min 10 SCAN_LIMIT"
    by (simp add: failed_rows_def demo_failed_def ledger_put_def ledger_init_def SCAN_LIMIT_def)
  ultimately show ?thesis
    using list_failed_correct [OF demo_failed_ok(1) refl, of empty_registry 10 "Some ''PARSER_ERROR''" "Some ''analyzing''" None]
      demo_failed_ok(2) by (intro exI [of _ "to_failed_item empty_registry ?row"]) simp
qed

text \<open>
  \<open>summarize\<close> counts what is there: as long as the failed documents fit the scan limit, the
  total is their number, each error code and each stage is mapped to the number of failed documents
  that have it and no other key occurs, both tables add up to the total, and the times are the
  earliest and the latest failure.
\<close>

theorem summarize_correct:
  assumes "int (length (failed_rows L)) \<le> SCAN_LIMIT"
  shows "fs_total (summarize L) = int (length (failed_rows L)) \<and>
     dict_get (fs_by_error_code (summarize L)) c =
       (let n = length (filter (\<lambda>r. str_or (lr_last_error_code r) UNKNOWN_ERROR_CODE = c) (failed_rows L)) in if n = 0 then None else Some (int n)) \<and>
     dict_get (fs_by_stage (summarize L)) st =
       (let n = length (filter (\<lambda>r. infer_stage (str_or (lr_last_error_code r) UNKNOWN_ERROR_CODE) = st) (failed_rows L)) in if n = 0 then None else Some (int n)) \<and>
     sum_list (dict_values (fs_by_error_code (summarize L))) = fs_total (summarize L) \<and>
     sum_list (dict_values (fs_by_stage (summarize L))) = fs_total (summarize L) \<and>
     (failed_rows L \<noteq> [] \<longrightarrow>
        fs_oldest_failure_at (summarize L) = Some (Min (lr_updated_at ` set (failed_rows L))) \<and>
        fs_newest_failure_at (summarize L) = Some (Max (lr_updated_at ` set (failed_rows L))))"
proof -
  let ?rows = "sort_desc lr_updated_at (failed_rows L)"
  let ?s0 = "\<lparr>fs_total = int (length ?rows), fs_by_error_code = [], fs_by_stage = [],
           fs_oldest_failure_at = None, fs_newest_failure_at = None\<rparr>"
  have "ledger_list_by_status L FAILED SCAN_LIMIT = ?rows"
    using assms(1) by (simp add: ledger_list_by_status_def failed_rows_def slice_to_all SCAN_LIMIT_def)
  then have s: "summarize L = summarize_loop ?rows ?s0" by (simp add: summarize_def)
  have times: "fs_oldest_failure_at (summarize_loop rows ?s0) = Some (Min (lr_updated_at ` set rows)) \<and>
      fs_newest_failure_at (summarize_loop rows ?s0) = Some (Max (lr_updated_at ` set rows))" if "rows \<noteq> []" for rows
    using that by (cases rows) (simp_all add: summarize_loop_oldest summarize_loop_newest Let_def)
  have tally: "map_of (foldl (\<lambda>d r. count_in (f r) d) [] ?rows) k =
      (let n = length (filter (\<lambda>r. f r = k) (failed_rows L)) in if n = 0 then None else Some (int n))" for f k
    by (auto simp: map_of_tally length_filter_sort_desc Let_def filter_empty_conv)
  have "fs_oldest_failure_at (summarize L) = Some (Min (lr_updated_at ` set (failed_rows L))) \<and>
      fs_newest_failure_at (summarize L) = Some (Max (lr_updated_at ` set (failed_rows L)))" if "failed_rows L \<noteq> []"
  proof -
    have "?rows \<noteq> []" using that by (metis length_0_conv length_sort_desc)
    from times [OF this] show ?thesis by (simp add: s)
  qed
  moreover have "fs_total (summarize L) = int (length (failed_rows L))"
    by (simp add: s summarize_loop_fields)
  moreover have "sum_list (dict_values (fs_by_error_code (summarize L))) = int (length (failed_rows L))"
    "sum_list (dict_values (fs_by_stage (summarize L))) = int (length (failed_rows L))"
    unfolding s summarize_loop_fields sum_tally by simp_all
  moreover have "dict_get (fs_by_error_code (summarize L)) c =
      (let n = length (filter (\<lambda>r. str_or (lr_last_error_code r) UNKNOWN_ERROR_CODE = c) (failed_rows L))
       in if n = 0 then None else Some (int n))"
    unfolding s summarize_loop_fields dict_get_def using tally by simp
  moreover have "dict_get (fs_by_stage (summarize L)) st =
      (let n = length (filter (\<lambda>r. infer_stage (str_or (lr_last_error_code r) UNKNOWN_ERROR_CODE) = st) (failed_rows L))
       in if n = 0 then None else Some (int n))"
    unfolding s summarize_loop_fields dict_get_def using tally by simp
  ultimately show ?thesis by metis
qed

theorem summarize_correct_witness:
  "fs_total (summarize demo_failed) = 1 \<and> dict_get (fs_by_stage (summarize demo_failed)) ''analyzing'' = Some 1"
proof -
  have rows: "failed_rows demo_failed = [next_row 3 demo_id (fresh_row 0 demo_id \<lparr>es_config_version = ''1''\<rparr>)
     FAILED FAILED (Some ''PARSER_ERROR'') (Some ''bad'') None]"
    by (simp add: failed_rows_def demo_failed_def ledger_put_def ledger_init_def)
  show ?thesis
    using summarize_correct [of demo_failed _ "''analyzing''"]
    by (simp add: rows SCAN_LIMIT_def str_or_def infer_stage_def stage_prefixes_def startswith_def
        next_error_fields_def fresh_row_def)
qed

text \<open>
  \<open>requeue\<close> resets a failed document: its row becomes pending with zero attempts and no error,
  keeps its ingestion time and any assignment, the result carries the previous error code, and no
  other row changes. For an unknown document it raises \<open>REPROCESS_DOC_NOT_FOUND\<close>, for one that is
  not failed \<open>REPROCESS_NOT_FAILED\<close>, and both leave the ledger as it was.
\<close>

theorem requeue_correct:
  assumes "ledger_ok L"
  shows "case ledger_get L d of
     None \<Rightarrow> \<exists>x. requeue now [] d L = (Inl (ReprocessorError x), L) \<and> rp_error_code x = REPROCESS_DOC_NOT_FOUND
   | Some r \<Rightarrow> if lr_status r \<noteq> FAILED
       then \<exists>x. requeue now [] d L = (Inl (ReprocessorError x), L) \<and> rp_error_code x = REPROCESS_NOT_FAILED
       else \<exists>L' r'. requeue now [] d L = (Inr \<lparr>rq_doc_id = d, rq_previous_error_code = str_or (lr_last_error_code r) UNKNOWN_ERROR_CODE,
             rq_requeued_at = now\<rparr>, L') \<and> ledger_get L' = (ledger_get L)(d \<mapsto> r') \<and>
           lr_status r' = PENDING \<and> lr_attempts r' = 0 \<and> lr_last_error_code r' = None \<and>
           lr_last_error_message r' = None \<and> lr_ingested_at r' = lr_ingested_at r \<and>
           lr_assigned_scenario_id r' = lr_assigned_scenario_id r"
proof (cases L d "''requeue''" rule: require_failed_cases)
  case (failed r)
  from requeue_write [OF assms failed(1), of now] failed(2) obtain L' where
    "triaged PENDING (ledger_transition now d PENDING PENDING None None None L) =
       (Inr (next_row now d r PENDING PENDING None None None), L')"
    "ledger_get L' = (ledger_get L)(d \<mapsto> next_row now d r PENDING PENDING None None None)" by auto
  with failed show ?thesis
    by (auto simp: requeue_def Let_def next_attempts_def next_error_fields_def next_assigned_scenario_id_def)
qed (simp_all add: requeue_def)

theorem requeue_correct_witness:
  "\<exists>L' r'. requeue 9 [] demo_id demo_failed = (Inr \<lparr>rq_doc_id = demo_id, rq_previous_error_code = ''PARSER_ERROR'',
      rq_requeued_at = 9\<rparr>, L') \<and> ledger_get L' demo_id = Some r' \<and> lr_status r' = PENDING"
  using requeue_correct [OF demo_failed_ok(1), of 9 demo_id] demo_failed_ok(2)
  by (auto simp: next_error_fields_def fresh_row_def str_or_def)

text \<open>
  What \<open>requeue\<close> does when other calls run between its check and its write, by the status \<open>s\<close> the
  row then has: a document still failed is reset; one that is pending or parked again is written
  over (a pending one is left with one more attempt, a parked one is taken out of review); one
  that moved on is left alone and the call still succeeds; for one archived in between the ledger's
  exception escapes.
\<close>

theorem requeue_race:
  assumes "ledger_ok L" and "ledger_get L d = Some r" and "lr_status r = FAILED"
  shows "\<exists>r1 x L'. ledger_get (ledger_run L between) d = Some r1 \<and> requeue now between d L = (x, L') \<and>
    (case lr_status r1 of
       ARCHIVED \<Rightarrow> (\<exists>t. x = Inl (RLedgerError (LedgerTransitionInvalid t))) \<and> L' = ledger_run L between
     | s \<Rightarrow> (\<exists>res. x = Inr res) \<and>
         (if s \<in> {PENDING, FAILED, NEEDS_REVIEW}
          then \<exists>r2. ledger_get L' d = Some r2 \<and> lr_status r2 = PENDING \<and>
            lr_attempts r2 = (if s = FAILED then 0 else if s = PENDING then lr_attempts r1 + 1 else 1)
          else L' = ledger_run L between))"
proof -
  have ok: "ledger_ok (ledger_run L between)" by (rule ledger_ok_run [OF assms(1)])
  obtain r1 where r1: "ledger_get (ledger_run L between) d = Some r1"
    using ledger_run_row [OF assms(2)] by blast
  have rf: "require_failed L d ''requeue'' = Inr r" using assms(2,3) by (simp add: require_failed_def)
  from requeue_write [OF ok r1, of now] r1 rf show ?thesis
    by (cases "lr_status r1") (auto simp: requeue_def Let_def next_attempts_def)
qed

theorem requeue_race_witness:
  "\<exists>x L'. requeue 9 [TransitionOp 8 demo_id ARCHIVED ARCHIVED None None None] demo_id demo_failed = (x, L') \<and>
     (\<exists>t. x = Inl (RLedgerError (LedgerTransitionInvalid t)))"
proof -
  let ?ops = "[TransitionOp 8 demo_id ARCHIVED ARCHIVED None None None]"
  have f: "lr_status (next_row 3 demo_id (fresh_row 0 demo_id \<lparr>es_config_version = ''1''\<rparr>)
     FAILED FAILED (Some ''PARSER_ERROR'') (Some ''bad'') None) = FAILED" by simp
  have "row_status (ledger_run demo_failed ?ops) demo_id = Some ARCHIVED"
    by (simp add: demo_failed_def ledger_eval)
  with requeue_race [OF demo_failed_ok f, of ?ops 9] show ?thesis by (auto simp: row_status_def)
qed



text \<open>
  Archiving is final: a failed document becomes archived with the operator's reason and its error
  code kept, no later sequence of ledger calls changes its row, and it never shows up in a listing
  of failures again. For any other document \<open>archive\<close> raises the same two errors as \<open>requeue\<close> and
  changes nothing.
\<close>

theorem archive_final:
  assumes "ledger_ok L"
  shows "case ledger_get L d of
     None \<Rightarrow> \<exists>x. archive now [] d reason L = (Inl (ReprocessorError x), L) \<and> rp_error_code x = REPROCESS_DOC_NOT_FOUND
   | Some r \<Rightarrow> if lr_status r \<noteq> FAILED
       then \<exists>x. archive now [] d reason L = (Inl (ReprocessorError x), L) \<and> rp_error_code x = REPROCESS_NOT_FAILED
       else \<exists>L' r'. archive now [] d reason L = (Inr (), L') \<and> ledger_get L' = (ledger_get L)(d \<mapsto> r') \<and>
           lr_status r' = ARCHIVED \<and> lr_last_error_code r' = lr_last_error_code r \<and>
           lr_last_error_message r' = Some reason \<and>
           (\<forall>ops reg limit c st t. ledger_get (ledger_run L' ops) d = Some r' \<and>
              d \<notin> fi_doc_id ` set (list_failed reg (ledger_run L' ops) limit c st t))"
proof (cases L d "''archive''" rule: require_failed_cases)
  case (failed r)
  let ?r = "next_row now d r ARCHIVED ARCHIVED (lr_last_error_code r) (Some reason) None"
  have "fsm_edge (lr_status r) ARCHIVED" using failed(2) by simp
  then obtain L' where L': "archive now [] d reason L = (Inr (), L')" "ledger_get L' = (ledger_get L)(d \<mapsto> ?r)" "ledger_ok L'"
    using mem.transition_along_edge [OF assms failed(1), of ARCHIVED "lr_last_error_code r" now "Some reason" None] failed(3)
    by (auto simp: archive_def)
  have keep: "ledger_get (ledger_run L' ops) d = Some ?r" for ops
    using L'(2) by (intro ledger_run_closed) simp_all
  have "d \<notin> fi_doc_id ` set (list_failed reg (ledger_run L' ops) limit c st t)" for ops reg limit c st t
  proof
    assume "d \<in> fi_doc_id ` set (list_failed reg (ledger_run L' ops) limit c st t)"
    then obtain row where "ledger_get (ledger_run L' ops) d = Some row" "lr_status row = FAILED"
      using list_failed_mem [OF ledger_ok_run [OF L'(3)]] by fastforce
    with keep [of ops] show False by simp
  qed
  with keep L' failed show ?thesis by (auto simp: next_error_fields_def)
qed (simp_all add: archive_def)

theorem archive_final_witness:
  "\<exists>L' r'. archive 9 [] demo_id ''gone'' demo_failed = (Inr (), L') \<and> ledger_get L' demo_id = Some r' \<and>
     lr_status r' = ARCHIVED \<and> lr_last_error_code r' = Some ''PARSER_ERROR''"
  using archive_final [OF demo_failed_ok(1), of 9 demo_id "''gone''"] demo_failed_ok(2)
  by (auto simp: next_error_fields_def fresh_row_def)

end
