(* ===== verification/Chunk_Strategies.thy ===== *)
theory Chunk_Strategies
  imports Py_Prelude
begin

text \<open>
  The chunking strategies: the elements of \<open>src/vestibule/analyzer/model.py\<close>, the drafts of
  \<open>src/vestibule/chunker/model.py\<close>, the lazily loaded \<open>token_counter.py\<close> and the strategies under
  \<open>src/vestibule/chunker/strategies/\<close>. Three things are parameters: \<open>split\<close> is the text splitter of
  langchain (given the token counter it is configured with), \<open>count\<close> is the token counter of one
  call of the chunker, and \<open>exc_text\<close> is \<open>str\<close> of an exception the interpreter raises.
\<close>

section \<open>Data\<close>

datatype element_type = HEADING | PARAGRAPH | TABLE | LIST | IMAGE_CAPTION | CODE

record table_cell =
  tc_row_index :: int
  tc_column_index :: int
  tc_content :: "string option"

text \<open>The values the code puts into or reads from a \<open>metadata\<close> dictionary.\<close>

datatype meta =
  MNone | MBool bool | MInt int | MStr string | MInts "int list" | MCells "table_cell list"

type_synonym metadata = "(string, meta) dict"

record element =
  el_type :: element_type
  el_text :: string
  el_metadata :: metadata

record chunker_config =
  cc_target_chunk_tokens :: int
  cc_overlap_tokens :: int
  cc_min_chunk_tokens :: int
  cc_max_chunk_tokens :: int
  cc_token_counter :: string

record chunk_draft =
  cd_element_types :: "element_type list"
  cd_text :: string
  cd_token_count :: int
  cd_metadata :: metadata

abbreviation STRATEGY_RECURSIVE :: string where "STRATEGY_RECURSIVE \<equiv> ''recursive''"
abbreviation STRATEGY_STRUCTURE_AWARE :: string where "STRATEGY_STRUCTURE_AWARE \<equiv> ''structure_aware''"
abbreviation STRATEGY_TABLE_ATOMIC :: string where "STRATEGY_TABLE_ATOMIC \<equiv> ''table_atomic''"
abbreviation CHUNKER_EMPTY_ELEMENTS :: string where "CHUNKER_EMPTY_ELEMENTS \<equiv> ''CHUNKER_EMPTY_ELEMENTS''"
abbreviation TOKENIZER_LOAD_FAILED :: string where "TOKENIZER_LOAD_FAILED \<equiv> ''TOKENIZER_LOAD_FAILED''"
abbreviation CHUNKER_INTERNAL :: string where "CHUNKER_INTERNAL \<equiv> ''CHUNKER_INTERNAL''"

record chunker_error =
  ce_doc_id :: string
  ce_reason :: string
  ce_error_code :: string

text \<open>What a strategy can raise: the chunker's own exception, or any other one with its text.\<close>

datatype strategy_exn = StrategyChunkerError chunker_error | OtherException string

definition chunker_exn :: "string \<Rightarrow> string \<Rightarrow> string \<Rightarrow> chunker_error" where
  "chunker_exn doc_id reason code = \<lparr>ce_doc_id = doc_id, ce_reason = reason, ce_error_code = code\<rparr>"

type_synonym token_count = "string \<Rightarrow> strategy_exn + int"
type_synonym splitter = "chunker_config \<Rightarrow> token_count \<Rightarrow> string \<Rightarrow> strategy_exn + string list"

section \<open>Token counter\<close>

text \<open>
  \<open>TiktokenCounter\<close>: the cached encoding is the state, \<open>get_encoding\<close> is what loading gives at this
  moment, an encoding is its \<open>encode\<close> function.
\<close>

type_synonym encoding = "string \<Rightarrow> strategy_exn + nat list"

record tiktoken_counter =
  tk_encoding_name :: string
  tk_encoding :: "encoding option"

definition load_encoding ::
    "(string \<Rightarrow> string + encoding) \<Rightarrow> string \<Rightarrow> strategy_exn + encoding" where
  "load_encoding get_encoding name = (case get_encoding name of
       Inr enc \<Rightarrow> Inr enc
     | Inl exc \<Rightarrow> Inl (StrategyChunkerError (chunker_exn []
         (''failed to load tiktoken encoding '' @ py_repr name @ '': '' @ exc) TOKENIZER_LOAD_FAILED)))"

definition tiktoken_count ::
    "(string \<Rightarrow> string + encoding) \<Rightarrow> string \<Rightarrow> tiktoken_counter \<Rightarrow>
     (strategy_exn, int, tiktoken_counter) outcome" where
  "tiktoken_count get_encoding s T =
     (case (case tk_encoding T of Some enc \<Rightarrow> Inr enc | None \<Rightarrow> load_encoding get_encoding (tk_encoding_name T)) of
        Inl e \<Rightarrow> (Inl e, T)
      | Inr enc \<Rightarrow> (map_sum id (\<lambda>toks. int (length toks)) (enc s), T\<lparr>tk_encoding := Some enc\<rparr>))"

definition build_token_counter :: "string \<Rightarrow> chunker_error + tiktoken_counter" where
  "build_token_counter name =
     (if name = ''tiktoken_cl100k'' then Inr \<lparr>tk_encoding_name = ''cl100k_base'', tk_encoding = None\<rparr>
      else Inl (chunker_exn [] (''unrecognized token_counter name: '' @ py_repr name) CHUNKER_INTERNAL))"

section \<open>Shared helpers\<close>

abbreviation blank_line :: string where "blank_line \<equiv> [CHR 0x0A, CHR 0x0A]"

definition join_element_text :: "element list \<Rightarrow> string" where
  "join_element_text elements = str_join blank_line (map el_text elements)"

text \<open>\<open>for x in xs: if x not in seen: seen.append(x)\<close>\<close>

fun append_unseen :: "'a list \<Rightarrow> 'a list \<Rightarrow> 'a list" where
  "append_unseen seen [] = seen"
| "append_unseen seen (x # xs) = append_unseen (if x \<in> set seen then seen else seen @ [x]) xs"

definition unique_element_types :: "element list \<Rightarrow> element_type list" where
  "unique_element_types elements = append_unseen [] (map el_type elements)"

text \<open>The page of an element, when its metadata has an integer (a \<open>bool\<close> is one).\<close>

definition element_page :: "element \<Rightarrow> int option" where
  "element_page e = (case dict_get (el_metadata e) ''page'' of
       Some (MInt p) \<Rightarrow> Some p
     | Some (MBool b) \<Rightarrow> Some (if b then 1 else 0)
     | _ \<Rightarrow> None)"

definition page_metadata :: "element list \<Rightarrow> metadata" where
  "page_metadata elements =
     (let pages = sorted_list_of_set (set (List.map_filter element_page elements))
      in if pages = [] then []
         else if length pages = 1 then [(''page'', MInt (hd pages))]
         else [(''pages'', MInts pages)])"

section \<open>Recursive strategy\<close>

definition recursive_chunk_region ::
    "splitter \<Rightarrow> chunker_config \<Rightarrow> token_count \<Rightarrow> element list \<Rightarrow> strategy_exn + chunk_draft list" where
  "recursive_chunk_region split config count elements =
     (if elements = [] then Inr []
      else
        let element_types = unique_element_types elements;
            base_metadata = [(''strategy'', MStr STRATEGY_RECURSIVE), (''section_path'', MNone)] @ page_metadata elements
        in bind_res (split config count (join_element_text elements)) (\<lambda>pieces.
             map_res (\<lambda>piece. bind_res (count piece) (\<lambda>n.
               Inr \<lparr>cd_element_types = element_types, cd_text = piece, cd_token_count = n,
                    cd_metadata = base_metadata\<rparr>)) pieces))"

section \<open>Structure-aware strategy\<close>

fun split_sections_loop ::
    "(string option \<times> element list) list \<Rightarrow> string option \<Rightarrow> element list \<Rightarrow> element list \<Rightarrow>
     (string option \<times> element list) list" where
  "split_sections_loop sections current_path current_content [] =
     (if current_content \<noteq> [] then sections @ [(current_path, current_content)] else sections)"
| "split_sections_loop sections current_path current_content (e # es) =
     (if el_type e = HEADING
      then split_sections_loop
             (if current_content \<noteq> [] then sections @ [(current_path, current_content)] else sections)
             (Some (el_text e)) [] es
      else split_sections_loop sections current_path (current_content @ [e]) es)"

definition split_into_sections :: "element list \<Rightarrow> (string option \<times> element list) list" where
  "split_into_sections elements = split_sections_loop [] None [] elements"

definition retag :: "string option \<Rightarrow> chunk_draft \<Rightarrow> chunk_draft" where
  "retag section_path draft = draft\<lparr>cd_metadata :=
     dict_set ''section_path'' (case section_path of None \<Rightarrow> MNone | Some p \<Rightarrow> MStr p)
       (dict_set ''strategy'' (MStr STRATEGY_STRUCTURE_AWARE) (cd_metadata draft))\<rparr>"

fun structure_sections ::
    "splitter \<Rightarrow> chunker_config \<Rightarrow> token_count \<Rightarrow> (string option \<times> element list) list \<Rightarrow>
     strategy_exn + chunk_draft list" where
  "structure_sections split config count [] = Inr []"
| "structure_sections split config count ((section_path, section_elements) # rest) =
     bind_res (recursive_chunk_region split config count section_elements) (\<lambda>section_drafts.
     bind_res (structure_sections split config count rest) (\<lambda>drafts.
       Inr (map (retag section_path) section_drafts @ drafts)))"

definition structure_aware_chunk_region ::
    "splitter \<Rightarrow> chunker_config \<Rightarrow> token_count \<Rightarrow> element list \<Rightarrow> strategy_exn + chunk_draft list" where
  "structure_aware_chunk_region split config count elements =
     structure_sections split config count (split_into_sections elements)"

section \<open>Table strategy\<close>

text \<open>\<open>xs[i]\<close> as a position: negative indices count from the end, others raise \<open>IndexError\<close>.\<close>

definition py_index :: "nat \<Rightarrow> int \<Rightarrow> nat option" where
  "py_index n i = (if 0 \<le> i \<and> i < int n then Some (nat i)
     else if - int n \<le> i \<and> i < 0 then Some (nat (int n + i)) else None)"

datatype interpreter_error = IndexError | TypeError

fun grid_fill ::
    "(interpreter_error \<Rightarrow> string) \<Rightarrow> table_cell list \<Rightarrow> string list list \<Rightarrow> strategy_exn + string list list" where
  "grid_fill exc_text [] grid = Inr grid"
| "grid_fill exc_text (cell # cells) grid =
     (case py_index (length grid) (tc_row_index cell) of
        None \<Rightarrow> Inl (OtherException (exc_text IndexError))
      | Some r \<Rightarrow> (case py_index (length (grid ! r)) (tc_column_index cell) of
            None \<Rightarrow> Inl (OtherException (exc_text IndexError))
          | Some c \<Rightarrow> grid_fill exc_text cells
              (grid[r := (grid ! r)[c := (case tc_content cell of None \<Rightarrow> [] | Some s \<Rightarrow> s)]])))"

definition markdown_row :: "string list \<Rightarrow> string" where
  "markdown_row cols = ''| '' @ str_join '' | '' cols @ '' |''"

definition markdown_table ::
    "(interpreter_error \<Rightarrow> string) \<Rightarrow> table_cell list \<Rightarrow> strategy_exn + string" where
  "markdown_table exc_text cells =
     (let row_count = nat (Max (set (map tc_row_index cells)) + 1);
          column_count = nat (Max (set (map tc_column_index cells)) + 1)
      in bind_res (grid_fill exc_text cells (replicate row_count (replicate column_count []))) (\<lambda>grid.
           case grid of
             [] \<Rightarrow> Inl (OtherException (exc_text IndexError))
           | first # rows \<Rightarrow> Inr (str_join [CHR 0x0A]
               ([markdown_row first, markdown_row (replicate column_count ''---'')] @ map markdown_row rows))))"

definition table_body :: "(interpreter_error \<Rightarrow> string) \<Rightarrow> element \<Rightarrow> strategy_exn + string" where
  "table_body exc_text table = (case dict_get (el_metadata table) ''cells'' of
       None \<Rightarrow> Inr (el_text table)
     | Some m \<Rightarrow> (case m of
           MCells cells \<Rightarrow> if cells = [] then Inr (el_text table) else markdown_table exc_text cells
         | MNone \<Rightarrow> Inr (el_text table)
         | MBool b \<Rightarrow> if b then Inl (OtherException (exc_text TypeError)) else Inr (el_text table)
         | MInt i \<Rightarrow> if i \<noteq> 0 then Inl (OtherException (exc_text TypeError)) else Inr (el_text table)
         | MStr s \<Rightarrow> if s \<noteq> [] then Inl (OtherException (exc_text TypeError)) else Inr (el_text table)
         | MInts xs \<Rightarrow> if xs \<noteq> [] then Inl (OtherException (exc_text TypeError)) else Inr (el_text table)))"

definition serialize_table ::
    "(interpreter_error \<Rightarrow> string) \<Rightarrow> element \<Rightarrow> string option \<Rightarrow> strategy_exn + string" where
  "serialize_table exc_text table caption_text =
     bind_res (table_body exc_text table) (\<lambda>body.
       Inr (case caption_text of
              None \<Rightarrow> body
            | Some c \<Rightarrow> if c = [] then body else c @ blank_line @ body))"

definition table_atomic_chunk_region ::
    "(interpreter_error \<Rightarrow> string) \<Rightarrow> chunker_config \<Rightarrow> token_count \<Rightarrow> string option \<Rightarrow> element list \<Rightarrow>
     strategy_exn + chunk_draft list" where
  "table_atomic_chunk_region exc_text config count caption_text elements = (case elements of
       [] \<Rightarrow> Inl (OtherException (exc_text IndexError))
     | table # _ \<Rightarrow>
         bind_res (serialize_table exc_text table caption_text) (\<lambda>txt.
         bind_res (count txt) (\<lambda>token_count.
           let oversized = token_count > cc_max_chunk_tokens config;
               metadata = [(''strategy'', MStr STRATEGY_TABLE_ATOMIC), (''section_path'', MNone),
                           (''oversized'', MBool oversized)] @ page_metadata [table]
           in Inr [\<lparr>cd_element_types = [el_type table], cd_text = txt, cd_token_count = token_count,
                    cd_metadata = metadata\<rparr>])))"

section \<open>Lemmas\<close>

lemma str_join_snoc2: "str_join sep (xs @ [a, b]) = str_join sep (xs @ [a @ sep @ b])"
proof (induction xs)
  case Nil
  then show ?case by simp
next
  case (Cons x xs)
  then show ?case by (cases xs) simp_all
qed

lemma map_res_mem:
  assumes "map_res f xs = Inr ys" and "y \<in> set ys"
  shows "\<exists>x \<in> set xs. f x = Inr y"
  using assms by (induction xs arbitrary: ys) auto

lemma recursive_draft:
  assumes "recursive_chunk_region split config count es = Inr ds" and "d \<in> set ds"
  shows "dict_get (cd_metadata d) ''strategy'' = Some (MStr STRATEGY_RECURSIVE) \<and>
    cd_element_types d = unique_element_types es \<and> count (cd_text d) = Inr (cd_token_count d)"
proof -
  let ?f = "\<lambda>piece. bind_res (count piece) (\<lambda>n. Inr \<lparr>cd_element_types = unique_element_types es, cd_text = piece,
      cd_token_count = n, cd_metadata = [(''strategy'', MStr STRATEGY_RECURSIVE), (''section_path'', MNone)] @ page_metadata es\<rparr>)"
  from assms obtain pieces where "map_res ?f pieces = Inr ds"
    by (auto simp: recursive_chunk_region_def Let_def split: if_splits)
  from map_res_mem [OF this assms(2)] show ?thesis by auto
qed

lemma structure_sections_mem:
  "structure_sections split config count secs = Inr ds \<Longrightarrow> d \<in> set ds \<Longrightarrow>
   \<exists>(path, es) \<in> set secs. \<exists>ds' d'. recursive_chunk_region split config count es = Inr ds' \<and> d' \<in> set ds' \<and> d = retag path d'"
proof (induction secs arbitrary: ds)
  case Nil
  then show ?case by simp
next
  case (Cons sec secs)
  obtain path es where sec: "sec = (path, es)" by (cases sec)
  with Cons.prems(1) obtain sd rest where
    "recursive_chunk_region split config count es = Inr sd" "structure_sections split config count secs = Inr rest"
    "ds = map (retag path) sd @ rest" by auto
  with Cons sec show ?case by auto
qed

lemma retag_metadata [simp]:
  "dict_get (cd_metadata (retag path d)) ''strategy'' = Some (MStr STRATEGY_STRUCTURE_AWARE)"
  "dict_get (cd_metadata (retag path d)) ''section_path'' =
     Some (case path of None \<Rightarrow> MNone | Some p \<Rightarrow> MStr p)"
  "cd_text (retag path d) = cd_text d" "cd_token_count (retag path d) = cd_token_count d"
  by (simp_all add: retag_def)

lemma structure_draft:
  assumes "structure_aware_chunk_region split config count es = Inr ds" and "d \<in> set ds"
  shows "dict_get (cd_metadata d) ''strategy'' = Some (MStr STRATEGY_STRUCTURE_AWARE) \<and>
    count (cd_text d) = Inr (cd_token_count d)"
proof -
  from structure_sections_mem [OF assms(1) [unfolded structure_aware_chunk_region_def] assms(2)]
  obtain path es' ds' d' where "recursive_chunk_region split config count es' = Inr ds'" "d' \<in> set ds'" "d = retag path d'"
    by blast
  with recursive_draft show ?thesis by (simp del: dict_get_def)
qed

lemma table_atomic_Inr:
  "table_atomic_chunk_region x config count cap (e # es) = Inr ds \<longleftrightarrow>
   (\<exists>t n. serialize_table x e cap = Inr t \<and> count t = Inr n \<and>
      ds = [\<lparr>cd_element_types = [el_type e], cd_text = t, cd_token_count = n,
         cd_metadata = [(''strategy'', MStr STRATEGY_TABLE_ATOMIC), (''section_path'', MNone),
           (''oversized'', MBool (n > cc_max_chunk_tokens config))] @ page_metadata [e]\<rparr>])"
  by (auto simp: table_atomic_chunk_region_def Let_def)

subsection \<open>Sections\<close>

lemma sections_loop_concat:
  "concat (map snd (split_sections_loop sections path content es)) =
   concat (map snd sections) @ content @ filter (\<lambda>e. el_type e \<noteq> HEADING) es"
  by (induction sections path content es rule: split_sections_loop.induct) auto

text \<open>The text of the last heading of a list of elements.\<close>

fun last_heading :: "element list \<Rightarrow> string option" where
  "last_heading [] = None"
| "last_heading (e # es) = (case last_heading es of
     Some t \<Rightarrow> Some t | None \<Rightarrow> if el_type e = HEADING then Some (el_text e) else None)"

lemma last_heading_snoc:
  "last_heading (es @ [e]) = (if el_type e = HEADING then Some (el_text e) else last_heading es)"
  by (induction es) (auto split: option.splits)

definition section_of :: "element list \<Rightarrow> string option \<times> element list \<Rightarrow> bool" where
  "section_of es s \<longleftrightarrow> (\<exists>before after. es = before @ snd s @ after \<and> fst s = last_heading before \<and> snd s \<noteq> [] \<and>
     (\<forall>e \<in> set (snd s). el_type e \<noteq> HEADING) \<and> (before = [] \<or> el_type (last before) = HEADING) \<and>
     (after = [] \<or> el_type (hd after) = HEADING))"

lemma section_ofI:
  "es = before @ content @ after \<Longrightarrow> path = last_heading before \<Longrightarrow> content \<noteq> [] \<Longrightarrow>
   \<forall>e \<in> set content. el_type e \<noteq> HEADING \<Longrightarrow> before = [] \<or> el_type (last before) = HEADING \<Longrightarrow>
   after = [] \<or> el_type (hd after) = HEADING \<Longrightarrow> section_of es (path, content)"
  by (auto simp: section_of_def)

lemma sections_loop_sound:
  assumes "\<forall>s \<in> set sections. section_of (before @ content @ es) s"
    and "path = last_heading before" and "\<forall>e \<in> set content. el_type e \<noteq> HEADING"
    and "before = [] \<or> el_type (last before) = HEADING"
  shows "\<forall>s \<in> set (split_sections_loop sections path content es). section_of (before @ content @ es) s"
  using assms
proof (induction sections path content es arbitrary: before rule: split_sections_loop.induct)
  case (1 sections path content)
  then have "content \<noteq> [] \<Longrightarrow> section_of (before @ content @ []) (path, content)"
    by (intro section_ofI [OF refl]) simp_all
  with 1 show ?case by auto
next
  case (2 sections path content e es)
  show ?case
  proof (cases "el_type e = HEADING")
    case True
    have "content \<noteq> [] \<Longrightarrow> section_of (before @ content @ e # es) (path, content)"
      using 2(4,5,6) True by (intro section_ofI [OF refl]) simp_all
    with 2 have all: "\<forall>s \<in> set (if content \<noteq> [] then sections @ [(path, content)] else sections).
        section_of ((before @ content @ [e]) @ [] @ es) s" by auto
    have "last_heading (before @ content @ [e]) = Some (el_text e)"
      using True last_heading_snoc [of "before @ content" e] by simp
    with 2(1) [OF True all] True show ?thesis by simp
  next
    case False
    with 2(2) [OF False, of before] 2(3,4,5,6) show ?thesis by simp
  qed
qed

subsection \<open>Tables\<close>

definition in_bounds :: "nat \<Rightarrow> nat \<Rightarrow> table_cell \<Rightarrow> bool" where
  "in_bounds rows cols c \<longleftrightarrow> 0 \<le> tc_row_index c \<and> tc_row_index c < int rows \<and>
     0 \<le> tc_column_index c \<and> tc_column_index c < int cols"

definition cell_text :: "table_cell \<Rightarrow> string" where
  "cell_text c = (case tc_content c of None \<Rightarrow> [] | Some s \<Rightarrow> s)"

text \<open>What a position of the grid shows: the last cell given for it, or what was there.\<close>

fun cell_at :: "string \<Rightarrow> table_cell list \<Rightarrow> nat \<Rightarrow> nat \<Rightarrow> string" where
  "cell_at old [] r c = old"
| "cell_at old (x # xs) r c =
     cell_at (if tc_row_index x = int r \<and> tc_column_index x = int c then cell_text x else old) xs r c"

abbreviation rectangular :: "nat \<Rightarrow> nat \<Rightarrow> 'a list list \<Rightarrow> bool" where
  "rectangular rows cols grid \<equiv> length grid = rows \<and> (\<forall>r < rows. length (grid ! r) = cols)"

lemma grid_fill_ok:
  "\<forall>c \<in> set cells. in_bounds rows cols c \<Longrightarrow> rectangular rows cols grid \<Longrightarrow>
   \<exists>grid'. grid_fill exc_text cells grid = Inr grid' \<and> rectangular rows cols grid' \<and>
     (\<forall>r < rows. \<forall>c < cols. grid' ! r ! c = cell_at (grid ! r ! c) cells r c)"
proof (induction cells arbitrary: grid)
  case Nil
  then show ?case by simp
next
  case (Cons x xs)
  define i where "i = nat (tc_row_index x)"
  define j where "j = nat (tc_column_index x)"
  have ij: "i < rows" "j < cols" "tc_row_index x = int i" "tc_column_index x = int j"
    using Cons.prems(1) by (auto simp: in_bounds_def i_def j_def)
  let ?g = "grid[i := (grid ! i)[j := cell_text x]]"
  have rect: "rectangular rows cols ?g" using Cons.prems(2) ij by (auto simp: nth_list_update)
  have bounds: "\<forall>c \<in> set xs. in_bounds rows cols c" using Cons.prems(1) by simp
  from Cons.IH [OF bounds rect] obtain grid' where g: "grid_fill exc_text xs ?g = Inr grid'" "rectangular rows cols grid'"
    "\<forall>r < rows. \<forall>c < cols. grid' ! r ! c = cell_at (?g ! r ! c) xs r c" by blast
  have "?g ! r ! c = (if i = r \<and> j = c then cell_text x else grid ! r ! c)" if "r < rows" "c < cols" for r c
    using that Cons.prems(2) ij by (auto simp: nth_list_update)
  then have cells: "\<forall>r < rows. \<forall>c < cols. grid' ! r ! c = cell_at (grid ! r ! c) (x # xs) r c"
    using g(3) ij by simp
  have "grid_fill exc_text (x # xs) grid = grid_fill exc_text xs ?g"
    using ij Cons.prems(2) by (simp add: py_index_def cell_text_def)
  with g cells show ?case by auto
qed

text \<open>
  A table of cells with non-negative indices always serialises: a header row, a separator, and the
  other rows of the smallest grid that has room for every cell, with empty text where none was given.
\<close>

lemma less_nat_Suc: "0 \<le> x \<Longrightarrow> x \<le> m \<Longrightarrow> x < int (nat (m + 1))"
  by simp

lemma markdown_table_grid:
  assumes "cells \<noteq> []" and "\<forall>c \<in> set cells. 0 \<le> tc_row_index c \<and> 0 \<le> tc_column_index c"
  defines "rows \<equiv> nat (Max (set (map tc_row_index cells)) + 1)"
    and "cols \<equiv> nat (Max (set (map tc_column_index cells)) + 1)"
  shows "\<exists>grid. rectangular rows cols grid \<and> (\<forall>r < rows. \<forall>c < cols. grid ! r ! c = cell_at [] cells r c) \<and>
    markdown_table exc_text cells = Inr (str_join [CHR 0x0A]
      (markdown_row (hd grid) # markdown_row (replicate cols ''---'') # map markdown_row (tl grid)))"
proof -
  have "in_bounds rows cols c" if "c \<in> set cells" for c
  proof -
    have "tc_row_index c \<le> Max (set (map tc_row_index cells))" "tc_column_index c \<le> Max (set (map tc_column_index cells))"
      using that by auto
    with assms(2) that show ?thesis unfolding in_bounds_def rows_def cols_def by (blast intro: less_nat_Suc)
  qed
  moreover have "rectangular rows cols (replicate rows (replicate cols ([] :: string)))" by simp
  ultimately obtain grid where g: "grid_fill exc_text cells (replicate rows (replicate cols [])) = Inr grid"
    "rectangular rows cols grid"
    "\<forall>r < rows. \<forall>c < cols. grid ! r ! c = cell_at (replicate rows (replicate cols []) ! r ! c) cells r c"
    using grid_fill_ok by blast
  obtain c0 where "c0 \<in> set cells" using assms(1) by (cases cells) auto
  then have "0 < rows" using \<open>\<And>c. c \<in> set cells \<Longrightarrow> in_bounds rows cols c\<close> by (force simp: in_bounds_def)
  with g(2) obtain first rest where "grid = first # rest" by (cases grid) auto
  moreover have "markdown_table exc_text cells = bind_res (grid_fill exc_text cells (replicate rows (replicate cols []))) (\<lambda>grid.
      case grid of
        [] \<Rightarrow> Inl (OtherException (exc_text IndexError))
      | first # rest \<Rightarrow> Inr (str_join [CHR 0x0A]
          ([markdown_row first, markdown_row (replicate cols ''---'')] @ map markdown_row rest)))"
    unfolding markdown_table_def Let_def rows_def cols_def by (rule refl)
  ultimately have "markdown_table exc_text cells = Inr (str_join [CHR 0x0A]
      (markdown_row (hd grid) # markdown_row (replicate cols ''---'') # map markdown_row (tl grid)))"
    using g(1) by simp
  with g show ?thesis by (intro exI [of _ grid]) simp
qed

subsection \<open>Token counter\<close>

text \<open>
  A failed load is not remembered: the counter is unchanged, and the next call loads again.
\<close>

lemma tiktoken_reload:
  assumes "tk_encoding T = None" and "get_encoding (tk_encoding_name T) = Inl exc"
    and "get_encoding2 (tk_encoding_name T) = Inr enc" and "enc s2 = Inr toks"
    and "tiktoken_count get_encoding s1 T = (r, T')"
  shows "T' = T \<and> tiktoken_count get_encoding2 s2 T' = (Inr (int (length toks)), T\<lparr>tk_encoding := Some enc\<rparr>)"
  using assms by (auto simp: tiktoken_count_def load_encoding_def)

text \<open>Once loaded, the encoding stays and the counter is a function of the text.\<close>

lemma tiktoken_loaded:
  "tk_encoding T = Some enc \<Longrightarrow> tiktoken_count g s T = (map_sum id (\<lambda>toks. int (length toks)) (enc s), T)"
  by (simp add: tiktoken_count_def)

end
