(* ===== verification/Stage_Worker.thy ===== *)
theory Stage_Worker
  imports Ledger
begin

text \<open>
  What the pipeline stages (analyzer, chunker, embedder, indexer) share. Each of them writes the ledger
  through \<open>transition\<close> only, for the document it works on, and wraps the write in the triage of a lost
  race. The first lemmas give the outcome of such a write from the status of the row; the locale
  \<open>stage_worker\<close> states the contract and derives from it, once, what a call of a stage keeps of the
  ledger. Every stage is an interpretation of it in its own theory.
\<close>

section \<open>One write, by the status of the row\<close>

lemma transition_edge:
  assumes "ledger_ok L" and "ledger_get L d = Some r" and "fsm_edge (lr_status r) t" and "t = FAILED \<longrightarrow> ec \<noteq> None"
  shows "ledger_transition now d t t ec em a L = (Inr (next_row now d r t t ec em a), ledger_put d (next_row now d r t t ec em a) L)"
proof -
  have "valid_id d" using ledger_okD [OF assms(1,2)] by (simp add: row_ok_def)
  moreover have "validate_transition d (ledger_get L d) t t ec = Inr ()"
    using assms by (simp add: validate_transition_ok_iff)
  ultimately show ?thesis using assms(2) by (simp add: ledger_transition_def Let_def)
qed

lemma triaged_benign:
  assumes "ledger_ok L" and "ledger_get L d = Some r" and "\<not> fsm_edge (lr_status r) t" and "lost_to t (lr_status r)"
  shows "triaged t (ledger_transition now d t t ec em a L) = (Inr r, L)"
proof -
  obtain x where "ledger_transition now d t t ec em a L = (Inl (LedgerTransitionInvalid x), L)" "ti_observed_row x = Some r"
    using mem.transition_off_edge [OF assms(1-3)] by blast
  moreover have "is_benign_concurrent_loss (Some r) t t = Some (lost_to t (lr_status r))"
    using is_benign_row ledger_okD [OF assms(1,2)] by (simp add: row_ok_def)
  ultimately show ?thesis using assms(4) by (simp add: triaged_def)
qed

lemma triaged_refused:
  assumes "ledger_ok L" and "ledger_get L d = Some r" and "\<not> fsm_edge (lr_status r) t" and "\<not> lost_to t (lr_status r)"
  shows "\<exists>x. triaged t (ledger_transition now d t t ec em a L) = (Inl (LedgerTransitionInvalid x), L) \<and> ti_observed_row x = Some r"
proof -
  obtain x where "ledger_transition now d t t ec em a L = (Inl (LedgerTransitionInvalid x), L)" "ti_observed_row x = Some r"
    using mem.transition_off_edge [OF assms(1-3)] by blast
  moreover have "is_benign_concurrent_loss (Some r) t t = Some (lost_to t (lr_status r))"
    using is_benign_row ledger_okD [OF assms(1,2)] by (simp add: row_ok_def)
  ultimately show ?thesis using assms(4) by (simp add: triaged_def)
qed

text \<open>The fields of a row after the three kinds of write a stage makes.\<close>

lemma next_error_fields_stage [simp]:
  "next_error_fields r t (Some c) m = (Some c, m)"
  "t \<noteq> lr_status r \<Longrightarrow> next_error_fields r t None m = (None, m)"
  by (simp_all add: next_error_fields_def)

lemma next_attempts_stage [simp]:
  "next_attempts r FAILED = lr_attempts r"
  "lr_status r = t \<Longrightarrow> t \<noteq> FAILED \<Longrightarrow> next_attempts r t = lr_attempts r + 1"
  "lr_status r \<noteq> t \<Longrightarrow> t \<noteq> FAILED \<Longrightarrow> lr_status r \<noteq> FAILED \<Longrightarrow> next_attempts r t = 1"
  by (auto simp: next_attempts_def)

section \<open>The contract of a stage\<close>

fun op_doc :: "ledger_op \<Rightarrow> string" where
  "op_doc (CreateOp now d s) = d"
| "op_doc (TransitionOp now d to st ec em a) = d"

abbreviation ops_for :: "string \<Rightarrow> ledger_op list \<Rightarrow> bool" where
  "ops_for d ops \<equiv> list_all (\<lambda>a. op_doc a = d) ops"

lemma ledger_run_append [simp]: "ledger_run L (as @ bs) = ledger_run (ledger_run L as) bs"
  by (induction as arbitrary: L) auto

lemma ledger_step_other: "op_doc a \<noteq> d \<Longrightarrow> ledger_get (ledger_step L a) d = ledger_get L d"
proof (cases a)
  case (CreateOp now d' s)
  assume "op_doc a \<noteq> d"
  with CreateOp show ?thesis by (cases now d' s L rule: ledger_create_cases) auto
next
  case (TransitionOp now d' to st ec em asg)
  assume "op_doc a \<noteq> d"
  with TransitionOp show ?thesis by (cases now d' to st ec em asg L rule: ledger_transition_cases) auto
qed

lemma ledger_run_other: "ops_for d' ops \<Longrightarrow> d' \<noteq> d \<Longrightarrow> ledger_get (ledger_run L ops) d = ledger_get L d"
  by (induction ops arbitrary: L) (auto simp: ledger_step_other)

text \<open>A single write, triaged or not, is a run of the ledger on that document.\<close>

lemma write_is_run:
  "snd (ledger_transition now d to st ec em a L) = ledger_run L [TransitionOp now d to st ec em a]"
  by simp

lemma triaged_state: "triaged t x = (y, L') \<Longrightarrow> L' = snd x"
  using snd_triaged [of t x] by simp

locale stage_worker =
  fixes handle :: "'i \<Rightarrow> ledger_store \<Rightarrow> 'o \<times> ledger_store"
    and doc :: "'i \<Rightarrow> string"
  assumes writes_own_row: "\<exists>ops. snd (handle i L) = ledger_run L ops \<and> ops_for (doc i) ops"
begin

lemma stage_ok: "ledger_ok L \<Longrightarrow> ledger_ok (snd (handle i L))"
  using writes_own_row [of i L] ledger_ok_run by auto

lemma stage_other: "d \<noteq> doc i \<Longrightarrow> ledger_get (snd (handle i L)) d = ledger_get L d"
  using writes_own_row [of i L] ledger_run_other by metis

lemma stage_row: "ledger_get L d = Some r \<Longrightarrow> \<exists>r'. ledger_get (snd (handle i L)) d = Some r' \<and> row_later r r'"
  using writes_own_row [of i L] ledger_run_row by metis

lemma stage_final:
  "ledger_get L d = Some r \<Longrightarrow> lr_status r = INDEXED \<or> lr_status r = ARCHIVED \<Longrightarrow> ledger_get (snd (handle i L)) d = Some r"
  using writes_own_row [of i L] by (auto intro: ledger_run_closed)

text \<open>Any schedule of calls of the stage is a run of the ledger.\<close>

lemma schedule_is_run: "\<exists>ops. fold (\<lambda>i L. snd (handle i L)) is L = ledger_run L ops"
proof (induction "is" arbitrary: L)
  case Nil
  show ?case by (rule exI [of _ "[]"]) simp
next
  case (Cons i "is")
  obtain as where "snd (handle i L) = ledger_run L as" using writes_own_row by blast
  moreover obtain bs where "fold (\<lambda>i L. snd (handle i L)) is (ledger_run L as) = ledger_run (ledger_run L as) bs"
    using Cons.IH by blast
  ultimately show ?case by (intro exI [of _ "as @ bs"]) simp
qed

end

end
