(* ===== verification/Chunker.thy ===== *)
theory Chunker
  imports Chunk_Strategies Stage_Worker Envelope
begin

text \<open>
  The chunker, \<open>src/vestibule/chunker/chunker.py\<close>: partitioning a document into table and non-table
  regions, dispatching each region to its strategy (the default strategies of the constructor), the
  merge of an undersized tail, the assignment of positions and identifiers, and the ledger
  transitions on the three failure paths and on success.
\<close>

section \<open>Data\<close>

datatype region_kind = TableRegion | NonTableRegion

record region =
  rg_kind :: region_kind
  rg_elements :: "element list"
  rg_caption_text :: "string option"

record chunk =
  ch_chunk_id :: string
  ch_doc_id :: string
  ch_position :: int
  ch_element_types :: "element_type list"
  ch_text :: string
  ch_token_count :: int
  ch_metadata :: metadata

datatype chunk_exn = ChunkerError chunker_error | CLedgerError ledger_exn

section \<open>Regions\<close>

definition caption_for_table :: "element list \<Rightarrow> nat \<Rightarrow> string option" where
  "caption_for_table elements table_index =
     (if table_index = 0 then None
      else let preceding = elements ! (table_index - 1) in
        if el_type preceding \<in> {PARAGRAPH, IMAGE_CAPTION} then Some (el_text preceding) else None)"

definition non_table_region :: "element list \<Rightarrow> region" where
  "non_table_region buffer = \<lparr>rg_kind = NonTableRegion, rg_elements = buffer, rg_caption_text = None\<rparr>"

definition table_region :: "element list \<Rightarrow> nat \<Rightarrow> element \<Rightarrow> region" where
  "table_region elements i e =
     \<lparr>rg_kind = TableRegion, rg_elements = [e], rg_caption_text = caption_for_table elements i\<rparr>"

fun partition_loop :: "element list \<Rightarrow> nat \<Rightarrow> element list \<Rightarrow> region list \<Rightarrow> element list \<Rightarrow> region list" where
  "partition_loop elements i buffer regions [] =
     (if buffer \<noteq> [] then regions @ [non_table_region buffer] else regions)"
| "partition_loop elements i buffer regions (e # es) =
     (if el_type e \<noteq> TABLE then partition_loop elements (Suc i) (buffer @ [e]) regions es
      else partition_loop elements (Suc i) []
             ((if buffer \<noteq> [] then regions @ [non_table_region buffer] else regions) @ [table_region elements i e]) es)"

definition partition_regions :: "element list \<Rightarrow> region list" where
  "partition_regions elements = partition_loop elements 0 [] [] elements"

section \<open>The merge pass\<close>

definition merge_two_drafts :: "token_count \<Rightarrow> chunk_draft \<Rightarrow> chunk_draft \<Rightarrow> strategy_exn + chunk_draft" where
  "merge_two_drafts count predecessor tail =
     (let merged_text = cd_text predecessor @ blank_line @ cd_text tail;
          merged_types = append_unseen (cd_element_types predecessor) (cd_element_types tail)
      in bind_res (count merged_text) (\<lambda>n.
           Inr \<lparr>cd_element_types = merged_types, cd_text = merged_text, cd_token_count = n,
                cd_metadata = cd_metadata predecessor\<rparr>))"

definition is_table_draft :: "chunk_draft \<Rightarrow> bool" where
  "is_table_draft d \<longleftrightarrow> dict_get (cd_metadata d) ''strategy'' = Some (MStr STRATEGY_TABLE_ATOMIC)"

text \<open>The condition of the loop, on \<open>merged[-2]\<close> and \<open>merged[-1]\<close>.\<close>

definition must_merge :: "chunker_config \<Rightarrow> chunk_draft list \<Rightarrow> bool" where
  "must_merge config merged \<longleftrightarrow> length merged > 1 \<and>
     cd_token_count (last merged) < cc_min_chunk_tokens config \<and>
     \<not> is_table_draft (last merged) \<and> \<not> is_table_draft (last (butlast merged))"

function merge_undersized_tail ::
    "chunker_config \<Rightarrow> token_count \<Rightarrow> chunk_draft list \<Rightarrow> strategy_exn + chunk_draft list" where
  "merge_undersized_tail config count merged =
     (if must_merge config merged
      then (case merge_two_drafts count (last (butlast merged)) (last merged) of
              Inl e \<Rightarrow> Inl e
            | Inr m \<Rightarrow> merge_undersized_tail config count (butlast (butlast merged) @ [m]))
      else Inr merged)"
  by pat_completeness auto
termination
  by (relation "measure (\<lambda>(config, count, merged). length merged)") (auto simp: must_merge_def)

declare merge_undersized_tail.simps [simp del]

section \<open>Assembly\<close>

definition dispatch_region ::
    "(interpreter_error \<Rightarrow> string) \<Rightarrow> splitter \<Rightarrow> chunker_config \<Rightarrow> token_count \<Rightarrow> bool \<Rightarrow> region \<Rightarrow>
     strategy_exn + chunk_draft list" where
  "dispatch_region exc_text split config count has_headings region =
     (if rg_kind region = TableRegion
      then table_atomic_chunk_region exc_text config count (rg_caption_text region) (rg_elements region)
      else if has_headings then structure_aware_chunk_region split config count (rg_elements region)
      else recursive_chunk_region split config count (rg_elements region))"

fun assemble_loop ::
    "(interpreter_error \<Rightarrow> string) \<Rightarrow> splitter \<Rightarrow> chunker_config \<Rightarrow> token_count \<Rightarrow> bool \<Rightarrow> region list \<Rightarrow>
     strategy_exn + chunk_draft list" where
  "assemble_loop exc_text split config count has_headings [] = Inr []"
| "assemble_loop exc_text split config count has_headings (region # regions) =
     bind_res (dispatch_region exc_text split config count has_headings region) (\<lambda>region_drafts.
     bind_res (merge_undersized_tail config count region_drafts) (\<lambda>merged.
     bind_res (assemble_loop exc_text split config count has_headings regions) (\<lambda>rest.
       Inr (merged @ rest))))"

fun assign_positions_loop :: "string \<Rightarrow> int \<Rightarrow> chunk_draft list \<Rightarrow> strategy_exn + chunk list" where
  "assign_positions_loop doc_id position [] = Inr []"
| "assign_positions_loop doc_id position (draft # drafts) =
     (case derive_chunk_id (PyStr doc_id) (PyInt position) of
        Inl (IdentityInvalid field_name reason) \<Rightarrow> Inl (OtherException (field_name @ '': '' @ reason))
      | Inr chunk_id \<Rightarrow> bind_res (assign_positions_loop doc_id (position + 1) drafts) (\<lambda>chunks.
          Inr (\<lparr>ch_chunk_id = chunk_id, ch_doc_id = doc_id, ch_position = position,
                ch_element_types = cd_element_types draft, ch_text = cd_text draft,
                ch_token_count = cd_token_count draft, ch_metadata = cd_metadata draft\<rparr> # chunks)))"

definition assign_positions :: "string \<Rightarrow> chunk_draft list \<Rightarrow> strategy_exn + chunk list" where
  "assign_positions doc_id drafts = assign_positions_loop doc_id 0 drafts"

definition assemble_chunks ::
    "(interpreter_error \<Rightarrow> string) \<Rightarrow> splitter \<Rightarrow> chunker_config \<Rightarrow> token_count \<Rightarrow> string \<Rightarrow> element list \<Rightarrow>
     strategy_exn + chunk list" where
  "assemble_chunks exc_text split config count doc_id elements =
     (let has_headings = list_ex (\<lambda>e. el_type e = HEADING) elements
      in bind_res (assemble_loop exc_text split config count has_headings (partition_regions elements))
           (assign_positions doc_id))"

section \<open>Ledger\<close>

definition self_transition_and_raise ::
    "datetime \<Rightarrow> string \<Rightarrow> string \<Rightarrow> string \<Rightarrow> ledger_store \<Rightarrow> chunk_exn \<times> ledger_store" where
  "self_transition_and_raise now doc_id error_code reason L =
     (case ledger_transition now doc_id CHUNKING CHUNKING (Some error_code) (Some reason) None L of
        (Inl e, L') \<Rightarrow> (CLedgerError e, L')
      | (Inr _, L') \<Rightarrow> (ChunkerError (chunker_exn doc_id reason error_code), L'))"

definition terminalize_empty_elements :: "datetime \<Rightarrow> string \<Rightarrow> ledger_store \<Rightarrow> chunk_exn \<times> ledger_store" where
  "terminalize_empty_elements now doc_id L =
     (let reason = ''Analyzer returned zero elements; nothing to chunk'' in
      case triaged FAILED (ledger_transition now doc_id FAILED FAILED (Some CHUNKER_EMPTY_ELEMENTS) (Some reason) None L) of
        (Inl e, L') \<Rightarrow> (CLedgerError e, L')
      | (Inr _, L') \<Rightarrow> (ChunkerError (chunker_exn doc_id reason CHUNKER_EMPTY_ELEMENTS), L'))"

definition build_chunks ::
    "(interpreter_error \<Rightarrow> string) \<Rightarrow> splitter \<Rightarrow> chunker_config \<Rightarrow> token_count \<Rightarrow> datetime \<Rightarrow> string \<Rightarrow>
     element list \<Rightarrow> ledger_store \<Rightarrow> (chunk_exn, chunk list, ledger_store) outcome" where
  "build_chunks exc_text split config count now doc_id elements L =
     (case assemble_chunks exc_text split config count doc_id elements of
        Inr chunks \<Rightarrow> (Inr chunks, L)
      | Inl (StrategyChunkerError x) \<Rightarrow>
          if ce_error_code x = TOKENIZER_LOAD_FAILED
          then map_prod Inl id (self_transition_and_raise now doc_id TOKENIZER_LOAD_FAILED (ce_reason x) L)
          else map_prod Inl id (self_transition_and_raise now doc_id CHUNKER_INTERNAL
                 (ce_doc_id x @ '': '' @ ce_reason x) L)
      | Inl (OtherException text) \<Rightarrow>
          map_prod Inl id (self_transition_and_raise now doc_id CHUNKER_INTERNAL text L))"

definition transition_to_embedding ::
    "datetime \<Rightarrow> string \<Rightarrow> chunk list \<Rightarrow> ledger_store \<Rightarrow> (chunk_exn, chunk list, ledger_store) outcome" where
  "transition_to_embedding now doc_id chunks L =
     (case triaged EMBEDDING (ledger_transition now doc_id EMBEDDING EMBEDDING None None None L) of
        (Inl e, L') \<Rightarrow> (Inl (CLedgerError e), L')
      | (Inr _, L') \<Rightarrow> (Inr chunks, L'))"

definition chunker_chunk ::
    "(interpreter_error \<Rightarrow> string) \<Rightarrow> splitter \<Rightarrow> chunker_config \<Rightarrow> token_count \<Rightarrow> datetime \<Rightarrow>
     arrival_envelope \<Rightarrow> element list \<Rightarrow> ledger_store \<Rightarrow> (chunk_exn, chunk list, ledger_store) outcome" where
  "chunker_chunk exc_text split config count now envelope elements L =
     (let doc_id = ae_doc_id envelope in
      if elements = [] then map_prod Inl id (terminalize_empty_elements now doc_id L)
      else case build_chunks exc_text split config count now doc_id elements L of
             (Inl e, L') \<Rightarrow> (Inl e, L')
           | (Inr chunks, L') \<Rightarrow> transition_to_embedding now doc_id chunks L')"

section \<open>Lemmas: regions\<close>

lemma partition_loop_concat:
  "concat (map rg_elements (partition_loop all i buffer regions es)) = concat (map rg_elements regions) @ buffer @ es"
  by (induction all i buffer regions es rule: partition_loop.induct)
    (auto simp: non_table_region_def table_region_def)

definition region_ok :: "region \<Rightarrow> bool" where
  "region_ok r \<longleftrightarrow> (case rg_kind r of
     TableRegion \<Rightarrow> \<exists>e. rg_elements r = [e] \<and> el_type e = TABLE
   | NonTableRegion \<Rightarrow> rg_elements r \<noteq> [] \<and> (\<forall>e \<in> set (rg_elements r). el_type e \<noteq> TABLE) \<and> rg_caption_text r = None)"

lemma region_ok_intros [simp]:
  "el_type e = TABLE \<Longrightarrow> region_ok (table_region all i e)"
  "buffer \<noteq> [] \<Longrightarrow> list_all (\<lambda>e. el_type e \<noteq> TABLE) buffer \<Longrightarrow> region_ok (non_table_region buffer)"
  by (simp_all add: region_ok_def table_region_def non_table_region_def list_all_iff)

lemma partition_loop_ok:
  "list_all region_ok regions \<Longrightarrow> list_all (\<lambda>e. el_type e \<noteq> TABLE) buffer \<Longrightarrow>
   list_all region_ok (partition_loop all i buffer regions es)"
  by (induction all i buffer regions es rule: partition_loop.induct) simp_all

text \<open>No two neighbouring regions are both non-table: the runs are maximal.\<close>

definition alternates :: "region list \<Rightarrow> bool" where
  "alternates rs \<longleftrightarrow> (\<forall>i. Suc i < length rs \<longrightarrow> rg_kind (rs ! i) = TableRegion \<or> rg_kind (rs ! Suc i) = TableRegion)"

lemma alternates_snoc:
  "alternates (rs @ [r]) \<longleftrightarrow> alternates rs \<and> (rs = [] \<or> rg_kind (last rs) = TableRegion \<or> rg_kind r = TableRegion)"
proof (cases rs rule: rev_cases)
  case (snoc ys y)
  have "alternates (rs @ [r]) \<longleftrightarrow> alternates rs \<and> (rg_kind y = TableRegion \<or> rg_kind r = TableRegion)"
    unfolding alternates_def snoc
    by (auto simp: nth_append less_Suc_eq split: if_splits)
  with snoc show ?thesis by simp
qed (simp add: alternates_def)

lemma partition_loop_alternates:
  "alternates regions \<Longrightarrow> regions = [] \<or> rg_kind (last regions) = TableRegion \<Longrightarrow>
   alternates (partition_loop all i buffer regions es)"
  by (induction all i buffer regions es rule: partition_loop.induct)
    (auto simp: alternates_snoc table_region_def alternates_def [of "[_]"] simp del: append_assoc)

text \<open>The caption of a table region is looked up right before the table.\<close>

definition captions_ok :: "element list \<Rightarrow> region list \<Rightarrow> bool" where
  "captions_ok all rs \<longleftrightarrow> (\<forall>rs1 r rs2. rs = rs1 @ r # rs2 \<and> rg_kind r = TableRegion \<longrightarrow>
     rg_caption_text r = caption_for_table all (length (concat (map rg_elements rs1))))"

lemma captions_ok_snoc:
  "captions_ok all (rs @ [r]) \<longleftrightarrow> captions_ok all rs \<and>
     (rg_kind r = TableRegion \<longrightarrow> rg_caption_text r = caption_for_table all (length (concat (map rg_elements rs))))"
proof
  assume c: "captions_ok all (rs @ [r])"
  have "captions_ok all rs"
    unfolding captions_ok_def
  proof (intro allI impI, elim conjE)
    fix rs1 x rs2
    assume "rs = rs1 @ x # rs2" "rg_kind x = TableRegion"
    with c show "rg_caption_text x = caption_for_table all (length (concat (map rg_elements rs1)))"
      unfolding captions_ok_def by (metis append_Cons append_assoc)
  qed
  with c show "captions_ok all rs \<and>
     (rg_kind r = TableRegion \<longrightarrow> rg_caption_text r = caption_for_table all (length (concat (map rg_elements rs))))"
    unfolding captions_ok_def by blast
next
  assume c: "captions_ok all rs \<and>
     (rg_kind r = TableRegion \<longrightarrow> rg_caption_text r = caption_for_table all (length (concat (map rg_elements rs))))"
  show "captions_ok all (rs @ [r])"
    unfolding captions_ok_def
  proof (intro allI impI, elim conjE)
    fix rs1 x rs2
    assume "rs @ [r] = rs1 @ x # rs2" "rg_kind x = TableRegion"
    with c show "rg_caption_text x = caption_for_table all (length (concat (map rg_elements rs1)))"
      by (cases rs2 rule: rev_cases) (auto simp: captions_ok_def simp del: length_concat)
  qed
qed

lemma partition_loop_captions:
  "captions_ok all regions \<Longrightarrow> i = length (concat (map rg_elements regions)) + length buffer \<Longrightarrow>
   captions_ok all (partition_loop all i buffer regions es)"
  by (induction all i buffer regions es rule: partition_loop.induct)
    (auto simp: captions_ok_snoc table_region_def non_table_region_def simp del: append_assoc length_concat)

lemma caption_for_table_before:
  "caption_for_table (before @ e # after) (length before) =
     (if before = [] then None else if el_type (last before) \<in> {PARAGRAPH, IMAGE_CAPTION}
      then Some (el_text (last before)) else None)"
  by (cases before rule: rev_cases) (auto simp: caption_for_table_def nth_append Let_def)

section \<open>Lemmas: the merge pass\<close>

lemma merge_two_Inr:
  "merge_two_drafts count a b = Inr m \<longleftrightarrow> (\<exists>n. count (cd_text a @ blank_line @ cd_text b) = Inr n \<and>
     m = \<lparr>cd_element_types = append_unseen (cd_element_types a) (cd_element_types b),
          cd_text = cd_text a @ blank_line @ cd_text b, cd_token_count = n, cd_metadata = cd_metadata a\<rparr>)"
  by (auto simp: merge_two_drafts_def Let_def)

lemma must_merge_split:
  assumes "must_merge config ds"
  obtains pre a b where "ds = pre @ [a, b]" "last (butlast ds) = a" "last ds = b" "butlast (butlast ds) = pre"
    "cd_token_count b < cc_min_chunk_tokens config" "\<not> is_table_draft a" "\<not> is_table_draft b"
proof -
  from assms have "length ds > 1" by (simp add: must_merge_def)
  then obtain ys b where ds: "ds = ys @ [b]" by (cases ds rule: rev_cases) auto
  with \<open>length ds > 1\<close> obtain pre a where "ys = pre @ [a]" by (cases ys rule: rev_cases) auto
  with ds have "ds = pre @ [a, b]" by simp
  moreover from this have "last (butlast ds) = a" "last ds = b" "butlast (butlast ds) = pre"
    by (simp_all add: butlast_append)
  ultimately show ?thesis using assms by (intro that) (auto simp: must_merge_def simp del: butlast.simps)
qed

text \<open>An invariant of the merge: what every step keeps, and how it stops.\<close>

lemma merge_tail_invariant:
  assumes "merge_undersized_tail config count ds = Inr ds'" and "P ds"
    and step: "\<And>pre a b m. P (pre @ [a, b]) \<Longrightarrow> merge_two_drafts count a b = Inr m \<Longrightarrow>
      \<not> is_table_draft a \<Longrightarrow> \<not> is_table_draft b \<Longrightarrow> P (pre @ [m])"
  shows "P ds' \<and> \<not> must_merge config ds'"
  using assms
proof (induction config count ds rule: merge_undersized_tail.induct)
  case (1 config count ds)
  show ?case
  proof (cases "must_merge config ds")
    case False
    with 1 show ?thesis by (simp add: merge_undersized_tail.simps [of config count ds])
  next
    case True
    from must_merge_split [OF True] obtain pre a b where
      s: "ds = pre @ [a, b]" "last (butlast ds) = a" "last ds = b" "butlast (butlast ds) = pre"
      "\<not> is_table_draft a" "\<not> is_table_draft b" by blast
    have "merge_undersized_tail config count ds = (case merge_two_drafts count a b of
        Inl e \<Rightarrow> Inl e | Inr m \<Rightarrow> merge_undersized_tail config count (pre @ [m]))"
      using True s(2,3,4) by (subst merge_undersized_tail.simps) (simp split: sum.splits)
    with 1(2) obtain m where m: "merge_two_drafts count a b = Inr m"
      "merge_undersized_tail config count (pre @ [m]) = Inr ds'" by (auto split: sum.splits)
    have "P (pre @ [m])" using 1(4) [OF _ m(1) s(5,6)] 1(3) s(1) by simp
    then show ?thesis using 1(1) [OF True, of m] 1(4) m s(2,3,4) by blast
  qed
qed

lemma merge_tail_total:
  assumes "\<And>t. \<exists>n. count t = Inr n"
  shows "\<exists>ds'. merge_undersized_tail config count ds = Inr ds'"
proof (induction config "\<lambda>t. count t" ds rule: merge_undersized_tail.induct)
  case (1 config ds)
  show ?case
  proof (cases "must_merge config ds")
    case True
    obtain m where "merge_two_drafts count (last (butlast ds)) (last ds) = Inr m"
      using assms by (fastforce simp: merge_two_Inr)
    with 1 [OF True this] True show ?thesis by (simp add: merge_undersized_tail.simps [of config count ds])
  qed (simp add: merge_undersized_tail.simps [of config count ds])
qed

lemma merge_tail_single: "merge_undersized_tail config count [d] = Inr [d]"
  by (simp add: merge_undersized_tail.simps must_merge_def)

lemma merge_tail_no_tables:
  assumes "merge_undersized_tail config count ds = Inr ds'" and "\<forall>d \<in> set ds. \<not> is_table_draft d"
  shows "\<forall>d \<in> set ds'. \<not> is_table_draft d"
proof -
  have "(\<forall>d \<in> set ds'. \<not> is_table_draft d) \<and> \<not> must_merge config ds'"
    by (rule merge_tail_invariant [where P = "\<lambda>ds. \<forall>d \<in> set ds. \<not> is_table_draft d", OF assms])
      (auto simp: merge_two_Inr is_table_draft_def)
  then show ?thesis ..
qed

lemma merge_tail_counts:
  assumes "merge_undersized_tail config count ds = Inr ds'" and "\<forall>d \<in> set ds. count (cd_text d) = Inr (cd_token_count d)"
  shows "\<forall>d \<in> set ds'. count (cd_text d) = Inr (cd_token_count d)"
proof -
  have "(\<forall>d \<in> set ds'. count (cd_text d) = Inr (cd_token_count d)) \<and> \<not> must_merge config ds'"
    by (rule merge_tail_invariant [where P = "\<lambda>ds. \<forall>d \<in> set ds. count (cd_text d) = Inr (cd_token_count d)", OF assms])
      (auto simp: merge_two_Inr)
  then show ?thesis ..
qed

section \<open>Lemmas: assembly\<close>

lemma dispatch_non_table:
  assumes "dispatch_region x split config count h r = Inr ds" and "rg_kind r = NonTableRegion" and "d \<in> set ds"
  shows "\<not> is_table_draft d \<and> count (cd_text d) = Inr (cd_token_count d)"
  using assms recursive_draft [of split config count "rg_elements r" ds d]
    structure_draft [of split config count "rg_elements r" ds d]
  by (auto simp: dispatch_region_def is_table_draft_def split: if_splits)

lemma dispatch_table:
  assumes "dispatch_region x split config count h r = Inr ds" and "region_ok r" and "rg_kind r = TableRegion"
  obtains d where "ds = [d]" "is_table_draft d" "cd_element_types d = [TABLE]"
    "serialize_table x (hd (rg_elements r)) (rg_caption_text r) = Inr (cd_text d)" "count (cd_text d) = Inr (cd_token_count d)"
proof -
  from assms(2,3) obtain e where e: "rg_elements r = [e]" "el_type e = TABLE" by (auto simp: region_ok_def)
  with assms(1,3) obtain t n where tn: "serialize_table x e (rg_caption_text r) = Inr t" "count t = Inr n"
    "ds = [\<lparr>cd_element_types = [el_type e], cd_text = t, cd_token_count = n,
         cd_metadata = [(''strategy'', MStr STRATEGY_TABLE_ATOMIC), (''section_path'', MNone),
           (''oversized'', MBool (n > cc_max_chunk_tokens config))] @ page_metadata [e]\<rparr>]"
    by (auto simp: dispatch_region_def table_atomic_Inr)
  show ?thesis by (rule that [OF tn(3)]) (simp_all add: tn e is_table_draft_def)
qed

lemma assemble_loop_tables:
  "assemble_loop x split config count h rs = Inr ds \<Longrightarrow> list_all region_ok rs \<Longrightarrow>
   map (\<lambda>d. Inr (cd_text d)) (filter is_table_draft ds) =
     map (\<lambda>r. serialize_table x (hd (rg_elements r)) (rg_caption_text r)) (filter (\<lambda>r. rg_kind r = TableRegion) rs) \<and>
   (\<forall>d \<in> set ds. (is_table_draft d \<longrightarrow> cd_element_types d = [TABLE]) \<and> count (cd_text d) = Inr (cd_token_count d))"
proof (induction rs arbitrary: ds)
  case Nil
  then show ?case by simp
next
  case (Cons r rs)
  then obtain rd md rest where d: "dispatch_region x split config count h r = Inr rd"
    "merge_undersized_tail config count rd = Inr md" "assemble_loop x split config count h rs = Inr rest" "ds = md @ rest"
    by auto
  from Cons.prems(2) have ok: "region_ok r" "list_all region_ok rs" by simp_all
  note IH = Cons.IH [OF d(3) ok(2)]
  show ?case
  proof (cases "rg_kind r")
    case TableRegion
    from dispatch_table [OF d(1) ok(1) TableRegion] obtain t where t: "rd = [t]" "is_table_draft t"
      "cd_element_types t = [TABLE]" "serialize_table x (hd (rg_elements r)) (rg_caption_text r) = Inr (cd_text t)"
      "count (cd_text t) = Inr (cd_token_count t)" by metis
    with d(2) have "md = [t]" by (simp add: merge_tail_single)
    with t d(4) IH TableRegion show ?thesis by simp
  next
    case NonTableRegion
    have rd: "\<forall>d \<in> set rd. \<not> is_table_draft d" "\<forall>d \<in> set rd. count (cd_text d) = Inr (cd_token_count d)"
      using dispatch_non_table [OF d(1) NonTableRegion] by blast+
    have md: "\<forall>d \<in> set md. \<not> is_table_draft d" "\<forall>d \<in> set md. count (cd_text d) = Inr (cd_token_count d)"
      using merge_tail_no_tables [OF d(2) rd(1)] merge_tail_counts [OF d(2) rd(2)] by blast+
    then have "filter is_table_draft md = []" by (simp add: filter_empty_conv)
    with md d(4) IH NonTableRegion show ?thesis by auto
  qed
qed

lemma assign_positions_loop_Inr:
  assumes "assign_positions_loop doc_id p ds = Inr cs"
  shows "length cs = length ds \<and> (\<forall>i < length cs. ch_position (cs ! i) = p + int i \<and> ch_doc_id (cs ! i) = doc_id \<and>
     derive_chunk_id (PyStr doc_id) (PyInt (p + int i)) = Inr (ch_chunk_id (cs ! i)) \<and>
     ch_text (cs ! i) = cd_text (ds ! i) \<and> ch_element_types (cs ! i) = cd_element_types (ds ! i) \<and>
     ch_token_count (cs ! i) = cd_token_count (ds ! i) \<and> ch_metadata (cs ! i) = cd_metadata (ds ! i))"
  using assms
proof (induction ds arbitrary: p cs)
  case Nil
  then show ?case by simp
next
  case (Cons d ds)
  then obtain id rest where "derive_chunk_id (PyStr doc_id) (PyInt p) = Inr id"
    "assign_positions_loop doc_id (p + 1) ds = Inr rest" "cs = \<lparr>ch_chunk_id = id, ch_doc_id = doc_id, ch_position = p,
        ch_element_types = cd_element_types d, ch_text = cd_text d,
        ch_token_count = cd_token_count d, ch_metadata = cd_metadata d\<rparr> # rest"
    by (auto split: sum.splits identity_error.splits)
  with Cons.IH [of "p + 1" rest] show ?case
    by (auto simp: nth_Cons algebra_simps split: nat.splits)
qed

lemma regions_tables:
  "list_all region_ok rs \<Longrightarrow>
   length (filter (\<lambda>r. rg_kind r = TableRegion) rs) = length (filter (\<lambda>e. el_type e = TABLE) (concat (map rg_elements rs)))"
proof (induction rs)
  case (Cons r rs)
  then have "length (filter (\<lambda>e. el_type e = TABLE) (rg_elements r)) = (if rg_kind r = TableRegion then 1 else 0)"
    by (auto simp: region_ok_def filter_empty_conv split: region_kind.splits)
  with Cons show ?case by simp
qed simp

lemma self_transition_chunking:
  assumes "ledger_ok L" and "ledger_get L d = Some r" and "lr_status r = CHUNKING"
  shows "\<exists>L' r'. self_transition_and_raise now d c m L = (ChunkerError (chunker_exn d m c), L') \<and>
    ledger_get L' = (ledger_get L)(d \<mapsto> r') \<and>
    lr_status r' = CHUNKING \<and> lr_attempts r' = lr_attempts r + 1 \<and> lr_last_error_code r' = Some c"
proof -
  let ?r = "next_row now d r CHUNKING CHUNKING (Some c) (Some m) None"
  have "fsm_edge (lr_status r) CHUNKING" using assms(3) by simp
  then obtain L' where "ledger_transition now d CHUNKING CHUNKING (Some c) (Some m) None L = (Inr ?r, L')"
    "ledger_get L' = (ledger_get L)(d \<mapsto> ?r)"
    using mem.transition_along_edge [OF assms(1,2), of CHUNKING "Some c" now "Some m" None] by auto
  with assms(3) show ?thesis
    by (intro exI [of _ L'] exI [of _ ?r]) (simp add: self_transition_and_raise_def next_error_fields_def next_attempts_def)
qed

text \<open>The code that a failure of the strategies is recorded under.\<close>

definition failure_code :: "strategy_exn \<Rightarrow> string" where
  "failure_code failure = (case failure of
     StrategyChunkerError y \<Rightarrow> if ce_error_code y = TOKENIZER_LOAD_FAILED then TOKENIZER_LOAD_FAILED else CHUNKER_INTERNAL
   | OtherException _ \<Rightarrow> CHUNKER_INTERNAL)"

lemma build_chunks_failure:
  assumes "assemble_chunks x split config count d es = Inl failure"
  shows "\<exists>m. build_chunks x split config count now d es L =
    map_prod Inl id (self_transition_and_raise now d (failure_code failure) m L)"
proof (cases failure)
  case (StrategyChunkerError y)
  with assms show ?thesis
    by (cases "ce_error_code y = TOKENIZER_LOAD_FAILED") (auto simp: build_chunks_def failure_code_def)
next
  case (OtherException m)
  with assms show ?thesis by (auto simp: build_chunks_def failure_code_def)
qed

lemma embedding_advances: "pipeline_advance\<^sup>*\<^sup>* EMBEDDING INDEXING" "pipeline_advance\<^sup>*\<^sup>* EMBEDDING INDEXED"
  by (meson pipeline_advance.intros r_into_rtranclp rtranclp.rtrancl_into_rtrancl)+

section \<open>The contract of a stage\<close>

lemma chunker_writes:
  "snd (terminalize_empty_elements now d L) = ledger_run L [TransitionOp now d FAILED FAILED (Some CHUNKER_EMPTY_ELEMENTS)
     (Some ''Analyzer returned zero elements; nothing to chunk'') None]"
  "snd (self_transition_and_raise now d c m L) = ledger_run L [TransitionOp now d CHUNKING CHUNKING (Some c) (Some m) None]"
  "snd (transition_to_embedding now d cs L) = ledger_run L [TransitionOp now d EMBEDDING EMBEDDING None None None]"
  by (auto simp: terminalize_empty_elements_def self_transition_and_raise_def transition_to_embedding_def Let_def
      dest: triaged_state split: prod.splits sum.splits)

interpretation chunker: stage_worker
  "\<lambda>(x, split, config, count, now, e, es) L. chunker_chunk x split config count now e es L"
  "\<lambda>(x, split, config, count, now, e, es). ae_doc_id e"
proof unfold_locales
  fix i :: "(interpreter_error \<Rightarrow> string) \<times> splitter \<times> chunker_config \<times> token_count \<times> datetime \<times> arrival_envelope \<times> element list" and L
  obtain x split config count now e es where i: "i = (x, split, config, count, now, e, es)" by (cases i) auto
  have t: "\<exists>ops. snd (terminalize_empty_elements now (ae_doc_id e) L) = ledger_run L ops \<and> ops_for (ae_doc_id e) ops"
    "\<exists>ops. snd (self_transition_and_raise now (ae_doc_id e) c m L) = ledger_run L ops \<and> ops_for (ae_doc_id e) ops"
    "\<exists>ops. snd (transition_to_embedding now (ae_doc_id e) cs L) = ledger_run L ops \<and> ops_for (ae_doc_id e) ops" for c m cs
    unfolding chunker_writes by (rule exI, rule conjI, rule refl, simp)+
  have "\<exists>ops. snd (chunker_chunk x split config count now e es L) = ledger_run L ops \<and> ops_for (ae_doc_id e) ops"
  proof (cases "es = []")
    case True
    with t(1) show ?thesis by (simp add: chunker_chunk_def)
  next
    case False
    show ?thesis
    proof (cases "assemble_chunks x split config count (ae_doc_id e) es")
      case (Inl f)
      obtain m where "build_chunks x split config count now (ae_doc_id e) es L =
          map_prod Inl id (self_transition_and_raise now (ae_doc_id e) (failure_code f) m L)"
        using build_chunks_failure [OF Inl] by blast
      then have "snd (chunker_chunk x split config count now e es L) =
          snd (self_transition_and_raise now (ae_doc_id e) (failure_code f) m L)"
        using False by (simp add: chunker_chunk_def Let_def case_prod_beta)
      with t(2) show ?thesis by metis
    next
      case (Inr cs)
      with t(3) False show ?thesis by (simp add: chunker_chunk_def build_chunks_def)
    qed
  qed
  then show "\<exists>ops. snd ((\<lambda>(x, split, config, count, now, e, es) L. chunker_chunk x split config count now e es L) i L) = ledger_run L ops \<and>
    ops_for ((\<lambda>(x, split, config, count, now, e, es). ae_doc_id e) i) ops"
    unfolding i by simp
qed

section \<open>Properties\<close>

text \<open>
  C30. Partitioning loses and reorders nothing: the regions concatenate to the document; each table
  is a region of its own; every other region is a non-empty run without tables, and runs are
  maximal; a table's caption is the text of the element right before it when that is a paragraph or
  an image caption, and is absent otherwise.
\<close>

theorem partition_regions_correct:
  "concat (map rg_elements (partition_regions es)) = es \<and>
   list_all region_ok (partition_regions es) \<and> alternates (partition_regions es) \<and>
   (\<forall>rs1 r rs2. partition_regions es = rs1 @ r # rs2 \<and> rg_kind r = TableRegion \<longrightarrow>
      rg_caption_text r = (let before = concat (map rg_elements rs1) in
        if before = [] then None
        else if el_type (last before) \<in> {PARAGRAPH, IMAGE_CAPTION} then Some (el_text (last before)) else None))"
proof (intro conjI allI impI, goal_cases)
  case 1
  show cat: ?case by (simp add: partition_regions_def partition_loop_concat)
next
  case 2
  show ?case by (simp add: partition_regions_def partition_loop_ok)
next
  case 3
  have "alternates []" by (simp add: alternates_def)
  then show ?case unfolding partition_regions_def by (rule partition_loop_alternates) simp
next
  case (4 rs1 r rs2)
  then have split: "partition_regions es = rs1 @ r # rs2" and k: "rg_kind r = TableRegion" by auto
  have "list_all region_ok (partition_regions es)" by (simp add: partition_regions_def partition_loop_ok)
  with split k obtain e where e: "rg_elements r = [e]" by (auto simp: region_ok_def)
  let ?before = "concat (map rg_elements rs1)" and ?after = "concat (map rg_elements rs2)"
  have "concat (map rg_elements (partition_regions es)) = es" by (simp add: partition_regions_def partition_loop_concat)
  with split e have es: "es = ?before @ e # ?after" by simp
  have "captions_ok es (partition_regions es)"
    unfolding partition_regions_def by (rule partition_loop_captions) (simp_all add: captions_ok_def)
  with split k have "rg_caption_text r = caption_for_table es (length ?before)" by (simp add: captions_ok_def)
  also have "\<dots> = caption_for_table (?before @ e # ?after) (length ?before)" using es by simp
  finally show ?case by (simp only: caption_for_table_before Let_def)
qed

text \<open>A document for concrete instances: a heading, a paragraph, a table, a short paragraph.\<close>

definition demo_element :: "element_type \<Rightarrow> string \<Rightarrow> element" where
  "demo_element t s = \<lparr>el_type = t, el_text = s, el_metadata = []\<rparr>"

lemma demo_element_fields [simp]:
  "el_type (demo_element t s) = t" "el_text (demo_element t s) = s" "el_metadata (demo_element t s) = []"
  by (simp_all add: demo_element_def)

definition demo_document :: "element list" where
  "demo_document = [demo_element HEADING ''H'', demo_element PARAGRAPH ''para'', demo_element TABLE ''tab'',
     demo_element PARAGRAPH ''z'']"

definition demo_chunker_config :: chunker_config where
  "demo_chunker_config = \<lparr>cc_target_chunk_tokens = 10, cc_overlap_tokens = 0, cc_min_chunk_tokens = 5,
     cc_max_chunk_tokens = 10, cc_token_counter = ''tiktoken_cl100k''\<rparr>"

text \<open>One token per character, and a splitter that returns its text as one piece.\<close>

definition char_count :: token_count where
  "char_count s = Inr (int (length s))"

definition one_piece :: splitter where
  "one_piece config count s = Inr [s]"

lemma demo_assembles:
  "\<exists>cs. assemble_chunks (\<lambda>_. []) one_piece demo_chunker_config char_count demo_id demo_document = Inr cs"
proof -
  have p: "partition_regions demo_document =
      [non_table_region [demo_element HEADING ''H'', demo_element PARAGRAPH ''para''],
       table_region demo_document 2 (demo_element TABLE ''tab''), non_table_region [demo_element PARAGRAPH ''z'']]"
    by (simp add: partition_regions_def demo_document_def demo_element_def numeral_2_eq_2)
  have s: "split_into_sections [demo_element HEADING ''H'', demo_element PARAGRAPH ''para''] =
      [(Some ''H'', [demo_element PARAGRAPH ''para''])]"
    "split_into_sections [demo_element PARAGRAPH ''z''] = [(None, [demo_element PARAGRAPH ''z''])]"
    by (simp_all add: split_into_sections_def demo_element_def)
  have "\<exists>ds. assemble_loop (\<lambda>_. []) one_piece demo_chunker_config char_count True (partition_regions demo_document) = Inr ds"
    unfolding p
    by (simp add: dispatch_region_def non_table_region_def table_region_def structure_aware_chunk_region_def s
        recursive_chunk_region_def one_piece_def char_count_def Let_def merge_tail_single table_atomic_chunk_region_def
        serialize_table_def table_body_def)
  then obtain ds where ds: "assemble_loop (\<lambda>_. []) one_piece demo_chunker_config char_count True
      (partition_regions demo_document) = Inr ds" ..
  have "\<exists>cs. assign_positions_loop demo_id p ds = Inr cs" if "0 \<le> p" for p
    using that
  proof (induction ds arbitrary: p)
    case (Cons d ds)
    from Cons.IH [of "p + 1"] Cons.prems obtain cs where "assign_positions_loop demo_id (p + 1) ds = Inr cs" by auto
    moreover have "\<exists>c. derive_chunk_id (PyStr demo_id) (PyInt p) = Inr c"
      using Cons.prems by (simp add: derive_chunk_id_Inr)
    ultimately show ?case by auto
  qed simp
  from this [of 0] ds show ?thesis
    by (simp add: assemble_chunks_def assign_positions_def) (simp add: demo_document_def demo_element_def)
qed

theorem partition_regions_correct_witness:
  "\<exists>rs1 r rs2. partition_regions demo_document = rs1 @ r # rs2 \<and> rg_kind r = TableRegion \<and>
     rg_caption_text r = Some ''para''"
proof -
  let ?rs1 = "[non_table_region [demo_element HEADING ''H'', demo_element PARAGRAPH ''para'']]"
  let ?r = "table_region demo_document 2 (demo_element TABLE ''tab'')"
  have p: "partition_regions demo_document = ?rs1 @ ?r # [non_table_region [demo_element PARAGRAPH ''z'']]"
    by (simp add: partition_regions_def demo_document_def demo_element_def numeral_2_eq_2)
  have k: "rg_kind ?r = TableRegion" by (simp add: table_region_def)
  from partition_regions_correct [THEN conjunct2, THEN conjunct2, THEN conjunct2, rule_format, OF conjI [OF p k]]
  have "rg_caption_text ?r = Some ''para''" by (simp add: non_table_region_def demo_element_def)
  with p k show ?thesis by blast
qed

text \<open>
  Sections keep the content: concatenated, they are the elements other than headings, in order;
  each is a non-empty maximal run between headings, and its path is the text of the last heading
  before it, or absent before the first one. Every draft of the strategy carries the path of the
  section it was cut from.
\<close>

theorem sections_correct:
  "concat (map snd (split_into_sections es)) = filter (\<lambda>e. el_type e \<noteq> HEADING) es \<and>
   (\<forall>s \<in> set (split_into_sections es). section_of es s) \<and>
   (structure_aware_chunk_region split config count es = Inr ds \<longrightarrow>
      (\<forall>d \<in> set ds. \<exists>(path, section) \<in> set (split_into_sections es).
         dict_get (cd_metadata d) ''section_path'' = Some (case path of None \<Rightarrow> MNone | Some p \<Rightarrow> MStr p) \<and>
         (\<exists>rds r. recursive_chunk_region split config count section = Inr rds \<and> r \<in> set rds \<and> cd_text d = cd_text r)))"
proof (intro conjI impI ballI)
  show "concat (map snd (split_into_sections es)) = filter (\<lambda>e. el_type e \<noteq> HEADING) es"
    by (simp add: split_into_sections_def sections_loop_concat)
  show "section_of es s" if "s \<in> set (split_into_sections es)" for s
    using that sections_loop_sound [of "[]" "[]" "[]" es None] by (simp add: split_into_sections_def)
  show "\<exists>(path, section) \<in> set (split_into_sections es).
         dict_get (cd_metadata d) ''section_path'' = Some (case path of None \<Rightarrow> MNone | Some p \<Rightarrow> MStr p) \<and>
         (\<exists>rds r. recursive_chunk_region split config count section = Inr rds \<and> r \<in> set rds \<and> cd_text d = cd_text r)"
    if "structure_aware_chunk_region split config count es = Inr ds" "d \<in> set ds" for d
  proof -
    from structure_sections_mem [OF that(1) [unfolded structure_aware_chunk_region_def] that(2)]
    obtain path es' ds' d' where sec: "(path, es') \<in> set (split_into_sections es)"
      "recursive_chunk_region split config count es' = Inr ds'" "d' \<in> set ds'" "d = retag path d'" by blast
    then show ?thesis by (intro bexI [OF _ sec(1)]) (auto simp del: dict_get_def)
  qed
qed

theorem sections_correct_witness:
  "\<exists>ds. structure_aware_chunk_region one_piece demo_chunker_config char_count
       [demo_element HEADING ''H'', demo_element PARAGRAPH ''para''] = Inr ds \<and> ds \<noteq> [] \<and>
     (\<forall>d \<in> set ds. dict_get (cd_metadata d) ''section_path'' = Some (MStr ''H''))"
proof -
  let ?es = "[demo_element HEADING ''H'', demo_element PARAGRAPH ''para'']"
  have s: "split_into_sections ?es = [(Some ''H'', [demo_element PARAGRAPH ''para''])]"
    by (simp add: split_into_sections_def demo_element_def)
  have "\<exists>ds. structure_aware_chunk_region one_piece demo_chunker_config char_count ?es = Inr ds \<and> ds \<noteq> []"
    unfolding structure_aware_chunk_region_def s
    by (simp add: recursive_chunk_region_def one_piece_def char_count_def Let_def)
  then obtain ds where ds: "structure_aware_chunk_region one_piece demo_chunker_config char_count ?es = Inr ds" "ds \<noteq> []"
    by blast
  from sections_correct [THEN conjunct2, THEN conjunct2, rule_format, OF ds(1)]
  have "\<forall>d \<in> set ds. dict_get (cd_metadata d) ''section_path'' = Some (MStr ''H'')" unfolding s by auto
  with ds show ?thesis by blast
qed



text \<open>
  The merge does not look at \<open>max_chunk_tokens\<close>: two drafts within a ceiling of ten tokens are merged
  into one of fifteen.
\<close>

lemma merge_exceeds_ceiling:
  "\<exists>d. merge_undersized_tail demo_chunker_config char_count
      [\<lparr>cd_element_types = [PARAGRAPH], cd_text = ''0123456789'', cd_token_count = 10, cd_metadata = []\<rparr>,
       \<lparr>cd_element_types = [PARAGRAPH], cd_text = ''abc'', cd_token_count = 3, cd_metadata = []\<rparr>] = Inr [d] \<and>
     cd_token_count d = 15 \<and> cc_max_chunk_tokens demo_chunker_config = 10"
  by (simp add: merge_undersized_tail.simps must_merge_def is_table_draft_def merge_two_drafts_def char_count_def
      demo_chunker_config_def)

text \<open>
  C14. Tables are atomic: whatever the splitter and the counter do, a chunked document has exactly one
  table chunk per table, in document order, never merged with anything, whose text is that table
  serialised with its caption; and every chunk's token count is the counter's value of its text.
\<close>

theorem tables_atomic:
  assumes "assemble_chunks x split config count doc_id es = Inr cs"
  defines "table_chunk \<equiv> \<lambda>c. dict_get (ch_metadata c) ''strategy'' = Some (MStr STRATEGY_TABLE_ATOMIC)"
  shows "map (\<lambda>c. Inr (ch_text c)) (filter table_chunk cs) =
       map (\<lambda>r. serialize_table x (hd (rg_elements r)) (rg_caption_text r))
         (filter (\<lambda>r. rg_kind r = TableRegion) (partition_regions es)) \<and>
     length (filter table_chunk cs) = length (filter (\<lambda>e. el_type e = TABLE) es) \<and>
     (\<forall>c \<in> set cs. (table_chunk c \<longrightarrow> ch_element_types c = [TABLE]) \<and> count (ch_text c) = Inr (ch_token_count c))"
proof -
  have ok: "list_all region_ok (partition_regions es)" by (simp add: partition_regions_def partition_loop_ok)
  from assms(1) obtain ds where ds: "assemble_loop x split config count (list_ex (\<lambda>e. el_type e = HEADING) es)
      (partition_regions es) = Inr ds" "assign_positions doc_id ds = Inr cs"
    by (auto simp: assemble_chunks_def Let_def)
  note a = assemble_loop_tables [OF ds(1) ok]
  from assign_positions_loop_Inr [OF ds(2) [unfolded assign_positions_def]]
  have len: "length cs = length ds" and nth: "\<And>i. i < length cs \<Longrightarrow> ch_text (cs ! i) = cd_text (ds ! i) \<and>
      ch_element_types (cs ! i) = cd_element_types (ds ! i) \<and> ch_token_count (cs ! i) = cd_token_count (ds ! i) \<and>
      ch_metadata (cs ! i) = cd_metadata (ds ! i)" by auto
  have rel: "list_all2 (\<lambda>c d. ch_text c = cd_text d \<and> ch_element_types c = cd_element_types d \<and>
      ch_token_count c = cd_token_count d \<and> ch_metadata c = cd_metadata d) cs ds"
    using len nth by (simp add: list_all2_conv_all_nth)
  then have texts: "map (\<lambda>c. Inr (ch_text c) :: strategy_exn + string) (filter table_chunk cs) = map (\<lambda>d. Inr (cd_text d)) (filter is_table_draft ds)"
    by (induction rule: list_all2_induct) (auto simp: table_chunk_def is_table_draft_def)
  have "\<forall>c \<in> set cs. (table_chunk c \<longrightarrow> ch_element_types c = [TABLE]) \<and> count (ch_text c) = Inr (ch_token_count c)"
  proof
    fix c
    assume "c \<in> set cs"
    then obtain i where i: "i < length cs" "c = cs ! i" by (auto simp: in_set_conv_nth)
    then have "ds ! i \<in> set ds" using len by simp
    with a nth [OF i(1)] i show "(table_chunk c \<longrightarrow> ch_element_types c = [TABLE]) \<and> count (ch_text c) = Inr (ch_token_count c)"
      by (simp add: table_chunk_def is_table_draft_def)
  qed
  moreover have "length (filter table_chunk cs) = length (filter (\<lambda>r. rg_kind r = TableRegion) (partition_regions es))"
    using arg_cong [OF texts, of length] arg_cong [OF conjunct1 [OF a], of length] by simp
  moreover have "length (filter (\<lambda>r. rg_kind r = TableRegion) (partition_regions es)) =
      length (filter (\<lambda>e. el_type e = TABLE) es)"
    using regions_tables [OF ok] by (simp add: partition_regions_def partition_loop_concat)
  ultimately show ?thesis using texts a by simp
qed

theorem tables_atomic_witness:
  "\<exists>cs. assemble_chunks (\<lambda>_. []) one_piece demo_chunker_config char_count demo_id demo_document = Inr cs \<and>
     length (filter (\<lambda>c. dict_get (ch_metadata c) ''strategy'' = Some (MStr STRATEGY_TABLE_ATOMIC)) cs) = 1"
proof -
  have "\<exists>cs. assemble_chunks (\<lambda>_. []) one_piece demo_chunker_config char_count demo_id demo_document = Inr cs"
    by (rule demo_assembles)
  then obtain cs where cs: "assemble_chunks (\<lambda>_. []) one_piece demo_chunker_config char_count demo_id demo_document = Inr cs" ..
  from tables_atomic [OF cs] cs show ?thesis by (simp add: demo_document_def demo_element_def)
qed

text \<open>
  Chunks are numbered and identified by their position: the \<open>i\<close>-th chunk of a document has
  position \<open>i\<close>, the identifier \<open>derive_chunk_id\<close> gives for it, and that document's identifier; so,
  unless two of the hashed texts are a SHA-256 collision, the identifiers of a document's chunks are
  all different.
\<close>

theorem chunk_positions_and_ids:
  assumes "assemble_chunks x split config count doc_id es = Inr cs"
  shows "(\<forall>i < length cs. ch_position (cs ! i) = int i \<and> ch_doc_id (cs ! i) = doc_id \<and>
        derive_chunk_id (PyStr doc_id) (PyInt (int i)) = Inr (ch_chunk_id (cs ! i))) \<and>
     (inj_on sha256_hexdigest {utf8_encode (doc_id @ str_int (int i)) | i. i < length cs} \<longrightarrow>
        distinct (map ch_chunk_id cs))"
proof -
  from assms obtain ds where "assign_positions doc_id ds = Inr cs" by (auto simp: assemble_chunks_def Let_def)
  from assign_positions_loop_Inr [OF this [unfolded assign_positions_def]]
  have nth: "ch_position (cs ! i) = int i \<and> ch_doc_id (cs ! i) = doc_id \<and>
      derive_chunk_id (PyStr doc_id) (PyInt (int i)) = Inr (ch_chunk_id (cs ! i))" if "i < length cs" for i
    using that by auto
  moreover have "distinct (map ch_chunk_id cs)"
    if inj: "inj_on sha256_hexdigest {utf8_encode (doc_id @ str_int (int i)) | i. i < length cs}"
    unfolding distinct_conv_nth
  proof (intro allI impI, rule notI)
    fix i j
    assume ij: "i < length (map ch_chunk_id cs)" "j < length (map ch_chunk_id cs)" "i \<noteq> j"
      "map ch_chunk_id cs ! i = map ch_chunk_id cs ! j"
    then have "sha256_hexdigest (utf8_encode (doc_id @ str_int (int i))) = sha256_hexdigest (utf8_encode (doc_id @ str_int (int j)))"
      using nth [of i] nth [of j] by (simp add: derive_chunk_id_Inr)
    then have "utf8_encode (doc_id @ str_int (int i)) = utf8_encode (doc_id @ str_int (int j))"
      by (rule inj_onD [OF inj]) (use ij in auto)
    then have "str_int (int i) = str_int (int j)" by (simp only: utf8_encode_inj same_append_eq)
    with ij(3) show False by (simp add: str_int_inj)
  qed
  ultimately show ?thesis by blast
qed

theorem chunk_positions_and_ids_witness:
  "\<exists>cs. assemble_chunks (\<lambda>_. []) one_piece demo_chunker_config char_count demo_id demo_document = Inr cs \<and>
     (\<forall>i < length cs. ch_position (cs ! i) = int i)"
proof -
  obtain cs where cs: "assemble_chunks (\<lambda>_. []) one_piece demo_chunker_config char_count demo_id demo_document = Inr cs"
    using demo_assembles ..
  from chunk_positions_and_ids [OF cs] cs show ?thesis by blast
qed

lemma chunk_failure:
  assumes "ledger_ok L" and "ledger_get L (ae_doc_id e) = Some r" and "lr_status r = CHUNKING" and "es \<noteq> []"
    and "assemble_chunks x split config count (ae_doc_id e) es = Inl failure"
  obtains m L' r' where "chunker_chunk x split config count now e es L =
      (Inl (ChunkerError (chunker_exn (ae_doc_id e) m (failure_code failure))), L')"
    "ledger_get L' = (ledger_get L)(ae_doc_id e \<mapsto> r')" "lr_status r' = CHUNKING" "lr_attempts r' = lr_attempts r + 1"
    "lr_last_error_code r' = Some (failure_code failure)"
proof -
  obtain m where m: "build_chunks x split config count now (ae_doc_id e) es L =
      map_prod Inl id (self_transition_and_raise now (ae_doc_id e) (failure_code failure) m L)"
    using build_chunks_failure [OF assms(5)] by blast
  with self_transition_chunking [OF assms(1-3), of now "failure_code failure" m] assms(4) that show ?thesis
    by (fastforce simp: chunker_chunk_def)
qed

text \<open>
  C18. What \<open>chunk\<close> does to the ledger for a document in \<open>CHUNKING\<close>: no elements fail it for good with
  \<open>CHUNKER_EMPTY_ELEMENTS\<close>; assembled chunks move it to \<open>EMBEDDING\<close> and are returned; a tokenizer
  that cannot load, or any other failure of a strategy, leaves it in \<open>CHUNKING\<close> with one more attempt
  and the transient code recorded, so that redelivery can enter again. No other row changes.
\<close>

theorem chunk_ledger_outcomes:
  assumes "ledger_ok L" and "ledger_get L (ae_doc_id e) = Some r" and "lr_status r = CHUNKING"
  shows "\<exists>res L' r'. chunker_chunk x split config count now e es L = (res, L') \<and>
    ledger_get L' = (ledger_get L)(ae_doc_id e \<mapsto> r') \<and>
    (if es = []
     then (\<exists>err. res = Inl (ChunkerError err) \<and> ce_error_code err = CHUNKER_EMPTY_ELEMENTS) \<and>
       lr_status r' = FAILED \<and> lr_last_error_code r' = Some CHUNKER_EMPTY_ELEMENTS
     else case assemble_chunks x split config count (ae_doc_id e) es of
       Inr cs \<Rightarrow> res = Inr cs \<and> lr_status r' = EMBEDDING \<and> lr_attempts r' = 1 \<and> lr_last_error_code r' = None
     | Inl failure \<Rightarrow> \<exists>err. res = Inl (ChunkerError err) \<and> ce_doc_id err = ae_doc_id e \<and>
         ce_error_code err = failure_code failure \<and>
         lr_status r' = CHUNKING \<and> lr_attempts r' = lr_attempts r + 1 \<and> lr_last_error_code r' = Some (ce_error_code err))"
proof (cases "es = []")
  case True
  have "fsm_edge (lr_status r) FAILED" using assms(3) by simp
  from transition_edge [OF assms(1,2) this] True show ?thesis
    by (auto simp: chunker_chunk_def terminalize_empty_elements_def Let_def chunker_exn_def next_error_fields_def fun_eq_iff)
next
  case False
  show ?thesis
  proof (cases "assemble_chunks x split config count (ae_doc_id e) es")
    case (Inr cs)
    have "fsm_edge (lr_status r) EMBEDDING" using assms(3) by simp
    from transition_edge [OF assms(1,2) this, of None now None None] False Inr assms(3) show ?thesis
      by (auto simp: chunker_chunk_def build_chunks_def transition_to_embedding_def Let_def next_error_fields_def next_attempts_def fun_eq_iff)
  next
    case (Inl failure)
    from chunk_failure [OF assms False Inl, of now] False Inl show ?thesis by (fastforce simp: chunker_exn_def)
  qed
qed

text \<open>A ledger with one document in \<open>CHUNKING\<close>.\<close>

definition demo_chunking :: ledger_store where
  "demo_chunking = ledger_put demo_id (next_row 3 demo_id (fresh_row 0 demo_id \<lparr>es_config_version = ''1''\<rparr>)
     CHUNKING CHUNKING None None None) (ledger_init 100)"

definition demo_arrival :: arrival_envelope where
  "demo_arrival = \<lparr>ae_doc_id = demo_id, ae_source = ''blob:misc'', ae_blob_path = ''a.pdf'', ae_vertical = None,
     ae_scenario_id = None, ae_allowed_groups = [], ae_trust_tier = INTERNAL, ae_content_hash = demo_id,
     ae_received_at = 0\<rparr>"

lemma demo_chunking_ok: "ledger_ok demo_chunking"
  "ledger_get demo_chunking (ae_doc_id demo_arrival) = Some (next_row 3 demo_id (fresh_row 0 demo_id \<lparr>es_config_version = ''1''\<rparr>)
     CHUNKING CHUNKING None None None)"
proof -
  have "row_ok demo_id (next_row 3 demo_id (fresh_row 0 demo_id \<lparr>es_config_version = ''1''\<rparr>) CHUNKING CHUNKING None None None)"
    by (simp add: row_ok_def next_attempts_def fresh_row_def)
  then show "ledger_ok demo_chunking" by (simp add: demo_chunking_def ledger_ok_put ledger_ok_init)
qed (simp add: demo_chunking_def demo_arrival_def)

theorem chunk_ledger_outcomes_witness:
  "\<exists>res L' r'. chunker_chunk (\<lambda>_. []) one_piece demo_chunker_config char_count 9 demo_arrival demo_document demo_chunking = (res, L') \<and>
     ledger_get L' demo_id = Some r' \<and> lr_status r' = EMBEDDING"
proof -
  obtain cs where cs: "assemble_chunks (\<lambda>_. []) one_piece demo_chunker_config char_count demo_id demo_document = Inr cs"
    using demo_assembles ..
  have d: "ae_doc_id demo_arrival = demo_id" "demo_document \<noteq> []" by (simp_all add: demo_arrival_def demo_document_def)
  have "lr_status (next_row 3 demo_id (fresh_row 0 demo_id \<lparr>es_config_version = ''1''\<rparr>) CHUNKING CHUNKING None None None) = CHUNKING"
    by simp
  from chunk_ledger_outcomes [OF demo_chunking_ok this, of "\<lambda>_. []" one_piece demo_chunker_config char_count 9 demo_document] cs d
  show ?thesis by auto
qed

text \<open>
  Redelivery to a document that a duplicate worker already carried on: when the chunks assemble, a
  row at \<open>INDEXING\<close> or \<open>INDEXED\<close> is left alone and the chunks are returned, while a row at \<open>EMBEDDING\<close>
  is written again with one more attempt. When they do not assemble, the ledger refuses the step
  back and its exception reaches the caller in place of the chunker's.
\<close>

theorem chunk_redelivery:
  assumes "ledger_ok L" and "ledger_get L (ae_doc_id e) = Some r"
    and "lr_status r \<in> {EMBEDDING, INDEXING, INDEXED}" and "es \<noteq> []"
    and "chunker_chunk x split config count now e es L = (res, L')"
  shows "case assemble_chunks x split config count (ae_doc_id e) es of
     Inr cs \<Rightarrow> res = Inr cs \<and>
       (if lr_status r = EMBEDDING
        then \<exists>r'. ledger_get L' = (ledger_get L)(ae_doc_id e \<mapsto> r') \<and> lr_status r' = EMBEDDING \<and> lr_attempts r' = lr_attempts r + 1
        else L' = L)
   | Inl _ \<Rightarrow> (\<exists>t. res = Inl (CLedgerError (LedgerTransitionInvalid t))) \<and> L' = L"
proof (cases "assemble_chunks x split config count (ae_doc_id e) es")
  case (Inr cs)
  show ?thesis
  proof (cases "lr_status r = EMBEDDING")
    case True
    have "fsm_edge (lr_status r) EMBEDDING" using True by simp
    from mem.transition_along_edge [OF assms(1,2) this, of None now None None] Inr assms(4,5) True show ?thesis
      by (auto simp: chunker_chunk_def build_chunks_def transition_to_embedding_def next_attempts_def)
  next
    case False
    with assms(3) have "\<not> fsm_edge (lr_status r) EMBEDDING" by auto
    from mem.transition_off_edge [OF assms(1,2) this, of now None None None] obtain t where
      t: "ledger_transition now (ae_doc_id e) EMBEDDING EMBEDDING None None None L = (Inl (LedgerTransitionInvalid t), L)"
      "ti_observed_row t = Some r" by blast
    have "is_benign_concurrent_loss (Some r) EMBEDDING EMBEDDING = Some (lost_to EMBEDDING (lr_status r))"
      using is_benign_row ledger_okD [OF assms(1,2)] by (simp add: row_ok_def)
    moreover have "lost_to EMBEDDING (lr_status r)"
      using False assms(3) embedding_advances by auto
    ultimately show ?thesis using t Inr False assms(4,5)
      by (auto simp: chunker_chunk_def build_chunks_def transition_to_embedding_def triaged_def)
  qed
next
  case (Inl failure)
  have "\<not> fsm_edge (lr_status r) CHUNKING" using assms(3) by auto
  then have "\<exists>t. self_transition_and_raise now (ae_doc_id e) c m L = (CLedgerError (LedgerTransitionInvalid t), L)" for c m
    using mem.transition_off_edge [OF assms(1,2), of CHUNKING now "Some c" "Some m" None]
    by (auto simp: self_transition_and_raise_def)
  moreover obtain m where "build_chunks x split config count now (ae_doc_id e) es L =
      map_prod Inl id (self_transition_and_raise now (ae_doc_id e) (failure_code failure) m L)"
    using build_chunks_failure [OF Inl] by blast
  ultimately obtain t where "build_chunks x split config count now (ae_doc_id e) es L =
      (Inl (CLedgerError (LedgerTransitionInvalid t)), L)" by (metis id_apply map_prod_simp)
  with Inl assms(4,5) show ?thesis by (auto simp: chunker_chunk_def)
qed

theorem chunk_redelivery_witness:
  "\<exists>t. chunker_chunk (\<lambda>_. []) (\<lambda>_ _ _. Inl (OtherException ''boom'')) demo_chunker_config char_count 9 demo_arrival
      [demo_element PARAGRAPH ''p''] (snd (ledger_transition 4 demo_id EMBEDDING EMBEDDING None None None demo_chunking)) =
     (Inl (CLedgerError (LedgerTransitionInvalid t)), snd (ledger_transition 4 demo_id EMBEDDING EMBEDDING None None None demo_chunking))"
proof -
  let ?split = "\<lambda>_ _ _. Inl (OtherException ''boom'')" and ?es = "[demo_element PARAGRAPH ''p'']"
  let ?L = "snd (ledger_transition 4 demo_id EMBEDDING EMBEDDING None None None demo_chunking)"
  have a: "assemble_chunks (\<lambda>_. []) ?split demo_chunker_config char_count (ae_doc_id demo_arrival) ?es = Inl (OtherException ''boom'')"
    by (simp add: assemble_chunks_def partition_regions_def non_table_region_def dispatch_region_def recursive_chunk_region_def Let_def)
  have ok: "ledger_ok ?L" by (rule ledger_ok_transition [OF demo_chunking_ok(1)])
  have "row_status ?L (ae_doc_id demo_arrival) = Some EMBEDDING" by (simp add: demo_chunking_def demo_arrival_def ledger_eval)
  then obtain r where r: "ledger_get ?L (ae_doc_id demo_arrival) = Some r" "lr_status r = EMBEDDING" by (auto simp: row_status_def)
  obtain res L' where c: "chunker_chunk (\<lambda>_. []) ?split demo_chunker_config char_count 9 demo_arrival ?es ?L = (res, L')" by fastforce
  have "lr_status r \<in> {EMBEDDING, INDEXING, INDEXED}" "?es \<noteq> []" using r(2) by simp_all
  from chunk_redelivery [OF ok r(1) this c] a c show ?thesis by auto
qed

end
