(* ===== verification/Adapter_Support.thy ===== *)
theory Adapter_Support
  imports Py_Prelude
begin

text \<open>
  What the adapters and their orchestrators share: slices and batches, \<open>zip(..., strict=True)\<close>, the
  arithmetic of floats as a record of operations, and the bounded retry of a call to a service.

  Two things come from outside the repository. A float operation is a field of \<open>float_ops\<close>; the
  theorems that compute in exact arithmetic instantiate them with the real numbers (\<open>real_ops\<close>), all
  others hold for any operations. The retry library \<open>tenacity\<close> calls a function again while its
  exception is retryable and \<open>stop_after_attempt(m)\<close> grants another attempt; how many further attempts
  it grants is the parameter \<open>grants m\<close>, documented as \<open>m - 1\<close> (\<open>tenacity_grants\<close>).
\<close>

section \<open>Slices and batches\<close>

text \<open>\<open>xs[:n]\<close> for any \<open>n\<close>: a negative bound counts from the end.\<close>

definition slice_upto :: "int \<Rightarrow> 'a list \<Rightarrow> 'a list" where
  "slice_upto n xs = (if 0 \<le> n then take (nat n) xs else take (length xs - nat (- n)) xs)"

text \<open>\<open>xs[i:j]\<close> for \<open>0 <= i\<close>.\<close>

definition slice_between :: "int \<Rightarrow> int \<Rightarrow> 'a list \<Rightarrow> 'a list" where
  "slice_between i j xs = take (nat (j - i)) (drop (nat i) xs)"

text \<open>\<open>range(start, stop, step)\<close> for a positive step.\<close>

function range_up :: "int \<Rightarrow> int \<Rightarrow> int \<Rightarrow> int list" where
  "range_up start stop step = (if 0 < step \<and> start < stop then start # range_up (start + step) stop step else [])"
  by pat_completeness auto
termination
  by (relation "measure (\<lambda>(start, stop, step). nat (stop - start))") auto

declare range_up.simps [simp del]

datatype py_error = RangeStepZero | ZipShorter | ZipLonger | KeyError string | IndexOutOfRange

text \<open>
  The generator \<open>_batched\<close>. A step of zero is a \<open>ValueError\<close> of \<open>range\<close>; with a negative step the range
  is empty, so nothing is yielded.
\<close>

definition batched :: "'a list \<Rightarrow> int \<Rightarrow> py_error + 'a list list" where
  "batched items bsize =
     (if bsize = 0 then Inl RangeStepZero
      else if bsize < 0 then Inr []
      else Inr (map (\<lambda>start. slice_between start (start + bsize) items) (range_up 0 (int (length items)) bsize)))"

text \<open>The reference: cut off \<open>n\<close> elements at a time.\<close>

function chunks_of :: "nat \<Rightarrow> 'a list \<Rightarrow> 'a list list" where
  "chunks_of n xs = (if xs = [] \<or> n = 0 then [] else take n xs # chunks_of n (drop n xs))"
  by pat_completeness auto
termination
  by (relation "measure (\<lambda>(n, xs). length xs)") auto

declare chunks_of.simps [simp del]

lemma chunks_of_Nil [simp]: "chunks_of n [] = []"
  by (simp add: chunks_of.simps)

lemma chunks_of_Cons: "xs \<noteq> [] \<Longrightarrow> 0 < n \<Longrightarrow> chunks_of n xs = take n xs # chunks_of n (drop n xs)"
  by (subst chunks_of.simps) simp

lemma batched_from:
  assumes "0 < bsize" and "0 \<le> start"
  shows "map (\<lambda>s. slice_between s (s + bsize) items) (range_up start (int (length items)) bsize) =
    chunks_of (nat bsize) (drop (nat start) items)"
  using assms
proof (induction start "int (length items)" bsize rule: range_up.induct)
  case (1 start bsize)
  show ?case
  proof (cases "start < int (length items)")
    case True
    have ne: "drop (nat start) items \<noteq> []" using True 1(3) by simp
    have "drop (nat bsize) (drop (nat start) items) = drop (nat (start + bsize)) items"
      using 1(2,3) by (simp add: nat_add_distrib add.commute)
    with True 1(2,3) 1(1) chunks_of_Cons [OF ne, of "nat bsize"] show ?thesis
      by (subst range_up.simps) (simp add: slice_between_def)
  qed (simp add: range_up.simps)
qed

lemma batched_eq_chunks_of: "0 < bsize \<Longrightarrow> batched items bsize = Inr (chunks_of (nat bsize) items)"
  using batched_from [of bsize 0 items] by (simp add: batched_def)

lemma chunks_of_lossless:
  assumes "0 < n"
  shows "concat (chunks_of n xs) = xs \<and> (\<forall>b \<in> set (chunks_of n xs). b \<noteq> [] \<and> length b \<le> n) \<and>
    (\<forall>b \<in> set (butlast (chunks_of n xs)). length b = n)"
  using assms
proof (induction n xs rule: chunks_of.induct)
  case (1 n xs)
  show ?case
  proof (cases "xs = []")
    case False
    note u = chunks_of_Cons [OF False 1(2)]
    have c: "\<not> (xs = [] \<or> n = 0)" using False 1(2) by simp
    note ih = 1(1) [OF c 1(2)]
    let ?rest = "chunks_of n (drop n xs)"
    have full: "length (take n xs) = n" if "?rest \<noteq> []"
    proof -
      from that have "drop n xs \<noteq> []" by (metis chunks_of_Nil)
      then show ?thesis by simp
    qed
    have "concat (take n xs # ?rest) = xs" using conjunct1 [OF ih] by simp
    moreover have "\<forall>b \<in> set (take n xs # ?rest). b \<noteq> [] \<and> length b \<le> n"
      using conjunct1 [OF conjunct2 [OF ih]] c by auto
    moreover have "\<forall>b \<in> set (butlast (take n xs # ?rest)). length b = n" 
      using conjunct2 [OF conjunct2 [OF ih]] full by auto
    ultimately show ?thesis unfolding u by blast
  qed simp
qed

text \<open>\<open>zip(xs, ys, strict=True)\<close>\<close>

definition zip_strict :: "'a list \<Rightarrow> 'b list \<Rightarrow> py_error + ('a \<times> 'b) list" where
  "zip_strict xs ys =
     (if length ys < length xs then Inl ZipShorter
      else if length xs < length ys then Inl ZipLonger else Inr (zip xs ys))"

lemma zip_strict_Inr [simp]: "zip_strict xs ys = Inr zs \<longleftrightarrow> length xs = length ys \<and> zs = zip xs ys"
  by (auto simp: zip_strict_def)

section \<open>Floats\<close>

record 'f float_ops =
  fl_zero :: 'f
  fl_mul :: "'f \<Rightarrow> 'f \<Rightarrow> 'f"
  fl_div :: "'f \<Rightarrow> 'f \<Rightarrow> 'f"
  fl_sum :: "'f list \<Rightarrow> 'f"
  fl_sqrt :: "'f \<Rightarrow> 'f"

section \<open>Calls with a timeout\<close>

text \<open>A call in another thread, waited for with \<open>future.result(timeout=...)\<close>: it finishes in time or it does not.\<close>

datatype 'a timed = Finished 'a | TooLate

text \<open>
  What a call to a service can raise: the vendor's \<open>HttpResponseError\<close> with its status code, the adapters' own
  \<open>_BackendTimeout\<close>, or anything else. A call runs in the world of the service.
\<close>

datatype backend_exn = HttpResponseError "int option" string | BackendTimeout string | BackendException string

type_synonym ('a, 'w) backend_call = "'w \<Rightarrow> (backend_exn + 'a) timed \<times> 'w"

text \<open>One attempt, bounded by a timeout that is printed as \<open>timeout\<close>.\<close>

definition timed_call :: "string \<Rightarrow> ('a, 'w) backend_call \<Rightarrow> 'w \<Rightarrow> (backend_exn + 'a) \<times> 'w" where
  "timed_call timeout fn w = (case fn w of
       (Finished r, w') \<Rightarrow> (r, w')
     | (TooLate, w') \<Rightarrow> (Inl (BackendTimeout (''backend call did not return within '' @ timeout @ ''s'')), w'))"

section \<open>Bounded retries\<close>

text \<open>The call, again at most \<open>n\<close> times while it raises a retryable exception.\<close>

primrec retry_loop :: "nat \<Rightarrow> ('e \<Rightarrow> bool) \<Rightarrow> ('w \<Rightarrow> ('e + 'a) \<times> 'w) \<Rightarrow> 'w \<Rightarrow> ('e + 'a) \<times> 'w" where
  "retry_loop 0 retryable f w = f w"
| "retry_loop (Suc n) retryable f w =
     (case f w of
        (Inl e, w') \<Rightarrow> if retryable e then retry_loop n retryable f w' else (Inl e, w')
      | (Inr v, w') \<Rightarrow> (Inr v, w'))"

definition tenacity_grants :: "(int \<Rightarrow> nat) \<Rightarrow> bool" where
  "tenacity_grants grants \<longleftrightarrow> (\<forall>m. grants m = nat (m - 1))"

text \<open>The worlds the successive attempts start from.\<close>

primrec attempt_world :: "('w \<Rightarrow> ('e + 'a) \<times> 'w) \<Rightarrow> nat \<Rightarrow> 'w \<Rightarrow> 'w" where
  "attempt_world f 0 w = w"
| "attempt_world f (Suc k) w = attempt_world f k (snd (f w))"

lemma retry_loop_spec:
  "\<exists>k \<le> n. retry_loop n p f w = f (attempt_world f k w) \<and>
     (\<forall>j < k. \<exists>e. fst (f (attempt_world f j w)) = Inl e \<and> p e) \<and>
     (k = n \<or> (\<forall>e. fst (f (attempt_world f k w)) = Inl e \<longrightarrow> \<not> p e))"
proof (induction n arbitrary: w)
  case 0
  show ?case by simp
next
  case (Suc n)
  obtain r w' where f: "f w = (r, w')" by fastforce
  show ?case
  proof (cases "\<exists>e. r = Inl e \<and> p e")
    case True
    from Suc.IH [of w'] obtain k where k: "k \<le> n" "retry_loop n p f w' = f (attempt_world f k w')"
      "\<forall>j < k. \<exists>e. fst (f (attempt_world f j w')) = Inl e \<and> p e"
      "k = n \<or> (\<forall>e. fst (f (attempt_world f k w')) = Inl e \<longrightarrow> \<not> p e)" by blast
    have "\<forall>j < Suc k. \<exists>e. fst (f (attempt_world f j w)) = Inl e \<and> p e"
      using True k(3) f by (auto simp: less_Suc_eq_0_disj)
    with True k f show ?thesis by (intro exI [of _ "Suc k"]) auto
  next
    case False
    with f show ?thesis by (intro exI [of _ 0]) (auto split: sum.splits)
  qed
qed

lemma retry_loop_ok: "fst (f w) = Inr v \<Longrightarrow> retry_loop n p f w = f w"
  by (cases n) (auto split: prod.splits)

text \<open>What is raised in the end was raised by one of the attempts.\<close>

lemma retry_loop_raises: "retry_loop n p f w = (Inl e, w') \<Longrightarrow> \<exists>v. f v = (Inl e, w')"
  using retry_loop_spec [of n p f w] by auto

lemma retry_loop_returns: "retry_loop n p f w = (Inr x, w') \<Longrightarrow> \<exists>v. f v = (Inr x, w')"
  using retry_loop_spec [of n p f w] by auto

text \<open>A relation between the worlds before and after: of one attempt, and composed with a retryable failure.\<close>

lemma retry_loop_rule:
  assumes step: "\<And>v r v'. f v = (r, v') \<Longrightarrow> Q v r v'"
    and compose: "\<And>v e v' r v''. Q v (Inl e) v' \<Longrightarrow> Q v' r v'' \<Longrightarrow> Q v r v''"
    and run: "retry_loop n p f w = (r, w')"
  shows "Q w r w'"
  using run
proof (induction n arbitrary: w)
  case 0
  then show ?case using step by simp
next
  case (Suc n)
  obtain x v where f: "f w = (x, v)" by fastforce
  show ?case
  proof (cases "\<exists>e. x = Inl e \<and> p e")
    case True
    then obtain e where e: "x = Inl e" "p e" by blast
    from Suc.prems f e have "retry_loop n p f v = (r, w')" by simp
    from compose [OF step [OF f, unfolded e(1)] Suc.IH [OF this]] show ?thesis .
  next
    case False
    with Suc.prems f have "x = r \<and> v = w'" by (cases x) auto
    with step [OF f] show ?thesis by simp
  qed
qed

text \<open>An invariant of the world that every attempt keeps is kept by the retries.\<close>

lemma retry_loop_invariant:
  "(\<And>w. I w \<Longrightarrow> I (snd (f w))) \<Longrightarrow> I w \<Longrightarrow> I (snd (retry_loop n p f w))"
  by (induction n arbitrary: w) (fastforce split: prod.splits sum.splits)+

end
