(* ===== verification/Vectors.thy ===== *)
theory Vectors
  imports Adapter_Support Complex_Main
begin

text \<open>
  Vectors in exact arithmetic: the float operations of the adapters instantiated with the real
  numbers, the Cauchy-Schwarz inequality on lists, and the norm of a scaled vector. The bounds that
  the comments of the code promise for similarities and normalised vectors are proved here once.
\<close>

definition real_ops :: "real float_ops" where
  "real_ops = \<lparr>fl_zero = 0, fl_mul = (*), fl_div = (/), fl_sum = sum_list, fl_sqrt = sqrt\<rparr>"

lemma real_ops_simps [simp]:
  "fl_zero real_ops = 0" "fl_mul real_ops = (*)" "fl_div real_ops = (/)" "fl_sum real_ops = sum_list"
  "fl_sqrt real_ops = sqrt"
  by (simp_all add: real_ops_def)

definition sq_norm :: "real list \<Rightarrow> real" where
  "sq_norm v = sum_list (map (\<lambda>x. x * x) v)"

definition dot :: "real list \<Rightarrow> real list \<Rightarrow> real" where
  "dot a b = sum_list (map2 (*) a b)"

lemma sq_norm_nonneg [simp]: "0 \<le> sq_norm v"
  unfolding sq_norm_def by (rule sum_list_nonneg) auto

lemma sq_norm_Cons [simp]: "sq_norm [] = 0" "sq_norm (x # v) = x * x + sq_norm v"
  by (simp_all add: sq_norm_def)

lemma dot_Cons [simp]: "dot [] b = 0" "dot (x # a) (y # b) = x * y + dot a b"
  by (simp_all add: dot_def)

lemma sq_norm_eq_0: "sq_norm v = 0 \<longleftrightarrow> (\<forall>x \<in> set v. x = 0)"
  by (induction v) (auto simp: add_nonneg_eq_0_iff)

lemma sq_norm_scale: "sq_norm (map (\<lambda>x. x / c) v) = sq_norm v / (c * c)"
  by (induction v) (simp_all add: add_divide_distrib)

lemma dot_self: "dot v v = sq_norm v"
  by (induction v) simp_all

lemma dot_zero: "\<forall>y \<in> set b. y = 0 \<Longrightarrow> dot a b = 0"
proof (induction a arbitrary: b)
  case (Cons x a)
  then show ?case by (cases b) (auto simp: dot_def)
qed simp

text \<open>The square of a combination of two vectors.\<close>

lemma sq_combination:
  "length a = length b \<Longrightarrow>
   sum_list (map2 (\<lambda>x y. (s * x - t * y) * (s * x - t * y)) a b) = s * s * sq_norm a - 2 * s * t * dot a b + t * t * sq_norm b"
  by (induction a b rule: list_induct2) (simp_all add: algebra_simps)

lemma cauchy_schwarz:
  assumes "length a = length b"
  shows "dot a b * dot a b \<le> sq_norm a * sq_norm b"
proof (cases "sq_norm b = 0")
  case True
  then show ?thesis by (simp add: sq_norm_eq_0 dot_zero)
next
  case False
  let ?X = "sq_norm a" and ?Y = "sq_norm b" and ?D = "dot a b"
  have "0 \<le> sum_list (map2 (\<lambda>x y. (?Y * x - ?D * y) * (?Y * x - ?D * y)) a b)"
    by (rule sum_list_nonneg) auto
  also have "\<dots> = ?Y * (?X * ?Y - ?D * ?D)"
    unfolding sq_combination [OF assms] by (simp add: algebra_simps)
  finally have "0 \<le> ?Y * (?X * ?Y - ?D * ?D)" .
  moreover have "0 < ?Y" using False sq_norm_nonneg [of b] by linarith
  ultimately show ?thesis by (simp add: zero_le_mult_iff)
qed

lemma cosine_bounds:
  assumes "length a = length b" and "sqrt (sq_norm a) \<noteq> 0" and "sqrt (sq_norm b) \<noteq> 0"
  shows "\<bar>dot a b / (sqrt (sq_norm a) * sqrt (sq_norm b))\<bar> \<le> 1"
proof -
  let ?n = "sqrt (sq_norm a) * sqrt (sq_norm b)"
  have "sqrt (dot a b * dot a b) \<le> sqrt (sq_norm a * sq_norm b)"
    using cauchy_schwarz [OF assms(1)] by (rule real_sqrt_le_mono)
  then have "\<bar>dot a b\<bar> \<le> ?n" by (simp add: real_sqrt_mult)
  moreover have "0 < ?n" using assms(2,3) sq_norm_nonneg [of a] sq_norm_nonneg [of b]
    by (intro mult_pos_pos) (simp_all add: order_less_le)
  ultimately show ?thesis by (simp add: abs_divide pos_divide_le_eq)
qed

lemma cosine_self: "sqrt (sq_norm a) \<noteq> 0 \<Longrightarrow> dot a a / (sqrt (sq_norm a) * sqrt (sq_norm a)) = 1"
  by (simp add: dot_self)

end
