(* ===== verification/Embedder.thy ===== *)
theory Embedder
  imports Chunker Stage_Worker Vectors
begin

text \<open>
  The embedder, \<open>src/vestibule/embedder/model.py\<close>, \<open>embedder.py\<close> and the port \<open>adapters/base.py\<close>: input
  checks, prefixing, batching, Matryoshka truncation and the ledger writes of the embedding stage.
  An adapter is a record of its declared capabilities and of \<open>embed_batch\<close>, which runs in a world \<open>'w\<close>;
  \<open>exc_text\<close> is \<open>str\<close> of an exception the interpreter raises. The retry tunables of the configuration
  are documentation only (no code reads them) and are left out.
\<close>

section \<open>Data\<close>

abbreviation EMBEDDER_EMPTY_CHUNKS :: string where "EMBEDDER_EMPTY_CHUNKS \<equiv> ''EMBEDDER_EMPTY_CHUNKS''"
abbreviation EMBEDDER_MRL_UNSUPPORTED :: string where "EMBEDDER_MRL_UNSUPPORTED \<equiv> ''EMBEDDER_MRL_UNSUPPORTED''"
abbreviation EMBEDDER_INPUT_TOO_LONG :: string where "EMBEDDER_INPUT_TOO_LONG \<equiv> ''EMBEDDER_INPUT_TOO_LONG''"
abbreviation EMBEDDER_RATE_LIMITED :: string where "EMBEDDER_RATE_LIMITED \<equiv> ''EMBEDDER_RATE_LIMITED''"
abbreviation EMBEDDER_UPSTREAM_ERROR :: string where "EMBEDDER_UPSTREAM_ERROR \<equiv> ''EMBEDDER_UPSTREAM_ERROR''"
abbreviation EMBEDDER_TIMEOUT :: string where "EMBEDDER_TIMEOUT \<equiv> ''EMBEDDER_TIMEOUT''"
abbreviation EMBEDDER_INTERNAL :: string where "EMBEDDER_INTERNAL \<equiv> ''EMBEDDER_INTERNAL''"
abbreviation EMBEDDER_DEPENDENCY_MISSING :: string where "EMBEDDER_DEPENDENCY_MISSING \<equiv> ''EMBEDDER_DEPENDENCY_MISSING''"

record 'f embedded_chunk =
  em_chunk :: chunk
  em_vector :: "'f list"
  em_embedding_model :: string
  em_embedding_dimensions :: int
  em_truncated_from :: "int option"

record embedder_error =
  ee_doc_id :: string
  ee_reason :: string
  ee_error_code :: string

definition embedder_exn :: "string \<Rightarrow> string \<Rightarrow> string \<Rightarrow> embedder_error" where
  "embedder_exn doc_id reason code = \<lparr>ee_doc_id = doc_id, ee_reason = reason, ee_error_code = code\<rparr>"

text \<open>\<open>str(exc)\<close> of an \<open>EmbedderError\<close>\<close>

definition embedder_error_str :: "embedder_error \<Rightarrow> string" where
  "embedder_error_str e = ee_doc_id e @ '': '' @ ee_reason e"

text \<open>What an adapter can raise, and what \<open>embed\<close> can raise.\<close>

datatype adapter_exn = AdapterEmbedderError embedder_error | AdapterException string
datatype embed_exn = EmbedderError embedder_error | ELedgerError ledger_exn

record ('f, 'w) embedding_port =
  ep_model_name :: string
  ep_native_dimensions :: int
  ep_max_batch_size :: int
  ep_max_input_tokens :: int
  ep_supports_mrl :: bool
  ep_document_prefix :: "string option"
  ep_embed_batch :: "string list \<Rightarrow> 'w \<Rightarrow> (adapter_exn, 'f list list, 'w) outcome"

record embedder_config =
  emc_target_dimensions :: "int option"
  emc_batch_size :: "int option"

definition default_embedder_config :: embedder_config where
  "default_embedder_config = \<lparr>emc_target_dimensions = Some 1024, emc_batch_size = None\<rparr>"

definition known_adapter_error_codes :: "string set" where
  "known_adapter_error_codes = {EMBEDDER_RATE_LIMITED, EMBEDDER_UPSTREAM_ERROR, EMBEDDER_TIMEOUT}"

section \<open>Vectors\<close>

definition apply_prefix :: "string \<Rightarrow> string option \<Rightarrow> string" where
  "apply_prefix text pre = (case pre of None \<Rightarrow> text | Some p \<Rightarrow> p @ text)"

definition truncate_and_renormalize :: "'f float_ops \<Rightarrow> 'f list \<Rightarrow> int \<Rightarrow> 'f list" where
  "truncate_and_renormalize F vector target_dimensions =
     (let truncated = slice_upto target_dimensions vector;
          norm = fl_sqrt F (fl_sum F (map (\<lambda>v. fl_mul F v v) truncated))
      in if norm = fl_zero F then truncated else map (\<lambda>v. fl_div F v norm) truncated)"

definition effective_batch_size :: "embedder_config \<Rightarrow> ('f, 'w) embedding_port \<Rightarrow> int" where
  "effective_batch_size config adapter = (case emc_batch_size config of
       None \<Rightarrow> ep_max_batch_size adapter
     | Some n \<Rightarrow> min n (ep_max_batch_size adapter))"

definition build_embedded_chunk ::
    "'f float_ops \<Rightarrow> embedder_config \<Rightarrow> ('f, 'w) embedding_port \<Rightarrow> chunk \<Rightarrow> 'f list \<Rightarrow> 'f embedded_chunk" where
  "build_embedded_chunk F config adapter chunk vector =
     (case emc_target_dimensions config of
        None \<Rightarrow> \<lparr>em_chunk = chunk, em_vector = vector, em_embedding_model = ep_model_name adapter,
          em_embedding_dimensions = int (length vector), em_truncated_from = None\<rparr>
      | Some target \<Rightarrow> (let truncated = truncate_and_renormalize F vector target in
          \<lparr>em_chunk = chunk, em_vector = truncated, em_embedding_model = ep_model_name adapter,
           em_embedding_dimensions = int (length truncated), em_truncated_from = Some (int (length vector))\<rparr>))"

section \<open>Embedding all chunks\<close>

fun embed_batches ::
    "('f, 'w) embedding_port \<Rightarrow> string list list \<Rightarrow> 'f list list \<Rightarrow> 'w \<Rightarrow> (adapter_exn, 'f list list, 'w) outcome" where
  "embed_batches adapter [] vectors w = (Inr vectors, w)"
| "embed_batches adapter (batch # batches) vectors w =
     (case ep_embed_batch adapter batch w of
        (Inl e, w') \<Rightarrow> (Inl e, w')
      | (Inr vs, w') \<Rightarrow> embed_batches adapter batches (vectors @ vs) w')"

definition embed_all ::
    "(py_error \<Rightarrow> string) \<Rightarrow> 'f float_ops \<Rightarrow> embedder_config \<Rightarrow> ('f, 'w) embedding_port \<Rightarrow> chunk list \<Rightarrow> 'w \<Rightarrow>
     (adapter_exn, 'f embedded_chunk list, 'w) outcome" where
  "embed_all exc_text F config adapter chunks w =
     (let texts = map (\<lambda>chunk. apply_prefix (ch_text chunk) (ep_document_prefix adapter)) chunks in
      case batched texts (effective_batch_size config adapter) of
        Inl e \<Rightarrow> (Inl (AdapterException (exc_text e)), w)
      | Inr batches \<Rightarrow>
          (case embed_batches adapter batches [] w of
             (Inl e, w') \<Rightarrow> (Inl e, w')
           | (Inr vectors, w') \<Rightarrow>
               (case zip_strict chunks vectors of
                  Inl e \<Rightarrow> (Inl (AdapterException (exc_text e)), w')
                | Inr pairs \<Rightarrow> (Inr (map (\<lambda>(c, v). build_embedded_chunk F config adapter c v) pairs), w'))))"

section \<open>The orchestrator\<close>

definition embedder_init :: "embedder_config \<Rightarrow> ('f, 'w) embedding_port \<Rightarrow> embedder_error + unit" where
  "embedder_init config adapter =
     (case emc_target_dimensions config of
        Some t \<Rightarrow> if \<not> ep_supports_mrl adapter
          then Inl (embedder_exn [] (''target_dimensions='' @ str_int t @ '' was configured but adapter '' @
            py_repr (ep_model_name adapter) @ '' does not support MRL truncation'') EMBEDDER_MRL_UNSUPPORTED)
          else Inr ()
      | None \<Rightarrow> Inr ())"

definition embedder_terminalize ::
    "datetime \<Rightarrow> string \<Rightarrow> string \<Rightarrow> string \<Rightarrow> ledger_store \<Rightarrow> embed_exn \<times> ledger_store" where
  "embedder_terminalize now doc_id error_code reason L =
     (case triaged FAILED (ledger_transition now doc_id FAILED FAILED (Some error_code) (Some reason) None L) of
        (Inl e, L') \<Rightarrow> (ELedgerError e, L')
      | (Inr _, L') \<Rightarrow> (EmbedderError (embedder_exn doc_id reason error_code), L'))"

definition embedder_self_transition ::
    "datetime \<Rightarrow> string \<Rightarrow> string \<Rightarrow> string \<Rightarrow> ledger_store \<Rightarrow> embed_exn \<times> ledger_store" where
  "embedder_self_transition now doc_id error_code reason L =
     (case ledger_transition now doc_id EMBEDDING EMBEDDING (Some error_code) (Some reason) None L of
        (Inl e, L') \<Rightarrow> (ELedgerError e, L')
      | (Inr _, L') \<Rightarrow> (EmbedderError (embedder_exn doc_id reason error_code), L'))"

definition too_long_reason :: "('f, 'w) embedding_port \<Rightarrow> chunk \<Rightarrow> string" where
  "too_long_reason adapter chunk =
     ''chunk position='' @ str_int (ch_position chunk) @ '' token_count='' @ str_int (ch_token_count chunk) @
     '' exceeds adapter '' @ py_repr (ep_model_name adapter) @ CHR 0x27 # ''s max_input_tokens='' @
     str_int (ep_max_input_tokens adapter)"

fun validate_input_lengths ::
    "('f, 'w) embedding_port \<Rightarrow> datetime \<Rightarrow> string \<Rightarrow> chunk list \<Rightarrow> ledger_store \<Rightarrow>
     (embed_exn, unit, ledger_store) outcome" where
  "validate_input_lengths adapter now doc_id [] L = (Inr (), L)"
| "validate_input_lengths adapter now doc_id (chunk # chunks) L =
     (if ch_token_count chunk > ep_max_input_tokens adapter
      then map_prod Inl id (embedder_terminalize now doc_id EMBEDDER_INPUT_TOO_LONG (too_long_reason adapter chunk) L)
      else validate_input_lengths adapter now doc_id chunks L)"

definition embedder_run_with_recovery ::
    "(py_error \<Rightarrow> string) \<Rightarrow> 'f float_ops \<Rightarrow> embedder_config \<Rightarrow> ('f, 'w) embedding_port \<Rightarrow> datetime \<Rightarrow> string \<Rightarrow>
     chunk list \<Rightarrow> ledger_store \<times> 'w \<Rightarrow> (embed_exn, 'f embedded_chunk list, ledger_store \<times> 'w) outcome" where
  "embedder_run_with_recovery exc_text F config adapter now doc_id chunks = (\<lambda>(L, w).
     (case embed_all exc_text F config adapter chunks w of
        (Inr embedded, w') \<Rightarrow> (Inr embedded, (L, w'))
      | (Inl (AdapterEmbedderError x), w') \<Rightarrow>
          (let (e, L') = (if ee_error_code x \<in> known_adapter_error_codes
             then embedder_self_transition now doc_id (ee_error_code x) (ee_reason x) L
             else embedder_self_transition now doc_id EMBEDDER_INTERNAL (embedder_error_str x) L)
           in (Inl e, (L', w')))
      | (Inl (AdapterException text), w') \<Rightarrow>
          (let (e, L') = embedder_self_transition now doc_id EMBEDDER_INTERNAL text L
           in (Inl e, (L', w')))))"

definition transition_to_indexing ::
    "datetime \<Rightarrow> string \<Rightarrow> 'f embedded_chunk list \<Rightarrow> ledger_store \<Rightarrow>
     (embed_exn, 'f embedded_chunk list, ledger_store) outcome" where
  "transition_to_indexing now doc_id embedded L =
     (case triaged INDEXING (ledger_transition now doc_id INDEXING INDEXING None None None L) of
        (Inl e, L') \<Rightarrow> (Inl (ELedgerError e), L')
      | (Inr _, L') \<Rightarrow> (Inr embedded, L'))"

definition embedder_embed ::
    "(py_error \<Rightarrow> string) \<Rightarrow> 'f float_ops \<Rightarrow> embedder_config \<Rightarrow> ('f, 'w) embedding_port \<Rightarrow> datetime \<Rightarrow>
     arrival_envelope \<Rightarrow> chunk list \<Rightarrow> ledger_store \<times> 'w \<Rightarrow>
     (embed_exn, 'f embedded_chunk list, ledger_store \<times> 'w) outcome" where
  "embedder_embed exc_text F config adapter now envelope chunks = (\<lambda>(L, w).
     let doc_id = ae_doc_id envelope in
     if chunks = []
     then (case embedder_terminalize now doc_id EMBEDDER_EMPTY_CHUNKS
             ''Chunker returned zero chunks; nothing to embed'' L of (e, L') \<Rightarrow> (Inl e, (L', w)))
     else (case validate_input_lengths adapter now doc_id chunks L of
         (Inl e, L') \<Rightarrow> (Inl e, (L', w))
       | (Inr _, L') \<Rightarrow>
           (case embedder_run_with_recovery exc_text F config adapter now doc_id chunks (L', w) of
              (Inl e, S) \<Rightarrow> (Inl e, S)
            | (Inr embedded, (L'', w')) \<Rightarrow>
                (case transition_to_indexing now doc_id embedded L'' of (res, L3) \<Rightarrow> (res, (L3, w'))))))"

section \<open>Lemmas: batching and assembly\<close>

lemma embed_batches_acc:
  "embed_batches adapter bs acc w = (case embed_batches adapter bs [] w of (r, w') \<Rightarrow> (map_sum id (\<lambda>vs. acc @ vs) r, w'))"
proof (induction bs arbitrary: acc w)
  case Nil
  show ?case by simp
next
  case (Cons b bs)
  obtain r w1 where e: "ep_embed_batch adapter b w = (r, w1)" by fastforce
  show ?case
  proof (cases r)
    case (Inl x)
    with e show ?thesis by simp
  next
    case (Inr vs)
    with e Cons.IH [of "acc @ vs" w1] Cons.IH [of vs w1] show ?thesis
      by (auto split: prod.splits simp: sum.map_comp comp_def)
  qed
qed

lemma embed_all_Inr:
  assumes "embed_all x F config adapter cs w = (Inr es, w')"
  obtains vs where "length vs = length cs" "es = map2 (build_embedded_chunk F config adapter) cs vs"
  using assms by (auto simp: embed_all_def Let_def split: sum.splits prod.splits if_splits)

text \<open>Adapters that agree on the batches they may be given behave alike.\<close>

lemma embed_batches_cong:
  "(\<And>b w. b \<in> set bs \<Longrightarrow> ep_embed_batch A b w = ep_embed_batch B b w) \<Longrightarrow>
   embed_batches A bs acc w = embed_batches B bs acc w"
  by (induction bs arbitrary: acc w) (auto split: prod.splits sum.splits)

lemma effective_batch_size_le: "effective_batch_size config adapter \<le> ep_max_batch_size adapter"
  by (simp add: effective_batch_size_def split: option.splits)

lemma batched_sizes:
  assumes "batched xs n = Inr bs" and "b \<in> set bs"
  shows "b \<noteq> [] \<and> int (length b) \<le> n"
proof -
  have "0 < n" using assms by (auto simp: batched_def split: if_splits)
  with assms chunks_of_lossless [of "nat n" xs] show ?thesis by (auto simp: batched_eq_chunks_of)
qed

lemma embed_batches_pointwise:
  assumes "\<And>b w. ep_embed_batch adapter b w = (Inr (map g b), w)"
  shows "embed_batches adapter bs acc w = (Inr (acc @ map g (concat bs)), w)"
  by (induction bs arbitrary: acc) (simp_all add: assms)

section \<open>Lemmas: the ledger\<close>

lemma embedder_writes:
  "snd (embedder_terminalize now d c m L) = ledger_run L [TransitionOp now d FAILED FAILED (Some c) (Some m) None]"
  "snd (embedder_self_transition now d c m L) = ledger_run L [TransitionOp now d EMBEDDING EMBEDDING (Some c) (Some m) None]"
  "snd (transition_to_indexing now d es L) = ledger_run L [TransitionOp now d INDEXING INDEXING None None None]"
  by (auto simp: embedder_terminalize_def embedder_self_transition_def transition_to_indexing_def
      dest: triaged_state split: prod.splits sum.splits)

lemma validate_input_lengths_ok:
  "\<forall>c \<in> set cs. ch_token_count c \<le> ep_max_input_tokens adapter \<Longrightarrow> validate_input_lengths adapter now d cs L = (Inr (), L)"
  by (induction cs) auto

lemma validate_input_lengths_long:
  "\<exists>c \<in> set cs. ch_token_count c > ep_max_input_tokens adapter \<Longrightarrow>
   \<exists>m. validate_input_lengths adapter now d cs L = map_prod Inl id (embedder_terminalize now d EMBEDDER_INPUT_TOO_LONG m L)"
  by (induction cs) auto

text \<open>The code a failure below the orchestrator is recorded under.\<close>

definition embed_failure_code :: "adapter_exn \<Rightarrow> string" where
  "embed_failure_code f = (case f of
     AdapterEmbedderError x \<Rightarrow> if ee_error_code x \<in> known_adapter_error_codes then ee_error_code x else EMBEDDER_INTERNAL
   | AdapterException _ \<Rightarrow> EMBEDDER_INTERNAL)"

lemma run_with_recovery_Inl:
  assumes "embed_all x F config adapter cs w = (Inl f, w')"
  shows "\<exists>m. embedder_run_with_recovery x F config adapter now d cs (L, w) =
    (case embedder_self_transition now d (embed_failure_code f) m L of (e, L') \<Rightarrow> (Inl e, (L', w')))"
proof (cases f)
  case (AdapterEmbedderError y)
  with assms show ?thesis
    by (intro exI [of _ "if ee_error_code y \<in> known_adapter_error_codes then ee_reason y else embedder_error_str y"])
      (simp add: embedder_run_with_recovery_def embed_failure_code_def Let_def)
next
  case (AdapterException t)
  with assms show ?thesis
    by (intro exI [of _ t]) (simp add: embedder_run_with_recovery_def embed_failure_code_def Let_def)
qed

lemma run_with_recovery_Inr:
  "embed_all x F config adapter cs w = (Inr es, w') \<Longrightarrow>
   embedder_run_with_recovery x F config adapter now d cs (L, w) = (Inr es, (L, w'))"
  by (simp add: embedder_run_with_recovery_def)

text \<open>The three ways a call can go.\<close>

lemma embedder_embed_cases:
  obtains (bad) c m where "cs = [] \<or> (\<exists>k \<in> set cs. ch_token_count k > ep_max_input_tokens adapter)"
      "c = (if cs = [] then EMBEDDER_EMPTY_CHUNKS else EMBEDDER_INPUT_TOO_LONG)"
      "embedder_embed x F config adapter now e cs (L, w) =
         (case embedder_terminalize now (ae_doc_id e) c m L of (er, L') \<Rightarrow> (Inl er, (L', w)))"
  | (failed) f w' m where "cs \<noteq> []" "\<forall>k \<in> set cs. ch_token_count k \<le> ep_max_input_tokens adapter"
      "embed_all x F config adapter cs w = (Inl f, w')"
      "embedder_embed x F config adapter now e cs (L, w) =
         (case embedder_self_transition now (ae_doc_id e) (embed_failure_code f) m L of (er, L') \<Rightarrow> (Inl er, (L', w')))"
  | (success) es w' where "cs \<noteq> []" "\<forall>k \<in> set cs. ch_token_count k \<le> ep_max_input_tokens adapter"
      "embed_all x F config adapter cs w = (Inr es, w')"
      "embedder_embed x F config adapter now e cs (L, w) =
         (case transition_to_indexing now (ae_doc_id e) es L of (res, L') \<Rightarrow> (res, (L', w')))"
proof -
  consider "cs = []" | "cs \<noteq> []" "\<exists>k \<in> set cs. ch_token_count k > ep_max_input_tokens adapter"
    | "cs \<noteq> []" "\<forall>k \<in> set cs. ch_token_count k \<le> ep_max_input_tokens adapter" by fastforce
  then show ?thesis
  proof cases
    case 1
    then show ?thesis by (intro bad [of EMBEDDER_EMPTY_CHUNKS]) (simp_all add: embedder_embed_def)
  next
    case 2
    obtain m where "validate_input_lengths adapter now (ae_doc_id e) cs L =
        map_prod Inl id (embedder_terminalize now (ae_doc_id e) EMBEDDER_INPUT_TOO_LONG m L)"
      using validate_input_lengths_long [OF 2(2)] by blast
    with 2 show ?thesis
      by (intro bad [of EMBEDDER_INPUT_TOO_LONG m]) (auto simp: embedder_embed_def Let_def split: prod.splits)
  next
    case 3
    note v = validate_input_lengths_ok [OF 3(2), of now "ae_doc_id e" L]
    obtain r w' where r: "embed_all x F config adapter cs w = (r, w')" by fastforce
    show ?thesis
    proof (cases r)
      case (Inl f)
      with r run_with_recovery_Inl [of x F config adapter cs w f w' now "ae_doc_id e" L] obtain m where
        "embedder_run_with_recovery x F config adapter now (ae_doc_id e) cs (L, w) =
          (case embedder_self_transition now (ae_doc_id e) (embed_failure_code f) m L of (er, L') \<Rightarrow> (Inl er, (L', w')))"
        by blast
      with 3 v r Inl show ?thesis by (intro failed [of f w' m]) (auto simp: embedder_embed_def Let_def split: prod.splits)
    next
      case (Inr es)
      with 3 v r show ?thesis
        by (intro success [of es w']) (simp_all add: embedder_embed_def Let_def run_with_recovery_Inr)
    qed
  qed
qed

interpretation embedder: stage_worker
  "\<lambda>(x, F, config, adapter, now, e, cs, w) L.
     case embedder_embed x F config adapter now e cs (L, w) of (res, (L', w')) \<Rightarrow> ((res, w'), L')"
  "\<lambda>(x, F, config, adapter, now, e, cs, w). ae_doc_id e"
proof unfold_locales
  fix i :: "(py_error \<Rightarrow> string) \<times> 'f float_ops \<times> embedder_config \<times> ('f, 'w) embedding_port \<times> datetime \<times>
    arrival_envelope \<times> chunk list \<times> 'w" and L
  obtain x F config adapter now e cs w where i: "i = (x, F, config, adapter, now, e, cs, w)" by (cases i) auto
  have t: "\<exists>ops. snd (embedder_terminalize now (ae_doc_id e) c m L) = ledger_run L ops \<and> ops_for (ae_doc_id e) ops"
    "\<exists>ops. snd (embedder_self_transition now (ae_doc_id e) c m L) = ledger_run L ops \<and> ops_for (ae_doc_id e) ops"
    "\<exists>ops. snd (transition_to_indexing now (ae_doc_id e) es L) = ledger_run L ops \<and> ops_for (ae_doc_id e) ops" for c m es
    unfolding embedder_writes by (rule exI, rule conjI, rule refl, simp)+
  show "\<exists>ops. snd ((\<lambda>(x, F, config, adapter, now, e, cs, w) L.
      case embedder_embed x F config adapter now e cs (L, w) of (res, (L', w')) \<Rightarrow> ((res, w'), L')) i L) = ledger_run L ops \<and>
    ops_for ((\<lambda>(x, F, config, adapter, now, e, cs, w). ae_doc_id e) i) ops"
    unfolding i prod.case
    by (rule embedder_embed_cases [where cs = cs and adapter = adapter and x = x and F = F and config = config and
          now = now and e = e and L = L and w = w])
      (simp_all add: case_prod_beta t)
qed

section \<open>A sample adapter\<close>

text \<open>An adapter that answers every text with the vector (3, 4), two texts at a time.\<close>

definition demo_port :: "(real, unit) embedding_port" where
  "demo_port = \<lparr>ep_model_name = ''demo'', ep_native_dimensions = 2, ep_max_batch_size = 2, ep_max_input_tokens = 8,
     ep_supports_mrl = True, ep_document_prefix = Some ''doc: '', ep_embed_batch = (\<lambda>b w. (Inr (map (\<lambda>t. [3, 4]) b), w))\<rparr>"

definition demo_chunk :: "int \<Rightarrow> chunk" where
  "demo_chunk i = \<lparr>ch_chunk_id = replicate 64 (CHR ''b''), ch_doc_id = demo_id, ch_position = i, ch_element_types = [PARAGRAPH],
     ch_text = ''text'', ch_token_count = 4, ch_metadata = [(''strategy'', MStr STRATEGY_RECURSIVE)]\<rparr>"

text \<open>A ledger whose only document has the given status.\<close>

definition demo_ledger :: "status \<Rightarrow> ledger_store" where
  "demo_ledger s = ledger_put demo_id (next_row 3 demo_id (fresh_row 0 demo_id \<lparr>es_config_version = ''7''\<rparr>) s s
     (if s = FAILED then Some ''E'' else None) None None) (ledger_init 100)"

lemma demo_ledger_row:
  obtains r where "ledger_get (demo_ledger s) (ae_doc_id demo_arrival) = Some r" "lr_status r = s" "lr_config_version r = ''7''"
  by (rule that [of "next_row 3 demo_id (fresh_row 0 demo_id \<lparr>es_config_version = ''7''\<rparr>) s s (if s = FAILED then Some ''E'' else None) None None"])
    (simp_all add: demo_ledger_def demo_arrival_def fresh_row_def)

lemma demo_ledger_ok: "ledger_ok (demo_ledger s)"
  unfolding demo_ledger_def
  by (intro ledger_ok_put ledger_ok_init)
    (simp add: row_ok_def next_attempts_def next_error_fields_def fresh_row_def)

lemma demo_embed_all:
  "embed_all x real_ops \<lparr>emc_target_dimensions = None, emc_batch_size = None\<rparr> demo_port [demo_chunk 0, demo_chunk 1, demo_chunk 2] w =
     (Inr (map (\<lambda>i. \<lparr>em_chunk = demo_chunk i, em_vector = [3, 4], em_embedding_model = ''demo'', em_embedding_dimensions = 2,
        em_truncated_from = None\<rparr>) [0, 1, 2]), w)"
  by (simp add: embed_all_def Let_def batched_eq_chunks_of effective_batch_size_def demo_port_def chunks_of.simps
      build_embedded_chunk_def zip_strict_def)

section \<open>Properties\<close>

text \<open>
  C15. What \<open>embed\<close> does for a document in \<open>EMBEDDING\<close>: an empty list of chunks, or a chunk above the
  adapter's token limit, fails it for good without calling the adapter; embedded chunks move it to
  \<open>INDEXING\<close> and are returned; any failure of the adapter leaves it in \<open>EMBEDDING\<close> with one more attempt
  and a transient code recorded. No other row changes.
\<close>

theorem embed_ledger_outcomes:
  assumes "ledger_ok L" and "ledger_get L (ae_doc_id e) = Some r" and "lr_status r = EMBEDDING"
  shows "\<exists>res L' w' r'. embedder_embed x F config adapter now e cs (L, w) = (res, (L', w')) \<and>
    ledger_get L' = (ledger_get L)(ae_doc_id e \<mapsto> r') \<and>
    (if cs = [] \<or> (\<exists>k \<in> set cs. ch_token_count k > ep_max_input_tokens adapter)
     then w' = w \<and> lr_status r' = FAILED \<and> (\<exists>err. res = Inl (EmbedderError err) \<and> lr_last_error_code r' = Some (ee_error_code err) \<and>
       ee_error_code err = (if cs = [] then EMBEDDER_EMPTY_CHUNKS else EMBEDDER_INPUT_TOO_LONG))
     else case embed_all x F config adapter cs w of
       (Inr es, w1) \<Rightarrow> w' = w1 \<and> res = Inr es \<and> lr_status r' = INDEXING \<and> lr_attempts r' = 1 \<and> lr_last_error_code r' = None
     | (Inl f, w1) \<Rightarrow> w' = w1 \<and> (\<exists>err. res = Inl (EmbedderError err) \<and> ee_doc_id err = ae_doc_id e \<and>
         ee_error_code err = embed_failure_code f \<and> lr_last_error_code r' = Some (ee_error_code err)) \<and>
         lr_status r' = EMBEDDING \<and> lr_attempts r' = lr_attempts r + 1)"
proof (rule embedder_embed_cases [where cs = cs and adapter = adapter and x = x and F = F and config = config and
          now = now and e = e and L = L and w = w])
  fix c m
  assume h: "cs = [] \<or> (\<exists>k \<in> set cs. ch_token_count k > ep_max_input_tokens adapter)"
    "c = (if cs = [] then EMBEDDER_EMPTY_CHUNKS else EMBEDDER_INPUT_TOO_LONG)"
    "embedder_embed x F config adapter now e cs (L, w) =
       (case embedder_terminalize now (ae_doc_id e) c m L of (er, L') \<Rightarrow> (Inl er, (L', w)))"
  have "fsm_edge (lr_status r) FAILED" using assms(3) by simp
  from transition_edge [OF assms(1,2) this, of "Some c" now "Some m" None] h show ?thesis
    by (auto simp: embedder_terminalize_def embedder_exn_def fun_eq_iff)
next
  fix f w' m
  assume h: "cs \<noteq> []" "\<forall>k \<in> set cs. ch_token_count k \<le> ep_max_input_tokens adapter"
    "embed_all x F config adapter cs w = (Inl f, w')"
    "embedder_embed x F config adapter now e cs (L, w) =
       (case embedder_self_transition now (ae_doc_id e) (embed_failure_code f) m L of (er, L') \<Rightarrow> (Inl er, (L', w')))"
  have "fsm_edge (lr_status r) EMBEDDING" using assms(3) by simp
  from transition_edge [OF assms(1,2) this, of "Some (embed_failure_code f)" now "Some m" None] h assms(3) show ?thesis
    by (fastforce simp: embedder_self_transition_def embedder_exn_def fun_eq_iff)
next
  fix es w'
  assume h: "cs \<noteq> []" "\<forall>k \<in> set cs. ch_token_count k \<le> ep_max_input_tokens adapter"
    "embed_all x F config adapter cs w = (Inr es, w')"
    "embedder_embed x F config adapter now e cs (L, w) =
       (case transition_to_indexing now (ae_doc_id e) es L of (res, L') \<Rightarrow> (res, (L', w')))"
  have "fsm_edge (lr_status r) INDEXING" using assms(3) by simp
  from transition_edge [OF assms(1,2) this, of None now None None] h assms(3) show ?thesis
    by (fastforce simp: transition_to_indexing_def fun_eq_iff)
qed

theorem embed_ledger_outcomes_witness:
  "\<exists>L' w' r'. embedder_embed (\<lambda>_. []) real_ops default_embedder_config demo_port 9 demo_arrival [] (demo_ledger EMBEDDING, ()) =
       (Inl (EmbedderError (embedder_exn demo_id ''Chunker returned zero chunks; nothing to embed'' EMBEDDER_EMPTY_CHUNKS)), (L', w')) \<and>
     ledger_get L' demo_id = Some r' \<and> lr_status r' = FAILED"
proof -
  obtain r where r: "ledger_get (demo_ledger EMBEDDING) (ae_doc_id demo_arrival) = Some r" "lr_status r = EMBEDDING"
    by (rule demo_ledger_row)
  have d: "ae_doc_id demo_arrival = demo_id" by (simp add: demo_arrival_def)
  obtain res L' w' r' where o: "embedder_embed (\<lambda>_. []) real_ops default_embedder_config demo_port 9 demo_arrival [] (demo_ledger EMBEDDING, ()) = (res, (L', w'))"
    "ledger_get L' = (ledger_get (demo_ledger EMBEDDING))(demo_id \<mapsto> r')" "lr_status r' = FAILED" "\<exists>err. res = Inl (EmbedderError err)"
    using embed_ledger_outcomes [OF demo_ledger_ok r, of "\<lambda>_. []" real_ops default_embedder_config demo_port 9 "[]" "()"]
    unfolding d by auto
  from o(1,4) have "res = Inl (EmbedderError (embedder_exn demo_id ''Chunker returned zero chunks; nothing to embed'' EMBEDDER_EMPTY_CHUNKS))"
    by (auto simp: embedder_embed_def embedder_terminalize_def Let_def d split: prod.splits sum.splits)
  with o show ?thesis by auto
qed

text \<open>
  The embedded chunks are faithful: one per chunk, in the same order, wrapping that chunk, carrying
  the adapter's model name and the length of its own vector; with no target the vector is the
  adapter's own, with a target the record says how long the native vector was.
\<close>

theorem embed_all_faithful:
  assumes "embed_all x F config adapter cs w = (Inr es, w')"
  shows "map em_chunk es = cs \<and>
    (\<forall>ec \<in> set es. em_embedding_model ec = ep_model_name adapter \<and> em_embedding_dimensions ec = int (length (em_vector ec)) \<and>
       (em_truncated_from ec = None \<longleftrightarrow> emc_target_dimensions config = None))"
proof -
  obtain vs where vs: "length vs = length cs" "es = map2 (build_embedded_chunk F config adapter) cs vs"
    by (rule embed_all_Inr [OF assms])
  have b: "em_chunk (build_embedded_chunk F config adapter c v) = c"
    "em_embedding_model (build_embedded_chunk F config adapter c v) = ep_model_name adapter"
    "em_embedding_dimensions (build_embedded_chunk F config adapter c v) =
       int (length (em_vector (build_embedded_chunk F config adapter c v)))"
    "em_truncated_from (build_embedded_chunk F config adapter c v) = None \<longleftrightarrow> emc_target_dimensions config = None" for c v
    by (simp_all add: build_embedded_chunk_def Let_def split: option.splits)
  have "map em_chunk es = cs" using vs by (simp add: b comp_def split_def)
  with vs b show ?thesis by (auto simp: split_def)
qed

theorem embed_all_faithful_witness:
  "map em_chunk (fst (fst (the (case embed_all (\<lambda>_. []) real_ops \<lparr>emc_target_dimensions = None, emc_batch_size = None\<rparr> demo_port
      [demo_chunk 0, demo_chunk 1, demo_chunk 2] () of (Inr es, w') \<Rightarrow> Some ((es, w'), ()) | _ \<Rightarrow> None)))) =
    [demo_chunk 0, demo_chunk 1, demo_chunk 2]"
  using embed_all_faithful [OF demo_embed_all [of "\<lambda>_. []" "()"]] demo_embed_all [of "\<lambda>_. []" "()"] by simp

text \<open>
  C26. Batching is invisible: with an adapter that embeds each text by itself and batch sizes that are
  positive, embedding in batches gives exactly the embedding of each prefixed chunk, whatever the
  batch size.
\<close>

theorem embed_batching_invisible:
  assumes "\<forall>b w. ep_embed_batch adapter b w = (Inr (map g b), w)" and "0 < effective_batch_size config adapter"
  shows "embed_all x F config adapter cs w =
    (Inr (map (\<lambda>c. build_embedded_chunk F config adapter c (g (apply_prefix (ch_text c) (ep_document_prefix adapter)))) cs), w)"
proof -
  let ?t = "\<lambda>c. apply_prefix (ch_text c) (ep_document_prefix adapter)"
  let ?bs = "chunks_of (nat (effective_batch_size config adapter)) (map ?t cs)"
  have "concat ?bs = map ?t cs" using chunks_of_lossless [of "nat (effective_batch_size config adapter)" "map ?t cs"] assms(2) by simp
  moreover have "embed_batches adapter ?bs [] w = (Inr (map g (concat ?bs)), w)"
    using embed_batches_pointwise [of adapter g ?bs "[]" w] assms(1) by simp
  ultimately show ?thesis using assms(2)
    by (simp add: embed_all_def Let_def batched_eq_chunks_of zip_strict_def zip_map2 zip_same_conv_map comp_def split_def)
qed

theorem embed_batching_invisible_witness:
  "embed_all (\<lambda>_. []) real_ops \<lparr>emc_target_dimensions = Some 1, emc_batch_size = Some 1\<rparr> demo_port [demo_chunk 0, demo_chunk 1] () =
    (Inr (map (\<lambda>c. build_embedded_chunk real_ops \<lparr>emc_target_dimensions = Some 1, emc_batch_size = Some 1\<rparr> demo_port c [3, 4])
       [demo_chunk 0, demo_chunk 1]), ())"
  by (rule embed_batching_invisible) (simp_all add: demo_port_def effective_batch_size_def)

text \<open>
  The adapter's batch limit is respected: replacing the adapter on empty batches and on batches
  above its declared \<open>max_batch_size\<close> by one that raises changes nothing, so such a batch is never sent.
\<close>

theorem embed_batch_limit:
  "embed_all x F config (adapter\<lparr>ep_embed_batch := \<lambda>b w. if b \<noteq> [] \<and> int (length b) \<le> ep_max_batch_size adapter
      then ep_embed_batch adapter b w else (Inl (AdapterException ''never sent''), w)\<rparr>) cs w = embed_all x F config adapter cs w"
    (is "embed_all x F config ?A cs w = _")
proof -
  have e: "effective_batch_size config ?A = effective_batch_size config adapter" by (simp add: effective_batch_size_def split: option.splits)
  have f: "ep_model_name ?A = ep_model_name adapter" "ep_document_prefix ?A = ep_document_prefix adapter"
    "ep_embed_batch ?A = (\<lambda>b w. if b \<noteq> [] \<and> int (length b) \<le> ep_max_batch_size adapter
      then ep_embed_batch adapter b w else (Inl (AdapterException ''never sent''), w))" by simp_all
  have "embed_batches ?A bs [] w = embed_batches adapter bs [] w"
    if "batched ts (effective_batch_size config adapter) = Inr bs" for ts bs
    using batched_sizes [OF that] effective_batch_size_le [of config adapter]
    by (intro embed_batches_cong) (fastforce simp: f dest: order_trans)
  moreover have b: "build_embedded_chunk F config ?A = build_embedded_chunk F config adapter"
    by (simp add: build_embedded_chunk_def fun_eq_iff split: option.splits)
  ultimately show ?thesis unfolding embed_all_def e f(1,2) b by (simp add: Let_def split: sum.split)
qed



text \<open>
  Redelivery to a document that a duplicate worker already carried on. When the chunks embed, a row
  at \<open>INDEXED\<close> is left alone and a row at \<open>INDEXING\<close> is written again with one more attempt; the
  embedded chunks are returned in both cases. When they do not, the ledger refuses the step back and
  its exception reaches the caller in place of the embedder's.
\<close>

theorem embed_redelivery:
  assumes "ledger_ok L" and "ledger_get L (ae_doc_id e) = Some r" and "lr_status r = INDEXING \<or> lr_status r = INDEXED"
    and "cs \<noteq> []" and "\<forall>k \<in> set cs. ch_token_count k \<le> ep_max_input_tokens adapter"
  shows "\<exists>res L' w'. embedder_embed x F config adapter now e cs (L, w) = (res, (L', w')) \<and>
    (case embed_all x F config adapter cs w of
       (Inr es, w1) \<Rightarrow> res = Inr es \<and> w' = w1 \<and>
         (if lr_status r = INDEXED then L' = L
          else \<exists>r'. ledger_get L' = (ledger_get L)(ae_doc_id e \<mapsto> r') \<and> lr_status r' = INDEXING \<and> lr_attempts r' = lr_attempts r + 1)
     | (Inl f, w1) \<Rightarrow> L' = L \<and> w' = w1 \<and> (\<exists>t. res = Inl (ELedgerError (LedgerTransitionInvalid t)) \<and> ti_observed_row t = Some r))"
proof (rule embedder_embed_cases [where cs = cs and adapter = adapter and x = x and F = F and config = config and
          now = now and e = e and L = L and w = w])
  fix c m
  assume "cs = [] \<or> (\<exists>k \<in> set cs. ch_token_count k > ep_max_input_tokens adapter)"
  then show ?thesis using assms(4,5) by fastforce
next
  fix f w' m
  assume h: "embed_all x F config adapter cs w = (Inl f, w')"
    "embedder_embed x F config adapter now e cs (L, w) =
       (case embedder_self_transition now (ae_doc_id e) (embed_failure_code f) m L of (er, L') \<Rightarrow> (Inl er, (L', w')))"
  have "\<not> fsm_edge (lr_status r) EMBEDDING" using assms(3) by auto
  from mem.transition_off_edge [OF assms(1,2) this, of now "Some (embed_failure_code f)" "Some m" None] h show ?thesis
    by (fastforce simp: embedder_self_transition_def)
next
  fix es w'
  assume h: "embed_all x F config adapter cs w = (Inr es, w')"
    "embedder_embed x F config adapter now e cs (L, w) =
       (case transition_to_indexing now (ae_doc_id e) es L of (res, L') \<Rightarrow> (res, (L', w')))"
  show ?thesis
  proof (cases "lr_status r = INDEXED")
    case True
    with triaged_benign [OF assms(1,2), of INDEXING now None None None] h show ?thesis
      by (simp add: transition_to_indexing_def)
  next
    case False
    with assms(3) have s: "lr_status r = INDEXING" by simp
    then have "fsm_edge (lr_status r) INDEXING" by simp
    from transition_edge [OF assms(1,2) this, of None now None None] h s show ?thesis
      by (fastforce simp: transition_to_indexing_def fun_eq_iff)
  qed
qed

theorem embed_redelivery_witness:
  "\<exists>L' t. embedder_embed (\<lambda>_. ''boom'') real_ops \<lparr>emc_target_dimensions = None, emc_batch_size = Some 0\<rparr> demo_port 9 demo_arrival
      [demo_chunk 0] (demo_ledger INDEXING, ()) = (Inl (ELedgerError (LedgerTransitionInvalid t)), (L', ()))"
proof -
  let ?c = "\<lparr>emc_target_dimensions = None, emc_batch_size = Some 0\<rparr>"
  obtain r where r: "ledger_get (demo_ledger INDEXING) (ae_doc_id demo_arrival) = Some r" "lr_status r = INDEXING"
    by (rule demo_ledger_row)
  then have s: "lr_status r = INDEXING \<or> lr_status r = INDEXED" by simp
  have k: "[demo_chunk 0] \<noteq> []" "\<forall>k \<in> set [demo_chunk 0]. ch_token_count k \<le> ep_max_input_tokens demo_port"
    by (simp_all add: demo_chunk_def demo_port_def)
  have a: "embed_all (\<lambda>_. ''boom'') real_ops ?c demo_port [demo_chunk 0] () = (Inl (AdapterException ''boom''), ())"
    by (simp add: embed_all_def batched_def effective_batch_size_def demo_port_def)
  from embed_redelivery [OF demo_ledger_ok r(1) s k, of "\<lambda>_. ''boom''" real_ops ?c 9 "()"] a show ?thesis by auto
qed

end
