(* ===== verification/Embedder_Adapters.thy ===== *)
theory Embedder_Adapters
  imports Embedder
begin

text \<open>
  The two embedding adapters, \<open>src/vestibule/embedder/adapters/azure_openai.py\<close> and \<open>fastembed.py\<close>. The
  SDK call \<open>embeddings.create\<close> and the local model are parameters that run in the world \<open>'w\<close>; an
  exception of the SDK is one of the three retryable classes or anything else, with its text. The
  delay between two attempts is not modelled: it changes nothing but the time.
\<close>

section \<open>Azure OpenAI\<close>

datatype openai_exn = RateLimitError string | InternalServerError string | APITimeoutError string | OpenAIException string

record azure_openai =
  ao_model :: string
  ao_max_attempts :: int

fun openai_retryable :: "openai_exn \<Rightarrow> bool" where
  "openai_retryable (OpenAIException t) = False"
| "openai_retryable _ = True"

text \<open>\<open>_call_api\<close>: the embeddings of \<open>response.data\<close>, in order.\<close>

definition azure_call_api ::
    "(string \<Rightarrow> string list \<Rightarrow> 'w \<Rightarrow> (openai_exn, 'f list list, 'w) outcome) \<Rightarrow> azure_openai \<Rightarrow> string list \<Rightarrow> 'w \<Rightarrow>
     (openai_exn, 'f list list, 'w) outcome" where
  "azure_call_api embeddings_create A texts w = embeddings_create (ao_model A) texts w"

fun azure_map_error :: "openai_exn \<Rightarrow> adapter_exn" where
  "azure_map_error (RateLimitError t) = AdapterEmbedderError (embedder_exn [] t EMBEDDER_RATE_LIMITED)"
| "azure_map_error (InternalServerError t) = AdapterEmbedderError (embedder_exn [] t EMBEDDER_UPSTREAM_ERROR)"
| "azure_map_error (APITimeoutError t) = AdapterEmbedderError (embedder_exn [] t EMBEDDER_TIMEOUT)"
| "azure_map_error (OpenAIException t) = AdapterException t"

definition azure_embed_batch ::
    "(int \<Rightarrow> nat) \<Rightarrow> (string \<Rightarrow> string list \<Rightarrow> 'w \<Rightarrow> (openai_exn, 'f list list, 'w) outcome) \<Rightarrow> azure_openai \<Rightarrow> string list \<Rightarrow> 'w \<Rightarrow>
     (adapter_exn, 'f list list, 'w) outcome" where
  "azure_embed_batch grants embeddings_create A texts w =
     map_prod (map_sum azure_map_error id) id
       (retry_loop (grants (ao_max_attempts A)) openai_retryable (azure_call_api embeddings_create A texts) w)"

definition azure_openai_port ::
    "(int \<Rightarrow> nat) \<Rightarrow> (string \<Rightarrow> string list \<Rightarrow> 'w \<Rightarrow> (openai_exn, 'f list list, 'w) outcome) \<Rightarrow> azure_openai \<Rightarrow> ('f, 'w) embedding_port" where
  "azure_openai_port grants embeddings_create A =
     \<lparr>ep_model_name = ao_model A, ep_native_dimensions = 3072, ep_max_batch_size = 96, ep_max_input_tokens = 8191,
      ep_supports_mrl = True, ep_document_prefix = None, ep_embed_batch = azure_embed_batch grants embeddings_create A\<rparr>"

section \<open>FastEmbed\<close>

text \<open>What happens when the model is loaded: the import fails, the load does not finish in time, raises, or succeeds.\<close>

datatype 'm load_outcome = ImportFails | LoadTimesOut | LoadRaises string | Loaded 'm

definition load_text_embedding :: "string \<Rightarrow> string \<Rightarrow> 'm load_outcome \<Rightarrow> adapter_exn + 'm" where
  "load_text_embedding timeout_text model outcome = (case outcome of
       ImportFails \<Rightarrow> Inl (AdapterEmbedderError (embedder_exn []
         (''fastembed is not installed; install the '' @ CHR 0x27 # ''local'' @ CHR 0x27 #
          '' extra (pip install vestibule[local]) to use FastEmbedEmbedder'') EMBEDDER_DEPENDENCY_MISSING))
     | LoadTimesOut \<Rightarrow> Inl (AdapterEmbedderError (embedder_exn []
         (''loading fastembed model '' @ py_repr model @ '' did not finish within '' @ timeout_text @
          ''s (likely a stalled model-weight download)'') EMBEDDER_TIMEOUT))
     | LoadRaises t \<Rightarrow> Inl (AdapterException t)
     | Loaded impl \<Rightarrow> Inr impl)"

type_synonym ('f, 'w) text_embedding = "string list \<Rightarrow> 'w \<Rightarrow> (string, 'f list list, 'w) outcome"

definition fastembed_embed_batch :: "('f, 'w) text_embedding \<Rightarrow> string list \<Rightarrow> 'w \<Rightarrow> (adapter_exn, 'f list list, 'w) outcome" where
  "fastembed_embed_batch impl texts w = map_prod (map_sum AdapterException id) id (impl texts w)"

definition fastembed_port :: "string \<Rightarrow> ('f, 'w) text_embedding \<Rightarrow> ('f, 'w) embedding_port" where
  "fastembed_port model impl =
     \<lparr>ep_model_name = model, ep_native_dimensions = 768, ep_max_batch_size = 32, ep_max_input_tokens = 8192,
      ep_supports_mrl = True, ep_document_prefix = Some ''search_document: '', ep_embed_batch = fastembed_embed_batch impl\<rparr>"

text \<open>\<open>FastEmbedEmbedder(model, ...)\<close>, with the optional injected implementation.\<close>

definition fastembed_init ::
    "string \<Rightarrow> string \<Rightarrow> ('f, 'w) text_embedding option \<Rightarrow> ('f, 'w) text_embedding load_outcome \<Rightarrow> adapter_exn + ('f, 'w) embedding_port" where
  "fastembed_init timeout_text model injected outcome =
     map_sum id (fastembed_port model)
       (case injected of Some impl \<Rightarrow> Inr impl | None \<Rightarrow> load_text_embedding timeout_text model outcome)"

section \<open>Lemmas\<close>

lemma azure_map_error_code:
  "azure_map_error e = AdapterEmbedderError x \<Longrightarrow> ee_error_code x \<in> known_adapter_error_codes"
  by (cases e) (auto simp: embedder_exn_def known_adapter_error_codes_def)

lemma azure_map_error_exception: "azure_map_error e = AdapterException t \<longleftrightarrow> e = OpenAIException t"
  by (cases e) auto

section \<open>Properties\<close>

text \<open>
  Retries of the Azure adapter are bounded and end in a declared code: \<open>embed_batch\<close> makes at least one
  and at most \<open>max_attempts\<close> calls; every call before the last raised a retryable exception; the last
  one succeeded, or used up the attempts, or raised something that is not retried. A retryable
  exception that is left at the end becomes one of the three transient codes; anything else
  propagates unchanged.
\<close>

theorem azure_retries_bounded:
  fixes embeddings_create :: "string \<Rightarrow> string list \<Rightarrow> 'w \<Rightarrow> (openai_exn, 'f list list, 'w) outcome"
    and A :: azure_openai and texts :: "string list" and w :: 'w
  assumes "tenacity_grants grants"
  defines "call \<equiv> azure_call_api embeddings_create A texts"
  shows "\<exists>k. int k < max 1 (ao_max_attempts A) \<and>
    (\<forall>j < k. \<exists>ex. fst (call (attempt_world call j w)) = Inl ex \<and> openai_retryable ex) \<and>
    (case call (attempt_world call k w) of
       (Inr vs, w') \<Rightarrow> azure_embed_batch grants embeddings_create A texts w = (Inr vs, w')
     | (Inl (OpenAIException t), w') \<Rightarrow> azure_embed_batch grants embeddings_create A texts w = (Inl (AdapterException t), w')
     | (Inl ex, w') \<Rightarrow> int k = max 1 (ao_max_attempts A) - 1 \<and>
         (\<exists>x. azure_embed_batch grants embeddings_create A texts w = (Inl (AdapterEmbedderError x), w') \<and>
            ee_error_code x \<in> {EMBEDDER_RATE_LIMITED, EMBEDDER_UPSTREAM_ERROR, EMBEDDER_TIMEOUT}))"
proof -
  let ?n = "grants (ao_max_attempts A)"
  have n: "int ?n = max 1 (ao_max_attempts A) - 1" using assms(1) by (simp add: tenacity_grants_def)
  obtain k where k: "k \<le> ?n" "retry_loop ?n openai_retryable call w = call (attempt_world call k w)"
    "\<forall>j < k. \<exists>ex. fst (call (attempt_world call j w)) = Inl ex \<and> openai_retryable ex"
    "k = ?n \<or> (\<forall>ex. fst (call (attempt_world call k w)) = Inl ex \<longrightarrow> \<not> openai_retryable ex)"
    using retry_loop_spec [of ?n openai_retryable call w] by blast
  have b: "azure_embed_batch grants embeddings_create A texts w =
      map_prod (map_sum azure_map_error id) id (call (attempt_world call k w))"
    unfolding azure_embed_batch_def k(2) [unfolded call_def] call_def ..
  obtain res w' where c: "call (attempt_world call k w) = (res, w')" by fastforce
  show ?thesis
  proof (intro exI [of _ k] conjI)
    show "int k < max 1 (ao_max_attempts A)" using k(1) n by linarith
    show "\<forall>j < k. \<exists>ex. fst (call (attempt_world call j w)) = Inl ex \<and> openai_retryable ex" by (rule k(3))
    show "case call (attempt_world call k w) of
       (Inr vs, w') \<Rightarrow> azure_embed_batch grants embeddings_create A texts w = (Inr vs, w')
     | (Inl (OpenAIException t), w') \<Rightarrow> azure_embed_batch grants embeddings_create A texts w = (Inl (AdapterException t), w')
     | (Inl ex, w') \<Rightarrow> int k = max 1 (ao_max_attempts A) - 1 \<and>
         (\<exists>x. azure_embed_batch grants embeddings_create A texts w = (Inl (AdapterEmbedderError x), w') \<and>
            ee_error_code x \<in> {EMBEDDER_RATE_LIMITED, EMBEDDER_UPSTREAM_ERROR, EMBEDDER_TIMEOUT})"
      unfolding b c using k(4) n c by (auto simp: embedder_exn_def split: sum.split openai_exn.split)
  qed
qed

definition demo_azure :: azure_openai where
  "demo_azure = \<lparr>ao_model = ''text-embedding-3-large'', ao_max_attempts = 5\<rparr>"

text \<open>A service that refuses twice.\<close>

definition demo_create :: "string \<Rightarrow> string list \<Rightarrow> nat \<Rightarrow> (openai_exn, int list list, nat) outcome" where
  "demo_create model texts n =
     (if n < 2 then (Inl (RateLimitError ''429''), Suc n) else (Inr (map (\<lambda>t. [1]) texts), n))"

theorem azure_retries_bounded_witness:
  "(\<exists>k. int k < 5 \<and> (\<forall>j < k. \<exists>ex. fst (azure_call_api demo_create demo_azure [''a'']
       (attempt_world (azure_call_api demo_create demo_azure [''a'']) j 0)) = Inl ex)) \<and>
   fst (azure_embed_batch (\<lambda>m. nat (m - 1)) demo_create demo_azure [''a''] 0) = Inr [[1]]"
proof
  have g: "tenacity_grants (\<lambda>m. nat (m - 1))" by (simp add: tenacity_grants_def)
  have m: "max 1 (ao_max_attempts demo_azure) = 5" by (simp add: demo_azure_def)
  show "\<exists>k. int k < 5 \<and> (\<forall>j < k. \<exists>ex. fst (azure_call_api demo_create demo_azure [''a'']
       (attempt_world (azure_call_api demo_create demo_azure [''a'']) j 0)) = Inl ex)"
    using azure_retries_bounded [OF g, where A = demo_azure and embeddings_create = demo_create and texts = "[''a'']" and w = 0]
    unfolding m by blast
  show "fst (azure_embed_batch (\<lambda>m. nat (m - 1)) demo_create demo_azure [''a''] 0) = Inr [[1]]"
    by (simp add: azure_embed_batch_def azure_call_api_def demo_create_def demo_azure_def numeral_eq_Suc)
qed

end
