(* ===== verification/Retry_Waits.thy ===== *)
theory Retry_Waits
  imports Adapter_Support
begin

text \<open>
  The waits between the attempts of the three Azure adapters (\<open>_RetryAfterAwareWait\<close> and \<open>_parse_retry_after\<close> of
  \<open>src/vestibule/embedder/adapters/azure_openai.py\<close>, \<open>indexer/adapters/azure_ai_search.py\<close> and
  \<open>provisioning/adapters/azure_ai_search.py\<close>): the value of the \<open>Retry-After\<close> header when there is a usable one, the
  back-off of the retry library otherwise. Python's \<open>float\<close>, the back-off and \<open>sleep\<close> are parameters.

  The other theories leave the waits out (\<open>retry_loop\<close>). Here the loop sleeps, and as long as \<open>sleep\<close> accepts the
  delays both loops give the same result.
\<close>

section \<open>The delay before the next attempt\<close>

text \<open>
  What an attempt raised: an exception that carries the headers of a response (\<open>RateLimitError\<close> of one SDK,
  \<open>HttpResponseError\<close> of the other, where the response may be missing), or another one.
\<close>

datatype 'x raised = WithResponse 'x "(string, string) dict option" | WithoutResponse 'x

definition openai_parse_retry_after :: "(string \<Rightarrow> 'f option) \<Rightarrow> (string, string) dict \<Rightarrow> 'f option" where
  "openai_parse_retry_after py_float headers = (case dict_get headers ''retry-after'' of
       None \<Rightarrow> None
     | Some value \<Rightarrow> py_float value)"

definition search_parse_retry_after :: "(string \<Rightarrow> 'f option) \<Rightarrow> (string, string) dict option \<Rightarrow> 'f option" where
  "search_parse_retry_after py_float response = (case response of
       None \<Rightarrow> None
     | Some headers \<Rightarrow> (case dict_get headers ''retry-after'' of
           None \<Rightarrow> None
         | Some value \<Rightarrow> py_float value))"

text \<open>\<open>_RetryAfterAwareWait.__call__\<close>, after attempt number \<open>k\<close>.\<close>

fun openai_wait :: "(string \<Rightarrow> 'f option) \<Rightarrow> (nat \<Rightarrow> 'f) \<Rightarrow> nat \<Rightarrow> 'x raised \<Rightarrow> 'f" where
  "openai_wait py_float fallback k (WithResponse x (Some headers)) = (case openai_parse_retry_after py_float headers of
       Some retry_after \<Rightarrow> retry_after
     | None \<Rightarrow> fallback k)"
| "openai_wait py_float fallback k _ = fallback k"

fun search_wait :: "(string \<Rightarrow> 'f option) \<Rightarrow> (nat \<Rightarrow> 'f) \<Rightarrow> nat \<Rightarrow> 'x raised \<Rightarrow> 'f" where
  "search_wait py_float fallback k (WithResponse x response) = (case search_parse_retry_after py_float response of
       Some retry_after \<Rightarrow> retry_after
     | None \<Rightarrow> fallback k)"
| "search_wait py_float fallback k (WithoutResponse x) = fallback k"

text \<open>The header of the response, if there is one that \<open>float\<close> accepts.\<close>

definition usable_header :: "(string \<Rightarrow> 'f option) \<Rightarrow> 'x raised \<Rightarrow> 'f option" where
  "usable_header py_float e = (case e of
       WithResponse x (Some headers) \<Rightarrow> Option.bind (map_of headers ''retry-after'') py_float
     | _ \<Rightarrow> None)"

lemma waits_agree:
  "openai_wait py_float fallback k e = (case usable_header py_float e of Some d \<Rightarrow> d | None \<Rightarrow> fallback k)"
  "search_wait py_float fallback k e = (case usable_header py_float e of Some d \<Rightarrow> d | None \<Rightarrow> fallback k)"
proof -
  show "openai_wait py_float fallback k e = (case usable_header py_float e of Some d \<Rightarrow> d | None \<Rightarrow> fallback k)"
    by (cases "(py_float, fallback, k, e)" rule: openai_wait.cases)
      (simp_all add: usable_header_def openai_parse_retry_after_def split: option.split)
  show "search_wait py_float fallback k e = (case usable_header py_float e of Some d \<Rightarrow> d | None \<Rightarrow> fallback k)"
    by (cases e) (simp_all add: usable_header_def search_parse_retry_after_def split: option.split)
qed

section \<open>The loop that sleeps\<close>

text \<open>
  \<open>n\<close> more attempts are granted after this one, which has number \<open>k\<close>. \<open>sleep\<close> returns or raises; the delays are
  recorded.
\<close>

primrec waiting_loop ::
    "nat \<Rightarrow> nat \<Rightarrow> ('e \<Rightarrow> bool) \<Rightarrow> (nat \<Rightarrow> 'e \<Rightarrow> 'f) \<Rightarrow> ('f \<Rightarrow> 'y option) \<Rightarrow> ('w \<Rightarrow> ('e + 'a) \<times> 'w) \<Rightarrow> 'w \<Rightarrow>
     (('y + 'e) + 'a) \<times> 'f list \<times> 'w" where
  "waiting_loop 0 k retryable wait sleep f w = (case f w of
       (Inl e, w') \<Rightarrow> (Inl (Inr e), [], w')
     | (Inr v, w') \<Rightarrow> (Inr v, [], w'))"
| "waiting_loop (Suc n) k retryable wait sleep f w = (case f w of
       (Inl e, w') \<Rightarrow>
         if \<not> retryable e then (Inl (Inr e), [], w')
         else (case sleep (wait k e) of
             Some y \<Rightarrow> (Inl (Inl y), [wait k e], w')
           | None \<Rightarrow> (case waiting_loop n (Suc k) retryable wait sleep f w' of
                 (r, delays, w'') \<Rightarrow> (r, wait k e # delays, w'')))
     | (Inr v, w') \<Rightarrow> (Inr v, [], w'))"

text \<open>
  When \<open>sleep\<close> accepts every delay that can come up, the loop gives what the loop without waits gives; it
  sleeps at most as often as attempts are granted, and each time after a retryable exception, for the
  time that the strategy says.
\<close>

lemma waits_invisible:
  assumes "\<And>j e. retryable e \<Longrightarrow> sleep (wait j e) = None" and "waiting_loop n k retryable wait sleep f w = (r, delays, w')"
  shows "map_prod (map_sum Inr id) id (retry_loop n retryable f w) = (r, w') \<and> length delays \<le> n \<and>
    (\<forall>d \<in> set delays. \<exists>j e v v'. k \<le> j \<and> j < k + n \<and> f v = (Inl e, v') \<and> retryable e \<and> d = wait j e)"
  using assms(2)
proof (induction n arbitrary: k w r delays w')
  case 0
  then show ?case by (auto split: prod.splits sum.splits)
next
  case (Suc n)
  obtain x v where f: "f w = (x, v)" by fastforce
  show ?case
  proof (cases "\<exists>e. x = Inl e \<and> retryable e")
    case False
    with Suc.prems f show ?thesis by (cases x) auto
  next
    case True
    then obtain e where e: "x = Inl e" "retryable e" by blast
    obtain r1 ds w1 where rest: "waiting_loop n (Suc k) retryable wait sleep f v = (r1, ds, w1)" by (metis prod_cases3)
    with Suc.prems f e assms(1) [OF e(2)] have out: "r = r1" "delays = wait k e # ds" "w' = w1" by auto
    note ih = Suc.IH [OF rest]
    have "\<exists>j e v v'. k \<le> j \<and> j < k + Suc n \<and> f v = (Inl e, v') \<and> retryable e \<and> d = wait j e" if "d \<in> set delays" for d
    proof (cases "d = wait k e")
      case True
      with f e show ?thesis by (metis add_Suc_right le_refl less_add_Suc1)
    next
      case False
      with that out ih obtain j e' u u' where "Suc k \<le> j" "j < Suc k + n" "f u = (Inl e', u')" "retryable e'" "d = wait j e'" by auto
      then show ?thesis by (metis Suc_leD add_Suc add_Suc_right)
    qed
    with f e ih out show ?thesis by auto
  qed
qed

text \<open>
  Every delay is the header's value or at most the cap of the back-off; the header is not capped. The adapters
  catch the exceptions of the service only: a negative header makes \<open>sleep\<close> raise, and that exception
  ends the call in place of the next attempt.
\<close>

lemma delays_bounded:
  fixes fallback :: "nat \<Rightarrow> 'f::linorder"
  assumes "\<And>j. fallback j \<le> cap"
  shows "search_wait py_float fallback k e \<le> cap \<or> usable_header py_float e = Some (search_wait py_float fallback k e)"
    and "openai_wait py_float fallback k e \<le> cap \<or> usable_header py_float e = Some (openai_wait py_float fallback k e)"
  using assms by (simp_all add: waits_agree split: option.split)

definition demo_sleep :: "int \<Rightarrow> string option" where
  "demo_sleep d = (if d < 0 then Some ''sleep length must be non-negative'' else None)"

lemma negative_retry_after:
  "waiting_loop 4 1 (\<lambda>_. True) (search_wait py_int (\<lambda>_. 2)) demo_sleep
     (\<lambda>w. if w = 0 then (Inl (WithResponse ''429'' (Some [(''retry-after'', ''-1'')])), 1) else (Inr ''ok'', w)) (0 :: int) =
   (Inl (Inl ''sleep length must be non-negative''), [-1], 1)"
  by code_simp

lemma uncapped_retry_after:
  "fst (snd (waiting_loop 4 1 (\<lambda>_. True) (search_wait py_int (\<lambda>_. 2)) demo_sleep
     (\<lambda>w. if w = 0 then (Inl (WithResponse ''429'' (Some [(''retry-after'', ''86400'')])), 1) else (Inr ''ok'', w)) (0 :: int))) = [86400]"
  by code_simp

end
