(* ===== verification/Index_Store.thy ===== *)
theory Index_Store
  imports Vectors Chunker
begin

text \<open>
  The vector store as the indexer sees it: the records and exceptions of \<open>src/vestibule/indexer/model.py\<close>, the
  port of \<open>adapters/base.py\<close> and the in-process store of \<open>adapters/in_memory.py\<close> with its cosine search. The
  locale \<open>chunk_index\<close> is the contract of the port on an abstract view of the contents (a map from chunk
  identifiers to records); the in-memory store is an interpretation of it. A Python set of chunk
  identifiers is a list without repetitions; which element \<open>next(iter(s))\<close> gives is not specified by
  the language, so it is chosen by the parameter \<open>pick\<close>.
\<close>

section \<open>Data\<close>

abbreviation INDEXER_EMPTY_RECORDS :: string where "INDEXER_EMPTY_RECORDS \<equiv> ''INDEXER_EMPTY_RECORDS''"
abbreviation INDEXER_DIMENSION_MISMATCH :: string where "INDEXER_DIMENSION_MISMATCH \<equiv> ''INDEXER_DIMENSION_MISMATCH''"
abbreviation INDEXER_MIXED_MODEL_BATCH :: string where "INDEXER_MIXED_MODEL_BATCH \<equiv> ''INDEXER_MIXED_MODEL_BATCH''"
abbreviation INDEXER_SCHEMA_CONFLICT :: string where "INDEXER_SCHEMA_CONFLICT \<equiv> ''INDEXER_SCHEMA_CONFLICT''"
abbreviation INDEXER_RECORD_TOO_LARGE :: string where "INDEXER_RECORD_TOO_LARGE \<equiv> ''INDEXER_RECORD_TOO_LARGE''"
abbreviation INDEXER_RATE_LIMITED :: string where "INDEXER_RATE_LIMITED \<equiv> ''INDEXER_RATE_LIMITED''"
abbreviation INDEXER_UPSTREAM_ERROR :: string where "INDEXER_UPSTREAM_ERROR \<equiv> ''INDEXER_UPSTREAM_ERROR''"
abbreviation INDEXER_TIMEOUT :: string where "INDEXER_TIMEOUT \<equiv> ''INDEXER_TIMEOUT''"
abbreviation INDEXER_PARTIAL_BATCH_FAILURE :: string where "INDEXER_PARTIAL_BATCH_FAILURE \<equiv> ''INDEXER_PARTIAL_BATCH_FAILURE''"
abbreviation INDEXER_INTERNAL :: string where "INDEXER_INTERNAL \<equiv> ''INDEXER_INTERNAL''"
abbreviation INDEXER_DEPENDENCY_MISSING :: string where "INDEXER_DEPENDENCY_MISSING \<equiv> ''INDEXER_DEPENDENCY_MISSING''"

record 'f index_record =
  ir_chunk_id :: string
  ir_doc_id :: string
  ir_doc_version :: string
  ir_vector :: "'f list"
  ir_text :: string
  ir_position :: int
  ir_section_path :: "string option"
  ir_element_types :: "string list"
  ir_strategy :: string
  ir_allowed_groups :: "string list"
  ir_trust_tier :: string
  ir_embedding_model :: string
  ir_embedding_dimensions :: int
  ir_config_version :: string
  ir_indexed_at :: datetime

record index_result =
  ix_doc_id :: string
  ix_chunks_upserted :: int
  ix_chunks_deleted :: int
  ix_index_name :: string
  ix_embedding_model :: string
  ix_embedding_dimensions :: int

record indexer_error =
  ie_doc_id :: string
  ie_reason :: string
  ie_error_code :: string

definition indexer_exn :: "string \<Rightarrow> string \<Rightarrow> string \<Rightarrow> indexer_error" where
  "indexer_exn doc_id reason code = \<lparr>ie_doc_id = doc_id, ie_reason = reason, ie_error_code = code\<rparr>"

definition indexer_error_str :: "indexer_error \<Rightarrow> string" where
  "indexer_error_str e = ie_doc_id e @ '': '' @ ie_reason e"

text \<open>What a store can raise.\<close>

datatype store_exn = StoreIndexerError indexer_error | StoreException string

record upsert_outcome =
  uo_succeeded :: "string list"
  uo_failed :: "(string \<times> string) list"

record ('f, 'w) index_port =
  xp_index_name :: string
  xp_max_batch_size :: int
  xp_supports_hybrid :: bool
  xp_upsert :: "'f index_record list \<Rightarrow> 'w \<Rightarrow> (store_exn, upsert_outcome, 'w) outcome"
  xp_delete_by_doc_id :: "string \<Rightarrow> 'w \<Rightarrow> (store_exn, int, 'w) outcome"
  xp_count_by_doc_id :: "string \<Rightarrow> 'w \<Rightarrow> (store_exn, int, 'w) outcome"
  xp_get_doc_version :: "string \<Rightarrow> 'w \<Rightarrow> (store_exn, string option, 'w) outcome"
  xp_ensure_schema :: "int \<Rightarrow> string \<Rightarrow> 'w \<Rightarrow> (store_exn, unit, 'w) outcome"

section \<open>InMemoryIndexer\<close>

record 'f memory_index =
  mi_index_name :: string
  mi_records :: "(string, 'f index_record) dict"
  mi_by_doc :: "(string, string list) dict"
  mi_schema :: "(int \<times> string) option"

definition memory_init :: "string \<Rightarrow> 'f memory_index" where
  "memory_init index_name = \<lparr>mi_index_name = index_name, mi_records = [], mi_by_doc = [], mi_schema = None\<rparr>"

definition memory_ensure_schema :: "int \<Rightarrow> string \<Rightarrow> 'f memory_index \<Rightarrow> (store_exn, unit, 'f memory_index) outcome" where
  "memory_ensure_schema dimensions metric M =
     (case mi_schema M of
        None \<Rightarrow> (Inr (), M\<lparr>mi_schema := Some (dimensions, metric)\<rparr>)
      | Some (d, m) \<Rightarrow>
          if (d, m) \<noteq> (dimensions, metric)
          then (Inl (StoreIndexerError (indexer_exn []
            (''index '' @ py_repr (mi_index_name M) @ '' already has schema dimensions='' @ str_int d @ '' metric='' @
             py_repr m @ ''; requested dimensions='' @ str_int dimensions @ '' metric='' @ py_repr metric)
            INDEXER_SCHEMA_CONFLICT)), M)
          else (Inr (), M))"

definition set_add :: "'a \<Rightarrow> 'a list \<Rightarrow> 'a list" where
  "set_add x s = (if x \<in> set s then s else s @ [x])"

text \<open>\<open>self._by_doc.get(doc_id, set())\<close>\<close>

definition doc_ids :: "'f memory_index \<Rightarrow> string \<Rightarrow> string list" where
  "doc_ids M doc_id = (case dict_get (mi_by_doc M) doc_id of None \<Rightarrow> [] | Some s \<Rightarrow> s)"

definition memory_put :: "'f index_record \<Rightarrow> 'f memory_index \<Rightarrow> 'f memory_index" where
  "memory_put record M = M\<lparr>mi_records := dict_set (ir_chunk_id record) record (mi_records M),
     mi_by_doc := dict_set (ir_doc_id record)
       (set_add (ir_chunk_id record) (doc_ids M (ir_doc_id record))) (mi_by_doc M)\<rparr>"

definition memory_upsert :: "'f index_record list \<Rightarrow> 'f memory_index \<Rightarrow> (store_exn, upsert_outcome, 'f memory_index) outcome" where
  "memory_upsert records M =
     (Inr \<lparr>uo_succeeded = map ir_chunk_id records, uo_failed = []\<rparr>, fold memory_put records M)"

definition memory_delete_by_doc_id :: "string \<Rightarrow> 'f memory_index \<Rightarrow> (store_exn, int, 'f memory_index) outcome" where
  "memory_delete_by_doc_id doc_id M =
     (let chunk_ids = doc_ids M doc_id
      in (Inr (int (length chunk_ids)),
          M\<lparr>mi_by_doc := dict_pop doc_id (mi_by_doc M), mi_records := fold dict_pop chunk_ids (mi_records M)\<rparr>))"

definition memory_count_by_doc_id :: "string \<Rightarrow> 'f memory_index \<Rightarrow> (store_exn, int, 'f memory_index) outcome" where
  "memory_count_by_doc_id doc_id M =
     (Inr (int (length (doc_ids M doc_id))), M)"

definition memory_get_doc_version ::
    "(py_error \<Rightarrow> string) \<Rightarrow> (string list \<Rightarrow> nat) \<Rightarrow> string \<Rightarrow> 'f memory_index \<Rightarrow> (store_exn, string option, 'f memory_index) outcome" where
  "memory_get_doc_version exc_text pick doc_id M =
     (case dict_get (mi_by_doc M) doc_id of
        None \<Rightarrow> (Inr None, M)
      | Some chunk_ids \<Rightarrow>
          if chunk_ids = [] then (Inr None, M)
          else let any_chunk_id = chunk_ids ! (pick chunk_ids mod length chunk_ids) in
            (case dict_get (mi_records M) any_chunk_id of
               None \<Rightarrow> (Inl (StoreException (exc_text (KeyError any_chunk_id))), M)
             | Some record \<Rightarrow> (Inr (Some (ir_doc_version record)), M)))"

definition memory_port ::
    "(py_error \<Rightarrow> string) \<Rightarrow> (string list \<Rightarrow> nat) \<Rightarrow> string \<Rightarrow> ('f, 'f memory_index) index_port" where
  "memory_port exc_text pick index_name =
     \<lparr>xp_index_name = index_name, xp_max_batch_size = 1000, xp_supports_hybrid = False, xp_upsert = memory_upsert,
      xp_delete_by_doc_id = memory_delete_by_doc_id, xp_count_by_doc_id = memory_count_by_doc_id,
      xp_get_doc_version = memory_get_doc_version exc_text pick, xp_ensure_schema = memory_ensure_schema\<rparr>"

section \<open>Search\<close>

text \<open>The value of a record's field, or of a filter, which is compared with a field of its own type.\<close>

datatype 'f attr = ANone | AStr string | AInt int | AFloat 'f | ATime datetime | AStrs "string list" | AFloats "'f list"

fun record_attr :: "string \<Rightarrow> 'f index_record \<Rightarrow> 'f attr" where
  "record_attr field r =
     (if field = ''chunk_id'' then AStr (ir_chunk_id r) else if field = ''doc_id'' then AStr (ir_doc_id r)
      else if field = ''doc_version'' then AStr (ir_doc_version r) else if field = ''vector'' then AFloats (ir_vector r)
      else if field = ''text'' then AStr (ir_text r) else if field = ''position'' then AInt (ir_position r)
      else if field = ''section_path'' then (case ir_section_path r of None \<Rightarrow> ANone | Some s \<Rightarrow> AStr s)
      else if field = ''element_types'' then AStrs (ir_element_types r) else if field = ''strategy'' then AStr (ir_strategy r)
      else if field = ''allowed_groups'' then AStrs (ir_allowed_groups r) else if field = ''trust_tier'' then AStr (ir_trust_tier r)
      else if field = ''embedding_model'' then AStr (ir_embedding_model r)
      else if field = ''embedding_dimensions'' then AInt (ir_embedding_dimensions r)
      else if field = ''config_version'' then AStr (ir_config_version r)
      else if field = ''indexed_at'' then ATime (ir_indexed_at r) else ANone)"

declare record_attr.simps [simp del]

definition matches_filter :: "'f index_record \<Rightarrow> string \<times> 'f attr \<Rightarrow> bool" where
  "matches_filter record = (\<lambda>(field, v). case record_attr field record of
       AStrs xs \<Rightarrow> (case v of AStr s \<Rightarrow> s \<in> set xs | _ \<Rightarrow> False)
     | AFloats xs \<Rightarrow> (case v of AFloat f \<Rightarrow> f \<in> set xs | _ \<Rightarrow> False)
     | a \<Rightarrow> a = v)"

definition matches_filters :: "'f index_record \<Rightarrow> (string, 'f attr) dict \<Rightarrow> bool" where
  "matches_filters record filters \<longleftrightarrow> list_all (matches_filter record) filters"

definition cosine_similarity :: "'f float_ops \<Rightarrow> 'f list \<Rightarrow> 'f list \<Rightarrow> py_error + 'f" where
  "cosine_similarity F a b = bind_res (zip_strict a b) (\<lambda>pairs.
     let d = fl_sum F (map (\<lambda>(x, y). fl_mul F x y) pairs);
         norm_a = fl_sqrt F (fl_sum F (map (\<lambda>x. fl_mul F x x) a));
         norm_b = fl_sqrt F (fl_sum F (map (\<lambda>y. fl_mul F y y) b))
     in Inr (if norm_a = fl_zero F \<or> norm_b = fl_zero F then fl_zero F else fl_div F d (fl_mul F norm_a norm_b)))"

definition memory_search ::
    "'f::linorder float_ops \<Rightarrow> 'f list \<Rightarrow> int \<Rightarrow> (string, 'f attr) dict option \<Rightarrow> 'f memory_index \<Rightarrow>
     py_error + ('f index_record \<times> 'f) list" where
  "memory_search F query top_k filters M =
     (let candidates = dict_values (mi_records M);
          kept = (case filters of
             Some fs \<Rightarrow> if fs \<noteq> [] then filter (\<lambda>c. matches_filters c fs) candidates else candidates
           | None \<Rightarrow> candidates)
      in bind_res (map_res (\<lambda>c. map_sum id (\<lambda>s. (c, s)) (cosine_similarity F query (ir_vector c))) kept)
           (\<lambda>scored. Inr (slice_upto top_k (rev (sort_key snd (rev scored))))))"

section \<open>The contract of the port\<close>

definition doc_chunks :: "(string \<rightharpoonup> 'f index_record) \<Rightarrow> string \<Rightarrow> string set" where
  "doc_chunks m d = {c. \<exists>r. m c = Some r \<and> ir_doc_id r = d}"

definition put_all :: "'f index_record list \<Rightarrow> (string \<rightharpoonup> 'f index_record) \<Rightarrow> (string \<rightharpoonup> 'f index_record)" where
  "put_all rs m = fold (\<lambda>r m. m(ir_chunk_id r \<mapsto> r)) rs m"

definition drop_doc :: "string \<Rightarrow> (string \<rightharpoonup> 'f index_record) \<Rightarrow> (string \<rightharpoonup> 'f index_record)" where
  "drop_doc d m = (\<lambda>c. case m c of None \<Rightarrow> None | Some r \<Rightarrow> if ir_doc_id r = d then None else Some r)"

text \<open>The chunk identifiers of these records belong to no other document.\<close>

definition ids_free :: "string \<Rightarrow> 'f index_record list \<Rightarrow> (string \<rightharpoonup> 'f index_record) \<Rightarrow> bool" where
  "ids_free d rs m \<longleftrightarrow> (\<forall>r \<in> set rs. ir_doc_id r = d \<and> (\<forall>s. m (ir_chunk_id r) = Some s \<longrightarrow> ir_doc_id s = d))"

lemma put_all_simps [simp]: "put_all [] m = m" "put_all (r # rs) m = put_all rs (m(ir_chunk_id r \<mapsto> r))"
  by (simp_all add: put_all_def)

lemma put_all_append: "put_all (xs @ ys) m = put_all ys (put_all xs m)"
  by (simp add: put_all_def)

lemma put_all_other: "c \<notin> ir_chunk_id ` set rs \<Longrightarrow> put_all rs m c = m c"
  by (induction rs arbitrary: m) auto

lemma put_all_mem: "c \<in> ir_chunk_id ` set rs \<Longrightarrow> \<exists>r \<in> set rs. put_all rs m c = Some r \<and> ir_chunk_id r = c"
proof (induction rs arbitrary: m)
  case (Cons r rs)
  show ?case
  proof (cases "c \<in> ir_chunk_id ` set rs")
    case True
    with Cons.IH show ?thesis by fastforce
  next
    case False
    with Cons.prems put_all_other [OF False] show ?thesis by auto
  qed
qed simp

lemma put_all_distinct:
  "distinct (map ir_chunk_id rs) \<Longrightarrow> r \<in> set rs \<Longrightarrow> put_all rs m (ir_chunk_id r) = Some r"
proof (induction rs arbitrary: m)
  case (Cons a rs)
  then show ?case by (cases "r = a") (auto simp: put_all_other)
qed simp

lemma ids_free_put_all: "ids_free d (xs @ ys) m \<Longrightarrow> ids_free d ys (put_all xs m)"
  unfolding ids_free_def
proof (intro ballI conjI allI impI)
  fix r s
  assume h: "\<forall>r \<in> set (xs @ ys). ir_doc_id r = d \<and> (\<forall>s. m (ir_chunk_id r) = Some s \<longrightarrow> ir_doc_id s = d)"
    and r: "r \<in> set ys" and s: "put_all xs m (ir_chunk_id r) = Some s"
  show "ir_doc_id s = d"
  proof (cases "ir_chunk_id r \<in> ir_chunk_id ` set xs")
    case True
    with put_all_mem [of "ir_chunk_id r" xs m] s h show ?thesis by auto
  next
    case False
    then have "m (ir_chunk_id r) = Some s" using put_all_other [of "ir_chunk_id r" xs m] s by simp
    then show ?thesis using bspec [OF h, of r] r by simp
  qed
qed simp

lemma ids_free_append: "ids_free d (xs @ ys) m \<longleftrightarrow> ids_free d xs m \<and> ids_free d ys m"
  unfolding ids_free_def set_append by blast

lemma ids_free_drop_doc: "\<forall>r \<in> set rs. ir_doc_id r = d \<Longrightarrow> ids_free d rs m \<Longrightarrow> ids_free d rs (drop_doc e m)"
  by (auto simp: ids_free_def drop_doc_def split: option.splits if_splits)

lemma doc_chunks_put_all:
  assumes "ids_free d rs m"
  shows "doc_chunks (put_all rs m) d = doc_chunks m d \<union> ir_chunk_id ` set rs"
    and "d' \<noteq> d \<Longrightarrow> doc_chunks (put_all rs m) d' = doc_chunks m d'"
proof -
  have in': "\<exists>r \<in> set rs. put_all rs m c = Some r \<and> ir_doc_id r = d" if "c \<in> ir_chunk_id ` set rs" for c
    using put_all_mem [OF that, of m] assms by (auto simp: ids_free_def)
  have old: "ir_doc_id s = d" if "c \<in> ir_chunk_id ` set rs" "m c = Some s" for c s
    using that assms by (auto simp: ids_free_def)
  show "doc_chunks (put_all rs m) d = doc_chunks m d \<union> ir_chunk_id ` set rs"
  proof (rule set_eqI)
    fix c
    show "c \<in> doc_chunks (put_all rs m) d \<longleftrightarrow> c \<in> doc_chunks m d \<union> ir_chunk_id ` set rs"
      using in' [of c] put_all_other [of c rs m] by (cases "c \<in> ir_chunk_id ` set rs") (auto simp: doc_chunks_def)
  qed
  show "doc_chunks (put_all rs m) d' = doc_chunks m d'" if "d' \<noteq> d"
  proof (rule set_eqI)
    fix c
    show "c \<in> doc_chunks (put_all rs m) d' \<longleftrightarrow> c \<in> doc_chunks m d'"
      using in' [of c] old [of c] put_all_other [of c rs m] that by (cases "c \<in> ir_chunk_id ` set rs") (auto simp: doc_chunks_def)
  qed
qed

lemma doc_chunks_drop_doc: "doc_chunks (drop_doc d m) d' = (if d' = d then {} else doc_chunks m d')"
  by (auto simp: doc_chunks_def drop_doc_def split: option.splits if_splits)

locale chunk_index =
  fixes invar :: "'w \<Rightarrow> bool"
    and contents :: "'w \<Rightarrow> (string \<rightharpoonup> 'f index_record)"
    and port :: "('f, 'w) index_port"
    and fits :: "'f index_record \<Rightarrow> bool"
  assumes upsert_stores: "invar w \<Longrightarrow> ids_free d rs (contents w) \<Longrightarrow> \<forall>r \<in> set rs. fits r \<Longrightarrow>
      \<exists>w'. xp_upsert port rs w = (Inr \<lparr>uo_succeeded = map ir_chunk_id rs, uo_failed = []\<rparr>, w') \<and> invar w' \<and>
           contents w' = put_all rs (contents w)"
    and delete_drops: "invar w \<Longrightarrow>
      \<exists>w'. xp_delete_by_doc_id port d w = (Inr (int (card (doc_chunks (contents w) d))), w') \<and> invar w' \<and>
           contents w' = drop_doc d (contents w)"
    and count_counts: "invar w \<Longrightarrow> xp_count_by_doc_id port d w = (Inr (int (card (doc_chunks (contents w) d))), w)"
    and version_none: "invar w \<Longrightarrow> doc_chunks (contents w) d = {} \<Longrightarrow> xp_get_doc_version port d w = (Inr None, w)"
    and version_some: "invar w \<Longrightarrow> doc_chunks (contents w) d \<noteq> {} \<Longrightarrow>
      \<exists>c r. contents w c = Some r \<and> ir_doc_id r = d \<and> xp_get_doc_version port d w = (Inr (Some (ir_doc_version r)), w)"
    and batch_positive: "0 < xp_max_batch_size port"

section \<open>The in-memory store keeps the contract\<close>

definition memory_contents :: "'f memory_index \<Rightarrow> (string \<rightharpoonup> 'f index_record)" where
  "memory_contents M = map_of (mi_records M)"

definition memory_ok :: "'f memory_index \<Rightarrow> bool" where
  "memory_ok M \<longleftrightarrow> dict_ok (mi_records M) \<and> dict_ok (mi_by_doc M) \<and>
     (\<forall>c r. memory_contents M c = Some r \<longrightarrow> ir_chunk_id r = c) \<and>
     (\<forall>d. distinct (doc_ids M d) \<and> set (doc_ids M d) = doc_chunks (memory_contents M) d)"

lemma memory_okD:
  assumes "memory_ok M"
  shows "dict_ok (mi_records M)" and "dict_ok (mi_by_doc M)"
    and "memory_contents M c = Some r \<Longrightarrow> ir_chunk_id r = c"
    and "distinct (doc_ids M d)" and "set (doc_ids M d) = doc_chunks (memory_contents M) d"
  using assms by (simp_all add: memory_ok_def)

lemma memory_ok_init: "memory_ok (memory_init n)"
  by (simp add: memory_ok_def memory_init_def memory_contents_def doc_ids_def doc_chunks_def)

lemma set_add_simps [simp]: "set (set_add x s) = insert x (set s)" "distinct (set_add x s) \<longleftrightarrow> distinct s"
  by (auto simp: set_add_def)

lemma memory_put_view:
  "memory_contents (memory_put r M) = (memory_contents M)(ir_chunk_id r \<mapsto> r)"
  "doc_ids (memory_put r M) d = (if d = ir_doc_id r then set_add (ir_chunk_id r) (doc_ids M d) else doc_ids M d)"
  by (simp_all add: memory_put_def memory_contents_def doc_ids_def)

lemma memory_ok_put:
  assumes "memory_ok M" and "\<forall>s. memory_contents M (ir_chunk_id r) = Some s \<longrightarrow> ir_doc_id s = ir_doc_id r"
  shows "memory_ok (memory_put r M)"
proof -
  have free: "ids_free (ir_doc_id r) [r] (memory_contents M)" using assms(2) by (simp add: ids_free_def)
  have "set (doc_ids (memory_put r M) d) = doc_chunks (memory_contents (memory_put r M)) d" for d
    using memory_okD(5) [OF assms(1), of d] doc_chunks_put_all(1) [OF free] doc_chunks_put_all(2) [OF free, of d]
    by (cases "d = ir_doc_id r") (simp_all add: memory_put_view)
  moreover have "distinct (doc_ids (memory_put r M) d)" for d
    using memory_okD(4) [OF assms(1), of d] by (cases "d = ir_doc_id r") (simp_all add: memory_put_view)
  moreover have "ir_chunk_id s = c" if "memory_contents (memory_put r M) c = Some s" for c s
    using memory_okD(3) [OF assms(1), of c s] that by (auto simp: memory_put_view split: if_splits)
  moreover have "dict_ok (mi_records (memory_put r M))" "dict_ok (mi_by_doc (memory_put r M))"
    using memory_okD(1,2) [OF assms(1)] by (simp_all add: memory_put_def)
  ultimately show ?thesis unfolding memory_ok_def by blast
qed

lemma memory_fold_put:
  "memory_ok M \<Longrightarrow> ids_free d rs (memory_contents M) \<Longrightarrow>
   memory_ok (fold memory_put rs M) \<and> memory_contents (fold memory_put rs M) = put_all rs (memory_contents M)"
proof (induction rs arbitrary: M)
  case (Cons r rs)
  have "memory_ok (memory_put r M)" using Cons.prems by (intro memory_ok_put) (auto simp: ids_free_def)
  moreover have "ids_free d rs (memory_contents (memory_put r M))"
    using ids_free_put_all [of d "[r]" rs "memory_contents M"] Cons.prems by (simp add: memory_put_view)
  ultimately show ?case using Cons.IH [of "memory_put r M"] by (simp only: fold_Cons comp_apply put_all_simps memory_put_view(1))
qed simp

lemma map_of_fold_dict_pop: "map_of (fold dict_pop ks d) = (\<lambda>k. if k \<in> set ks then None else map_of d k)"
  by (induction ks arbitrary: d) (auto simp: fun_eq_iff)

lemma dict_ok_fold_dict_pop: "dict_ok d \<Longrightarrow> dict_ok (fold dict_pop ks d)"
  by (induction ks arbitrary: d) simp_all

lemma memory_delete_view:
  assumes "memory_ok M" and "memory_delete_by_doc_id d M = (res, M')"
  shows "res = Inr (int (card (doc_chunks (memory_contents M) d)))" and "memory_contents M' = drop_doc d (memory_contents M)"
    and "memory_ok M'"
proof -
  have ids: "distinct (doc_ids M d)" "set (doc_ids M d) = doc_chunks (memory_contents M) d"
    using assms(1) by (simp_all add: memory_ok_def)
  show "res = Inr (int (card (doc_chunks (memory_contents M) d)))"
    using assms(2) ids by (auto simp: memory_delete_by_doc_id_def Let_def distinct_card [symmetric])
  have M': "M' = M\<lparr>mi_by_doc := dict_pop d (mi_by_doc M), mi_records := fold dict_pop (doc_ids M d) (mi_records M)\<rparr>"
    using assms(2) by (simp add: memory_delete_by_doc_id_def Let_def)
  show c: "memory_contents M' = drop_doc d (memory_contents M)"
    using ids(2) by (auto simp: M' memory_contents_def map_of_fold_dict_pop drop_doc_def doc_chunks_def fun_eq_iff split: option.splits)
  have e: "doc_ids M' e = (if e = d then [] else doc_ids M e)" for e by (simp add: M' doc_ids_def)
  have "distinct (doc_ids M' e)" "set (doc_ids M' e) = doc_chunks (memory_contents M') e" for e
    using memory_okD(4,5) [OF assms(1), of e] by (simp_all add: e c doc_chunks_drop_doc)
  moreover have "ir_chunk_id r = k" if "memory_contents M' k = Some r" for k r
    using memory_okD(3) [OF assms(1), of k r] that by (simp add: c drop_doc_def split: option.splits if_splits)
  moreover have "dict_ok (mi_records M')" "dict_ok (mi_by_doc M')"
    using memory_okD(1,2) [OF assms(1)] by (simp_all add: M' dict_ok_fold_dict_pop)
  ultimately show "memory_ok M'" unfolding memory_ok_def by blast
qed

lemma memory_version_view:
  assumes "memory_ok M"
  shows "doc_chunks (memory_contents M) d = {} \<Longrightarrow> memory_get_doc_version x pick d M = (Inr None, M)"
    and "doc_chunks (memory_contents M) d \<noteq> {} \<Longrightarrow> \<exists>c r. memory_contents M c = Some r \<and> ir_doc_id r = d \<and>
       memory_get_doc_version x pick d M = (Inr (Some (ir_doc_version r)), M)"
proof -
  have ids: "set (doc_ids M d) = doc_chunks (memory_contents M) d" using assms by (simp add: memory_ok_def)
  show "memory_get_doc_version x pick d M = (Inr None, M)" if "doc_chunks (memory_contents M) d = {}"
    using that ids by (auto simp: memory_get_doc_version_def doc_ids_def split: option.splits)
  assume "doc_chunks (memory_contents M) d \<noteq> {}"
  then have ne: "doc_ids M d \<noteq> []" using ids by auto
  let ?c = "doc_ids M d ! (pick (doc_ids M d) mod length (doc_ids M d))"
  have "?c \<in> doc_chunks (memory_contents M) d" using ne ids nth_mem [of "pick (doc_ids M d) mod length (doc_ids M d)" "doc_ids M d"] by simp
  then obtain r where "memory_contents M ?c = Some r" "ir_doc_id r = d" by (auto simp: doc_chunks_def)
  moreover have "dict_get (mi_by_doc M) d = Some (doc_ids M d)" using ne by (simp add: doc_ids_def split: option.splits)
  ultimately show "\<exists>c r. memory_contents M c = Some r \<and> ir_doc_id r = d \<and>
       memory_get_doc_version x pick d M = (Inr (Some (ir_doc_version r)), M)"
    using ne by (intro exI [of _ ?c] exI [of _ r]) (simp add: memory_get_doc_version_def Let_def memory_contents_def)
qed

interpretation memory: chunk_index memory_ok memory_contents "memory_port exc_text pick index_name" "\<lambda>_. True"
proof unfold_locales
  fix w :: "'f memory_index" and d and rs :: "'f index_record list"
  assume ok: "memory_ok w"
  show "\<exists>w'. xp_upsert (memory_port exc_text pick index_name) rs w = (Inr \<lparr>uo_succeeded = map ir_chunk_id rs, uo_failed = []\<rparr>, w') \<and>
      memory_ok w' \<and> memory_contents w' = put_all rs (memory_contents w)" if "ids_free d rs (memory_contents w)"
    using memory_fold_put [OF ok that] by (simp add: memory_port_def memory_upsert_def)
  show "\<exists>w'. xp_delete_by_doc_id (memory_port exc_text pick index_name) d w =
        (Inr (int (card (doc_chunks (memory_contents w) d))), w') \<and> memory_ok w' \<and> memory_contents w' = drop_doc d (memory_contents w)"
    using memory_delete_view [OF ok, of d] by (cases "memory_delete_by_doc_id d w") (simp add: memory_port_def)
  show "xp_count_by_doc_id (memory_port exc_text pick index_name) d w = (Inr (int (card (doc_chunks (memory_contents w) d))), w)"
    using ok by (simp add: memory_port_def memory_count_by_doc_id_def memory_ok_def distinct_card [symmetric])
  show "xp_get_doc_version (memory_port exc_text pick index_name) d w = (Inr None, w)" if "doc_chunks (memory_contents w) d = {}"
    using memory_version_view(1) [OF ok that] by (simp add: memory_port_def)
  show "\<exists>c r. memory_contents w c = Some r \<and> ir_doc_id r = d \<and>
      xp_get_doc_version (memory_port exc_text pick index_name) d w = (Inr (Some (ir_doc_version r)), w)"
    if "doc_chunks (memory_contents w) d \<noteq> {}"
    using memory_version_view(2) [OF ok that] by (simp add: memory_port_def)
qed (simp add: memory_port_def)

end
