(* ===== verification/Indexer.thy ===== *)
theory Indexer
  imports Index_Store Embedder "HOL-Library.Multiset"
begin

text \<open>
  The indexer, \<open>src/vestibule/indexer/indexer.py\<close>: validation of the batch, assembly of the index records,
  removal of a stale version, batched upserts with one retry of the failed records, and the ledger
  writes of the indexing stage. The store behind the port runs in a world \<open>'w\<close>; \<open>exc_text\<close> is \<open>str\<close> of an
  exception the interpreter raises. The retry tunables of the configuration are documentation only
  (no code reads them) and are left out, as is the logging.
\<close>

section \<open>Configuration\<close>

record indexer_config =
  xc_dimensions :: int
  xc_metric :: string
  xc_batch_size :: "int option"
  xc_delete_before_upsert_on_version_change :: bool

definition default_indexer_config :: indexer_config where
  "default_indexer_config = \<lparr>xc_dimensions = 1024, xc_metric = ''cosine'', xc_batch_size = None,
     xc_delete_before_upsert_on_version_change = True\<rparr>"

definition permanent_upsert_codes :: "string set" where
  "permanent_upsert_codes = {INDEXER_SCHEMA_CONFLICT, INDEXER_RECORD_TOO_LARGE}"

definition transient_upsert_codes :: "string set" where
  "transient_upsert_codes =
     {INDEXER_RATE_LIMITED, INDEXER_UPSTREAM_ERROR, INDEXER_TIMEOUT, INDEXER_PARTIAL_BATCH_FAILURE}"

text \<open>What \<open>index\<close> can raise; the last one is the model validation of \<open>IndexRecord\<close>.\<close>

datatype index_exn = IndexerError indexer_error | XLedgerError ledger_exn | IndexRecordInvalid

section \<open>Records\<close>

fun trust_tier_value :: "trust_tier \<Rightarrow> string" where
  "trust_tier_value PUBLIC = ''public''"
| "trust_tier_value INTERNAL = ''internal''"
| "trust_tier_value CONFIDENTIAL = ''confidential''"
| "trust_tier_value RESTRICTED = ''restricted''"

fun element_type_value :: "element_type \<Rightarrow> string" where
  "element_type_value HEADING = ''heading''"
| "element_type_value PARAGRAPH = ''paragraph''"
| "element_type_value TABLE = ''table''"
| "element_type_value LIST = ''list''"
| "element_type_value IMAGE_CAPTION = ''image_caption''"
| "element_type_value CODE = ''code''"

text \<open>\<open>repr\<close> of a list, and \<open>str\<close> of a metadata value (a table cell is a dictionary of three entries).\<close>

definition repr_list :: "string list \<Rightarrow> string" where
  "repr_list items = ''['' @ str_join '', '' items @ '']''"

definition repr_cell :: "table_cell \<Rightarrow> string" where
  "repr_cell c = ''{'' @ py_repr ''row_index'' @ '': '' @ str_int (tc_row_index c) @ '', '' @ py_repr ''column_index'' @ '': '' @
     str_int (tc_column_index c) @ '', '' @ py_repr ''content'' @ '': '' @
     (case tc_content c of None \<Rightarrow> ''None'' | Some s \<Rightarrow> py_repr s) @ ''}''"

fun str_meta :: "meta \<Rightarrow> string" where
  "str_meta MNone = ''None''"
| "str_meta (MBool b) = (if b then ''True'' else ''False'')"
| "str_meta (MInt i) = str_int i"
| "str_meta (MStr s) = s"
| "str_meta (MInts is) = repr_list (map str_int is)"
| "str_meta (MCells cs) = repr_list (map repr_cell cs)"

definition config_version_for :: "string \<Rightarrow> ledger_store \<Rightarrow> string" where
  "config_version_for doc_id L = (case ledger_get L doc_id of None \<Rightarrow> ''unknown'' | Some row \<Rightarrow> lr_config_version row)"

definition section_path_of :: "metadata \<Rightarrow> index_exn + string option" where
  "section_path_of metadata = (case dict_get metadata ''section_path'' of
       None \<Rightarrow> Inr None
     | Some MNone \<Rightarrow> Inr None
     | Some (MStr s) \<Rightarrow> Inr (Some s)
     | Some _ \<Rightarrow> Inl IndexRecordInvalid)"

definition build_record ::
    "string \<Rightarrow> string \<Rightarrow> datetime \<Rightarrow> arrival_envelope \<Rightarrow> 'f embedded_chunk \<Rightarrow> index_exn + 'f index_record" where
  "build_record config_version doc_id indexed_at envelope ec =
     bind_res (section_path_of (ch_metadata (em_chunk ec))) (\<lambda>path.
       Inr \<lparr>ir_chunk_id = ch_chunk_id (em_chunk ec), ir_doc_id = doc_id, ir_doc_version = ae_content_hash envelope,
         ir_vector = em_vector ec, ir_text = ch_text (em_chunk ec), ir_position = ch_position (em_chunk ec),
         ir_section_path = path, ir_element_types = map element_type_value (ch_element_types (em_chunk ec)),
         ir_strategy = (case dict_get (ch_metadata (em_chunk ec)) ''strategy'' of None \<Rightarrow> [] | Some v \<Rightarrow> str_meta v),
         ir_allowed_groups = ae_allowed_groups envelope, ir_trust_tier = trust_tier_value (ae_trust_tier envelope),
         ir_embedding_model = em_embedding_model ec, ir_embedding_dimensions = em_embedding_dimensions ec,
         ir_config_version = config_version, ir_indexed_at = indexed_at\<rparr>)"

definition build_records ::
    "datetime \<Rightarrow> string \<Rightarrow> arrival_envelope \<Rightarrow> 'f embedded_chunk list \<Rightarrow> ledger_store \<Rightarrow> index_exn + 'f index_record list" where
  "build_records now doc_id envelope ecs L =
     map_res (build_record (config_version_for doc_id L) doc_id now envelope) ecs"

section \<open>Deleting and upserting\<close>

definition maybe_delete_stale_version ::
    "indexer_config \<Rightarrow> ('f, 'w) index_port \<Rightarrow> string \<Rightarrow> string \<Rightarrow> 'w \<Rightarrow> (store_exn, int, 'w) outcome" where
  "maybe_delete_stale_version config adapter doc_id new_version w =
     (if \<not> xc_delete_before_upsert_on_version_change config then (Inr 0, w)
      else case xp_get_doc_version adapter doc_id w of
        (Inl e, w') \<Rightarrow> (Inl e, w')
      | (Inr (Some v), w') \<Rightarrow> if v \<noteq> new_version then xp_delete_by_doc_id adapter doc_id w' else (Inr 0, w')
      | (Inr None, w') \<Rightarrow> (Inr 0, w'))"

definition partial_failure :: "(string \<times> string) list \<Rightarrow> store_exn" where
  "partial_failure failed = StoreIndexerError (indexer_exn []
     (''partial batch failure persisted after retry: '' @
      str_join ''; '' (map (\<lambda>(chunk_id, reason). chunk_id @ '': '' @ reason) failed))
     INDEXER_PARTIAL_BATCH_FAILURE)"

definition upsert_batch_with_retry ::
    "('f, 'w) index_port \<Rightarrow> 'f index_record list \<Rightarrow> 'w \<Rightarrow> (store_exn, int, 'w) outcome" where
  "upsert_batch_with_retry adapter batch w =
     (case xp_upsert adapter batch w of
        (Inl e, w1) \<Rightarrow> (Inl e, w1)
      | (Inr out, w1) \<Rightarrow>
          if uo_failed out = [] then (Inr (int (length (uo_succeeded out))), w1)
          else let failed_ids = set (map fst (uo_failed out));
                   retry_batch = filter (\<lambda>record. ir_chunk_id record \<in> failed_ids) batch in
            (case xp_upsert adapter retry_batch w1 of
               (Inl e, w2) \<Rightarrow> (Inl e, w2)
             | (Inr retry_out, w2) \<Rightarrow>
                 if uo_failed retry_out \<noteq> [] then (Inl (partial_failure (uo_failed retry_out)), w2)
                 else (Inr (int (length (uo_succeeded out)) + int (length (uo_succeeded retry_out))), w2)))"

fun upsert_batches ::
    "('f, 'w) index_port \<Rightarrow> 'f index_record list list \<Rightarrow> int \<Rightarrow> 'w \<Rightarrow> (store_exn, int, 'w) outcome" where
  "upsert_batches adapter [] upserted w = (Inr upserted, w)"
| "upsert_batches adapter (batch # batches) upserted w =
     (case upsert_batch_with_retry adapter batch w of
        (Inl e, w') \<Rightarrow> (Inl e, w')
      | (Inr n, w') \<Rightarrow> upsert_batches adapter batches (upserted + n) w')"

definition index_batch_size :: "indexer_config \<Rightarrow> ('f, 'w) index_port \<Rightarrow> int" where
  "index_batch_size config adapter = (case xc_batch_size config of
       None \<Rightarrow> xp_max_batch_size adapter
     | Some n \<Rightarrow> min n (xp_max_batch_size adapter))"

definition upsert_all ::
    "(py_error \<Rightarrow> string) \<Rightarrow> indexer_config \<Rightarrow> ('f, 'w) index_port \<Rightarrow> string \<Rightarrow> 'f index_record list \<Rightarrow> 'w \<Rightarrow>
     (store_exn, index_result, 'w) outcome" where
  "upsert_all exc_text config adapter doc_id records w =
     (case records of
        [] \<Rightarrow> (Inl (StoreException (exc_text IndexOutOfRange)), w)
      | record # _ \<Rightarrow>
          (case maybe_delete_stale_version config adapter doc_id (ir_doc_version record) w of
             (Inl e, w1) \<Rightarrow> (Inl e, w1)
           | (Inr deleted, w1) \<Rightarrow>
               (case batched records (index_batch_size config adapter) of
                  Inl e \<Rightarrow> (Inl (StoreException (exc_text e)), w1)
                | Inr batches \<Rightarrow>
                    (case upsert_batches adapter batches 0 w1 of
                       (Inl e, w2) \<Rightarrow> (Inl e, w2)
                     | (Inr upserted, w2) \<Rightarrow>
                         (Inr \<lparr>ix_doc_id = doc_id, ix_chunks_upserted = upserted, ix_chunks_deleted = deleted,
                            ix_index_name = xp_index_name adapter, ix_embedding_model = ir_embedding_model record,
                            ix_embedding_dimensions = ir_embedding_dimensions record\<rparr>, w2)))))"

section \<open>The orchestrator\<close>

definition indexer_init :: "indexer_config \<Rightarrow> ('f, 'w) index_port \<Rightarrow> 'w \<Rightarrow> (store_exn, unit, 'w) outcome" where
  "indexer_init config adapter w = xp_ensure_schema adapter (xc_dimensions config) (xc_metric config) w"

definition indexer_terminalize ::
    "datetime \<Rightarrow> string \<Rightarrow> string \<Rightarrow> string \<Rightarrow> ledger_store \<Rightarrow> index_exn \<times> ledger_store" where
  "indexer_terminalize now doc_id error_code reason L =
     (case triaged FAILED (ledger_transition now doc_id FAILED FAILED (Some error_code) (Some reason) None L) of
        (Inl e, L') \<Rightarrow> (XLedgerError e, L')
      | (Inr _, L') \<Rightarrow> (IndexerError (indexer_exn doc_id reason error_code), L'))"

definition indexer_self_transition ::
    "datetime \<Rightarrow> string \<Rightarrow> string \<Rightarrow> string \<Rightarrow> ledger_store \<Rightarrow> index_exn \<times> ledger_store" where
  "indexer_self_transition now doc_id error_code reason L =
     (case triaged INDEXING (ledger_transition now doc_id INDEXING INDEXING (Some error_code) (Some reason) None L) of
        (Inl e, L') \<Rightarrow> (XLedgerError e, L')
      | (Inr _, L') \<Rightarrow> (IndexerError (indexer_exn doc_id reason error_code), L'))"

fun check_dimensions ::
    "indexer_config \<Rightarrow> datetime \<Rightarrow> string \<Rightarrow> 'f embedded_chunk list \<Rightarrow> ledger_store \<Rightarrow> (index_exn, unit, ledger_store) outcome" where
  "check_dimensions config now doc_id [] L = (Inr (), L)"
| "check_dimensions config now doc_id (ec # ecs) L =
     (if em_embedding_dimensions ec \<noteq> xc_dimensions config
      then map_prod Inl id (indexer_terminalize now doc_id INDEXER_DIMENSION_MISMATCH
        (''chunk_id='' @ ch_chunk_id (em_chunk ec) @ '' embedding_dimensions='' @ str_int (em_embedding_dimensions ec) @
         '' does not match configured dimensions='' @ str_int (xc_dimensions config)) L)
      else check_dimensions config now doc_id ecs L)"

definition validate_batch ::
    "indexer_config \<Rightarrow> datetime \<Rightarrow> string \<Rightarrow> 'f embedded_chunk list \<Rightarrow> ledger_store \<Rightarrow> (index_exn, unit, ledger_store) outcome" where
  "validate_batch config now doc_id ecs L =
     (let models = remdups (map em_embedding_model ecs) in
      if length models > 1
      then map_prod Inl id (indexer_terminalize now doc_id INDEXER_MIXED_MODEL_BATCH
        (''batch contains '' @ str_int (int (length models)) @ '' distinct embedding_model values: '' @
         repr_list (map py_repr (sort models))) L)
      else check_dimensions config now doc_id ecs L)"

definition indexer_run_with_recovery ::
    "(py_error \<Rightarrow> string) \<Rightarrow> indexer_config \<Rightarrow> ('f, 'w) index_port \<Rightarrow> datetime \<Rightarrow> string \<Rightarrow> 'f index_record list \<Rightarrow>
     ledger_store \<times> 'w \<Rightarrow> (index_exn, index_result, ledger_store \<times> 'w) outcome" where
  "indexer_run_with_recovery exc_text config adapter now doc_id records = (\<lambda>(L, w).
     (case upsert_all exc_text config adapter doc_id records w of
        (Inr result, w') \<Rightarrow> (Inr result, (L, w'))
      | (Inl (StoreIndexerError x), w') \<Rightarrow>
          (let (e, L') = (if ie_error_code x \<in> permanent_upsert_codes
             then indexer_terminalize now doc_id (ie_error_code x) (ie_reason x) L
             else if ie_error_code x \<in> transient_upsert_codes
             then indexer_self_transition now doc_id (ie_error_code x) (ie_reason x) L
             else indexer_self_transition now doc_id INDEXER_INTERNAL (indexer_error_str x) L)
           in (Inl e, (L', w')))
      | (Inl (StoreException text), w') \<Rightarrow>
          (let (e, L') = indexer_self_transition now doc_id INDEXER_INTERNAL text L
           in (Inl e, (L', w')))))"

definition transition_to_indexed ::
    "datetime \<Rightarrow> string \<Rightarrow> index_result \<Rightarrow> ledger_store \<Rightarrow> (index_exn, index_result, ledger_store) outcome" where
  "transition_to_indexed now doc_id result L =
     (case triaged INDEXED (ledger_transition now doc_id INDEXED INDEXED None None None L) of
        (Inl e, L') \<Rightarrow> (Inl (XLedgerError e), L')
      | (Inr _, L') \<Rightarrow> (Inr result, L'))"

definition indexer_index ::
    "(py_error \<Rightarrow> string) \<Rightarrow> indexer_config \<Rightarrow> ('f, 'w) index_port \<Rightarrow> datetime \<Rightarrow> arrival_envelope \<Rightarrow>
     'f embedded_chunk list \<Rightarrow> ledger_store \<times> 'w \<Rightarrow> (index_exn, index_result, ledger_store \<times> 'w) outcome" where
  "indexer_index exc_text config adapter now envelope ecs = (\<lambda>(L, w).
     let doc_id = ae_doc_id envelope in
     if ecs = []
     then (case indexer_terminalize now doc_id INDEXER_EMPTY_RECORDS
             ''Embedder returned zero chunks; nothing to index'' L of (e, L') \<Rightarrow> (Inl e, (L', w)))
     else (case validate_batch config now doc_id ecs L of
         (Inl e, L') \<Rightarrow> (Inl e, (L', w))
       | (Inr _, L') \<Rightarrow>
           (case build_records now doc_id envelope ecs L' of
              Inl e \<Rightarrow> (Inl e, (L', w))
            | Inr records \<Rightarrow>
                (case indexer_run_with_recovery exc_text config adapter now doc_id records (L', w) of
                   (Inl e, S) \<Rightarrow> (Inl e, S)
                 | (Inr result, (L'', w')) \<Rightarrow>
                     (case transition_to_indexed now doc_id result L'' of (res, L3) \<Rightarrow> (res, (L3, w')))))))"

section \<open>Lemmas: the branches of a call\<close>

text \<open>The specification of the checks made before anything is written to the store.\<close>

definition batch_fault :: "indexer_config \<Rightarrow> 'f embedded_chunk list \<Rightarrow> string option" where
  "batch_fault config ecs =
     (if ecs = [] then Some INDEXER_EMPTY_RECORDS
      else if card (em_embedding_model ` set ecs) > 1 then Some INDEXER_MIXED_MODEL_BATCH
      else if \<exists>ec \<in> set ecs. em_embedding_dimensions ec \<noteq> xc_dimensions config then Some INDEXER_DIMENSION_MISMATCH
      else None)"

text \<open>The code a failure below the orchestrator is recorded under.\<close>

definition index_failure_code :: "store_exn \<Rightarrow> string" where
  "index_failure_code f = (case f of
     StoreIndexerError x \<Rightarrow> if ie_error_code x \<in> permanent_upsert_codes \<union> transient_upsert_codes then ie_error_code x else INDEXER_INTERNAL
   | StoreException _ \<Rightarrow> INDEXER_INTERNAL)"

lemma INDEXER_INTERNAL_not_permanent [simp]: "INDEXER_INTERNAL \<notin> permanent_upsert_codes"
  by (simp add: permanent_upsert_codes_def)

lemma transient_not_permanent: "c \<in> transient_upsert_codes \<Longrightarrow> c \<notin> permanent_upsert_codes"
  by (auto simp: permanent_upsert_codes_def transient_upsert_codes_def)

lemma check_dimensions_ok:
  "\<forall>ec \<in> set ecs. em_embedding_dimensions ec = xc_dimensions config \<Longrightarrow> check_dimensions config now d ecs L = (Inr (), L)"
  by (induction ecs) auto

lemma check_dimensions_bad:
  "\<exists>ec \<in> set ecs. em_embedding_dimensions ec \<noteq> xc_dimensions config \<Longrightarrow>
   \<exists>m. check_dimensions config now d ecs L = map_prod Inl id (indexer_terminalize now d INDEXER_DIMENSION_MISMATCH m L)"
  by (induction ecs) auto

lemma validate_batch_fault:
  assumes "ecs \<noteq> []"
  shows "batch_fault config ecs = None \<Longrightarrow> validate_batch config now d ecs L = (Inr (), L)"
    and "batch_fault config ecs = Some c \<Longrightarrow> \<exists>m. validate_batch config now d ecs L = map_prod Inl id (indexer_terminalize now d c m L)"
proof -
  have l: "length (remdups (map em_embedding_model ecs)) = card (em_embedding_model ` set ecs)" by (simp add: length_remdups_card_conv)
  show "validate_batch config now d ecs L = (Inr (), L)" if "batch_fault config ecs = None"
    using that assms check_dimensions_ok [of ecs config now d L]
    by (simp add: batch_fault_def validate_batch_def Let_def l split: if_splits)
  show "\<exists>m. validate_batch config now d ecs L = map_prod Inl id (indexer_terminalize now d c m L)" if "batch_fault config ecs = Some c"
  proof (cases "card (em_embedding_model ` set ecs) > 1")
    case True
    with that assms have "c = INDEXER_MIXED_MODEL_BATCH" by (simp add: batch_fault_def)
    with True l show ?thesis by (auto simp: validate_batch_def Let_def)
  next
    case False
    with that assms have "c = INDEXER_DIMENSION_MISMATCH" "\<exists>ec \<in> set ecs. em_embedding_dimensions ec \<noteq> xc_dimensions config"
      by (simp_all add: batch_fault_def split: if_splits)
    with False check_dimensions_bad [of ecs config now d L] show ?thesis by (simp add: validate_batch_def Let_def l)
  qed
qed

lemma indexer_recovery_Inl:
  assumes "upsert_all x config adapter d rs w = (Inl f, w')"
  shows "\<exists>m. indexer_run_with_recovery x config adapter now d rs (L, w) =
    (case (if index_failure_code f \<in> permanent_upsert_codes then indexer_terminalize now d (index_failure_code f) m L
           else indexer_self_transition now d (index_failure_code f) m L) of (e, L') \<Rightarrow> (Inl e, (L', w')))"
proof (cases f)
  case (StoreIndexerError y)
  with assms transient_not_permanent [of "ie_error_code y"] show ?thesis
    by (intro exI [of _ "if ie_error_code y \<in> permanent_upsert_codes \<union> transient_upsert_codes then ie_reason y else indexer_error_str y"])
      (auto simp: indexer_run_with_recovery_def index_failure_code_def Let_def)
next
  case (StoreException t)
  with assms show ?thesis
    by (intro exI [of _ t]) (simp add: indexer_run_with_recovery_def index_failure_code_def Let_def)
qed

text \<open>The four ways a call can go.\<close>

lemma indexer_index_cases:
  obtains (bad) c m where "batch_fault config ecs = Some c"
      "indexer_index x config adapter now e ecs (L, w) =
         (case indexer_terminalize now (ae_doc_id e) c m L of (er, L') \<Rightarrow> (Inl er, (L', w)))"
  | (unbuilt) er where "batch_fault config ecs = None" "build_records now (ae_doc_id e) e ecs L = Inl er"
      "indexer_index x config adapter now e ecs (L, w) = (Inl er, (L, w))"
  | (failed) rs f w' m where "batch_fault config ecs = None" "build_records now (ae_doc_id e) e ecs L = Inr rs"
      "upsert_all x config adapter (ae_doc_id e) rs w = (Inl f, w')"
      "indexer_index x config adapter now e ecs (L, w) =
         (case (if index_failure_code f \<in> permanent_upsert_codes then indexer_terminalize now (ae_doc_id e) (index_failure_code f) m L
           else indexer_self_transition now (ae_doc_id e) (index_failure_code f) m L) of (er, L') \<Rightarrow> (Inl er, (L', w')))"
  | (success) rs r w' where "batch_fault config ecs = None" "build_records now (ae_doc_id e) e ecs L = Inr rs"
      "upsert_all x config adapter (ae_doc_id e) rs w = (Inr r, w')"
      "indexer_index x config adapter now e ecs (L, w) =
         (case transition_to_indexed now (ae_doc_id e) r L of (res, L') \<Rightarrow> (res, (L', w')))"
proof (cases "batch_fault config ecs")
  case (Some c)
  show ?thesis
  proof (cases "ecs = []")
    case True
    with Some show ?thesis by (intro bad [of c]) (simp_all add: indexer_index_def batch_fault_def)
  next
    case False
    obtain m where "validate_batch config now (ae_doc_id e) ecs L = map_prod Inl id (indexer_terminalize now (ae_doc_id e) c m L)"
      using validate_batch_fault(2) [OF False Some] by blast
    with False Some show ?thesis
      by (intro bad [of c m]) (auto simp: indexer_index_def Let_def split: prod.splits)
  qed
next
  case None
  then have ne: "ecs \<noteq> []" by (auto simp: batch_fault_def)
  note v = validate_batch_fault(1) [OF ne None, of now "ae_doc_id e" L]
  show ?thesis
  proof (cases "build_records now (ae_doc_id e) e ecs L")
    case (Inl er)
    with ne v None show ?thesis by (intro unbuilt [of er]) (simp_all add: indexer_index_def Let_def)
  next
    case (Inr rs)
    obtain r w' where r: "upsert_all x config adapter (ae_doc_id e) rs w = (r, w')" by fastforce
    show ?thesis
    proof (cases r)
      case f: (Inl f)
      obtain m where "indexer_run_with_recovery x config adapter now (ae_doc_id e) rs (L, w) =
          (case (if index_failure_code f \<in> permanent_upsert_codes then indexer_terminalize now (ae_doc_id e) (index_failure_code f) m L
           else indexer_self_transition now (ae_doc_id e) (index_failure_code f) m L) of (er, L') \<Rightarrow> (Inl er, (L', w')))"
        using indexer_recovery_Inl [of x config adapter "ae_doc_id e" rs w f w' now L] r f by blast
      with ne v None Inr r f show ?thesis
        by (intro failed [of rs f w' m]) (simp_all add: indexer_index_def Let_def case_prod_beta)
    next
      case k: (Inr k)
      with ne v None Inr r show ?thesis
        by (intro success [of rs k w']) (simp_all add: indexer_index_def Let_def indexer_run_with_recovery_def)
    qed
  qed
qed

lemma indexer_writes:
  "snd (indexer_terminalize now d c m L) = ledger_run L [TransitionOp now d FAILED FAILED (Some c) (Some m) None]"
  "snd (indexer_self_transition now d c m L) = ledger_run L [TransitionOp now d INDEXING INDEXING (Some c) (Some m) None]"
  "snd (transition_to_indexed now d res L) = ledger_run L [TransitionOp now d INDEXED INDEXED None None None]"
  by (auto simp: indexer_terminalize_def indexer_self_transition_def transition_to_indexed_def
      dest: triaged_state split: prod.splits sum.splits)

interpretation indexer: stage_worker
  "\<lambda>(x, config, adapter, now, e, ecs, w) L.
     case indexer_index x config adapter now e ecs (L, w) of (res, (L', w')) \<Rightarrow> ((res, w'), L')"
  "\<lambda>(x, config, adapter, now, e, ecs, w). ae_doc_id e"
proof unfold_locales
  fix i :: "(py_error \<Rightarrow> string) \<times> indexer_config \<times> ('f, 'w) index_port \<times> datetime \<times> arrival_envelope \<times>
    'f embedded_chunk list \<times> 'w" and L
  obtain x config adapter now e ecs w where i: "i = (x, config, adapter, now, e, ecs, w)" by (cases i) auto
  have t: "\<exists>ops. snd (indexer_terminalize now (ae_doc_id e) c m L) = ledger_run L ops \<and> ops_for (ae_doc_id e) ops"
    "\<exists>ops. snd (indexer_self_transition now (ae_doc_id e) c m L) = ledger_run L ops \<and> ops_for (ae_doc_id e) ops"
    "\<exists>ops. snd (transition_to_indexed now (ae_doc_id e) r L) = ledger_run L ops \<and> ops_for (ae_doc_id e) ops" for c m r
    unfolding indexer_writes by (rule exI, rule conjI, rule refl, simp)+
  have n: "\<exists>ops. L = ledger_run L ops \<and> ops_for (ae_doc_id e) ops" by (rule exI [of _ "[]"]) simp
  show "\<exists>ops. snd ((\<lambda>(x, config, adapter, now, e, ecs, w) L.
      case indexer_index x config adapter now e ecs (L, w) of (res, (L', w')) \<Rightarrow> ((res, w'), L')) i L) = ledger_run L ops \<and>
    ops_for ((\<lambda>(x, config, adapter, now, e, ecs, w). ae_doc_id e) i) ops"
    unfolding i prod.case
    by (rule indexer_index_cases [where ecs = ecs and adapter = adapter and x = x and config = config and
          now = now and e = e and L = L and w = w])
      (simp_all add: case_prod_beta t n)
qed

section \<open>Lemmas: records and stores\<close>

lemma map_res_length: "map_res f xs = Inr ys \<Longrightarrow> length ys = length xs"
  by (induction xs arbitrary: ys) auto

lemma map_res_nth: "map_res f xs = Inr ys \<Longrightarrow> i < length xs \<Longrightarrow> f (xs ! i) = Inr (ys ! i)"
proof (induction xs arbitrary: ys i)
  case (Cons x xs)
  then show ?case by (cases i) auto
qed simp

lemma map_res_map:
  assumes "map_res f xs = Inr ys" and "\<And>x y. f x = Inr y \<Longrightarrow> g y = h x"
  shows "map g ys = map h xs"
  using assms map_res_length [OF assms(1)] map_res_nth [OF assms(1)] by (intro nth_equalityI) auto

lemma map_res_set:
  assumes "map_res f xs = Inr ys" and "\<And>x y. f x = Inr y \<Longrightarrow> P y"
  shows "\<forall>y \<in> set ys. P y"
  using assms(1) by (induction xs arbitrary: ys) (auto intro: assms(2))

lemma build_records_Inr:
  assumes "build_records now d e ecs L = Inr rs"
  shows "map ir_chunk_id rs = map (\<lambda>ec. ch_chunk_id (em_chunk ec)) ecs" and "length rs = length ecs"
    and "\<forall>r \<in> set rs. ir_doc_id r = d \<and> ir_doc_version r = ae_content_hash e"
proof -
  note m = assms [unfolded build_records_def]
  show "map ir_chunk_id rs = map (\<lambda>ec. ch_chunk_id (em_chunk ec)) ecs"
    by (rule map_res_map [OF m]) (auto simp: build_record_def)
  show "length rs = length ecs" by (rule map_res_length [OF m])
  show "\<forall>r \<in> set rs. ir_doc_id r = d \<and> ir_doc_version r = ae_content_hash e"
    by (rule map_res_set [OF m]) (auto simp: build_record_def)
qed

text \<open>What a document's stored records say is one version, and the effect of indexing on the contents.\<close>

definition uniform_version :: "(string \<rightharpoonup> 'f index_record) \<Rightarrow> string \<Rightarrow> bool" where
  "uniform_version m d \<longleftrightarrow> (\<forall>a b r s. m a = Some r \<longrightarrow> m b = Some s \<longrightarrow> ir_doc_id r = d \<longrightarrow> ir_doc_id s = d \<longrightarrow>
     ir_doc_version r = ir_doc_version s)"

definition stale_version :: "(string \<rightharpoonup> 'f index_record) \<Rightarrow> string \<Rightarrow> string \<Rightarrow> bool" where
  "stale_version m d v \<longleftrightarrow> (\<exists>c r. m c = Some r \<and> ir_doc_id r = d \<and> ir_doc_version r \<noteq> v)"

definition purged :: "indexer_config \<Rightarrow> string \<Rightarrow> string \<Rightarrow> (string \<rightharpoonup> 'f index_record) \<Rightarrow> (string \<rightharpoonup> 'f index_record)" where
  "purged config d v m = (if xc_delete_before_upsert_on_version_change config \<and> stale_version m d v then drop_doc d m else m)"

definition purge_count :: "indexer_config \<Rightarrow> string \<Rightarrow> string \<Rightarrow> (string \<rightharpoonup> 'f index_record) \<Rightarrow> int" where
  "purge_count config d v m =
     (if xc_delete_before_upsert_on_version_change config \<and> stale_version m d v then int (card (doc_chunks m d)) else 0)"

lemma stale_version_doc_chunks: "stale_version m d v \<Longrightarrow> doc_chunks m d \<noteq> {}"
  by (auto simp: stale_version_def doc_chunks_def)

lemma ids_free_purged: "ids_free d rs m \<Longrightarrow> ids_free d rs (purged config d v m)"
  using ids_free_drop_doc [of rs d m d] by (auto simp: purged_def ids_free_def)

lemma index_success:
  assumes "ledger_ok L" and "ledger_get L (ae_doc_id e) = Some r" and "lr_status r = INDEXING \<or> lr_status r = INDEXED"
    and "batch_fault config ecs = None" and "build_records now (ae_doc_id e) e ecs L = Inr rs"
    and "upsert_all x config adapter (ae_doc_id e) rs w = (Inr k, w')"
  shows "\<exists>L' r'. indexer_index x config adapter now e ecs (L, w) = (Inr k, (L', w')) \<and> ledger_get L' (ae_doc_id e) = Some r' \<and>
    lr_status r' = INDEXED \<and> lr_config_version r' = lr_config_version r"
proof -
  have i: "indexer_index x config adapter now e ecs (L, w) =
      (case transition_to_indexed now (ae_doc_id e) k L of (res, L') \<Rightarrow> (res, (L', w')))"
    by (rule indexer_index_cases [where ecs = ecs and adapter = adapter and x = x and config = config and now = now and e = e
          and L = L and w = w]) (use assms(4-) in simp_all)
  show ?thesis
  proof (cases "lr_status r = INDEXED")
    case True
    with triaged_benign [OF assms(1,2), of INDEXED now None None None] i assms(2) show ?thesis
      by (simp add: transition_to_indexed_def)
  next
    case False
    then have "fsm_edge (lr_status r) INDEXED" using assms(3) by simp
    from transition_edge [OF assms(1,2) this, of None now None None] i show ?thesis
      by (simp add: transition_to_indexed_def)
  qed
qed

context chunk_index
begin

lemma delete_stale:
  assumes "invar w" and "uniform_version (contents w) d"
  shows "\<exists>w'. maybe_delete_stale_version config port d v w = (Inr (purge_count config d v (contents w)), w') \<and> invar w' \<and>
    contents w' = purged config d v (contents w)"
proof (cases "xc_delete_before_upsert_on_version_change config")
  case False
  with assms show ?thesis by (simp add: maybe_delete_stale_version_def purged_def purge_count_def)
next
  case flag: True
  show ?thesis
  proof (cases "doc_chunks (contents w) d = {}")
    case True
    with flag version_none [OF assms(1) True] stale_version_doc_chunks [of "contents w" d v] assms(1) show ?thesis
      by (auto simp: maybe_delete_stale_version_def purged_def purge_count_def)
  next
    case False
    obtain c r where r: "contents w c = Some r" "ir_doc_id r = d" "xp_get_doc_version port d w = (Inr (Some (ir_doc_version r)), w)"
      using version_some [OF assms(1) False] by blast
    have "stale_version (contents w) d v \<longleftrightarrow> ir_doc_version r \<noteq> v"
      using r assms(2) unfolding stale_version_def uniform_version_def by metis
    with flag r delete_drops [OF assms(1), of d] assms(1) show ?thesis
      by (auto simp: maybe_delete_stale_version_def purged_def purge_count_def)
  qed
qed

lemma upsert_batch:
  assumes "invar w" and "ids_free d rs (contents w)" and "\<forall>r \<in> set rs. fits r"
  shows "\<exists>w'. upsert_batch_with_retry port rs w = (Inr (int (length rs)), w') \<and> invar w' \<and> contents w' = put_all rs (contents w)"
  using upsert_stores [OF assms] by (auto simp: upsert_batch_with_retry_def)

lemma upsert_batches_all:
  "invar w \<Longrightarrow> ids_free d (concat bs) (contents w) \<Longrightarrow> \<forall>r \<in> set (concat bs). fits r \<Longrightarrow>
   \<exists>w'. upsert_batches port bs n w = (Inr (n + int (length (concat bs))), w') \<and> invar w' \<and> contents w' = put_all (concat bs) (contents w)"
proof (induction bs arbitrary: w n)
  case (Cons b bs)
  have "ids_free d b (contents w)" using Cons.prems(2) by (simp add: ids_free_append)
  then obtain w1 where w1: "upsert_batch_with_retry port b w = (Inr (int (length b)), w1)" "invar w1" "contents w1 = put_all b (contents w)"
    using upsert_batch [OF Cons.prems(1), of d b] Cons.prems(3) by auto
  have "ids_free d (concat bs) (contents w1)" using Cons.prems(2) ids_free_put_all [of d b "concat bs"] w1(3) by simp
  from Cons.IH [OF w1(2) this, of "n + int (length b)"] Cons.prems(3) w1 show ?case by (auto simp: put_all_append)
qed simp

lemma upsert_all_stores:
  assumes "invar w" and "uniform_version (contents w) d" and "ids_free d rs (contents w)" and "rs \<noteq> []"
    and "\<forall>r \<in> set rs. ir_doc_version r = v" and "0 < index_batch_size config port" and "\<forall>r \<in> set rs. fits r"
  shows "\<exists>w'. upsert_all x config port d rs w =
      (Inr \<lparr>ix_doc_id = d, ix_chunks_upserted = int (length rs), ix_chunks_deleted = purge_count config d v (contents w),
         ix_index_name = xp_index_name port, ix_embedding_model = ir_embedding_model (hd rs),
         ix_embedding_dimensions = ir_embedding_dimensions (hd rs)\<rparr>, w') \<and>
    invar w' \<and> contents w' = put_all rs (purged config d v (contents w))"
proof -
  obtain r rs' where rs: "rs = r # rs'" using assms(4) by (cases rs) auto
  then have v: "ir_doc_version r = v" using assms(5) by simp
  obtain w1 where w1: "maybe_delete_stale_version config port d v w = (Inr (purge_count config d v (contents w)), w1)" "invar w1"
    "contents w1 = purged config d v (contents w)" using delete_stale [OF assms(1,2)] by blast
  let ?bs = "chunks_of (nat (index_batch_size config port)) rs"
  have c: "concat ?bs = rs" using chunks_of_lossless [of "nat (index_batch_size config port)" rs] assms(6) by simp
  then have "ids_free d (concat ?bs) (contents w1)" using ids_free_purged [OF assms(3)] w1(3) by simp
  from upsert_batches_all [OF w1(2) this, of 0] assms(7) obtain w2 where
    "upsert_batches port ?bs 0 w1 = (Inr (int (length rs)), w2)" "invar w2" "contents w2 = put_all rs (contents w1)"
    unfolding c by auto
  with w1 v rs batched_eq_chunks_of [OF assms(6), of rs] show ?thesis by (simp add: upsert_all_def)
qed

text \<open>A whole call, on a document the ledger has in \<open>INDEXING\<close> or, for a redelivery, in \<open>INDEXED\<close>.\<close>

lemma index_stores:
  assumes "ledger_ok L" and "ledger_get L (ae_doc_id e) = Some r" and "lr_status r = INDEXING \<or> lr_status r = INDEXED"
    and "invar w" and "uniform_version (contents w) (ae_doc_id e)" and "batch_fault config ecs = None"
    and "build_records now (ae_doc_id e) e ecs L = Inr rs" and "ids_free (ae_doc_id e) rs (contents w)"
    and "0 < index_batch_size config port" and "\<forall>r \<in> set rs. fits r"
  shows "\<exists>k L' w' r'. indexer_index x config port now e ecs (L, w) = (Inr k, (L', w')) \<and> invar w' \<and>
    contents w' = put_all rs (purged config (ae_doc_id e) (ae_content_hash e) (contents w)) \<and>
    ledger_get L' (ae_doc_id e) = Some r' \<and> lr_status r' = INDEXED \<and> lr_config_version r' = lr_config_version r \<and>
    ix_chunks_upserted k = int (length ecs) \<and> ix_chunks_deleted k = purge_count config (ae_doc_id e) (ae_content_hash e) (contents w)"
proof -
  have b: "length rs = length ecs" "rs \<noteq> []" "\<forall>r \<in> set rs. ir_doc_version r = ae_content_hash e"
    using build_records_Inr(2,3) [OF assms(7)] assms(6) by (auto simp: batch_fault_def)
  obtain k w' where u: "upsert_all x config port (ae_doc_id e) rs w = (Inr k, w')" "invar w'"
    "contents w' = put_all rs (purged config (ae_doc_id e) (ae_content_hash e) (contents w))"
    "ix_chunks_upserted k = int (length rs)" "ix_chunks_deleted k = purge_count config (ae_doc_id e) (ae_content_hash e) (contents w)"
    using upsert_all_stores [OF assms(4,5,8) b(2,3) assms(9,10), of x] by auto
  from index_success [OF assms(1-3,6,7) u(1)] u(2-) b(1) show ?thesis by fastforce
qed

end

text \<open>What the contents look like after a call.\<close>

lemma indexed_contents:
  assumes "ids_free d rs m" and "distinct (map ir_chunk_id rs)"
  shows "r \<in> set rs \<Longrightarrow> put_all rs (purged config d v m) (ir_chunk_id r) = Some r"
    and "doc_chunks (put_all rs (purged config d v m)) d =
      (if xc_delete_before_upsert_on_version_change config \<and> stale_version m d v then {} else doc_chunks m d) \<union> ir_chunk_id ` set rs"
    and "m c = Some s \<Longrightarrow> ir_doc_id s \<noteq> d \<Longrightarrow> put_all rs (purged config d v m) c = Some s"
    and "m c = None \<Longrightarrow> c \<notin> ir_chunk_id ` set rs \<Longrightarrow> put_all rs (purged config d v m) c = None"
proof -
  show "put_all rs (purged config d v m) (ir_chunk_id r) = Some r" if "r \<in> set rs" by (rule put_all_distinct [OF assms(2) that])
  show "doc_chunks (put_all rs (purged config d v m)) d =
      (if xc_delete_before_upsert_on_version_change config \<and> stale_version m d v then {} else doc_chunks m d) \<union> ir_chunk_id ` set rs"
    unfolding doc_chunks_put_all(1) [OF ids_free_purged [OF assms(1)]] by (simp add: purged_def doc_chunks_drop_doc)
  show "put_all rs (purged config d v m) c = Some s" if "m c = Some s" "ir_doc_id s \<noteq> d"
  proof -
    have "c \<notin> ir_chunk_id ` set rs" using assms(1) that unfolding ids_free_def by auto
    then show ?thesis using that by (simp add: put_all_other purged_def drop_doc_def)
  qed
  show "put_all rs (purged config d v m) c = None" if "m c = None" "c \<notin> ir_chunk_id ` set rs"
    using that by (simp add: put_all_other purged_def drop_doc_def)
qed

lemma indexed_uniform:
  assumes "ids_free d rs m" and "\<forall>r \<in> set rs. ir_doc_version r = v" and "xc_delete_before_upsert_on_version_change config"
  shows "put_all rs (purged config d v m) c = Some s \<Longrightarrow> ir_doc_id s = d \<Longrightarrow> ir_doc_version s = v"
proof -
  assume s: "put_all rs (purged config d v m) c = Some s" "ir_doc_id s = d"
  show "ir_doc_version s = v"
  proof (cases "c \<in> ir_chunk_id ` set rs")
    case True
    with put_all_mem [OF True, of "purged config d v m"] s assms(2) show ?thesis by auto
  next
    case False
    with s assms(3) show ?thesis
      by (auto simp: put_all_other purged_def drop_doc_def stale_version_def split: if_splits option.splits)
  qed
qed

text \<open>Assembling the records again, later and on a row of the same configuration version.\<close>

lemma map_res_restamp: "map_res f xs = Inr ys \<Longrightarrow> (\<And>x y. f x = Inr y \<Longrightarrow> g x = Inr (h y)) \<Longrightarrow> map_res g xs = Inr (map h ys)"
  by (induction xs arbitrary: ys) auto

lemma rebuild_records:
  assumes "build_records now d e ecs L = Inr rs" and "config_version_for d L' = config_version_for d L"
  shows "build_records now' d e ecs L' = Inr (map (ir_indexed_at_update (\<lambda>_. now')) rs)"
  using assms unfolding build_records_def assms(2)
  by (elim map_res_restamp) (auto simp: build_record_def)

lemma restamped:
  assumes "distinct (map ir_chunk_id rs)" and "\<And>s. s \<in> set rs \<Longrightarrow> m (ir_chunk_id s) = Some s"
  shows "put_all (map (ir_indexed_at_update (\<lambda>_. t)) rs) m c =
    (if c \<in> ir_chunk_id ` set rs then map_option (ir_indexed_at_update (\<lambda>_. t)) (m c) else m c)"
proof (cases "c \<in> ir_chunk_id ` set rs")
  case True
  then obtain s where s: "s \<in> set rs" "c = ir_chunk_id s" by blast
  have "distinct (map ir_chunk_id (map (ir_indexed_at_update (\<lambda>_. t)) rs))" using assms(1) by (simp add: comp_def)
  from put_all_distinct [OF this, of "ir_indexed_at_update (\<lambda>_. t) s" m] s assms(2) [OF s(1)] show ?thesis by simp
next
  case False
  then have "c \<notin> ir_chunk_id ` set (map (ir_indexed_at_update (\<lambda>_. t)) rs)" by auto
  with False show ?thesis by (simp add: put_all_other)
qed

lemma index_completed_ledger:
  assumes "ledger_ok L" and "ledger_get L (ae_doc_id e) = Some r" and "lr_status r = INDEXED"
    and "batch_fault config ecs = None" and "build_records now (ae_doc_id e) e ecs L = Inr rs"
  shows "\<exists>res w'. indexer_index x config adapter now e ecs (L, w) = (res, (L, w')) \<and>
    (case upsert_all x config adapter (ae_doc_id e) rs w of
       (Inr k, w1) \<Rightarrow> res = Inr k \<and> w' = w1
     | (Inl f, w1) \<Rightarrow> w' = w1 \<and> (\<exists>m. res = Inl (IndexerError (indexer_exn (ae_doc_id e) m (index_failure_code f)))))"
proof (rule indexer_index_cases [where ecs = ecs and adapter = adapter and x = x and config = config and now = now and e = e
      and L = L and w = w])
  note b = triaged_benign [OF assms(1,2)]
  fix rs' f w' m
  assume h: "build_records now (ae_doc_id e) e ecs L = Inr rs'"
    "upsert_all x config adapter (ae_doc_id e) rs' w = (Inl f, w')"
    "indexer_index x config adapter now e ecs (L, w) =
       (case (if index_failure_code f \<in> permanent_upsert_codes then indexer_terminalize now (ae_doc_id e) (index_failure_code f) m L
         else indexer_self_transition now (ae_doc_id e) (index_failure_code f) m L) of (er, L') \<Rightarrow> (Inl er, (L', w')))"
  then show ?thesis using assms(3,5) b [of FAILED now "Some (index_failure_code f)" "Some m" None]
    b [of INDEXING now "Some (index_failure_code f)" "Some m" None]
    by (auto simp: indexer_terminalize_def indexer_self_transition_def)
next
  note b = triaged_benign [OF assms(1,2)]
  fix rs' k w'
  assume h: "build_records now (ae_doc_id e) e ecs L = Inr rs'"
    "upsert_all x config adapter (ae_doc_id e) rs' w = (Inr k, w')"
    "indexer_index x config adapter now e ecs (L, w) =
       (case transition_to_indexed now (ae_doc_id e) k L of (res, L') \<Rightarrow> (res, (L', w')))"
  then show ?thesis using assms(3,5) b [of INDEXED now None None None] by (auto simp: transition_to_indexed_def)
qed (use assms in simp_all)

text \<open>Scoring the candidates of a search.\<close>

lemma memory_search_Inr:
  assumes "memory_search F q k fs M = Inr hits" and "0 \<le> k"
  obtains scored where "map_res (\<lambda>c. map_sum id (\<lambda>s. (c, s)) (cosine_similarity F q (ir_vector c)))
      (filter (\<lambda>c. matches_filters c (case fs of None \<Rightarrow> [] | Some l \<Rightarrow> l)) (dict_values (mi_records M))) = Inr scored"
    "hits = take (nat k) (rev (sort_key snd (rev scored)))"
proof -
  have "(case fs of Some fs \<Rightarrow> if fs \<noteq> [] then filter (\<lambda>c. matches_filters c fs) cs else cs | None \<Rightarrow> cs) =
      filter (\<lambda>c. matches_filters c (case fs of None \<Rightarrow> [] | Some l \<Rightarrow> l)) cs" for cs
    by (cases fs) (simp_all add: matches_filters_def)
  with assms that show thesis by (auto simp: memory_search_def Let_def slice_upto_def)
qed

lemma scored_mem:
  assumes "map_res (\<lambda>c. map_sum id (\<lambda>s. (c, s)) (g c)) cs = Inr scored" and "p \<in> set scored"
  shows "fst p \<in> set cs \<and> g (fst p) = Inr (snd p)"
proof -
  obtain i where i: "i < length scored" "p = scored ! i" using assms(2) by (metis in_set_conv_nth)
  then have l: "i < length cs" using map_res_length [OF assms(1)] by simp
  from map_res_nth [OF assms(1) l] obtain s where "g (cs ! i) = Inr s" "p = (cs ! i, s)" using i(2) by (cases "g (cs ! i)") auto
  with l show ?thesis by simp
qed

lemma scored_all:
  assumes "map_res (\<lambda>c. map_sum id (\<lambda>s. (c, s)) (g c)) cs = Inr scored" and "c \<in> set cs"
  shows "\<forall>s. g c = Inr s \<longrightarrow> (c, s) \<in> set scored"
proof -
  obtain i where i: "i < length cs" "c = cs ! i" using assms(2) by (metis in_set_conv_nth)
  with map_res_length [OF assms(1)] map_res_nth [OF assms(1), of i] nth_mem [of i scored] show ?thesis by auto
qed

text \<open>A store with every upsert written down.\<close>

definition logged :: "('f, 'w) index_port \<Rightarrow> ('f, 'f index_record list list \<times> 'w) index_port" where
  "logged p = \<lparr>xp_index_name = xp_index_name p, xp_max_batch_size = xp_max_batch_size p, xp_supports_hybrid = xp_supports_hybrid p,
     xp_upsert = (\<lambda>rs (hist, w). case xp_upsert p rs w of (out, w') \<Rightarrow> (out, (hist @ [rs], w'))),
     xp_delete_by_doc_id = (\<lambda>d (hist, w). case xp_delete_by_doc_id p d w of (out, w') \<Rightarrow> (out, (hist, w'))),
     xp_count_by_doc_id = (\<lambda>d (hist, w). case xp_count_by_doc_id p d w of (out, w') \<Rightarrow> (out, (hist, w'))),
     xp_get_doc_version = (\<lambda>d (hist, w). case xp_get_doc_version p d w of (out, w') \<Rightarrow> (out, (hist, w'))),
     xp_ensure_schema = (\<lambda>n m (hist, w). case xp_ensure_schema p n m w of (out, w') \<Rightarrow> (out, (hist, w')))\<rparr>"

lemma retry_size:
  fixes batch :: "'f index_record list"
  assumes "distinct (map ir_chunk_id batch)" and "mset s1 + mset f1 = image_mset ir_chunk_id (mset batch)"
    and "mset s2 = image_mset ir_chunk_id (mset (filter (\<lambda>r. ir_chunk_id r \<in> set f1) batch))"
  shows "length s1 + length s2 = length batch"
proof -
  have m: "mset (s1 @ f1) = mset (map ir_chunk_id batch)" using assms(2) by simp
  have "distinct (s1 @ f1)" using mset_eq_imp_distinct_iff [OF m] assms(1) by simp
  moreover have "set (map ir_chunk_id (filter (\<lambda>r. ir_chunk_id r \<in> set f1) batch)) = set f1"
    using mset_eq_setD [OF m] by auto
  moreover have "distinct (map ir_chunk_id (filter (\<lambda>r. ir_chunk_id r \<in> set f1) batch))" using assms(1) by (rule distinct_map_filter)
  ultimately have "length (map ir_chunk_id (filter (\<lambda>r. ir_chunk_id r \<in> set f1) batch)) = length f1"
    by (metis distinct_append distinct_card)
  moreover have "length s2 = length (filter (\<lambda>r. ir_chunk_id r \<in> set f1) batch)"
    by (metis assms(3) size_image_mset size_mset)
  moreover have "length s1 + length f1 = length batch" using mset_eq_length [OF m] by simp
  ultimately show ?thesis by simp
qed

section \<open>A sample document\<close>

definition demo_embedded :: "real embedded_chunk" where
  "demo_embedded = \<lparr>em_chunk = demo_chunk 0, em_vector = [3, 4], em_embedding_model = ''demo'', em_embedding_dimensions = 2,
     em_truncated_from = None\<rparr>"

definition demo_index_config :: indexer_config where
  "demo_index_config = \<lparr>xc_dimensions = 2, xc_metric = ''cosine'', xc_batch_size = None,
     xc_delete_before_upsert_on_version_change = True\<rparr>"

definition demo_record :: "datetime \<Rightarrow> real index_record" where
  "demo_record t = \<lparr>ir_chunk_id = ch_chunk_id (demo_chunk 0), ir_doc_id = ae_doc_id demo_arrival, ir_doc_version = ae_content_hash demo_arrival,
     ir_vector = [3, 4], ir_text = ''text'', ir_position = 0, ir_section_path = None, ir_element_types = [''paragraph''],
     ir_strategy = STRATEGY_RECURSIVE, ir_allowed_groups = [], ir_trust_tier = ''internal'', ir_embedding_model = ''demo'',
     ir_embedding_dimensions = 2, ir_config_version = ''7'', ir_indexed_at = t\<rparr>"

lemma demo_batch: "batch_fault demo_index_config [demo_embedded] = None"
  by (simp add: batch_fault_def demo_index_config_def demo_embedded_def)

lemma demo_build:
  assumes "ledger_get L (ae_doc_id demo_arrival) = Some r" and "lr_config_version r = ''7''"
  shows "build_records t (ae_doc_id demo_arrival) demo_arrival [demo_embedded] L = Inr [demo_record t]"
  using assms by (simp add: build_records_def build_record_def section_path_of_def config_version_for_def demo_embedded_def
      demo_chunk_def demo_record_def demo_arrival_def)

lemma demo_fresh: "uniform_version (memory_contents (memory_init n)) d" "ids_free (ae_doc_id demo_arrival) [demo_record t] (memory_contents (memory_init n))"
  by (simp_all add: uniform_version_def ids_free_def memory_contents_def memory_init_def demo_record_def)

lemma demo_index_batch: "0 < index_batch_size demo_index_config (memory_port x pick n :: (real, real memory_index) index_port)"
  by (simp add: index_batch_size_def demo_index_config_def memory_port_def)

section \<open>Properties\<close>

text \<open>
  C17. What \<open>index\<close> does for a document in \<open>INDEXING\<close>: a batch that is empty, mixes models or has the wrong
  dimensions fails it for good before the store is touched; records that do not validate raise and
  write nothing; otherwise the outcome of deleting and upserting decides: success moves the row to
  \<open>INDEXED\<close>, the two permanent codes fail it, every other failure leaves it in \<open>INDEXING\<close> with one more
  attempt. The recorded code is the code of the exception and no other row changes.
\<close>

theorem index_ledger_outcomes:
  assumes "ledger_ok L" and "ledger_get L (ae_doc_id e) = Some r" and "lr_status r = INDEXING"
  shows "\<exists>res L' w' r'. indexer_index x config adapter now e ecs (L, w) = (res, (L', w')) \<and>
    ledger_get L' = (ledger_get L)(ae_doc_id e \<mapsto> r') \<and>
    (case batch_fault config ecs of
       Some c \<Rightarrow> w' = w \<and> lr_status r' = FAILED \<and> lr_last_error_code r' = Some c \<and>
         (\<exists>m. res = Inl (IndexerError (indexer_exn (ae_doc_id e) m c)))
     | None \<Rightarrow> (case build_records now (ae_doc_id e) e ecs L of
         Inl er \<Rightarrow> w' = w \<and> L' = L \<and> res = Inl er
       | Inr rs \<Rightarrow> (case upsert_all x config adapter (ae_doc_id e) rs w of
           (Inr k, w1) \<Rightarrow> w' = w1 \<and> res = Inr k \<and> lr_status r' = INDEXED \<and> lr_attempts r' = 1 \<and> lr_last_error_code r' = None
         | (Inl f, w1) \<Rightarrow> w' = w1 \<and> (\<exists>m. res = Inl (IndexerError (indexer_exn (ae_doc_id e) m (index_failure_code f)))) \<and>
             lr_last_error_code r' = Some (index_failure_code f) \<and>
             (if index_failure_code f \<in> permanent_upsert_codes then lr_status r' = FAILED \<and> lr_attempts r' = lr_attempts r
              else lr_status r' = INDEXING \<and> lr_attempts r' = lr_attempts r + 1))))"
proof (rule indexer_index_cases [where ecs = ecs and adapter = adapter and x = x and config = config and now = now and e = e
      and L = L and w = w])
  fix c m
  assume h: "batch_fault config ecs = Some c"
    "indexer_index x config adapter now e ecs (L, w) =
       (case indexer_terminalize now (ae_doc_id e) c m L of (er, L') \<Rightarrow> (Inl er, (L', w)))"
  have "fsm_edge (lr_status r) FAILED" using assms(3) by simp
  from transition_edge [OF assms(1,2) this, of "Some c" now "Some m" None] h show ?thesis
    by (auto simp: indexer_terminalize_def fun_eq_iff)
next
  fix er
  assume "batch_fault config ecs = None" "build_records now (ae_doc_id e) e ecs L = Inl er"
    "indexer_index x config adapter now e ecs (L, w) = (Inl er, (L, w))"
  then show ?thesis using assms(2) by (auto simp: fun_eq_iff)
next
  fix rs f w' m
  assume h: "batch_fault config ecs = None" "build_records now (ae_doc_id e) e ecs L = Inr rs"
    "upsert_all x config adapter (ae_doc_id e) rs w = (Inl f, w')"
    "indexer_index x config adapter now e ecs (L, w) =
       (case (if index_failure_code f \<in> permanent_upsert_codes then indexer_terminalize now (ae_doc_id e) (index_failure_code f) m L
         else indexer_self_transition now (ae_doc_id e) (index_failure_code f) m L) of (er, L') \<Rightarrow> (Inl er, (L', w')))"
  have "fsm_edge (lr_status r) FAILED" "fsm_edge (lr_status r) INDEXING" using assms(3) by simp_all
  note t = this [THEN transition_edge [OF assms(1,2)], of "Some (index_failure_code f)" now "Some m" None]
  show ?thesis
  proof (cases "index_failure_code f \<in> permanent_upsert_codes")
    case True
    with t(1) h show ?thesis by (auto simp: indexer_terminalize_def fun_eq_iff)
  next
    case False
    with t(2) h assms(3) show ?thesis by (auto simp: indexer_self_transition_def fun_eq_iff)
  qed
next
  fix rs k w'
  assume h: "batch_fault config ecs = None" "build_records now (ae_doc_id e) e ecs L = Inr rs"
    "upsert_all x config adapter (ae_doc_id e) rs w = (Inr k, w')"
    "indexer_index x config adapter now e ecs (L, w) =
       (case transition_to_indexed now (ae_doc_id e) k L of (res, L') \<Rightarrow> (res, (L', w')))"
  have "fsm_edge (lr_status r) INDEXED" using assms(3) by simp
  from transition_edge [OF assms(1,2) this, of None now None None] h assms(3) show ?thesis
    by (auto simp: transition_to_indexed_def fun_eq_iff)
qed

theorem index_ledger_outcomes_witness:
  "\<exists>res L' w' r'. indexer_index (\<lambda>_. []) default_indexer_config (memory_port (\<lambda>_. []) length ''docs'') 9 demo_arrival [demo_embedded]
       (demo_ledger INDEXING, memory_init ''docs'') = (res, (L', w')) \<and> w' = memory_init ''docs'' \<and>
     ledger_get L' (ae_doc_id demo_arrival) = Some r' \<and> lr_status r' = FAILED \<and> lr_last_error_code r' = Some INDEXER_DIMENSION_MISMATCH"
proof -
  obtain r where r: "ledger_get (demo_ledger INDEXING) (ae_doc_id demo_arrival) = Some r" "lr_status r = INDEXING"
    by (rule demo_ledger_row)
  have f: "batch_fault default_indexer_config [demo_embedded] = Some INDEXER_DIMENSION_MISMATCH"
    by (simp add: batch_fault_def default_indexer_config_def demo_embedded_def)
  from index_ledger_outcomes [OF demo_ledger_ok r, of "\<lambda>_. []" default_indexer_config "memory_port (\<lambda>_. []) length ''docs''" 9
      "[demo_embedded]" "memory_init ''docs''"]
  show ?thesis by (auto simp: f)
qed

text \<open>
  A straggler cannot disturb a completed document: on a row at \<open>INDEXED\<close> the ledger is left as it is
  whatever happens, and the caller still gets its own result or the exception of its own failure,
  never one of the ledger.
\<close>

theorem index_after_completion:
  assumes "ledger_ok L" and "ledger_get L (ae_doc_id e) = Some r" and "lr_status r = INDEXED"
    and "batch_fault config ecs = None" and "build_records now (ae_doc_id e) e ecs L = Inr rs"
  shows "\<exists>res w'. indexer_index x config adapter now e ecs (L, w) = (res, (L, w')) \<and>
    (case upsert_all x config adapter (ae_doc_id e) rs w of
       (Inr k, w1) \<Rightarrow> res = Inr k \<and> w' = w1
     | (Inl f, w1) \<Rightarrow> w' = w1 \<and> (\<exists>m. res = Inl (IndexerError (indexer_exn (ae_doc_id e) m (index_failure_code f)))))"
  by (rule index_completed_ledger [OF assms])

theorem index_after_completion_witness:
  "\<exists>res w'. indexer_index (\<lambda>_. []) demo_index_config (memory_port (\<lambda>_. []) length ''docs'') 9 demo_arrival [demo_embedded]
       (demo_ledger INDEXED, memory_init ''docs'') = (res, (demo_ledger INDEXED, w'))"
proof -
  obtain r where r: "ledger_get (demo_ledger INDEXED) (ae_doc_id demo_arrival) = Some r" "lr_status r = INDEXED"
    "lr_config_version r = ''7''" by (rule demo_ledger_row)
  from index_after_completion [OF demo_ledger_ok r(1,2) demo_batch demo_build [OF r(1,3), of 9], where x = "\<lambda>_. []"
      and adapter = "memory_port (\<lambda>_. []) length ''docs''" and w = "memory_init ''docs''"]
  show ?thesis by blast
qed

text \<open>
  C8. What reaches the store. On a document in \<open>INDEXING\<close> whose chunk identifiers are its own, \<open>index\<close>
  succeeds; every record is stored under its chunk identifier; the document has exactly the new chunks
  when nothing or another version was stored before (the stale chunks are counted as deleted), and the
  union with the old ones when the same version was; no record of another document changes; the row
  ends in \<open>INDEXED\<close>; and one document never has records of two versions.
\<close>

theorem index_stores_document:
  fixes M :: "'f memory_index"
  assumes "ledger_ok L" and "ledger_get L (ae_doc_id e) = Some r" and "lr_status r = INDEXING"
    and "memory_ok M" and "uniform_version (memory_contents M) (ae_doc_id e)" and "batch_fault config ecs = None"
    and "build_records now (ae_doc_id e) e ecs L = Inr rs" and "distinct (map ir_chunk_id rs)"
    and "ids_free (ae_doc_id e) rs (memory_contents M)" and "0 < index_batch_size config (memory_port x pick name :: ('f, 'f memory_index) index_port)"
  shows "\<exists>k L' M' r'. indexer_index x config (memory_port x pick name) now e ecs (L, M) = (Inr k, (L', M')) \<and> memory_ok M' \<and>
    ledger_get L' (ae_doc_id e) = Some r' \<and> lr_status r' = INDEXED \<and> ix_chunks_upserted k = int (length ecs) \<and>
    (\<forall>s \<in> set rs. memory_contents M' (ir_chunk_id s) = Some s) \<and>
    (let purge = xc_delete_before_upsert_on_version_change config \<and> stale_version (memory_contents M) (ae_doc_id e) (ae_content_hash e) in
       ix_chunks_deleted k = (if purge then int (card (doc_chunks (memory_contents M) (ae_doc_id e))) else 0) \<and>
       doc_chunks (memory_contents M') (ae_doc_id e) =
         (if purge then {} else doc_chunks (memory_contents M) (ae_doc_id e)) \<union> ir_chunk_id ` set rs) \<and>
    (\<forall>c s. memory_contents M c = Some s \<and> ir_doc_id s \<noteq> ae_doc_id e \<longrightarrow> memory_contents M' c = Some s) \<and>
    (xc_delete_before_upsert_on_version_change config \<longrightarrow> uniform_version (memory_contents M') (ae_doc_id e))"
proof -
  have st: "lr_status r = INDEXING \<or> lr_status r = INDEXED" using assms(3) by simp
  obtain k L' M' r' where c: "indexer_index x config (memory_port x pick name) now e ecs (L, M) = (Inr k, (L', M'))" "memory_ok M'"
    "memory_contents M' = put_all rs (purged config (ae_doc_id e) (ae_content_hash e) (memory_contents M))"
    "ledger_get L' (ae_doc_id e) = Some r'" "lr_status r' = INDEXED" "ix_chunks_upserted k = int (length ecs)"
    "ix_chunks_deleted k = purge_count config (ae_doc_id e) (ae_content_hash e) (memory_contents M)"
    using memory.index_stores [OF assms(1,2) st assms(4-7,9,10), of x] by auto
  note ic = indexed_contents [OF assms(9,8), where config = config and v = "ae_content_hash e", folded c(3)]
  have "\<forall>s \<in> set rs. ir_doc_version s = ae_content_hash e" using build_records_Inr(3) [OF assms(7)] by blast
  from indexed_uniform [OF assms(9) this, of config, folded c(3)]
  have "uniform_version (memory_contents M') (ae_doc_id e)" if "xc_delete_before_upsert_on_version_change config"
    unfolding uniform_version_def using that by metis
  moreover have "\<forall>c s. memory_contents M c = Some s \<and> ir_doc_id s \<noteq> ae_doc_id e \<longrightarrow> memory_contents M' c = Some s"
    using ic(3) by blast
  moreover have "\<forall>s \<in> set rs. memory_contents M' (ir_chunk_id s) = Some s" using ic(1) by blast
  ultimately show ?thesis using c(1,2,4-7) ic(2) unfolding Let_def purge_count_def by blast
qed

theorem index_stores_document_witness:
  "\<exists>k L' M'. indexer_index (\<lambda>_. []) demo_index_config (memory_port (\<lambda>_. []) length ''docs'') 9 demo_arrival [demo_embedded]
       (demo_ledger INDEXING, memory_init ''docs'') = (Inr k, (L', M')) \<and> ix_chunks_upserted k = 1 \<and>
     memory_contents M' (ir_chunk_id (demo_record 9)) = Some (demo_record 9)"
proof -
  obtain r where r: "ledger_get (demo_ledger INDEXING) (ae_doc_id demo_arrival) = Some r" "lr_status r = INDEXING"
    "lr_config_version r = ''7''" by (rule demo_ledger_row)
  have d: "distinct (map ir_chunk_id [demo_record 9])" by simp
  from index_stores_document [OF demo_ledger_ok r(1,2) memory_ok_init demo_fresh(1) demo_batch demo_build [OF r(1,3)] d demo_fresh(2)
      demo_index_batch, where x = "\<lambda>_. []" and pick = length and name = "''docs''"]
  show ?thesis by fastforce
qed

text \<open>
  C28. Indexing is idempotent: a second delivery of an indexed document returns the same counts, deletes
  nothing, leaves the ledger as it is and rewrites the document's records with the same content (only
  \<open>indexed_at\<close> moves); nothing else in the store changes.
\<close>

theorem index_idempotent:
  fixes M :: "'f memory_index"
  assumes "ledger_ok L" and "ledger_get L (ae_doc_id e) = Some r" and "lr_status r = INDEXING"
    and "memory_ok M" and "uniform_version (memory_contents M) (ae_doc_id e)" and "batch_fault config ecs = None"
    and "build_records now (ae_doc_id e) e ecs L = Inr rs" and "distinct (map ir_chunk_id rs)"
    and "ids_free (ae_doc_id e) rs (memory_contents M)" and "0 < index_batch_size config (memory_port x pick name :: ('f, 'f memory_index) index_port)"
    and "xc_delete_before_upsert_on_version_change config"
    and "indexer_index x config (memory_port x pick name) now e ecs (L, M) = (Inr k, (L', M'))"
  shows "\<exists>k' M''. indexer_index x config (memory_port x pick name) now' e ecs (L', M') = (Inr k', (L', M'')) \<and>
    ix_chunks_upserted k' = ix_chunks_upserted k \<and> ix_chunks_deleted k' = 0 \<and>
    (\<forall>c. memory_contents M'' c = (if c \<in> ir_chunk_id ` set rs then map_option (ir_indexed_at_update (\<lambda>_. now')) (memory_contents M' c)
       else memory_contents M' c))"
proof -
  let ?d = "ae_doc_id e" and ?v = "ae_content_hash e" and ?rs = "map (ir_indexed_at_update (\<lambda>_. now')) rs"
  have st: "lr_status r = INDEXING \<or> lr_status r = INDEXED" using assms(3) by simp
  obtain r' where c: "memory_ok M'" "memory_contents M' = put_all rs (purged config ?d ?v (memory_contents M))"
    "ledger_get L' ?d = Some r'" "lr_status r' = INDEXED" "lr_config_version r' = lr_config_version r" "ix_chunks_upserted k = int (length ecs)"
    using memory.index_stores [OF assms(1,2) st assms(4-7,9,10), of x] assms(12) by auto
  have "ledger_ok L'" using indexer.stage_ok [OF assms(1), of "(x, config, memory_port x pick name, now, e, ecs, M)"] assms(12) by simp
  have st': "lr_status r' = INDEXING \<or> lr_status r' = INDEXED" using c(4) by simp
  have b: "build_records now' ?d e ecs L' = Inr ?rs"
    using rebuild_records [OF assms(7), of L' now'] c(3,5) assms(2) by (simp add: config_version_for_def)
  have v: "\<forall>s \<in> set rs. ir_doc_version s = ?v \<and> ir_doc_id s = ?d" using build_records_Inr(3) [OF assms(7)] by blast
  have vs: "\<forall>s \<in> set rs. ir_doc_version s = ?v" using v by blast
  have uv: "ir_doc_version s = ?v" if "memory_contents M' a = Some s" "ir_doc_id s = ?d" for a s
    using indexed_uniform [OF assms(9) vs assms(11)] that c(2) by metis
  have u: "uniform_version (memory_contents M') ?d" and s: "\<not> stale_version (memory_contents M') ?d ?v"
    using uv unfolding uniform_version_def stale_version_def by metis+
  have stored: "memory_contents M' (ir_chunk_id s) = Some s" if "s \<in> set rs" for s
    using indexed_contents(1) [OF assms(9,8) that] c(2) by simp
  have f: "ids_free ?d ?rs (memory_contents M')" using stored v by (auto simp: ids_free_def)
  obtain k' L'' M'' where i: "indexer_index x config (memory_port x pick name) now' e ecs (L', M') = (Inr k', (L'', M''))"
    "memory_contents M'' = put_all ?rs (purged config ?d ?v (memory_contents M'))"
    "ix_chunks_upserted k' = int (length ecs)" "ix_chunks_deleted k' = purge_count config ?d ?v (memory_contents M')"
    using memory.index_stores [OF \<open>ledger_ok L'\<close> c(3) st' c(1) u assms(6) b f assms(10), of x] by auto
  have "L'' = L'" using index_completed_ledger [OF \<open>ledger_ok L'\<close> c(3,4) assms(6) b, of x "memory_port x pick name" M'] i(1) by auto
  moreover have "memory_contents M'' = put_all ?rs (memory_contents M')" using i(2) s by (simp add: purged_def)
  then have "memory_contents M'' a = (if a \<in> ir_chunk_id ` set rs then map_option (ir_indexed_at_update (\<lambda>_. now')) (memory_contents M' a)
      else memory_contents M' a)" for a
    using restamped [OF assms(8) stored] by simp
  ultimately show ?thesis using i c(6) s by (auto simp: purge_count_def)
qed

theorem index_idempotent_witness:
  "\<exists>k L' M' k' M''. indexer_index (\<lambda>_. []) demo_index_config (memory_port (\<lambda>_. []) length ''docs'') 9 demo_arrival [demo_embedded]
       (demo_ledger INDEXING, memory_init ''docs'') = (Inr k, (L', M')) \<and>
     indexer_index (\<lambda>_. []) demo_index_config (memory_port (\<lambda>_. []) length ''docs'') 12 demo_arrival [demo_embedded] (L', M') =
       (Inr k', (L', M'')) \<and> ix_chunks_deleted k' = 0"
proof -
  obtain r where r: "ledger_get (demo_ledger INDEXING) (ae_doc_id demo_arrival) = Some r" "lr_status r = INDEXING"
    "lr_config_version r = ''7''" by (rule demo_ledger_row)
  have st: "lr_status r = INDEXING \<or> lr_status r = INDEXED" using r(2) by simp
  obtain k L' M' where i: "indexer_index (\<lambda>_. []) demo_index_config (memory_port (\<lambda>_. []) length ''docs'') 9 demo_arrival [demo_embedded]
       (demo_ledger INDEXING, memory_init ''docs'') = (Inr k, (L', M'))"
    using memory.index_stores [OF demo_ledger_ok r(1) st memory_ok_init demo_fresh(1) demo_batch demo_build [OF r(1,3)] demo_fresh(2)
        demo_index_batch, where x = "\<lambda>_. []"] by (meson TrueI)
  have d: "distinct (map ir_chunk_id [demo_record 9])" "xc_delete_before_upsert_on_version_change demo_index_config"
    by (simp_all add: demo_index_config_def)
  from index_idempotent [OF demo_ledger_ok r(1,2) memory_ok_init demo_fresh(1) demo_batch demo_build [OF r(1,3)] d(1) demo_fresh(2)
      demo_index_batch d(2) i, of 12] i
  show ?thesis by blast
qed

text \<open>
  The retry of a partly failed batch. \<open>logged\<close> is the same store with every upsert written down. A
  batch is upserted once or twice, and the second time with exactly the records whose identifiers the
  first outcome reported as failed; when the store accounts for every record it is given, a returned
  count is the size of the batch, so a record is never lost silently.
\<close>

theorem partial_retry_accounts:
  assumes "\<forall>rs w out w'. xp_upsert p rs w = (Inr out, w') \<longrightarrow>
      mset (uo_succeeded out) + mset (map fst (uo_failed out)) = image_mset ir_chunk_id (mset rs)"
    and "distinct (map ir_chunk_id batch)"
  shows "\<exists>res calls w'. upsert_batch_with_retry (logged p) batch (hist, w) = (res, (hist @ calls, w')) \<and>
    upsert_batch_with_retry p batch w = (res, w') \<and> (\<forall>n. res = Inr n \<longrightarrow> n = int (length batch)) \<and>
    (case xp_upsert p batch w of
       (Inl e, w1) \<Rightarrow> calls = [batch] \<and> res = Inl e
     | (Inr out, w1) \<Rightarrow> if uo_failed out = [] then calls = [batch]
         else calls = [batch, filter (\<lambda>r. ir_chunk_id r \<in> set (map fst (uo_failed out))) batch])"
proof -
  obtain o1 w1 where o1: "xp_upsert p batch w = (o1, w1)" by fastforce
  show ?thesis
  proof (cases o1)
    case (Inl e)
    with o1 show ?thesis by (simp add: upsert_batch_with_retry_def logged_def)
  next
    case (Inr out)
    have a: "mset (uo_succeeded out) + mset (map fst (uo_failed out)) = image_mset ir_chunk_id (mset batch)" using assms(1) o1 Inr by blast
    let ?retry = "filter (\<lambda>r. ir_chunk_id r \<in> set (map fst (uo_failed out))) batch"
    obtain o2 w2 where o2: "xp_upsert p ?retry w1 = (o2, w2)" by fastforce
    show ?thesis
    proof (cases "uo_failed out = []")
      case True
      then have "length (uo_succeeded out) = length batch" using arg_cong [OF a, of "size"] by simp
      with o1 Inr True show ?thesis by (simp add: upsert_batch_with_retry_def logged_def)
    next
      case False
      have "length (uo_succeeded out) + length (uo_succeeded out2) = length batch" if "o2 = Inr out2" "uo_failed out2 = []" for out2
      proof (rule retry_size [OF assms(2) a])
        have "mset (uo_succeeded out2) + mset (map fst (uo_failed out2)) = image_mset ir_chunk_id (mset ?retry)"
          using assms(1) o2 that(1) by blast
        with that(2) show "mset (uo_succeeded out2) = image_mset ir_chunk_id (mset ?retry)" by simp
      qed
      with o1 Inr False o2 show ?thesis
        by (cases o2) (auto simp: upsert_batch_with_retry_def logged_def Let_def)
    qed
  qed
qed

theorem partial_retry_accounts_witness:
  "\<exists>res w'. upsert_batch_with_retry (memory_port (\<lambda>_. []) length ''docs'') [demo_record 9] (memory_init ''docs'') = (res, w') \<and>
     (\<forall>n. res = Inr n \<longrightarrow> n = 1)"
proof -
  have "\<forall>rs w out w'. xp_upsert (memory_port (\<lambda>_. []) length ''docs'' :: (real, real memory_index) index_port) rs w = (Inr out, w') \<longrightarrow>
      mset (uo_succeeded out) + mset (map fst (uo_failed out)) = image_mset ir_chunk_id (mset rs)"
    by (auto simp: memory_port_def memory_upsert_def)
  from partial_retry_accounts [OF this, of "[demo_record 9]" "[]" "memory_init ''docs''"] show ?thesis by auto
qed

text \<open>
  A configured batch size below zero passes every check: no batch is ever formed, so a document in
  \<open>INDEXING\<close> loses its stale version, gains nothing, and is still marked \<open>INDEXED\<close> with a receipt of
  zero chunks.
\<close>

theorem negative_batch_size_indexes_nothing:
  assumes "ledger_ok L" and "ledger_get L (ae_doc_id e) = Some r" and "lr_status r = INDEXING"
    and "memory_ok M" and "uniform_version (memory_contents M) (ae_doc_id e)" and "batch_fault config ecs = None"
    and "build_records now (ae_doc_id e) e ecs L = Inr rs" and "xc_batch_size config = Some n" and "n < 0"
  shows "\<exists>k L' M' r'. indexer_index x config (memory_port x pick name) now e ecs (L, M) = (Inr k, (L', M')) \<and>
    ix_chunks_upserted k = 0 \<and> ledger_get L' (ae_doc_id e) = Some r' \<and> lr_status r' = INDEXED \<and>
    memory_contents M' = purged config (ae_doc_id e) (ae_content_hash e) (memory_contents M)"
proof -
  have b: "rs \<noteq> []" "\<forall>r \<in> set rs. ir_doc_version r = ae_content_hash e"
    using build_records_Inr(2,3) [OF assms(7)] assms(6) by (auto simp: batch_fault_def)
  then obtain a rs' where rs: "rs = a # rs'" "ir_doc_version a = ae_content_hash e" by (cases rs) auto
  have "batched rs (index_batch_size config (memory_port x pick name :: ('a, 'a memory_index) index_port)) = Inr []"
    using assms(8,9) by (simp add: batched_def index_batch_size_def memory_port_def)
  moreover obtain M' where m: "maybe_delete_stale_version config (memory_port x pick name) (ae_doc_id e) (ae_content_hash e) M =
      (Inr (purge_count config (ae_doc_id e) (ae_content_hash e) (memory_contents M)), M')"
    "memory_contents M' = purged config (ae_doc_id e) (ae_content_hash e) (memory_contents M)"
    using memory.delete_stale [OF assms(4,5)] by blast
  ultimately obtain k where u: "upsert_all x config (memory_port x pick name) (ae_doc_id e) rs M = (Inr k, M')" "ix_chunks_upserted k = 0"
    using rs by (simp add: upsert_all_def)
  have st: "lr_status r = INDEXING \<or> lr_status r = INDEXED" using assms(3) by simp
  from index_success [OF assms(1,2) st assms(6,7) u(1)] u(2) m(2) show ?thesis by blast
qed

theorem negative_batch_size_indexes_nothing_witness:
  "\<exists>k L' M' r'. indexer_index (\<lambda>_. []) (demo_index_config\<lparr>xc_batch_size := Some (- 1)\<rparr>) (memory_port (\<lambda>_. []) length ''docs'') 9
       demo_arrival [demo_embedded] (demo_ledger INDEXING, memory_init ''docs'') = (Inr k, (L', M')) \<and>
     ix_chunks_upserted k = 0 \<and> ledger_get L' (ae_doc_id demo_arrival) = Some r' \<and> lr_status r' = INDEXED"
proof -
  obtain r where r: "ledger_get (demo_ledger INDEXING) (ae_doc_id demo_arrival) = Some r" "lr_status r = INDEXING"
    "lr_config_version r = ''7''" by (rule demo_ledger_row)
  let ?c = "demo_index_config\<lparr>xc_batch_size := Some (- 1)\<rparr>"
  have b: "batch_fault ?c [demo_embedded] = None" "xc_batch_size ?c = Some (- 1)" "(- 1 :: int) < 0"
    using demo_batch by (simp_all add: batch_fault_def)
  from negative_batch_size_indexes_nothing [OF demo_ledger_ok r(1,2) memory_ok_init demo_fresh(1) b(1) demo_build [OF r(1,3)] b(2,3),
      where x = "\<lambda>_. []" and pick = length and name = "''docs''"]
  show ?thesis by blast
qed

text \<open>
  C38. Search. The hits of a query with \<open>0 \<le> top_k\<close> are stored records that satisfy every filter, with
  their own cosine score, in order of decreasing score; there are \<open>top_k\<close> of them unless fewer records
  match; and no matching record that was left out scores higher than a hit.
\<close>

theorem search_correct:
  assumes "memory_search F q k fs M = Inr hits" and "0 \<le> k"
  shows "sorted_wrt (\<lambda>a b. snd b \<le> snd a) hits \<and>
    (\<forall>(c, s) \<in> set hits. c \<in> set (dict_values (mi_records M)) \<and> matches_filters c (case fs of None \<Rightarrow> [] | Some l \<Rightarrow> l) \<and>
       cosine_similarity F q (ir_vector c) = Inr s) \<and>
    int (length hits) = min k (int (length (filter (\<lambda>c. matches_filters c (case fs of None \<Rightarrow> [] | Some l \<Rightarrow> l)) (dict_values (mi_records M))))) \<and>
    (\<forall>c \<in> set (dict_values (mi_records M)). \<forall>s. matches_filters c (case fs of None \<Rightarrow> [] | Some l \<Rightarrow> l) \<longrightarrow>
       cosine_similarity F q (ir_vector c) = Inr s \<longrightarrow> (c, s) \<in> set hits \<or> (\<forall>h \<in> set hits. s \<le> snd h))"
proof -
  let ?fs = "case fs of None \<Rightarrow> [] | Some l \<Rightarrow> l"
  let ?kept = "filter (\<lambda>c. matches_filters c ?fs) (dict_values (mi_records M))"
  let ?score = "\<lambda>c. map_sum id (\<lambda>s. (c, s)) (cosine_similarity F q (ir_vector c))"
  obtain scored where sc: "map_res ?score ?kept = Inr scored" and h: "hits = take (nat k) (rev (sort_key snd (rev scored)))"
    using assms by (rule memory_search_Inr)
  let ?all = "rev (sort_key snd (rev scored))"
  have sorted: "sorted_wrt (\<lambda>a b. snd b \<le> snd a) ?all"
    using sorted_sort_key [of snd "rev scored"] by (simp add: sorted_wrt_rev sorted_map)
  have "\<forall>p \<in> set scored. fst p \<in> set ?kept \<and> cosine_similarity F q (ir_vector (fst p)) = Inr (snd p)"
    using scored_mem [OF sc] by blast
  then have "\<forall>(c, s) \<in> set hits. c \<in> set ?kept \<and> cosine_similarity F q (ir_vector c) = Inr s"
    unfolding h by (force dest: in_set_takeD)
  moreover have "(c, s) \<in> set hits \<or> (\<forall>x \<in> set hits. s \<le> snd x)" if "c \<in> set ?kept" "cosine_similarity F q (ir_vector c) = Inr s" for c s
  proof -
    have "(c, s) \<in> set scored" using scored_all [OF sc that(1)] that(2) by simp
    then have "(c, s) \<in> set (take (nat k) ?all @ drop (nat k) ?all)" by simp
    moreover have "sorted_wrt (\<lambda>a b. snd b \<le> snd a) (take (nat k) ?all @ drop (nat k) ?all)" using sorted by simp
    ultimately show ?thesis unfolding h sorted_wrt_append set_append by (metis UnE snd_conv)
  qed
  moreover have "int (length hits) = min k (int (length ?kept))" using map_res_length [OF sc] assms(2) by (simp add: h)
  moreover have "sorted_wrt (\<lambda>a b. snd b \<le> snd a) hits" unfolding h by (rule sorted_wrt_take [OF sorted])
  ultimately show ?thesis by auto
qed

theorem search_correct_witness:
  "\<exists>hits. memory_search real_ops [3, 4] 1 (Some [(''trust_tier'', AStr ''internal'')]) (memory_put (demo_record 9) (memory_init ''docs'')) = Inr hits \<and>
     length hits = 1"
proof -
  let ?M = "memory_put (demo_record 9) (memory_init ''docs'')"
  have v: "dict_values (mi_records ?M) = [demo_record 9]" by (simp add: memory_put_def memory_init_def)
  have m: "matches_filters (demo_record 9) [(''trust_tier'', AStr ''internal'')]"
    by (simp add: matches_filters_def matches_filter_def record_attr.simps demo_record_def)
  obtain s where "cosine_similarity real_ops [3, 4] (ir_vector (demo_record 9)) = Inr s"
    by (auto simp: cosine_similarity_def zip_strict_def demo_record_def Let_def)
  then obtain hits where h: "memory_search real_ops [3, 4] 1 (Some [(''trust_tier'', AStr ''internal'')]) ?M = Inr hits"
    unfolding memory_search_def v Let_def using m by simp
  from search_correct [OF h] h show ?thesis unfolding v using m by auto
qed

text \<open>
  Cosine scores in exact arithmetic: on vectors of one length a score always exists and lies between
  -1 and 1, a zero vector scores 0 and a vector that is not zero scores 1 against itself.
\<close>

theorem cosine_score_bounds:
  assumes "length a = length b"
  shows "\<exists>s. cosine_similarity real_ops a b = Inr s \<and> \<bar>s\<bar> \<le> 1 \<and> (sq_norm a = 0 \<or> sq_norm b = 0 \<longrightarrow> s = 0) \<and>
    (a = b \<longrightarrow> sq_norm a \<noteq> 0 \<longrightarrow> s = 1)"
proof -
  have e: "cosine_similarity real_ops a b = Inr (if sqrt (sq_norm a) = 0 \<or> sqrt (sq_norm b) = 0 then 0
      else dot a b / (sqrt (sq_norm a) * sqrt (sq_norm b)))"
    using assms by (simp add: cosine_similarity_def zip_strict_def Let_def sq_norm_def dot_def)
  have z: "sqrt (sq_norm v) = 0 \<longleftrightarrow> sq_norm v = 0" for v by simp
  show ?thesis
  proof (cases "sqrt (sq_norm a) = 0 \<or> sqrt (sq_norm b) = 0")
    case True
    then show ?thesis unfolding e using z [of a] by auto
  next
    case False
    then have "\<bar>dot a b / (sqrt (sq_norm a) * sqrt (sq_norm b))\<bar> \<le> 1" using cosine_bounds [OF assms] by blast
    moreover have "a = b \<longrightarrow> dot a b / (sqrt (sq_norm a) * sqrt (sq_norm b)) = 1" using False cosine_self [of a] by blast
    moreover have "sq_norm a \<noteq> 0" "sq_norm b \<noteq> 0" using False by auto
    ultimately show ?thesis unfolding e if_not_P [OF False] by blast
  qed
qed

theorem cosine_score_bounds_witness: "\<exists>s. cosine_similarity real_ops [3, 4] [3, 4] = Inr s \<and> s = 1"
  using cosine_score_bounds [of "[3, 4]" "[3, 4]"] by (auto simp: sq_norm_def)

end
