(* ===== verification/Azure_Search.thy ===== *)
theory Azure_Search
  imports Indexer
begin

text \<open>
  The Azure AI Search adapter of the indexer, \<open>src/vestibule/indexer/adapters/azure_ai_search.py\<close>, over
  the duck-typed backend it calls. The backend wraps the vendor's SDK and is a parameter: a record of
  its five methods in a world \<open>'w\<close>, each of which finishes in time with a value or an exception, or
  does not. Parameters are also \<open>isoformat\<close> of a timestamp, \<open>json_bytes\<close> (the length of the UTF-8 text
  \<open>json.dumps\<close> makes of a document) and the further attempts \<open>tenacity\<close> grants. The length of the waits
  between attempts is left out.
\<close>

section \<open>The backend\<close>

record index_definition =
  xd_index_name :: string
  xd_dimensions :: int
  xd_metric :: string
  xd_hnsw_m :: int
  xd_hnsw_ef_construction :: int
  xd_hnsw_ef_search :: int

datatype 'f json = JNull | JStr string | JInt int | JFloats "'f list" | JStrs "string list"

type_synonym 'f document = "(string, 'f json) dict"

record ('f, 'w) search_backend =
  sb_get_index_schema :: "string \<Rightarrow> ((int \<times> string) option, 'w) backend_call"
  sb_create_or_update_index :: "index_definition \<Rightarrow> (unit, 'w) backend_call"
  sb_upload_documents :: "string \<Rightarrow> 'f document list \<Rightarrow> ((string \<times> bool \<times> string option) list, 'w) backend_call"
  sb_delete_documents :: "string \<Rightarrow> string list \<Rightarrow> (unit, 'w) backend_call"
  sb_documents_for_doc_id :: "string \<Rightarrow> string \<Rightarrow> ((string, string option) dict list, 'w) backend_call"

text \<open>The adapter's own state; \<open>sx_timeout\<close> is the configured timeout as it is printed.\<close>

record azure_search =
  sx_index_name :: string
  sx_hnsw_m :: int
  sx_hnsw_ef_construction :: int
  sx_hnsw_ef_search :: int
  sx_timeout :: string
  sx_max_attempts :: int

section \<open>Retries\<close>

definition map_status_to_error_code :: "int option \<Rightarrow> string option" where
  "map_status_to_error_code status_code =
     (if status_code = Some 429 then Some INDEXER_RATE_LIMITED
      else case status_code of
        Some s \<Rightarrow> if 500 \<le> s then Some INDEXER_UPSTREAM_ERROR else None
      | None \<Rightarrow> None)"

fun search_retryable :: "backend_exn \<Rightarrow> bool" where
  "search_retryable (BackendTimeout t) = True"
| "search_retryable (HttpResponseError s t) = (map_status_to_error_code s \<noteq> None)"
| "search_retryable (BackendException t) = False"

definition call_with_timeout :: "azure_search \<Rightarrow> ('a, 'w) backend_call \<Rightarrow> 'w \<Rightarrow> (backend_exn, 'a, 'w) outcome" where
  "call_with_timeout A fn w = (case fn w of
       (Finished r, w') \<Rightarrow> (r, w')
     | (TooLate, w') \<Rightarrow> (Inl (BackendTimeout (''backend call did not return within '' @ sx_timeout A @ ''s'')), w'))"

fun map_backend_error :: "backend_exn \<Rightarrow> store_exn" where
  "map_backend_error (BackendTimeout t) = StoreIndexerError (indexer_exn [] t INDEXER_TIMEOUT)"
| "map_backend_error (HttpResponseError s t) = (case map_status_to_error_code s of
      None \<Rightarrow> StoreException t
    | Some code \<Rightarrow> StoreIndexerError (indexer_exn [] t code))"
| "map_backend_error (BackendException t) = StoreException t"

definition with_retry :: "(int \<Rightarrow> nat) \<Rightarrow> azure_search \<Rightarrow> ('a, 'w) backend_call \<Rightarrow> 'w \<Rightarrow> (store_exn, 'a, 'w) outcome" where
  "with_retry grants A fn w = map_prod (map_sum map_backend_error id) id
     (retry_loop (grants (sx_max_attempts A)) search_retryable (call_with_timeout A fn) w)"

section \<open>Documents\<close>

definition record_to_document :: "(datetime \<Rightarrow> string) \<Rightarrow> 'f index_record \<Rightarrow> 'f document" where
  "record_to_document isoformat r =
     [(''chunk_id'', JStr (ir_chunk_id r)), (''doc_id'', JStr (ir_doc_id r)), (''doc_version'', JStr (ir_doc_version r)),
      (''content'', JStr (ir_text r)), (''content_vector'', JFloats (ir_vector r)), (''position'', JInt (ir_position r)),
      (''section_path'', case ir_section_path r of None \<Rightarrow> JNull | Some s \<Rightarrow> JStr s), (''element_types'', JStrs (ir_element_types r)),
      (''strategy'', JStr (ir_strategy r)), (''allowed_groups'', JStrs (ir_allowed_groups r)), (''trust_tier'', JStr (ir_trust_tier r)),
      (''embedding_model'', JStr (ir_embedding_model r)), (''embedding_dimensions'', JInt (ir_embedding_dimensions r)),
      (''config_version'', JStr (ir_config_version r)), (''indexed_at'', JStr (isoformat (ir_indexed_at r)))]"

definition MAX_RECORD_BYTES :: int where "MAX_RECORD_BYTES = 16 * 1024 * 1024"

definition size_check :: "('f document \<Rightarrow> int) \<Rightarrow> 'f index_record \<times> 'f document \<Rightarrow> store_exn + unit" where
  "size_check json_bytes = (\<lambda>(record, document).
     if json_bytes document > MAX_RECORD_BYTES
     then Inl (StoreIndexerError (indexer_exn (ir_doc_id record)
       (''record chunk_id='' @ ir_chunk_id record @ '' serialized size='' @ str_int (json_bytes document) @
        '' bytes exceeds the store'' @ CHR 0x27 # ''s '' @ str_int MAX_RECORD_BYTES @ ''-byte limit'') INDEXER_RECORD_TOO_LARGE))
     else Inr ())"

definition check_record_sizes ::
    "(py_error \<Rightarrow> string) \<Rightarrow> ('f document \<Rightarrow> int) \<Rightarrow> 'f index_record list \<Rightarrow> 'f document list \<Rightarrow> store_exn + unit" where
  "check_record_sizes exc_text json_bytes records documents =
     (case zip_strict records documents of
        Inl e \<Rightarrow> Inl (StoreException (exc_text e))
      | Inr pairs \<Rightarrow> bind_res (map_res (size_check json_bytes) pairs) (\<lambda>_. Inr ()))"

section \<open>The operations of the port\<close>

definition search_ensure_schema ::
    "(int \<Rightarrow> nat) \<Rightarrow> ('f, 'w) search_backend \<Rightarrow> azure_search \<Rightarrow> int \<Rightarrow> string \<Rightarrow> 'w \<Rightarrow> (store_exn, unit, 'w) outcome" where
  "search_ensure_schema grants B A dimensions metric w =
     (case with_retry grants A (sb_get_index_schema B (sx_index_name A)) w of
        (Inl e, w') \<Rightarrow> (Inl e, w')
      | (Inr None, w') \<Rightarrow>
          with_retry grants A (sb_create_or_update_index B
            \<lparr>xd_index_name = sx_index_name A, xd_dimensions = dimensions, xd_metric = metric, xd_hnsw_m = sx_hnsw_m A,
             xd_hnsw_ef_construction = sx_hnsw_ef_construction A, xd_hnsw_ef_search = sx_hnsw_ef_search A\<rparr>) w'
      | (Inr (Some (d, m)), w') \<Rightarrow>
          if d \<noteq> dimensions \<or> m \<noteq> metric
          then (Inl (StoreIndexerError (indexer_exn []
            (''index '' @ py_repr (sx_index_name A) @ '' exists with dimensions='' @ str_int d @ '' metric='' @ py_repr m @
             ''; requested dimensions='' @ str_int dimensions @ '' metric='' @ py_repr metric) INDEXER_SCHEMA_CONFLICT)), w')
          else (Inr (), w'))"

definition search_upsert ::
    "(py_error \<Rightarrow> string) \<Rightarrow> (datetime \<Rightarrow> string) \<Rightarrow> ('f document \<Rightarrow> int) \<Rightarrow> (int \<Rightarrow> nat) \<Rightarrow> ('f, 'w) search_backend \<Rightarrow> azure_search \<Rightarrow>
     'f index_record list \<Rightarrow> 'w \<Rightarrow> (store_exn, upsert_outcome, 'w) outcome" where
  "search_upsert exc_text isoformat json_bytes grants B A records w =
     (let documents = map (record_to_document isoformat) records in
      case check_record_sizes exc_text json_bytes records documents of
        Inl e \<Rightarrow> (Inl e, w)
      | Inr _ \<Rightarrow>
          (case with_retry grants A (sb_upload_documents B (sx_index_name A) documents) w of
             (Inl e, w') \<Rightarrow> (Inl e, w')
           | (Inr results, w') \<Rightarrow>
               (Inr \<lparr>uo_succeeded = map fst (filter (\<lambda>(chunk_id, ok, msg). ok) results),
                     uo_failed = map (\<lambda>(chunk_id, ok, msg). (chunk_id, str_or msg ''upload failed''))
                       (filter (\<lambda>(chunk_id, ok, msg). \<not> ok) results)\<rparr>, w')))"

text \<open>\<open>str(doc["chunk_id"])\<close> and \<open>str(doc.get("doc_version"))\<close>; \<open>str(None)\<close> is the text None.\<close>

definition str_field :: "string option \<Rightarrow> string" where
  "str_field v = (case v of None \<Rightarrow> ''None'' | Some s \<Rightarrow> s)"

definition doc_chunk_id :: "(py_error \<Rightarrow> string) \<Rightarrow> (string, string option) dict \<Rightarrow> store_exn + string" where
  "doc_chunk_id exc_text doc = (case dict_get doc ''chunk_id'' of
       None \<Rightarrow> Inl (StoreException (exc_text (KeyError ''chunk_id'')))
     | Some v \<Rightarrow> Inr (str_field v))"

definition search_delete_by_doc_id ::
    "(py_error \<Rightarrow> string) \<Rightarrow> (int \<Rightarrow> nat) \<Rightarrow> ('f, 'w) search_backend \<Rightarrow> azure_search \<Rightarrow> string \<Rightarrow> 'w \<Rightarrow> (store_exn, int, 'w) outcome" where
  "search_delete_by_doc_id exc_text grants B A doc_id w =
     (case with_retry grants A (sb_documents_for_doc_id B (sx_index_name A) doc_id) w of
        (Inl e, w') \<Rightarrow> (Inl e, w')
      | (Inr documents, w') \<Rightarrow>
          if documents = [] then (Inr 0, w')
          else (case map_res (doc_chunk_id exc_text) documents of
              Inl e \<Rightarrow> (Inl e, w')
            | Inr chunk_ids \<Rightarrow>
                (case with_retry grants A (sb_delete_documents B (sx_index_name A) chunk_ids) w' of
                   (Inl e, w'') \<Rightarrow> (Inl e, w'')
                 | (Inr _, w'') \<Rightarrow> (Inr (int (length chunk_ids)), w''))))"

definition search_count_by_doc_id ::
    "(int \<Rightarrow> nat) \<Rightarrow> ('f, 'w) search_backend \<Rightarrow> azure_search \<Rightarrow> string \<Rightarrow> 'w \<Rightarrow> (store_exn, int, 'w) outcome" where
  "search_count_by_doc_id grants B A doc_id w =
     map_prod (map_sum id (\<lambda>documents. int (length documents))) id
       (with_retry grants A (sb_documents_for_doc_id B (sx_index_name A) doc_id) w)"

definition search_get_doc_version ::
    "(int \<Rightarrow> nat) \<Rightarrow> ('f, 'w) search_backend \<Rightarrow> azure_search \<Rightarrow> string \<Rightarrow> 'w \<Rightarrow> (store_exn, string option, 'w) outcome" where
  "search_get_doc_version grants B A doc_id w =
     map_prod (map_sum id (\<lambda>documents. case documents of
         [] \<Rightarrow> None
       | document # _ \<Rightarrow> Some (str_field (case dict_get document ''doc_version'' of None \<Rightarrow> None | Some v \<Rightarrow> v)))) id
       (with_retry grants A (sb_documents_for_doc_id B (sx_index_name A) doc_id) w)"

definition azure_search_port ::
    "(py_error \<Rightarrow> string) \<Rightarrow> (datetime \<Rightarrow> string) \<Rightarrow> ('f document \<Rightarrow> int) \<Rightarrow> (int \<Rightarrow> nat) \<Rightarrow> ('f, 'w) search_backend \<Rightarrow> azure_search \<Rightarrow>
     ('f, 'w) index_port" where
  "azure_search_port exc_text isoformat json_bytes grants B A =
     \<lparr>xp_index_name = sx_index_name A, xp_max_batch_size = 100, xp_supports_hybrid = True,
      xp_upsert = search_upsert exc_text isoformat json_bytes grants B A,
      xp_delete_by_doc_id = search_delete_by_doc_id exc_text grants B A,
      xp_count_by_doc_id = search_count_by_doc_id grants B A, xp_get_doc_version = search_get_doc_version grants B A,
      xp_ensure_schema = search_ensure_schema grants B A\<rparr>"

section \<open>Lemmas\<close>

lemma map_status_codes: "map_status_to_error_code s = Some c \<Longrightarrow> c \<in> {INDEXER_RATE_LIMITED, INDEXER_UPSTREAM_ERROR}"
  by (auto simp: map_status_to_error_code_def split: if_splits option.splits)

lemma map_backend_error_code:
  "map_backend_error e = StoreIndexerError x \<longleftrightarrow>
     search_retryable e \<and> (case e of
         BackendTimeout t \<Rightarrow> x = indexer_exn [] t INDEXER_TIMEOUT
       | HttpResponseError s t \<Rightarrow> x = indexer_exn [] t (the (map_status_to_error_code s))
       | BackendException t \<Rightarrow> False)"
  by (cases e) (auto split: option.splits)

lemma with_retry_finished:
  "fn w = (Finished (Inr v), w') \<Longrightarrow> with_retry grants A fn w = (Inr v, w')"
  using retry_loop_ok [of "call_with_timeout A fn" w v] by (simp add: with_retry_def call_with_timeout_def)

lemma with_retry_raises:
  assumes "with_retry grants A fn w = (Inl (StoreIndexerError x), w')"
  shows "ie_error_code x \<in> {INDEXER_RATE_LIMITED, INDEXER_UPSTREAM_ERROR, INDEXER_TIMEOUT}"
proof -
  obtain res v where r: "retry_loop (grants (sx_max_attempts A)) search_retryable (call_with_timeout A fn) w = (res, v)" by fastforce
  with assms obtain e where "map_backend_error e = StoreIndexerError x" by (cases res) (auto simp: with_retry_def)
  then show ?thesis
    by (cases e) (auto simp: indexer_exn_def dest: map_status_codes split: option.splits)
qed

lemma check_sizes_simps:
  "check_record_sizes x json_bytes [] (map (record_to_document fmt) []) = Inr ()"
  "check_record_sizes x json_bytes (r # rs) (map (record_to_document fmt) (r # rs)) =
     bind_res (size_check json_bytes (r, record_to_document fmt r)) (\<lambda>_. check_record_sizes x json_bytes rs (map (record_to_document fmt) rs))"
proof -
  show "check_record_sizes x json_bytes [] (map (record_to_document fmt) []) = Inr ()" by (simp add: check_record_sizes_def zip_strict_def)
  show "check_record_sizes x json_bytes (r # rs) (map (record_to_document fmt) (r # rs)) =
      bind_res (size_check json_bytes (r, record_to_document fmt r)) (\<lambda>_. check_record_sizes x json_bytes rs (map (record_to_document fmt) rs))"
    by (cases "size_check json_bytes (r, record_to_document fmt r)"; cases "map_res (size_check json_bytes) (zip rs (map (record_to_document fmt) rs))")
      (simp_all add: check_record_sizes_def zip_strict_def)
qed

lemma check_sizes_fit:
  "\<forall>r \<in> set rs. json_bytes (record_to_document fmt r) \<le> MAX_RECORD_BYTES \<Longrightarrow>
   check_record_sizes x json_bytes rs (map (record_to_document fmt) rs) = Inr ()"
  by (induction rs) (simp_all add: check_sizes_simps size_check_def del: list.map)

lemma check_sizes_large:
  "\<exists>r \<in> set rs. json_bytes (record_to_document fmt r) > MAX_RECORD_BYTES \<Longrightarrow>
   \<exists>y. check_record_sizes x json_bytes rs (map (record_to_document fmt) rs) = Inl (StoreIndexerError y) \<and>
     ie_error_code y = INDEXER_RECORD_TOO_LARGE"
proof (induction rs)
  case (Cons r rs)
  show ?case
  proof (cases "json_bytes (record_to_document fmt r) > MAX_RECORD_BYTES")
    case True
    then show ?thesis by (simp add: check_sizes_simps size_check_def indexer_exn_def del: list.map)
  next
    case False
    with Cons.prems have "\<exists>r \<in> set rs. json_bytes (record_to_document fmt r) > MAX_RECORD_BYTES" by auto
    from Cons.IH [OF this] False show ?thesis by (simp add: check_sizes_simps size_check_def del: list.map)
  qed
qed simp

section \<open>The service\<close>

text \<open>
  What the adapter relies on of the service when its calls finish in time: an upload stores every
  document under its \<open>chunk_id\<close> and reports it as succeeded, a deletion removes the given keys, and the
  query by \<open>doc_id\<close> lists the key and the version of each stored document of that id once. \<open>contents\<close>
  is the view of the stored documents as the records they were made from.
\<close>

definition search_service ::
    "('w \<Rightarrow> bool) \<Rightarrow> ('w \<Rightarrow> (string \<rightharpoonup> 'f index_record)) \<Rightarrow> (datetime \<Rightarrow> string) \<Rightarrow> string \<Rightarrow> ('f, 'w) search_backend \<Rightarrow> bool" where
  "search_service good contents fmt name B \<longleftrightarrow>
     (\<forall>w rs. good w \<longrightarrow> (\<exists>w'. sb_upload_documents B name (map (record_to_document fmt) rs) w =
         (Finished (Inr (map (\<lambda>r. (ir_chunk_id r, True, None)) rs)), w') \<and> good w' \<and> contents w' = put_all rs (contents w))) \<and>
     (\<forall>w cs. good w \<longrightarrow> (\<exists>w'. sb_delete_documents B name cs w = (Finished (Inr ()), w') \<and> good w' \<and>
         contents w' = contents w |` (- set cs))) \<and>
     (\<forall>w d. good w \<longrightarrow> (\<exists>cs. sb_documents_for_doc_id B name d w = (Finished (Inr (map (\<lambda>c.
             [(''chunk_id'', Some c), (''doc_version'', Some (ir_doc_version (the (contents w c))))]) cs)), w) \<and>
         distinct cs \<and> set cs = doc_chunks (contents w) d))"

lemma search_upload:
  assumes "search_service good contents fmt (sx_index_name A) B" and "good w"
    and "\<forall>r \<in> set rs. json_bytes (record_to_document fmt r) \<le> MAX_RECORD_BYTES"
  shows "\<exists>w'. search_upsert x fmt json_bytes grants B A rs w = (Inr \<lparr>uo_succeeded = map ir_chunk_id rs, uo_failed = []\<rparr>, w') \<and> good w' \<and>
    contents w' = put_all rs (contents w)"
proof -
  obtain w' where w': "sb_upload_documents B (sx_index_name A) (map (record_to_document fmt) rs) w =
      (Finished (Inr (map (\<lambda>r. (ir_chunk_id r, True, None)) rs)), w')" "good w'" "contents w' = put_all rs (contents w)"
    using assms(1,2) unfolding search_service_def by meson
  have "filter (\<lambda>(chunk_id, ok, msg). ok) (map (\<lambda>r. (ir_chunk_id r, True, None :: string option)) rs) = map (\<lambda>r. (ir_chunk_id r, True, None)) rs"
    "filter (\<lambda>(chunk_id, ok, msg). \<not> ok) (map (\<lambda>r. (ir_chunk_id r, True, None :: string option)) rs) = []"
    by (simp_all add: filter_map comp_def)
  with check_sizes_fit [OF assms(3), of x] with_retry_finished [where fn = "sb_upload_documents B (sx_index_name A) (map (record_to_document fmt) rs)", OF w'(1), of grants A] w'(2,3)
  show ?thesis
    by (simp add: search_upsert_def Let_def comp_def)
qed

lemma search_query:
  assumes "search_service good contents fmt (sx_index_name A) B" and "good w"
  obtains cs where "with_retry grants A (sb_documents_for_doc_id B (sx_index_name A) d) w = (Inr (map (\<lambda>c.
      [(''chunk_id'', Some c), (''doc_version'', Some (ir_doc_version (the (contents w c))))]) cs), w)"
    "distinct cs" "set cs = doc_chunks (contents w) d"
proof -
  obtain cs where cs: "sb_documents_for_doc_id B (sx_index_name A) d w = (Finished (Inr (map (\<lambda>c.
      [(''chunk_id'', Some c), (''doc_version'', Some (ir_doc_version (the (contents w c))))]) cs)), w)"
    "distinct cs" "set cs = doc_chunks (contents w) d"
    using assms unfolding search_service_def by meson
  from that [OF with_retry_finished [where fn = "sb_documents_for_doc_id B (sx_index_name A) d", OF cs(1)] cs(2,3)] show thesis .
qed

lemma search_drop:
  assumes "search_service good contents fmt (sx_index_name A) B" and "good w"
  shows "\<exists>w'. search_delete_by_doc_id x grants B A d w = (Inr (int (card (doc_chunks (contents w) d))), w') \<and> good w' \<and>
    contents w' = drop_doc d (contents w)"
proof (rule search_query [OF assms, of grants d])
  fix cs
  assume cs: "with_retry grants A (sb_documents_for_doc_id B (sx_index_name A) d) w = (Inr (map (\<lambda>c.
      [(''chunk_id'', Some c), (''doc_version'', Some (ir_doc_version (the (contents w c))))]) cs), w)"
    "distinct cs" "set cs = doc_chunks (contents w) d"
  have card: "card (doc_chunks (contents w) d) = length cs" using cs(2,3) distinct_card by metis
  have rm: "contents w |` (- set cs) = drop_doc d (contents w)"
    using cs(3) by (auto simp: fun_eq_iff restrict_map_def drop_doc_def doc_chunks_def split: option.splits)
  have ids: "map_res (doc_chunk_id x) (map (\<lambda>c. [(''chunk_id'', Some c), (''doc_version'', Some (ir_doc_version (the (contents w c))))]) cs) =
      Inr (map id cs)"
    by (induction cs) (simp_all add: doc_chunk_id_def str_field_def)
  obtain w' where w': "sb_delete_documents B (sx_index_name A) cs w = (Finished (Inr ()), w')" "good w'" "contents w' = contents w |` (- set cs)"
    using assms unfolding search_service_def by meson
  show ?thesis
  proof (cases "cs = []")
    case True
    have "contents w |` (- set cs) = contents w" using True by (simp add: fun_eq_iff restrict_map_def)
    then have "drop_doc d (contents w) = contents w" using rm by (rule trans [OF sym, rotated])
    with True cs(1) assms(2) card show ?thesis by (simp add: search_delete_by_doc_id_def)
  next
    case False
    with cs(1) ids with_retry_finished [where fn = "sb_delete_documents B (sx_index_name A) cs", OF w'(1), of grants A] w'(2,3) rm card show ?thesis by (simp add: search_delete_by_doc_id_def)
  qed
qed

lemma search_port_contract:
  assumes "search_service good contents fmt (sx_index_name A) B"
  shows "chunk_index good contents (azure_search_port x fmt json_bytes grants B A)
    (\<lambda>r. json_bytes (record_to_document fmt r) \<le> MAX_RECORD_BYTES)"
proof
  fix w d rs
  assume g: "good w"
  let ?port = "azure_search_port x fmt json_bytes grants B A"
  show "\<exists>w'. xp_upsert ?port rs w = (Inr \<lparr>uo_succeeded = map ir_chunk_id rs, uo_failed = []\<rparr>, w') \<and> good w' \<and>
      contents w' = put_all rs (contents w)" if "\<forall>r \<in> set rs. json_bytes (record_to_document fmt r) \<le> MAX_RECORD_BYTES"
    using search_upload [OF assms g that] by (simp add: azure_search_port_def)
  show "\<exists>w'. xp_delete_by_doc_id ?port d w = (Inr (int (card (doc_chunks (contents w) d))), w') \<and> good w' \<and>
      contents w' = drop_doc d (contents w)"
    using search_drop [OF assms g] by (simp add: azure_search_port_def)
  obtain cs where cs: "with_retry grants A (sb_documents_for_doc_id B (sx_index_name A) d) w = (Inr (map (\<lambda>c.
      [(''chunk_id'', Some c), (''doc_version'', Some (ir_doc_version (the (contents w c))))]) cs), w)"
    "distinct cs" "set cs = doc_chunks (contents w) d" by (rule search_query [OF assms g])
  show "xp_count_by_doc_id ?port d w = (Inr (int (card (doc_chunks (contents w) d))), w)"
    using cs(1) distinct_card [OF cs(2)] cs(3) by (simp add: azure_search_port_def search_count_by_doc_id_def)
  show "xp_get_doc_version ?port d w = (Inr None, w)" if "doc_chunks (contents w) d = {}"
    using cs that by (simp add: azure_search_port_def search_get_doc_version_def)
  show "\<exists>c r. contents w c = Some r \<and> ir_doc_id r = d \<and> xp_get_doc_version ?port d w = (Inr (Some (ir_doc_version r)), w)"
    if ne: "doc_chunks (contents w) d \<noteq> {}"
  proof -
    obtain c cs' where c: "cs = c # cs'" using ne cs(3) by (cases cs) auto
    then have "c \<in> doc_chunks (contents w) d" using cs(3) by auto
    then obtain r where "contents w c = Some r" "ir_doc_id r = d" by (auto simp: doc_chunks_def)
    with cs(1) c show ?thesis by (intro exI [of _ c] exI [of _ r]) (simp add: azure_search_port_def search_get_doc_version_def str_field_def)
  qed
qed (simp add: azure_search_port_def)

section \<open>A reference service\<close>

text \<open>The inverse of \<open>record_to_document\<close>, and a service that keeps decoded documents in a dictionary.\<close>

fun json_str :: "'f json option \<Rightarrow> string option" where
  "json_str (Some (JStr s)) = Some s"
| "json_str _ = None"

fun json_int :: "'f json option \<Rightarrow> int option" where
  "json_int (Some (JInt i)) = Some i"
| "json_int _ = None"

fun json_strs :: "'f json option \<Rightarrow> string list option" where
  "json_strs (Some (JStrs s)) = Some s"
| "json_strs _ = None"

fun json_floats :: "'f json option \<Rightarrow> 'f list option" where
  "json_floats (Some (JFloats v)) = Some v"
| "json_floats _ = None"

definition document_to_record :: "(string \<Rightarrow> datetime option) \<Rightarrow> 'f document \<Rightarrow> 'f index_record option" where
  "document_to_record parse doc =
     (case (json_str (map_of doc ''chunk_id''), json_str (map_of doc ''doc_id''), json_str (map_of doc ''doc_version''),
            json_floats (map_of doc ''content_vector''), json_str (map_of doc ''content''), json_int (map_of doc ''position''),
            json_strs (map_of doc ''element_types''), json_str (map_of doc ''strategy''), json_strs (map_of doc ''allowed_groups''),
            json_str (map_of doc ''trust_tier''), json_str (map_of doc ''embedding_model''), json_int (map_of doc ''embedding_dimensions''),
            json_str (map_of doc ''config_version''), Option.bind (json_str (map_of doc ''indexed_at'')) parse) of
        (Some c, Some d, Some v, Some vec, Some t, Some p, Some ets, Some st, Some gs, Some tt, Some em, Some ed, Some cv, Some ia) \<Rightarrow>
          Some \<lparr>ir_chunk_id = c, ir_doc_id = d, ir_doc_version = v, ir_vector = vec, ir_text = t, ir_position = p,
            ir_section_path = json_str (map_of doc ''section_path''), ir_element_types = ets, ir_strategy = st, ir_allowed_groups = gs,
            ir_trust_tier = tt, ir_embedding_model = em, ir_embedding_dimensions = ed, ir_config_version = cv, ir_indexed_at = ia\<rparr>
      | _ \<Rightarrow> None)"

type_synonym 'f dict_service = "(string, 'f index_record) dict"

definition dict_backend :: "('f, 'f dict_service) search_backend" where
  "dict_backend = \<lparr>sb_get_index_schema = (\<lambda>n w. (Finished (Inr None), w)), sb_create_or_update_index = (\<lambda>i w. (Finished (Inr ()), w)),
     sb_upload_documents = (\<lambda>n docs w. let rs = List.map_filter (document_to_record py_int) docs in
       (Finished (Inr (map (\<lambda>r. (ir_chunk_id r, True, None)) rs)), fold (\<lambda>r. dict_set (ir_chunk_id r) r) rs w)),
     sb_delete_documents = (\<lambda>n cs w. (Finished (Inr ()), fold dict_pop cs w)),
     sb_documents_for_doc_id = (\<lambda>n d w. (Finished (Inr (map (\<lambda>c. [(''chunk_id'', Some c), (''doc_version'', Some (ir_doc_version (the (map_of w c))))])
       (filter (\<lambda>c. ir_doc_id (the (map_of w c)) = d) (map fst w)))), w))\<rparr>"

definition demo_search :: azure_search where
  "demo_search = \<lparr>sx_index_name = ''docs'', sx_hnsw_m = 4, sx_hnsw_ef_construction = 400, sx_hnsw_ef_search = 500, sx_timeout = ''30.0'', sx_max_attempts = 5\<rparr>"

definition demo_hang :: "(unit, nat) backend_call" where
  "demo_hang n = (TooLate, Suc n)"

lemma document_decodes: "\<forall>t. parse (fmt t) = Some t \<Longrightarrow> document_to_record parse (record_to_document fmt r) = Some r"
  by (simp add: document_to_record_def record_to_document_def split: option.split)

lemma map_filter_some: "(\<And>x. f (g x) = Some x) \<Longrightarrow> List.map_filter f (map g xs) = xs"
  by (induction xs) (simp_all add: List.map_filter_def)

lemma dict_ok_fold_set: "dict_ok w \<Longrightarrow> dict_ok (fold (\<lambda>r. dict_set (k r) r) rs w)"
  by (induction rs arbitrary: w) simp_all

lemma dict_backend_service: "search_service dict_ok map_of str_int name (dict_backend :: ('f, 'f dict_service) search_backend)"
proof -
  have dec: "List.map_filter (document_to_record py_int) (map (record_to_document str_int) rs) = rs" for rs :: "'f index_record list"
    by (rule map_filter_some) (simp add: document_decodes py_int_str_int)
  have put: "map_of (fold (\<lambda>r. dict_set (ir_chunk_id r) r) rs w) = put_all rs (map_of w)" for rs :: "'f index_record list" and w
    by (induction rs arbitrary: w) simp_all
  have del: "map_of (fold dict_pop cs w) = map_of w |` (- set cs)" for cs and w :: "'f dict_service"
    by (simp add: map_of_fold_dict_pop restrict_map_def fun_eq_iff)
  have ids: "set (filter (\<lambda>c. ir_doc_id (the (map_of w c)) = d) (map fst w)) = doc_chunks (map_of w) d" for w :: "'f dict_service" and d
  proof (rule set_eqI)
    fix c
    have "c \<in> set (map fst w) \<longleftrightarrow> (\<exists>r. map_of w c = Some r)" using map_of_eq_None_iff [of w c] by (cases "map_of w c") simp_all
    then show "c \<in> set (filter (\<lambda>c. ir_doc_id (the (map_of w c)) = d) (map fst w)) \<longleftrightarrow> c \<in> doc_chunks (map_of w) d"
      by (auto simp: doc_chunks_def)
  qed
  show ?thesis unfolding search_service_def
  proof (intro conjI allI impI)
    fix w :: "'f dict_service" and rs :: "'f index_record list" and cs d
    assume ok: "dict_ok w"
    show "\<exists>w'. sb_upload_documents dict_backend name (map (record_to_document str_int) rs) w =
        (Finished (Inr (map (\<lambda>r. (ir_chunk_id r, True, None)) rs)), w') \<and> dict_ok w' \<and> map_of w' = put_all rs (map_of w)"
      using dict_ok_fold_set [OF ok] by (simp add: dict_backend_def dec put)
    show "\<exists>w'. sb_delete_documents dict_backend name cs w = (Finished (Inr ()), w') \<and> dict_ok w' \<and> map_of w' = map_of w |` (- set cs)"
      using dict_ok_fold_dict_pop [OF ok] by (simp add: dict_backend_def del)
    show "\<exists>cs. sb_documents_for_doc_id dict_backend name d w = (Finished (Inr (map (\<lambda>c.
        [(''chunk_id'', Some c), (''doc_version'', Some (ir_doc_version (the (map_of w c))))]) cs)), w) \<and> distinct cs \<and>
        set cs = doc_chunks (map_of w) d"
    proof (intro exI conjI)
      show "set (filter (\<lambda>c. ir_doc_id (the (map_of w c)) = d) (map fst w)) = doc_chunks (map_of w) d" by (rule ids)
    qed (use ok in \<open>simp_all add: dict_backend_def\<close>)
  qed
qed

section \<open>Properties\<close>



text \<open>
  A record survives its encoding: from the document built of a record the record can be read back,
  when timestamps can, so nothing the indexer knows about a chunk is lost or confused on the way to
  the service.
\<close>

theorem document_roundtrip:
  assumes "\<forall>t. parse (fmt t) = Some t"
  shows "document_to_record parse (record_to_document fmt r) = Some r"
  by (rule document_decodes [OF assms])

theorem document_roundtrip_witness: "document_to_record py_int (record_to_document str_int (demo_record 9)) = Some (demo_record 9)"
  by (rule document_roundtrip) (simp add: py_int_str_int)

text \<open>
  What a call of the service costs and how it ends: at least one and at most \<open>max_attempts\<close> attempts are
  made; every attempt but the last failed with a timeout, a 429 or a status of 500 or more; such a
  failure is reported only when the attempts are used up, under the matching transient code; any
  other exception is passed on unchanged and never retried.
\<close>

theorem search_retries_bounded:
  fixes fn :: "('a, 'w) backend_call" and A :: azure_search and w :: 'w
  assumes "tenacity_grants grants"
  defines "call \<equiv> call_with_timeout A fn"
  shows "\<exists>k. int k < max 1 (sx_max_attempts A) \<and>
    (\<forall>j < k. \<exists>ex. fst (call (attempt_world call j w)) = Inl ex \<and> search_retryable ex) \<and>
    (case call (attempt_world call k w) of
       (Inr v, w') \<Rightarrow> with_retry grants A fn w = (Inr v, w')
     | (Inl ex, w') \<Rightarrow> with_retry grants A fn w = (Inl (map_backend_error ex), w') \<and>
         (if search_retryable ex
          then int k = max 1 (sx_max_attempts A) - 1 \<and> (\<exists>y. map_backend_error ex = StoreIndexerError y \<and> ie_error_code y =
            (case ex of HttpResponseError (Some s) t \<Rightarrow> if s = 429 then INDEXER_RATE_LIMITED else INDEXER_UPSTREAM_ERROR | _ \<Rightarrow> INDEXER_TIMEOUT))
          else \<exists>t. map_backend_error ex = StoreException t))"
proof -
  let ?n = "grants (sx_max_attempts A)"
  have n: "int ?n = max 1 (sx_max_attempts A) - 1" using assms(1) by (simp add: tenacity_grants_def)
  obtain k where k: "k \<le> ?n" "retry_loop ?n search_retryable call w = call (attempt_world call k w)"
    "\<forall>j < k. \<exists>ex. fst (call (attempt_world call j w)) = Inl ex \<and> search_retryable ex"
    "k = ?n \<or> (\<forall>ex. fst (call (attempt_world call k w)) = Inl ex \<longrightarrow> \<not> search_retryable ex)"
    using retry_loop_spec [of ?n search_retryable call w] by blast
  obtain res w' where c: "call (attempt_world call k w) = (res, w')" by fastforce
  have b: "with_retry grants A fn w = (map_sum map_backend_error id res, w')"
    unfolding with_retry_def k(2) [unfolded call_def] using c by (simp add: call_def)
  have m: "int k < max 1 (sx_max_attempts A)" using k(1) n by linarith
  show ?thesis
  proof (cases res)
    case (Inr v)
    with m k(3) b c show ?thesis by auto
  next
    case (Inl ex)
    have "(\<exists>y. map_backend_error ex = StoreIndexerError y \<and> ie_error_code y =
        (case ex of HttpResponseError (Some s) t \<Rightarrow> if s = 429 then INDEXER_RATE_LIMITED else INDEXER_UPSTREAM_ERROR | _ \<Rightarrow> INDEXER_TIMEOUT))"
      if "search_retryable ex"
      using that by (cases ex) (auto simp: indexer_exn_def map_status_to_error_code_def split: option.splits if_splits)
    moreover have "\<exists>t. map_backend_error ex = StoreException t" if "\<not> search_retryable ex"
      using that by (cases ex) (auto split: option.splits)
    moreover have "int k = max 1 (sx_max_attempts A) - 1" if "search_retryable ex" using k(4) c Inl n that by simp
    ultimately have "if search_retryable ex
        then int k = max 1 (sx_max_attempts A) - 1 \<and> (\<exists>y. map_backend_error ex = StoreIndexerError y \<and> ie_error_code y =
          (case ex of HttpResponseError (Some s) t \<Rightarrow> if s = 429 then INDEXER_RATE_LIMITED else INDEXER_UPSTREAM_ERROR | _ \<Rightarrow> INDEXER_TIMEOUT))
        else \<exists>t. map_backend_error ex = StoreException t"
      unfolding if_bool_eq_conj by blast
    moreover have "call (attempt_world call k w) = (Inl ex, w')" "with_retry grants A fn w = (Inl (map_backend_error ex), w')"
      using b c Inl by simp_all
    ultimately have "case call (attempt_world call k w) of
       (Inr v, w') \<Rightarrow> with_retry grants A fn w = (Inr v, w')
     | (Inl ex, w') \<Rightarrow> with_retry grants A fn w = (Inl (map_backend_error ex), w') \<and>
         (if search_retryable ex
          then int k = max 1 (sx_max_attempts A) - 1 \<and> (\<exists>y. map_backend_error ex = StoreIndexerError y \<and> ie_error_code y =
            (case ex of HttpResponseError (Some s) t \<Rightarrow> if s = 429 then INDEXER_RATE_LIMITED else INDEXER_UPSTREAM_ERROR | _ \<Rightarrow> INDEXER_TIMEOUT))
          else \<exists>t. map_backend_error ex = StoreException t)"
      by (simp only: prod.case sum.case)
    with m k(3) show ?thesis by - (rule exI [of _ k], intro conjI; assumption)
  qed
qed

theorem search_retries_bounded_witness:
  "\<exists>k. int k < 5 \<and> (\<forall>j < k. \<exists>ex. fst (call_with_timeout demo_search demo_hang (attempt_world (call_with_timeout demo_search demo_hang) j 0)) = Inl ex)"
proof -
  have g: "tenacity_grants (\<lambda>m. nat (m - 1))" by (simp add: tenacity_grants_def)
  have m: "max 1 (sx_max_attempts demo_search) = 5" by (simp add: demo_search_def)
  obtain k where "int k < max 1 (sx_max_attempts demo_search)" "\<forall>j < k. \<exists>ex. fst (call_with_timeout demo_search demo_hang
      (attempt_world (call_with_timeout demo_search demo_hang) j 0)) = Inl ex \<and> search_retryable ex"
    using search_retries_bounded [OF g, where A = demo_search and fn = demo_hang and w = 0] by (elim exE conjE)
  then show ?thesis unfolding m by (intro exI [of _ k] conjI) auto
qed

text \<open>
  Which failures of the adapter are final: an oversized record is refused before the service is called
  and makes the indexer fail the document; every other \<open>IndexerError\<close> an upsert, a deletion or a version
  query raises has a code the indexer retries.
\<close>

theorem search_error_codes:
  "(if \<exists>r \<in> set rs. json_bytes (record_to_document fmt r) > MAX_RECORD_BYTES
    then \<exists>y. search_upsert x fmt json_bytes grants B A rs w = (Inl (StoreIndexerError y), w) \<and> ie_error_code y = INDEXER_RECORD_TOO_LARGE
    else case search_upsert x fmt json_bytes grants B A rs w of
      (Inl (StoreIndexerError y), w') \<Rightarrow> ie_error_code y \<in> transient_upsert_codes | _ \<Rightarrow> True) \<and>
   (case search_delete_by_doc_id x grants B A d w of
      (Inl (StoreIndexerError y), w') \<Rightarrow> ie_error_code y \<in> transient_upsert_codes | _ \<Rightarrow> True) \<and>
   (case search_get_doc_version grants B A d w of
      (Inl (StoreIndexerError y), w') \<Rightarrow> ie_error_code y \<in> transient_upsert_codes | _ \<Rightarrow> True)"
proof (intro conjI)
  show "if \<exists>r \<in> set rs. json_bytes (record_to_document fmt r) > MAX_RECORD_BYTES
    then \<exists>y. search_upsert x fmt json_bytes grants B A rs w = (Inl (StoreIndexerError y), w) \<and> ie_error_code y = INDEXER_RECORD_TOO_LARGE
    else case search_upsert x fmt json_bytes grants B A rs w of
      (Inl (StoreIndexerError y), w') \<Rightarrow> ie_error_code y \<in> transient_upsert_codes | _ \<Rightarrow> True"
  proof (cases "\<exists>r \<in> set rs. json_bytes (record_to_document fmt r) > MAX_RECORD_BYTES")
    case True
    with check_sizes_large [OF True, of x] show ?thesis by (auto simp: search_upsert_def Let_def)
  next
    case False
    then have "\<forall>r \<in> set rs. json_bytes (record_to_document fmt r) \<le> MAX_RECORD_BYTES" by (meson not_less)
    from check_sizes_fit [OF this, of x] False show ?thesis
      by (auto simp: search_upsert_def Let_def transient_upsert_codes_def dest: with_retry_raises split: prod.splits sum.splits store_exn.splits)
  qed
  have ids: "map_res (doc_chunk_id x) docs \<noteq> Inl (StoreIndexerError y)" for docs y
    by (induction docs) (auto simp: bind_res_eq_Inl doc_chunk_id_def split: option.splits)
  show "case search_delete_by_doc_id x grants B A d w of
      (Inl (StoreIndexerError y), w') \<Rightarrow> ie_error_code y \<in> transient_upsert_codes | _ \<Rightarrow> True"
    by (auto simp: search_delete_by_doc_id_def transient_upsert_codes_def ids dest: with_retry_raises split: prod.splits sum.splits store_exn.splits if_splits)
  show "case search_get_doc_version grants B A d w of
      (Inl (StoreIndexerError y), w') \<Rightarrow> ie_error_code y \<in> transient_upsert_codes | _ \<Rightarrow> True"
  proof -
    obtain a b where q: "with_retry grants A (sb_documents_for_doc_id B (sx_index_name A) d) w = (a, b)" by fastforce
    then show ?thesis
      by (cases a) (auto simp: search_get_doc_version_def transient_upsert_codes_def dest: with_retry_raises split: store_exn.splits)
  qed
qed

end
