(* ===== verification/Parsers.thy ===== *)
theory Parsers
  imports Complex_Main "HOL-Library.Multiset" Chunk_Strategies Adapter_Support
begin

text \<open>
  Reading documents, \<open>src/vestibule/analyzer/model.py\<close>, \<open>detect.py\<close> and \<open>parsers/\<close>. The content of a
  document is a \<open>string\<close> of bytes. What comes from outside is a parameter: the module \<open>pymupdf\<close> (\<open>None\<close>
  when it cannot be imported, otherwise its \<open>open\<close>, which gives the pages with what each of their
  methods returns or raises), and the call of Azure Document Intelligence. Coordinates and font sizes
  are exact numbers: the rounding of the centre of a box is left out. The entry \<open>bbox\<close> of an element's
  metadata is read in \<open>pymupdf_parser.py\<close> only; it is kept beside the element instead of inside it.
\<close>

section \<open>Data\<close>

abbreviation ANALYZER_UNSUPPORTED_TYPE :: string where "ANALYZER_UNSUPPORTED_TYPE \<equiv> ''ANALYZER_UNSUPPORTED_TYPE''"
abbreviation ANALYZER_NO_PARSER :: string where "ANALYZER_NO_PARSER \<equiv> ''ANALYZER_NO_PARSER''"
abbreviation ANALYZER_DEPENDENCY_MISSING :: string where "ANALYZER_DEPENDENCY_MISSING \<equiv> ''ANALYZER_DEPENDENCY_MISSING''"
abbreviation PARSER_TIMEOUT :: string where "PARSER_TIMEOUT \<equiv> ''PARSER_TIMEOUT''"
abbreviation DOCINT_RATE_LIMITED :: string where "DOCINT_RATE_LIMITED \<equiv> ''DOCINT_RATE_LIMITED''"
abbreviation DOCINT_UPSTREAM_ERROR :: string where "DOCINT_UPSTREAM_ERROR \<equiv> ''DOCINT_UPSTREAM_ERROR''"
abbreviation PARSER_INTERNAL :: string where "PARSER_INTERNAL \<equiv> ''PARSER_INTERNAL''"

datatype detected_type = DIGITAL_PDF | SCANNED_PDF | DOCX | IMAGE | UNSUPPORTED

fun detected_type_value :: "detected_type \<Rightarrow> string" where
  "detected_type_value DIGITAL_PDF = ''digital_pdf''"
| "detected_type_value SCANNED_PDF = ''scanned_pdf''"
| "detected_type_value DOCX = ''docx''"
| "detected_type_value IMAGE = ''image''"
| "detected_type_value UNSUPPORTED = ''unsupported''"

record analyzer_error =
  an_doc_id :: string
  an_reason :: string
  an_error_code :: string
  an_detected_type :: "detected_type option"

definition analyzer_exn :: "string \<Rightarrow> string \<Rightarrow> string \<Rightarrow> detected_type option \<Rightarrow> analyzer_error" where
  "analyzer_exn doc_id reason code dt = \<lparr>an_doc_id = doc_id, an_reason = reason, an_error_code = code, an_detected_type = dt\<rparr>"

text \<open>What a parser, or the detection, can raise.\<close>

datatype parser_exn = ParserAnalyzerError analyzer_error | ParserException string

section \<open>What PyMuPDF gives\<close>

type_synonym bbox = "rat \<times> rat \<times> rat \<times> rat"

datatype pdf_error = PdfRuntimeError string | PdfValueError string | PdfOtherError string

record text_span =
  sp_text :: "string option"
  sp_size :: "rat option"

type_synonym text_line = "text_span list option"

record text_block =
  bk_lines :: "text_line list option"
  bk_bbox :: "bbox option"

record pdf_table =
  pt_bbox :: bbox
  pt_row_count :: int
  pt_col_count :: int
  pt_rows :: "string option list list"

record pdf_page =
  pg_text :: "pdf_error + string"
  pg_tables :: "pdf_error + pdf_table list"
  pg_blocks :: "pdf_error + text_block list"

record pdf_document =
  pd_needs_pass :: bool
  pd_pages :: "pdf_page list"

type_synonym pymupdf = "string \<Rightarrow> pdf_error + pdf_document"

section \<open>Type detection\<close>

definition PDF_MAGIC :: string where "PDF_MAGIC = ''%PDF-''"
definition DOCX_MAGIC :: string where "DOCX_MAGIC = ''PK'' @ [CHR 0x03, CHR 0x04]"
definition IMAGE_MAGICS :: "string list" where
  "IMAGE_MAGICS = [CHR 0x89 # ''PNG'' @ [CHR 0x0D, CHR 0x0A, CHR 0x1A, CHR 0x0A], [CHR 0xFF, CHR 0xD8, CHR 0xFF], ''GIF87a'', ''GIF89a'']"

definition pdf_error_text :: "pdf_error \<Rightarrow> string" where
  "pdf_error_text e = (case e of PdfRuntimeError t \<Rightarrow> t | PdfValueError t \<Rightarrow> t | PdfOtherError t \<Rightarrow> t)"

text \<open>
  The sub-type of a PDF. \<open>RuntimeError\<close> and \<open>ValueError\<close> of the library mean that it is not supported;
  any other exception, and the division by zero of an average over no page, propagate. (The em dash
  of the message is written as a hyphen.)
\<close>

definition probe_failure :: "pdf_error \<Rightarrow> parser_exn + detected_type" where
  "probe_failure e = (case e of
       PdfRuntimeError t \<Rightarrow> Inr UNSUPPORTED
     | PdfValueError t \<Rightarrow> Inr UNSUPPORTED
     | PdfOtherError t \<Rightarrow> Inl (ParserException t))"

definition detect_pdf_subtype ::
    "pymupdf option \<Rightarrow> string \<Rightarrow> string \<Rightarrow> int \<Rightarrow> int \<Rightarrow> parser_exn + detected_type" where
  "detect_pdf_subtype pymupdf doc_id data probe_pages min_chars_per_page =
     (case pymupdf of
        None \<Rightarrow> Inl (ParserAnalyzerError (analyzer_exn doc_id
          (''pymupdf could not be imported to sub-type this PDF; it is a core dependency of vestibule '' @
           ''- reinstall with `pip install -e .` (or `pip install vestibule`) to restore it'') ANALYZER_DEPENDENCY_MISSING None))
      | Some open_pdf \<Rightarrow>
          (case open_pdf data of
             Inl e \<Rightarrow> probe_failure e
           | Inr doc \<Rightarrow>
               if pd_needs_pass doc \<or> pd_pages doc = [] then Inr UNSUPPORTED
               else let pages_to_probe = min probe_pages (int (length (pd_pages doc))) in
                 (case map_res (\<lambda>page. map_sum id length (pg_text page)) (take (nat pages_to_probe) (pd_pages doc)) of
                    Inl e \<Rightarrow> probe_failure e
                  | Inr lengths \<Rightarrow>
                      if pages_to_probe = 0 then Inl (ParserException ''division by zero'')
                      else if (of_nat (sum_list lengths) :: rat) / of_int pages_to_probe < of_int min_chars_per_page
                      then Inr SCANNED_PDF else Inr DIGITAL_PDF)))"

definition detect_type :: "pymupdf option \<Rightarrow> string \<Rightarrow> string \<Rightarrow> int \<Rightarrow> int \<Rightarrow> parser_exn + detected_type" where
  "detect_type pymupdf doc_id data probe_pages min_chars_per_page =
     (let header = take 16 data in
      if startswith header PDF_MAGIC then detect_pdf_subtype pymupdf doc_id data probe_pages min_chars_per_page
      else if startswith header DOCX_MAGIC then Inr DOCX
      else if list_ex (startswith header) IMAGE_MAGICS then Inr IMAGE
      else Inr UNSUPPORTED)"

section \<open>PyMuPDFParser\<close>

definition block_text :: "text_block \<Rightarrow> string" where
  "block_text block = str_join [CHR 0x0A]
     (map (\<lambda>line. concat (map (\<lambda>span. case sp_text span of None \<Rightarrow> [] | Some t \<Rightarrow> t) (case line of None \<Rightarrow> [] | Some spans \<Rightarrow> spans)))
       (case bk_lines block of None \<Rightarrow> [] | Some lines \<Rightarrow> lines))"

definition block_max_font_size :: "text_block \<Rightarrow> rat" where
  "block_max_font_size block =
     (let sizes = concat (map (\<lambda>line. map (\<lambda>span. case sp_size span of None \<Rightarrow> 0 | Some s \<Rightarrow> s) (case line of None \<Rightarrow> [] | Some spans \<Rightarrow> spans))
        (case bk_lines block of None \<Rightarrow> [] | Some lines \<Rightarrow> lines))
      in case sizes of [] \<Rightarrow> 0 | s # ss \<Rightarrow> foldl max s ss)"

type_synonym placed = "element \<times> bbox option"

definition block_element :: "int \<Rightarrow> text_block \<Rightarrow> placed option" where
  "block_element page_index block =
     (let txt = block_text block in
      if py_strip txt = [] then None
      else Some (\<lparr>el_type = (if block_max_font_size block \<ge> 14 then HEADING else PARAGRAPH), el_text = txt,
        el_metadata = [(''page'', MInt page_index)]\<rparr>, bk_bbox block))"

text \<open>The cells of \<open>table.extract()\<close>, row by row.\<close>

definition table_cells :: "string option list list \<Rightarrow> table_cell list" where
  "table_cells rows = concat (map (\<lambda>(row_index, row). map (\<lambda>(column_index, content).
     \<lparr>tc_row_index = int row_index, tc_column_index = int column_index, tc_content = content\<rparr>) (enumerate 0 row)) (enumerate 0 rows))"

definition pymupdf_table_element :: "int \<Rightarrow> pdf_table \<Rightarrow> placed" where
  "pymupdf_table_element page_index table =
     (let cells = table_cells (pt_rows table) in
      (\<lparr>el_type = TABLE, el_text = str_join [CHR 0x0A] (map (\<lambda>c. case tc_content c of None \<Rightarrow> ''None'' | Some s \<Rightarrow> s) cells),
        el_metadata = [(''page'', MInt page_index), (''row_count'', MInt (pt_row_count table)),
          (''column_count'', MInt (pt_col_count table)), (''cells'', MCells cells)]\<rparr>, Some (pt_bbox table)))"

definition center_in_any_bbox :: "bbox option \<Rightarrow> bbox option list \<Rightarrow> bool" where
  "center_in_any_bbox box table_bboxes = (case box of
       None \<Rightarrow> False
     | Some (x0, y0, x1, y1) \<Rightarrow>
         (let center_x = (x0 + x1) / 2; center_y = (y0 + y1) / 2 in
          list_ex (\<lambda>t. case t of None \<Rightarrow> False
            | Some (tx0, ty0, tx1, ty1) \<Rightarrow> tx0 \<le> center_x \<and> center_x \<le> tx1 \<and> ty0 \<le> center_y \<and> center_y \<le> ty1) table_bboxes))"

definition bbox_top :: "bbox option \<Rightarrow> rat" where
  "bbox_top box = (case box of None \<Rightarrow> 0 | Some (x0, y0, x1, y1) \<Rightarrow> y0)"

definition page_elements :: "int \<Rightarrow> pdf_page \<Rightarrow> pdf_error + placed list" where
  "page_elements page_index page =
     bind_res (pg_tables page) (\<lambda>tables.
     bind_res (pg_blocks page) (\<lambda>blocks.
       let table_elements = map (pymupdf_table_element page_index) tables;
           table_bboxes = map snd table_elements;
           text_elements = filter (\<lambda>element. \<not> center_in_any_bbox (snd element) table_bboxes)
             (List.map_filter (block_element page_index) blocks)
       in Inr (sort_key (\<lambda>element. bbox_top (snd element)) (table_elements @ text_elements))))"

definition pymupdf_parse :: "pymupdf \<Rightarrow> string \<Rightarrow> parser_exn + element list" where
  "pymupdf_parse open_pdf data =
     map_sum (\<lambda>e. ParserException (pdf_error_text e)) (\<lambda>pages. map fst (concat pages))
       (bind_res (open_pdf data) (\<lambda>doc.
          map_res (\<lambda>(page_index, page). page_elements (int page_index) page) (enumerate 0 (pd_pages doc))))"

definition import_pymupdf :: "pymupdf option \<Rightarrow> parser_exn + pymupdf" where
  "import_pymupdf pymupdf = (case pymupdf of
       Some open_pdf \<Rightarrow> Inr open_pdf
     | None \<Rightarrow> Inl (ParserAnalyzerError (analyzer_exn []
         (''pymupdf could not be imported to construct PyMuPDFParser; it is a core dependency of vestibule '' @
          ''- reinstall with `pip install -e .` (or `pip install vestibule`) to restore it'') ANALYZER_DEPENDENCY_MISSING None)))"

section \<open>DocumentIntelligenceParser\<close>

datatype docint_exn = DocintHttpError "int option" string | DocintException string

record docint_table =
  dt_row_count :: int
  dt_column_count :: int
  dt_cells :: "(int \<times> int \<times> string) list"

record docint_result =
  dr_paragraphs :: "(string \<times> string option) list option"
  dr_tables :: "docint_table list option"

definition docint_status_code :: "int option \<Rightarrow> string option" where
  "docint_status_code status_code =
     (if status_code = Some 429 then Some DOCINT_RATE_LIMITED
      else case status_code of
        Some s \<Rightarrow> if 500 \<le> s then Some DOCINT_UPSTREAM_ERROR else None
      | None \<Rightarrow> None)"

text \<open>\<open>heading_roles\<close> are the roles \<open>ParagraphRole.TITLE\<close> and \<open>SECTION_HEADING\<close> of the SDK.\<close>

definition paragraph_element :: "string list \<Rightarrow> string \<times> string option \<Rightarrow> element" where
  "paragraph_element heading_roles = (\<lambda>(content, role).
     \<lparr>el_type = (if (\<exists>r \<in> set heading_roles. role = Some r) then HEADING else PARAGRAPH), el_text = content,
      el_metadata = [(''role'', case role of None \<Rightarrow> MNone | Some r \<Rightarrow> MStr r)]\<rparr>)"

definition docint_table_element :: "docint_table \<Rightarrow> element" where
  "docint_table_element table =
     \<lparr>el_type = TABLE, el_text = str_join [CHR 0x0A] (map (\<lambda>(r, c, content). content) (dt_cells table)),
      el_metadata = [(''row_count'', MInt (dt_row_count table)), (''column_count'', MInt (dt_column_count table)),
        (''cells'', MCells (map (\<lambda>(r, c, content). \<lparr>tc_row_index = r, tc_column_index = c, tc_content = Some content\<rparr>) (dt_cells table)))]\<rparr>"

definition elements_from_result :: "string list \<Rightarrow> docint_result \<Rightarrow> element list" where
  "elements_from_result heading_roles result =
     map (paragraph_element heading_roles) (case dr_paragraphs result of None \<Rightarrow> [] | Some ps \<Rightarrow> ps) @
     map docint_table_element (case dr_tables result of None \<Rightarrow> [] | Some ts \<Rightarrow> ts)"

definition docint_parse ::
    "string list \<Rightarrow> (string \<Rightarrow> 'w \<Rightarrow> (docint_exn, docint_result, 'w) outcome) \<Rightarrow> string \<Rightarrow> string \<Rightarrow> 'w \<Rightarrow> (parser_exn, element list, 'w) outcome" where
  "docint_parse heading_roles analyze_document doc_id data w =
     (case analyze_document data w of
        (Inr result, w') \<Rightarrow> (Inr (elements_from_result heading_roles result), w')
      | (Inl (DocintException t), w') \<Rightarrow> (Inl (ParserException t), w')
      | (Inl (DocintHttpError status t), w') \<Rightarrow>
          (case docint_status_code status of
             None \<Rightarrow> (Inl (ParserException t), w')
           | Some code \<Rightarrow> (Inl (ParserAnalyzerError (analyzer_exn doc_id t code None)), w')))"

section \<open>Lemmas\<close>

lemma startswith_header: "length m \<le> 16 \<Longrightarrow> startswith (take 16 data) m \<longleftrightarrow> startswith data m"
  by (simp add: startswith_def min_absorb1)

abbreviation cell_text :: "string option \<Rightarrow> string" where
  "cell_text c \<equiv> (case c of None \<Rightarrow> [] | Some s \<Rightarrow> s)"

text \<open>Filling one row of the grid, then all of them.\<close>

lemma fill_row:
  assumes "r < length grid" and "grid ! r = pre @ replicate (length row) []"
  shows "grid_fill x (map (\<lambda>(c, content). \<lparr>tc_row_index = int r, tc_column_index = int c, tc_content = content\<rparr>)
      (enumerate (length pre) row) @ rest) grid = grid_fill x rest (grid[r := pre @ map cell_text row])"
  using assms
proof (induction row arbitrary: pre grid)
  case Nil
  then have "grid[r := pre] = grid" by (simp add: list_update_same_conv)
  then show ?case by simp
next
  case (Cons content row)
  let ?g = "grid[r := pre @ cell_text content # replicate (length row) []]"
  have g: "?g ! r = (pre @ [cell_text content]) @ replicate (length row) []" "r < length ?g" using Cons.prems by simp_all
  have i: "py_index (length grid) (int r) = Some r" "py_index (length (grid ! r)) (int (length pre)) = Some (length pre)"
    using Cons.prems by (simp_all add: py_index_def)
  have u: "(grid ! r)[length pre := cell_text content] = pre @ cell_text content # replicate (length row) []"
    using Cons.prems(2) by (simp add: list_update_append)
  from Cons.IH [OF g(2,1)] i u show ?case by simp
qed

lemma fill_rows:
  assumes "grid = pre @ replicate (length rows) (replicate n [])" and "\<forall>row \<in> set rows. length row = n"
  shows "grid_fill x (concat (map (\<lambda>(r, row). map (\<lambda>(c, content). \<lparr>tc_row_index = int r, tc_column_index = int c, tc_content = content\<rparr>)
      (enumerate 0 row)) (enumerate (length pre) rows))) grid = Inr (pre @ map (map cell_text) rows)"
  using assms
proof (induction rows arbitrary: pre grid)
  case Nil
  then show ?case by simp
next
  case (Cons row rows)
  let ?r = "length pre"
  have g: "?r < length grid" "grid ! ?r = [] @ replicate (length row) []" using Cons.prems by (simp_all add: nth_append)
  have "grid[?r := [] @ map cell_text row] = (pre @ [map cell_text row]) @ replicate (length rows) (replicate n [])"
    using Cons.prems(1) by (simp add: list_update_append)
  moreover have "\<forall>row \<in> set rows. length row = n" using Cons.prems(2) by simp
  ultimately have ih: "grid_fill x (concat (map (\<lambda>(r, row). map (\<lambda>(c, content). \<lparr>tc_row_index = int r, tc_column_index = int c, tc_content = content\<rparr>)
      (enumerate 0 row)) (enumerate (length (pre @ [map cell_text row])) rows))) (grid[?r := [] @ map cell_text row]) =
      Inr ((pre @ [map cell_text row]) @ map (map cell_text) rows)"
    by (rule Cons.IH)
  have f: "grid_fill x (map (\<lambda>(c, content). \<lparr>tc_row_index = int ?r, tc_column_index = int c, tc_content = content\<rparr>) (enumerate 0 row) @ rest) grid =
      grid_fill x rest (grid[?r := [] @ map cell_text row])" for rest
    using fill_row [OF g] by simp
  from ih f show ?case by simp
qed

lemma Max_enumerate: "rows \<noteq> [] \<Longrightarrow> Max (int ` set (map fst (enumerate 0 rows))) = int (length rows) - 1"
proof -
  assume ne: "rows \<noteq> []"
  have "int ` set (map fst (enumerate 0 rows)) = int ` {0..<length rows}" by simp
  moreover have "Max (int ` {0..<length rows}) = int (Max {0..<length rows})"
    using ne by (intro mono_Max_commute [symmetric]) (auto simp: mono_def)
  moreover have "Max {0..<length rows} = length rows - 1" using ne by (intro Max_eqI) auto
  ultimately show ?thesis using ne by (simp add: of_nat_diff Suc_leI)
qed

lemma table_cells_bounds:
  assumes "rows \<noteq> []" and "\<forall>row \<in> set rows. length row = n" and "0 < n"
  shows "tc_row_index ` set (table_cells rows) = int ` set (map fst (enumerate 0 rows))"
    and "tc_column_index ` set (table_cells rows) = int ` set (map fst (enumerate 0 (hd rows)))"
proof -
  have mem: "c \<in> set (table_cells rows) \<longleftrightarrow> (\<exists>i j. i < length rows \<and> j < n \<and> c = \<lparr>tc_row_index = int i, tc_column_index = int j, tc_content = rows ! i ! j\<rparr>)" for c
    using assms(2) by (force simp: table_cells_def in_set_enumerate_eq set_conv_nth [of rows] nth_mem)
  have ne: "\<exists>i. i < length rows" "\<exists>j. j < n" using assms(1,3) by auto
  show "tc_row_index ` set (table_cells rows) = int ` set (map fst (enumerate 0 rows))"
    using ne(2) by (fastforce simp: image_def Bex_def mem)
  show "tc_column_index ` set (table_cells rows) = int ` set (map fst (enumerate 0 (hd rows)))"
    using ne(1) assms(1,2) by (fastforce simp: image_def Bex_def mem)
qed

lemma table_cells_nonempty: "rows \<noteq> [] \<Longrightarrow> \<forall>row \<in> set rows. length row = n \<Longrightarrow> 0 < n \<Longrightarrow> table_cells rows \<noteq> []"
  using table_cells_bounds(1) [of rows n] by auto

lemma probe_lengths:
  "(\<And>page. page \<in> set pages \<Longrightarrow> \<exists>t. pg_text page = Inr t) \<Longrightarrow>
   map_res (\<lambda>page. map_sum id length (pg_text page)) pages = Inr (map (\<lambda>page. length (projr (pg_text page))) pages)"
  by (rule map_res_Inr) fastforce

section \<open>A sample document\<close>

text \<open>One page with a table and a text block, and a library that opens everything as this document.\<close>

definition demo_page :: pdf_page where
  "demo_page = \<lparr>pg_text = Inr ''Title'', pg_tables = Inr [\<lparr>pt_bbox = (0, 20, 10, 40), pt_row_count = 2, pt_col_count = 2,
       pt_rows = [[Some ''a'', None], [Some ''b'', Some ''c'']]\<rparr>],
     pg_blocks = Inr [\<lparr>bk_lines = Some [Some [\<lparr>sp_text = Some ''Title'', sp_size = Some 18\<rparr>]], bk_bbox = Some (0, 0, 10, 10)\<rparr>,
       \<lparr>bk_lines = Some [Some [\<lparr>sp_text = Some ''b'', sp_size = None\<rparr>]], bk_bbox = Some (0, 30, 4, 34)\<rparr>]\<rparr>"

definition demo_document :: pdf_document where
  "demo_document = \<lparr>pd_needs_pass = False, pd_pages = [demo_page]\<rparr>"

definition demo_pdf :: pymupdf where
  "demo_pdf data = Inr demo_document"

section \<open>Properties\<close>

text \<open>
  What detection decides: a document that starts with the PDF mark is sub-typed, one that starts with
  the ZIP mark is a \<open>DOCX\<close>, one that starts with one of the four image marks an \<open>IMAGE\<close>, anything else
  is unsupported; so nothing but a PDF can raise. A PDF that opens, has pages and needs no password is
  scanned exactly when the text of the probed pages averages below the threshold.
\<close>

theorem detection_classifies:
  "(\<not> startswith data PDF_MAGIC \<longrightarrow> detect_type py d data n m =
      Inr (if startswith data DOCX_MAGIC then DOCX else if \<exists>g \<in> set IMAGE_MAGICS. startswith data g then IMAGE else UNSUPPORTED)) \<and>
   (\<forall>open_pdf doc. startswith data PDF_MAGIC \<longrightarrow> py = Some open_pdf \<longrightarrow> open_pdf data = Inr doc \<longrightarrow> \<not> pd_needs_pass doc \<longrightarrow>
      pd_pages doc \<noteq> [] \<longrightarrow> 0 < n \<longrightarrow> (\<forall>page \<in> set (pd_pages doc). \<exists>t. pg_text page = Inr t) \<longrightarrow>
      detect_type py d data n m = Inr (if (\<Sum>page \<leftarrow> take (nat n) (pd_pages doc). int (length (projr (pg_text page)))) <
          m * min n (int (length (pd_pages doc))) then SCANNED_PDF else DIGITAL_PDF))"
proof (intro conjI impI allI)
  have l: "length PDF_MAGIC \<le> 16" "length DOCX_MAGIC \<le> 16" "\<forall>g \<in> set IMAGE_MAGICS. length g \<le> 16"
    by (simp_all add: PDF_MAGIC_def DOCX_MAGIC_def IMAGE_MAGICS_def)
  show "detect_type py d data n m =
      Inr (if startswith data DOCX_MAGIC then DOCX else if \<exists>g \<in> set IMAGE_MAGICS. startswith data g then IMAGE else UNSUPPORTED)"
    if "\<not> startswith data PDF_MAGIC"
    using that l by (simp add: detect_type_def Let_def startswith_header list_ex_iff)
  fix open_pdf doc
  assume h: "startswith data PDF_MAGIC" "py = Some open_pdf" "open_pdf data = Inr doc" "\<not> pd_needs_pass doc" "pd_pages doc \<noteq> []" "0 < n"
    "\<forall>page \<in> set (pd_pages doc). \<exists>t. pg_text page = Inr t"
  let ?k = "min n (int (length (pd_pages doc)))"
  let ?ps = "take (nat ?k) (pd_pages doc)"
  have k: "0 < ?k" "?k \<noteq> 0" using h(5,6) by (simp_all add: min_def)
  have t: "take (nat n) (pd_pages doc) = ?ps" by (cases "n \<le> int (length (pd_pages doc))") simp_all
  have p: "map_res (\<lambda>page. map_sum id length (pg_text page)) ?ps = Inr (map (\<lambda>page. length (projr (pg_text page))) ?ps)"
    by (rule probe_lengths) (use h(7) in \<open>auto dest: in_set_takeD\<close>)
  have s: "int (sum_list (map (\<lambda>page. length (projr (pg_text page))) ps)) = (\<Sum>page \<leftarrow> ps. int (length (projr (pg_text page))))" for ps
    by (induction ps) simp_all
  have "(of_nat (sum_list (map (\<lambda>page. length (projr (pg_text page))) ?ps)) :: rat) / of_int ?k < of_int m \<longleftrightarrow>
      int (sum_list (map (\<lambda>page. length (projr (pg_text page))) ?ps)) < m * ?k"
    using k by (subst pos_divide_less_eq) (simp, metis of_int_less_iff of_int_mult of_int_of_nat_eq)
  then show "detect_type py d data n m = Inr (if (\<Sum>page \<leftarrow> take (nat n) (pd_pages doc). int (length (projr (pg_text page)))) <
      m * min n (int (length (pd_pages doc))) then SCANNED_PDF else DIGITAL_PDF)"
    using h k p l unfolding t s by (simp add: detect_type_def detect_pdf_subtype_def Let_def startswith_header)
qed

theorem detection_classifies_witness:
  "detect_type (Some demo_pdf) [] (PDF_MAGIC @ ''1.7'') 3 50 = Inr SCANNED_PDF"
  using detection_classifies [of "PDF_MAGIC @ ''1.7''" "Some demo_pdf" "[]" 3 50]
  by (simp add: startswith_def demo_pdf_def demo_document_def demo_page_def)

text \<open>
  The elements of a page read from top to bottom, and are exactly the detected tables and the
  non-blank text blocks whose centre lies in no table, each once: a table's own text is not repeated
  as prose and no other text is lost.
\<close>

theorem page_elements_correct:
  assumes "page_elements i page = Inr es"
  shows "\<exists>tables blocks. pg_tables page = Inr tables \<and> pg_blocks page = Inr blocks \<and>
    sorted (map (\<lambda>e. bbox_top (snd e)) es) \<and>
    mset es = mset (map (pymupdf_table_element i) tables) +
      mset (map (\<lambda>b. the (block_element i b)) (filter (\<lambda>b. py_strip (block_text b) \<noteq> [] \<and>
        \<not> center_in_any_bbox (bk_bbox b) (map (\<lambda>t. Some (pt_bbox t)) tables)) blocks))"
proof -
  from assms obtain tables blocks where tb: "pg_tables page = Inr tables" "pg_blocks page = Inr blocks"
    and es: "es = sort_key (\<lambda>e. bbox_top (snd e)) (map (pymupdf_table_element i) tables @
      filter (\<lambda>e. \<not> center_in_any_bbox (snd e) (map snd (map (pymupdf_table_element i) tables))) (List.map_filter (block_element i) blocks))"
    by (auto simp: page_elements_def Let_def)
  have boxes: "map snd (map (pymupdf_table_element i) tables) = map (\<lambda>t. Some (pt_bbox t)) tables"
    by (simp add: pymupdf_table_element_def Let_def)
  have "filter (\<lambda>e. \<not> center_in_any_bbox (snd e) bs) (List.map_filter (block_element i) blocks) =
      map (\<lambda>b. the (block_element i b)) (filter (\<lambda>b. py_strip (block_text b) \<noteq> [] \<and> \<not> center_in_any_bbox (bk_bbox b) bs) blocks)" for bs
    by (induction blocks) (simp_all add: List.map_filter_def block_element_def Let_def)
  from this [of "map (\<lambda>t. Some (pt_bbox t)) tables"] tb show ?thesis
    unfolding es boxes by (intro exI [of _ tables] exI [of _ blocks]) simp
qed

theorem page_elements_correct_witness:
  "\<exists>es. page_elements 0 demo_page = Inr es \<and> sorted (map (\<lambda>e. bbox_top (snd e)) es) \<and> length es = 2"
proof -
  obtain es where es: "page_elements 0 demo_page = Inr es" by (simp add: page_elements_def demo_page_def Let_def)
  have "length es = 2" using es
    by (auto simp: page_elements_def demo_page_def Let_def List.map_filter_def block_element_def block_text_def py_strip_def is_space_def
        center_in_any_bbox_def pymupdf_table_element_def)
  with page_elements_correct [OF es] es show ?thesis by blast
qed

text \<open>
  A table survives from the parser to the chunk: the cells of a rectangular table that PyMuPDF extracted
  are laid out by the chunker's table strategy as the Markdown table of exactly those rows, in order,
  an empty cell for a cell without content; the strategy never fails on them.
\<close>

theorem extracted_table_markdown:
  assumes "pt_rows t = first # rest" and "\<forall>row \<in> set (pt_rows t). length row = n" and "0 < n"
  shows "table_body x (fst (pymupdf_table_element i t)) = Inr (str_join [CHR 0x0A]
    ([markdown_row (map cell_text first), markdown_row (replicate n ''---'')] @ map (\<lambda>row. markdown_row (map cell_text row)) rest))"
proof -
  let ?rows = "pt_rows t"
  have ne: "?rows \<noteq> []" and hd: "hd ?rows = first" "length first = n" "first \<noteq> []" using assms by auto
  note b = table_cells_bounds [OF ne assms(2,3)]
  have m: "nat (Max (set (map tc_row_index (table_cells ?rows))) + 1) = length ?rows"
    "nat (Max (set (map tc_column_index (table_cells ?rows))) + 1) = n"
    using Max_enumerate [OF ne] Max_enumerate [OF hd(3)] hd(2) unfolding set_map b hd(1) by simp_all
  have "grid_fill x (table_cells ?rows) (replicate (length ?rows) (replicate n [])) = Inr (map (map cell_text) ?rows)"
    using fill_rows [of "replicate (length ?rows) (replicate n [])" "[]" ?rows n x] assms(2) by (simp add: table_cells_def)
  with m assms(1) have "markdown_table x (table_cells ?rows) = Inr (str_join [CHR 0x0A]
      ([markdown_row (map cell_text first), markdown_row (replicate n ''---'')] @ map markdown_row (map (map cell_text) rest)))"
    by (simp add: markdown_table_def Let_def)
  with table_cells_nonempty [OF ne assms(2,3)] show ?thesis
    by (simp add: table_body_def pymupdf_table_element_def Let_def comp_def)
qed

theorem extracted_table_markdown_witness:
  "table_body (\<lambda>_. []) (fst (pymupdf_table_element 0 \<lparr>pt_bbox = (0, 20, 10, 40), pt_row_count = 2, pt_col_count = 2,
       pt_rows = [[Some ''a'', None], [Some ''b'', Some ''c'']]\<rparr>)) =
     Inr (''| a |  |'' @ [CHR 0x0A] @ ''| --- | --- |'' @ [CHR 0x0A] @ ''| b | c |'')"
  using extracted_table_markdown [of "\<lparr>pt_bbox = (0, 20, 10, 40), pt_row_count = 2, pt_col_count = 2,
       pt_rows = [[Some ''a'', None], [Some ''b'', Some ''c'']]\<rparr>" "[Some ''a'', None]" "[[Some ''b'', Some ''c'']]" 2 "\<lambda>_. []" 0]
  by (simp add: markdown_row_def numeral_eq_Suc)

end
