(* ===== verification/Analyzer.thy ===== *)
theory Analyzer
  imports Parsers Envelope Stage_Worker
begin

text \<open>
  The analyzer, \<open>src/vestibule/analyzer/registry.py\<close> and \<open>analyzer.py\<close>: dispatch to a parser by detected type
  and the ledger writes of the analysis stage. A parser runs in a world \<open>'w\<close> and either finishes in
  time, with elements or an exception, or does not. \<open>analyze\<close> writes the ledger twice with the parsing
  in between: the calls of other workers on the ledger in that time are the argument \<open>between\<close>.
\<close>

section \<open>Registry\<close>

type_synonym 'w parser_adapter = "arrival_envelope \<Rightarrow> string \<Rightarrow> 'w \<Rightarrow> (parser_exn + element list) timed \<times> 'w"
type_synonym 'w parser_registry = "(detected_type, 'w parser_adapter) dict"

definition parser_register :: "detected_type \<Rightarrow> 'w parser_adapter \<Rightarrow> 'w parser_registry \<Rightarrow> 'w parser_registry" where
  "parser_register dt parser registry = dict_set dt parser registry"

definition parser_get :: "'w parser_registry \<Rightarrow> detected_type \<Rightarrow> 'w parser_adapter option" where
  "parser_get registry dt = dict_get registry dt"

section \<open>The orchestrator\<close>

text \<open>\<open>az_timeout\<close> is the configured timeout as it is printed.\<close>

record analyzer_config =
  az_probe_pages :: int
  az_min_chars_per_page :: int
  az_timeout :: string

definition default_analyzer_config :: analyzer_config where
  "default_analyzer_config = \<lparr>az_probe_pages = 3, az_min_chars_per_page = 50, az_timeout = ''240.0''\<rparr>"

text \<open>What \<open>analyze\<close> can raise: its own exception, one of the ledger, or an unmapped one of the detection.\<close>

datatype analyze_exn = AnalyzerError analyzer_error | ALedgerError ledger_exn | AException string

definition analyzer_terminalize ::
    "datetime \<Rightarrow> string \<Rightarrow> string \<Rightarrow> string \<Rightarrow> detected_type option \<Rightarrow> ledger_store \<Rightarrow> analyze_exn \<times> ledger_store" where
  "analyzer_terminalize now doc_id error_code reason dt L =
     (case ledger_transition now doc_id FAILED FAILED (Some error_code) (Some reason) None L of
        (Inl e, L') \<Rightarrow> (ALedgerError e, L')
      | (Inr _, L') \<Rightarrow> (AnalyzerError (analyzer_exn doc_id reason error_code dt), L'))"

definition analyzer_self_transition ::
    "datetime \<Rightarrow> string \<Rightarrow> string \<Rightarrow> string \<Rightarrow> detected_type \<Rightarrow> ledger_store \<Rightarrow> analyze_exn \<times> ledger_store" where
  "analyzer_self_transition now doc_id error_code reason dt L =
     (case ledger_transition now doc_id ANALYZING ANALYZING (Some error_code) (Some reason) None L of
        (Inl e, L') \<Rightarrow> (ALedgerError e, L')
      | (Inr _, L') \<Rightarrow> (AnalyzerError (analyzer_exn doc_id reason error_code (Some dt)), L'))"

definition parse_with_recovery ::
    "analyzer_config \<Rightarrow> 'w parser_adapter \<Rightarrow> datetime \<Rightarrow> arrival_envelope \<Rightarrow> string \<Rightarrow> detected_type \<Rightarrow> ledger_store \<times> 'w \<Rightarrow>
     (analyze_exn, element list, ledger_store \<times> 'w) outcome" where
  "parse_with_recovery config parser now envelope data dt = (\<lambda>(L, w).
     (case parser envelope data w of
        (Finished (Inr elements), w') \<Rightarrow> (Inr elements, (L, w'))
      | (TooLate, w') \<Rightarrow>
          (let (e, L') = analyzer_self_transition now (ae_doc_id envelope) PARSER_TIMEOUT
             (''parser did not return within '' @ az_timeout config @ ''s'') dt L in (Inl e, (L', w')))
      | (Finished (Inl (ParserAnalyzerError x)), w') \<Rightarrow>
          (let (e, L') = analyzer_self_transition now (ae_doc_id envelope) (an_error_code x) (an_reason x) dt L in (Inl e, (L', w')))
      | (Finished (Inl (ParserException t)), w') \<Rightarrow>
          (let (e, L') = analyzer_self_transition now (ae_doc_id envelope) PARSER_INTERNAL t dt L in (Inl e, (L', w')))))"

definition detect_and_parse ::
    "pymupdf option \<Rightarrow> analyzer_config \<Rightarrow> 'w parser_registry \<Rightarrow> datetime \<Rightarrow> arrival_envelope \<Rightarrow> string \<Rightarrow> ledger_store \<times> 'w \<Rightarrow>
     (analyze_exn, element list, ledger_store \<times> 'w) outcome" where
  "detect_and_parse pymupdf config registry now envelope data = (\<lambda>(L, w).
     let doc_id = ae_doc_id envelope in
     (case detect_type pymupdf doc_id data (az_probe_pages config) (az_min_chars_per_page config) of
        Inl (ParserAnalyzerError x) \<Rightarrow>
          (let (e, L') = analyzer_terminalize now doc_id (an_error_code x) (an_reason x) None L in (Inl e, (L', w)))
      | Inl (ParserException t) \<Rightarrow> (Inl (AException t), (L, w))
      | Inr dt \<Rightarrow>
          if dt = UNSUPPORTED
          then (let (e, L') = analyzer_terminalize now doc_id ANALYZER_UNSUPPORTED_TYPE
                  ''document could not be classified as a supported type'' (Some dt) L in (Inl e, (L', w)))
          else (case parser_get registry dt of
              None \<Rightarrow> (let (e, L') = analyzer_terminalize now doc_id ANALYZER_NO_PARSER
                (''no parser registered for detected type '' @ detected_type_value dt) (Some dt) L in (Inl e, (L', w)))
            | Some parser \<Rightarrow> parse_with_recovery config parser now envelope data dt (L, w))))"

definition analyzer_analyze ::
    "pymupdf option \<Rightarrow> analyzer_config \<Rightarrow> 'w parser_registry \<Rightarrow> datetime \<Rightarrow> datetime \<Rightarrow> ledger_op list \<Rightarrow> arrival_envelope \<Rightarrow> string \<Rightarrow>
     ledger_store \<times> 'w \<Rightarrow> (analyze_exn, element list, ledger_store \<times> 'w) outcome" where
  "analyzer_analyze pymupdf config registry now later between envelope data = (\<lambda>(L, w).
     let doc_id = ae_doc_id envelope in
     (case ledger_transition now doc_id ANALYZING ANALYZING None None None L of
        (Inl e, L1) \<Rightarrow>
          (case e of
             LedgerTransitionInvalid x \<Rightarrow>
               if is_benign_concurrent_loss (ti_observed_row x) ANALYZING ANALYZING = Some True
               then detect_and_parse pymupdf config registry later envelope data (ledger_run L1 between, w)
               else (Inl (ALedgerError e), (L1, w))
           | _ \<Rightarrow> (Inl (ALedgerError e), (L1, w)))
      | (Inr _, L1) \<Rightarrow>
          (case detect_and_parse pymupdf config registry later envelope data (ledger_run L1 between, w) of
             (Inl e, S) \<Rightarrow> (Inl e, S)
           | (Inr elements, (L2, w')) \<Rightarrow>
               (case triaged CHUNKING (ledger_transition later doc_id CHUNKING CHUNKING None None None L2) of
                  (Inl e, L3) \<Rightarrow> (Inl (ALedgerError e), (L3, w'))
                | (Inr _, L3) \<Rightarrow> (Inr elements, (L3, w'))))))"

section \<open>The verdict on a document\<close>

text \<open>The part of a call that does not depend on the ledger.\<close>

datatype verdict = Elements "element list" | Permanent string string "detected_type option" | Retry string string detected_type | Crash string

definition parser_verdict :: "analyzer_config \<Rightarrow> detected_type \<Rightarrow> (parser_exn + element list) timed \<Rightarrow> verdict" where
  "parser_verdict config dt out = (case out of
       Finished (Inr els) \<Rightarrow> Elements els
     | TooLate \<Rightarrow> Retry PARSER_TIMEOUT (''parser did not return within '' @ az_timeout config @ ''s'') dt
     | Finished (Inl (ParserAnalyzerError x)) \<Rightarrow> Retry (an_error_code x) (an_reason x) dt
     | Finished (Inl (ParserException t)) \<Rightarrow> Retry PARSER_INTERNAL t dt)"

definition analysis ::
    "pymupdf option \<Rightarrow> analyzer_config \<Rightarrow> 'w parser_registry \<Rightarrow> arrival_envelope \<Rightarrow> string \<Rightarrow> 'w \<Rightarrow> verdict \<times> 'w" where
  "analysis pymupdf config registry e data w =
     (case detect_type pymupdf (ae_doc_id e) data (az_probe_pages config) (az_min_chars_per_page config) of
        Inl (ParserAnalyzerError x) \<Rightarrow> (Permanent (an_error_code x) (an_reason x) None, w)
      | Inl (ParserException t) \<Rightarrow> (Crash t, w)
      | Inr UNSUPPORTED \<Rightarrow> (Permanent ANALYZER_UNSUPPORTED_TYPE ''document could not be classified as a supported type'' (Some UNSUPPORTED), w)
      | Inr dt \<Rightarrow> (case parser_get registry dt of
          None \<Rightarrow> (Permanent ANALYZER_NO_PARSER (''no parser registered for detected type '' @ detected_type_value dt) (Some dt), w)
        | Some parser \<Rightarrow> (case parser e data w of (out, w') \<Rightarrow> (parser_verdict config dt out, w'))))"

fun deliver :: "datetime \<Rightarrow> string \<Rightarrow> verdict \<Rightarrow> ledger_store \<Rightarrow> (analyze_exn, element list, ledger_store) outcome" where
  "deliver now d (Elements els) L = (Inr els, L)"
| "deliver now d (Crash t) L = (Inl (AException t), L)"
| "deliver now d (Permanent c m dt) L = map_prod Inl id (analyzer_terminalize now d c m dt L)"
| "deliver now d (Retry c m dt) L = map_prod Inl id (analyzer_self_transition now d c m dt L)"

lemma detect_and_parse_verdict:
  "detect_and_parse py config reg now e data (L, w) =
     (case analysis py config reg e data w of (v, w') \<Rightarrow> (case deliver now (ae_doc_id e) v L of (r, L') \<Rightarrow> (r, (L', w'))))"
proof (cases "detect_type py (ae_doc_id e) data (az_probe_pages config) (az_min_chars_per_page config)")
  case (Inl x)
  then show ?thesis by (cases x) (simp_all add: detect_and_parse_def analysis_def Let_def case_prod_beta)
next
  case (Inr dt)
  show ?thesis
  proof (cases "dt = UNSUPPORTED")
    case True
    with Inr show ?thesis by (simp add: detect_and_parse_def analysis_def Let_def case_prod_beta)
  next
    case False
    show ?thesis
    proof (cases "parser_get reg dt")
      case None
      with Inr False show ?thesis by (cases dt) (simp_all add: detect_and_parse_def analysis_def Let_def case_prod_beta)
    next
      case (Some p)
      obtain out w' where o: "p e data w = (out, w')" by fastforce
      show ?thesis
      proof (cases out)
        case TooLate
        with Inr False Some o show ?thesis
          by (cases dt) (simp_all add: detect_and_parse_def parse_with_recovery_def analysis_def parser_verdict_def Let_def case_prod_beta)
      next
        case (Finished res)
        show ?thesis
        proof (cases res)
          case (Inr els)
          with Finished \<open>detect_type _ _ _ _ _ = Inr dt\<close> False Some o show ?thesis
            by (cases dt) (simp_all add: detect_and_parse_def parse_with_recovery_def analysis_def parser_verdict_def Let_def case_prod_beta)
        next
          case (Inl x)
          with Finished \<open>detect_type _ _ _ _ _ = Inr dt\<close> False Some o show ?thesis
            by (cases dt; cases x) (simp_all add: detect_and_parse_def parse_with_recovery_def analysis_def parser_verdict_def Let_def case_prod_beta)
        qed
      qed
    qed
  qed
qed

lemma analyze_entered:
  assumes "ledger_transition now (ae_doc_id e) ANALYZING ANALYZING None None None L = (Inr r, L1)" and "analysis py config reg e data w = (v, w')"
  shows "analyzer_analyze py config reg now later between e data (L, w) =
    (case deliver later (ae_doc_id e) v (ledger_run L1 between) of
       (Inl er, L2) \<Rightarrow> (Inl er, (L2, w'))
     | (Inr els, L2) \<Rightarrow> (case triaged CHUNKING (ledger_transition later (ae_doc_id e) CHUNKING CHUNKING None None None L2) of
         (Inl er, L3) \<Rightarrow> (Inl (ALedgerError er), (L3, w')) | (Inr _, L3) \<Rightarrow> (Inr els, (L3, w'))))"
  using assms by (simp add: analyzer_analyze_def detect_and_parse_verdict Let_def split: prod.split sum.split)

lemma analyze_lost:
  assumes "ledger_transition now (ae_doc_id e) ANALYZING ANALYZING None None None L = (Inl (LedgerTransitionInvalid x), L1)"
    and "is_benign_concurrent_loss (ti_observed_row x) ANALYZING ANALYZING = Some True" and "analysis py config reg e data w = (v, w')"
  shows "analyzer_analyze py config reg now later between e data (L, w) =
    (case deliver later (ae_doc_id e) v (ledger_run L1 between) of (r, L2) \<Rightarrow> (r, (L2, w')))"
  using assms by (simp add: analyzer_analyze_def detect_and_parse_verdict Let_def)

lemma deliver_writes: "\<exists>ops. snd (deliver now d v L) = ledger_run L ops \<and> ops_for d ops"
proof (cases v)
  case (Permanent c m dt)
  then show ?thesis
    by (intro exI [of _ "[TransitionOp now d FAILED FAILED (Some c) (Some m) None]"])
      (auto simp: analyzer_terminalize_def split: prod.splits sum.splits)
next
  case (Retry c m dt)
  then show ?thesis
    by (intro exI [of _ "[TransitionOp now d ANALYZING ANALYZING (Some c) (Some m) None]"])
      (auto simp: analyzer_self_transition_def split: prod.splits sum.splits)
qed (auto intro: exI [of _ "[]"])

text \<open>Every call is a run of the ledger on its own document, when nobody interferes.\<close>

lemma analyze_writes:
  "\<exists>ops. fst (snd (analyzer_analyze py config reg now later [] e data (L, w))) = ledger_run L ops \<and> ops_for (ae_doc_id e) ops"
proof -
  let ?d = "ae_doc_id e"
  obtain t L1 where t: "ledger_transition now ?d ANALYZING ANALYZING None None None L = (t, L1)" by fastforce
  then have L1: "L1 = ledger_run L [TransitionOp now ?d ANALYZING ANALYZING None None None]" by simp
  obtain v w' where v: "analysis py config reg e data w = (v, w')" by fastforce
  obtain ops where ops: "snd (deliver later ?d v L1) = ledger_run L1 ops" "ops_for ?d ops" using deliver_writes by blast
  have e1: "\<exists>as. L1 = ledger_run L as \<and> ops_for ?d as" 
    using L1 by (intro exI [of _ "[TransitionOp now ?d ANALYZING ANALYZING None None None]"]) simp
  have e2: "\<exists>as. snd (deliver later ?d v L1) = ledger_run L as \<and> ops_for ?d as"
    using ops L1 by (intro exI [of _ "TransitionOp now ?d ANALYZING ANALYZING None None None # ops"]) simp
  have e3: "\<exists>as. snd (triaged CHUNKING (ledger_transition later ?d CHUNKING CHUNKING None None None (snd (deliver later ?d v L1)))) =
      ledger_run L as \<and> ops_for ?d as"
    using ops L1 by (intro exI [of _ "TransitionOp now ?d ANALYZING ANALYZING None None None # ops @
      [TransitionOp later ?d CHUNKING CHUNKING None None None]"]) simp
  show ?thesis
  proof (cases t)
    case (Inr r)
    with t have t': "ledger_transition now ?d ANALYZING ANALYZING None None None L = (Inr r, L1)" by simp
    obtain dr L2 where d: "deliver later ?d v (ledger_run L1 []) = (dr, L2)" by fastforce
    obtain tr L3 where tr: "triaged CHUNKING (ledger_transition later ?d CHUNKING CHUNKING None None None L2) = (tr, L3)" by fastforce
    show ?thesis unfolding analyze_entered [OF t' v] d using d tr e2 e3 by (cases dr; cases tr) simp_all
  next
    case (Inl x)
    show ?thesis
    proof (cases "\<exists>y. x = LedgerTransitionInvalid y \<and> is_benign_concurrent_loss (ti_observed_row y) ANALYZING ANALYZING = Some True")
      case True
      then obtain y where y: "x = LedgerTransitionInvalid y" "is_benign_concurrent_loss (ti_observed_row y) ANALYZING ANALYZING = Some True" by blast
      with Inl t have t': "ledger_transition now ?d ANALYZING ANALYZING None None None L = (Inl (LedgerTransitionInvalid y), L1)" by simp
      show ?thesis unfolding analyze_lost [OF t' y(2) v] using e2 by (simp add: case_prod_beta)
    next
      case False
      then have "analyzer_analyze py config reg now later [] e data (L, w) = (Inl (ALedgerError x), (L1, w))"
        using t Inl by (auto simp: analyzer_analyze_def Let_def split: ledger_exn.splits)
      with e1 show ?thesis by simp
    qed
  qed
qed

interpretation analyzer: stage_worker
  "\<lambda>(py, config, reg, now, later, e, data, w) L.
     case analyzer_analyze py config reg now later [] e data (L, w) of (res, (L', w')) \<Rightarrow> ((res, w'), L')"
  "\<lambda>(py, config, reg, now, later, e, data, w). ae_doc_id e"
proof unfold_locales
  fix i :: "pymupdf option \<times> analyzer_config \<times> 'w parser_registry \<times> datetime \<times> datetime \<times> arrival_envelope \<times> string \<times> 'w" and L
  obtain py config reg now later e data w where i: "i = (py, config, reg, now, later, e, data, w)" by (cases i) auto
  show "\<exists>ops. snd ((\<lambda>(py, config, reg, now, later, e, data, w) L.
      case analyzer_analyze py config reg now later [] e data (L, w) of (res, (L', w')) \<Rightarrow> ((res, w'), L')) i L) = ledger_run L ops \<and>
    ops_for ((\<lambda>(py, config, reg, now, later, e, data, w). ae_doc_id e) i) ops"
    unfolding i prod.case using analyze_writes [of py config reg now later e data L w] by (simp add: case_prod_beta)
qed

section \<open>A sample worker\<close>

definition demo_arrival_envelope :: arrival_envelope where
  "demo_arrival_envelope = \<lparr>ae_doc_id = demo_id, ae_source = ''blob:hr'', ae_blob_path = ''a.pdf'', ae_vertical = None,
     ae_scenario_id = None, ae_allowed_groups = [], ae_trust_tier = INTERNAL, ae_content_hash = demo_id, ae_received_at = 0\<rparr>"

definition demo_row :: "status \<Rightarrow> ledger_row" where
  "demo_row s = next_row 3 demo_id (fresh_row 0 demo_id \<lparr>es_config_version = ''7''\<rparr>) s s None None None"

lemma demo_row_ledger:
  assumes "s \<noteq> FAILED"
  shows "ledger_ok (ledger_put demo_id (demo_row s) (ledger_init 100))"
    and "ledger_get (ledger_put demo_id (demo_row s) (ledger_init 100)) (ae_doc_id demo_arrival_envelope) = Some (demo_row s)"
    and "lr_status (demo_row s) = s"
proof -
  have "row_ok demo_id (demo_row s)" using assms by (simp add: demo_row_def row_ok_def next_attempts_def next_error_fields_def fresh_row_def)
  then show "ledger_ok (ledger_put demo_id (demo_row s) (ledger_init 100))" by (intro ledger_ok_put ledger_ok_init)
qed (simp_all add: demo_row_def demo_arrival_envelope_def)

text \<open>A parser of scanned documents that finds one paragraph, and the type detection on a scan.\<close>

definition demo_registry :: "unit parser_registry" where
  "demo_registry = parser_register SCANNED_PDF (\<lambda>e data w. (Finished (Inr [\<lparr>el_type = PARAGRAPH, el_text = ''p'', el_metadata = []\<rparr>]), w)) []"

lemma demo_analysis:
  "analysis (Some demo_pdf) default_analyzer_config demo_registry demo_arrival_envelope (PDF_MAGIC @ ''1.7'') () =
     (Elements [\<lparr>el_type = PARAGRAPH, el_text = ''p'', el_metadata = []\<rparr>], ())"
  "analysis py default_analyzer_config demo_registry demo_arrival_envelope ''text'' () =
     (Permanent ANALYZER_UNSUPPORTED_TYPE ''document could not be classified as a supported type'' (Some UNSUPPORTED), ())"
  by (simp_all add: analysis_def detect_type_def detect_pdf_subtype_def startswith_def PDF_MAGIC_def DOCX_MAGIC_def IMAGE_MAGICS_def
      demo_pdf_def demo_document_def demo_page_def default_analyzer_config_def parser_get_def demo_registry_def parser_register_def
      parser_verdict_def Let_def)

section \<open>Properties\<close>

text \<open>
  C16. What \<open>analyze\<close> does for a document in \<open>PENDING\<close> or \<open>ANALYZING\<close>, by the verdict on its content: elements
  move it to \<open>CHUNKING\<close> and are returned; an unsupported type, a missing parser or a missing dependency
  fails it with that code; a parser's timeout or exception leaves it in \<open>ANALYZING\<close> with the code
  recorded and the attempts raised by two, one for the entry and one for the failure; an unmapped
  exception of the detection escapes with the row in \<open>ANALYZING\<close>. No other row changes.
\<close>

theorem analyze_ledger_outcomes:
  assumes "ledger_ok L" and "ledger_get L (ae_doc_id e) = Some r" and "lr_status r = PENDING \<or> lr_status r = ANALYZING"
    and "analysis py config reg e data w = (v, w1)"
  shows "\<exists>res L' r'. analyzer_analyze py config reg now later [] e data (L, w) = (res, (L', w1)) \<and>
    ledger_get L' = (ledger_get L)(ae_doc_id e \<mapsto> r') \<and>
    (case v of
       Elements els \<Rightarrow> res = Inr els \<and> lr_status r' = CHUNKING \<and> lr_attempts r' = 1 \<and> lr_last_error_code r' = None
     | Permanent c m dt \<Rightarrow> res = Inl (AnalyzerError (analyzer_exn (ae_doc_id e) m c dt)) \<and> lr_status r' = FAILED \<and> lr_last_error_code r' = Some c
     | Retry c m dt \<Rightarrow> res = Inl (AnalyzerError (analyzer_exn (ae_doc_id e) m c (Some dt))) \<and> lr_status r' = ANALYZING \<and>
         lr_last_error_code r' = Some c \<and> lr_attempts r' = (if lr_status r = PENDING then 2 else lr_attempts r + 2)
     | Crash t \<Rightarrow> res = Inl (AException t) \<and> lr_status r' = ANALYZING)"
proof -
  let ?d = "ae_doc_id e"
  let ?r1 = "next_row now ?d r ANALYZING ANALYZING None None None"
  have e1: "fsm_edge (lr_status r) ANALYZING" using assms(3) by auto
  have t: "ledger_transition now ?d ANALYZING ANALYZING None None None L = (Inr ?r1, ledger_put ?d ?r1 L)"
    using transition_edge [OF assms(1,2) e1, of None now None None] by simp
  have ok: "ledger_ok (ledger_put ?d ?r1 L)"
    using ledger_ok_step [OF assms(1), of "TransitionOp now ?d ANALYZING ANALYZING None None None"] t by simp
  have r1: "ledger_get (ledger_put ?d ?r1 L) ?d = Some ?r1" "lr_status ?r1 = ANALYZING" by simp_all
  have a1: "lr_attempts ?r1 = (if lr_status r = PENDING then 1 else lr_attempts r + 1)" using assms(3) by auto
  have edges: "fsm_edge (lr_status ?r1) CHUNKING" "fsm_edge (lr_status ?r1) FAILED" "fsm_edge (lr_status ?r1) ANALYZING" by simp_all
  note w = edges [THEN transition_edge [OF ok r1(1)]]
  show ?thesis
  proof (cases v)
    case (Elements els)
    with analyze_entered [OF t assms(4), of later "[]"] w(1) [of None later None None] show ?thesis by (auto simp: fun_eq_iff)
  next
    case (Permanent c m dt)
    with analyze_entered [OF t assms(4), of later "[]"] w(2) [of "Some c" later "Some m" None] show ?thesis
      by (auto simp: analyzer_terminalize_def fun_eq_iff)
  next
    case (Retry c m dt)
    with analyze_entered [OF t assms(4), of later "[]"] w(3) [of "Some c" later "Some m" None] a1 show ?thesis
      by (auto simp: analyzer_self_transition_def fun_eq_iff)
  next
    case (Crash x)
    with analyze_entered [OF t assms(4), of later "[]"] show ?thesis by (auto simp: fun_eq_iff)
  qed
qed

theorem analyze_ledger_outcomes_witness:
  "\<exists>res L' r'. analyzer_analyze (Some demo_pdf) default_analyzer_config demo_registry 5 6 [] demo_arrival_envelope (PDF_MAGIC @ ''1.7'')
       (ledger_put demo_id (demo_row PENDING) (ledger_init 100), ()) = (res, (L', ())) \<and>
     res = Inr [\<lparr>el_type = PARAGRAPH, el_text = ''p'', el_metadata = []\<rparr>] \<and> ledger_get L' demo_id = Some r' \<and> lr_status r' = CHUNKING"
proof -
  have "PENDING \<noteq> FAILED" by simp
  note l = demo_row_ledger [OF this]
  have s: "lr_status (demo_row PENDING) = PENDING \<or> lr_status (demo_row PENDING) = ANALYZING" using l(3) by simp
  from analyze_ledger_outcomes [OF l(1,2) s demo_analysis(1), of 5 6] show ?thesis
    by (auto simp: demo_arrival_envelope_def)
qed

text \<open>
  A straggler, on a document that a duplicate worker already carried to \<open>CHUNKING\<close> or further. When its
  own analysis succeeds, the elements are returned and nothing is written. When the content turns out
  to be unsupported, or a parser is missing in this worker, it fails the document that the other
  worker had advanced, unless that is already \<open>INDEXED\<close>; when its parser fails, the exception of the
  ledger reaches the caller in place of the analyzer's.
\<close>

theorem analyze_straggler:
  assumes "ledger_ok L" and "ledger_get L (ae_doc_id e) = Some r" and "lr_status r \<in> {CHUNKING, EMBEDDING, INDEXING, INDEXED}"
    and "analysis py config reg e data w = (v, w1)"
  shows "\<exists>res L'. analyzer_analyze py config reg now later [] e data (L, w) = (res, (L', w1)) \<and>
    (case v of
       Elements els \<Rightarrow> res = Inr els \<and> L' = L
     | Crash t \<Rightarrow> res = Inl (AException t) \<and> L' = L
     | Permanent c m dt \<Rightarrow>
         if lr_status r = INDEXED then L' = L \<and> (\<exists>t. res = Inl (ALedgerError (LedgerTransitionInvalid t)))
         else res = Inl (AnalyzerError (analyzer_exn (ae_doc_id e) m c dt)) \<and>
           (\<exists>r'. ledger_get L' = (ledger_get L)(ae_doc_id e \<mapsto> r') \<and> lr_status r' = FAILED \<and> lr_last_error_code r' = Some c)
     | Retry c m dt \<Rightarrow> L' = L \<and> (\<exists>t. res = Inl (ALedgerError (LedgerTransitionInvalid t))))"
proof -
  let ?d = "ae_doc_id e"
  have n: "\<not> fsm_edge (lr_status r) ANALYZING" using assms(3) by auto
  obtain x where x: "ledger_transition now ?d ANALYZING ANALYZING None None None L = (Inl (LedgerTransitionInvalid x), L)" "ti_observed_row x = Some r"
    using mem.transition_off_edge [OF assms(1,2) n] by blast
  have b: "is_benign_concurrent_loss (ti_observed_row x) ANALYZING ANALYZING = Some True"
    using is_benign_row [of r ANALYZING] ledger_okD [OF assms(1,2)] assms(3) x(2) by (auto simp: row_ok_def)
  note a = analyze_lost [OF x(1) b assms(4), of later "[]"]
  show ?thesis
  proof (cases v)
    case (Retry c m dt)
    with a mem.transition_off_edge [OF assms(1,2) n, of later "Some c" "Some m" None] show ?thesis
      by (fastforce simp: analyzer_self_transition_def)
  next
    case (Permanent c m dt)
    show ?thesis
    proof (cases "lr_status r = INDEXED")
      case True
      then have "\<not> fsm_edge (lr_status r) FAILED" by simp
      from mem.transition_off_edge [OF assms(1,2) this, of later "Some c" "Some m" None] a True Permanent show ?thesis
        by (fastforce simp: analyzer_terminalize_def)
    next
      case False
      then have "fsm_edge (lr_status r) FAILED" using assms(3) by auto
      from transition_edge [OF assms(1,2) this, of "Some c" later "Some m" None] a False Permanent show ?thesis
        by (fastforce simp: analyzer_terminalize_def fun_eq_iff)
    qed
  qed (use a in simp_all)
qed

theorem analyze_straggler_witness:
  "\<exists>res L' r'. analyzer_analyze None default_analyzer_config demo_registry 5 6 [] demo_arrival_envelope ''text''
       (ledger_put demo_id (demo_row EMBEDDING) (ledger_init 100), ()) = (res, (L', ())) \<and>
     ledger_get L' demo_id = Some r' \<and> lr_status r' = FAILED"
proof -
  have "EMBEDDING \<noteq> FAILED" by simp
  note l = demo_row_ledger [OF this]
  have s: "lr_status (demo_row EMBEDDING) \<in> {CHUNKING, EMBEDDING, INDEXING, INDEXED}" using l(3) by simp
  from analyze_straggler [OF l(1,2) s demo_analysis(2), of None 5 6] l(3) show ?thesis
    by (auto simp: demo_arrival_envelope_def)
qed

text \<open>
  Interference between the two writes of a successful analysis: whatever calls other workers make on the
  ledger while the parser runs, the second write looks at the row as it then is. Still in \<open>ANALYZING\<close>, or
  moved to \<open>CHUNKING\<close> by a duplicate, it is written to \<open>CHUNKING\<close>; further along the pipeline it is left as
  it is; in both cases the elements are returned. Out of the pipeline (failed, requeued, parked,
  archived) the write is refused and the exception of the ledger is raised.
\<close>

theorem analyze_interleaved:
  assumes "ledger_ok L" and "ledger_get L (ae_doc_id e) = Some r" and "lr_status r = PENDING \<or> lr_status r = ANALYZING"
    and "analysis py config reg e data w = (Elements els, w1)"
  shows "\<exists>L2 r2. L2 = ledger_run L (TransitionOp now (ae_doc_id e) ANALYZING ANALYZING None None None # between) \<and>
    ledger_get L2 (ae_doc_id e) = Some r2 \<and>
    (\<exists>res L3. analyzer_analyze py config reg now later between e data (L, w) = (res, (L3, w1)) \<and>
      (if lr_status r2 = ANALYZING \<or> lr_status r2 = CHUNKING
       then res = Inr els \<and> (\<exists>r3. ledger_get L3 = (ledger_get L2)(ae_doc_id e \<mapsto> r3) \<and> lr_status r3 = CHUNKING)
       else if lr_status r2 \<in> {EMBEDDING, INDEXING, INDEXED} then res = Inr els \<and> L3 = L2
       else L3 = L2 \<and> (\<exists>t. res = Inl (ALedgerError (LedgerTransitionInvalid t)))))"
proof -
  let ?d = "ae_doc_id e"
  let ?r1 = "next_row now ?d r ANALYZING ANALYZING None None None"
  define L2 where "L2 = ledger_run L (TransitionOp now ?d ANALYZING ANALYZING None None None # between)"
  have e1: "fsm_edge (lr_status r) ANALYZING" using assms(3) by auto
  have t: "ledger_transition now ?d ANALYZING ANALYZING None None None L = (Inr ?r1, ledger_put ?d ?r1 L)"
    using transition_edge [OF assms(1,2) e1, of None now None None] by simp
  have "L2 = ledger_run (ledger_put ?d ?r1 L) between" using t by (simp add: L2_def)
  with analyze_entered [OF t assms(4), of later between]
  have a: "analyzer_analyze py config reg now later between e data (L, w) =
      (case triaged CHUNKING (ledger_transition later ?d CHUNKING CHUNKING None None None L2) of
         (Inl er, L3) \<Rightarrow> (Inl (ALedgerError er), (L3, w1)) | (Inr _, L3) \<Rightarrow> (Inr els, (L3, w1)))" by simp
  have ok: "ledger_ok L2" unfolding L2_def by (rule ledger_ok_run [OF assms(1)])
  obtain r2 where r2: "ledger_get L2 ?d = Some r2" unfolding L2_def using ledger_run_row [OF assms(2)] by blast
  consider (step) "lr_status r2 = ANALYZING \<or> lr_status r2 = CHUNKING" | (ahead) "lr_status r2 \<in> {EMBEDDING, INDEXING, INDEXED}"
    | (out) "lr_status r2 \<in> {PENDING, FAILED, NEEDS_REVIEW, ARCHIVED}" by (cases "lr_status r2") auto
  then show ?thesis
  proof cases
    case step
    then have "fsm_edge (lr_status r2) CHUNKING" by auto
    from transition_edge [OF ok r2 this, of None later None None] a step r2 show ?thesis unfolding L2_def [symmetric]
      by (intro exI [of _ L2] exI [of _ r2]) (auto simp: fun_eq_iff)
  next
    case ahead
    then have "\<not> fsm_edge (lr_status r2) CHUNKING" "lost_to CHUNKING (lr_status r2)" by auto
    from triaged_benign [OF ok r2 this, of later None None None] a ahead r2 show ?thesis unfolding L2_def [symmetric]
      by (intro exI [of _ L2] exI [of _ r2]) (auto)
  next
    case out
    then have "\<not> fsm_edge (lr_status r2) CHUNKING" "\<not> lost_to CHUNKING (lr_status r2)" by auto
    from triaged_refused [OF ok r2 this, of later None None None] a out r2 show ?thesis unfolding L2_def [symmetric]
      by (intro exI [of _ L2] exI [of _ r2]) (auto)
  qed
qed

theorem analyze_interleaved_witness:
  "\<exists>L2 r2 res L3. L2 = ledger_run (ledger_put demo_id (demo_row PENDING) (ledger_init 100))
       [TransitionOp 5 demo_id ANALYZING ANALYZING None None None, TransitionOp 6 demo_id FAILED FAILED (Some ''E'') None None] \<and>
     ledger_get L2 demo_id = Some r2 \<and>
     analyzer_analyze (Some demo_pdf) default_analyzer_config demo_registry 5 7 [TransitionOp 6 demo_id FAILED FAILED (Some ''E'') None None]
       demo_arrival_envelope (PDF_MAGIC @ ''1.7'') (ledger_put demo_id (demo_row PENDING) (ledger_init 100), ()) = (res, (L3, ()))"
proof -
  have "PENDING \<noteq> FAILED" by simp
  note l = demo_row_ledger [OF this]
  have s: "lr_status (demo_row PENDING) = PENDING \<or> lr_status (demo_row PENDING) = ANALYZING" using l(3) by simp
  have d: "ae_doc_id demo_arrival_envelope = demo_id" by (simp add: demo_arrival_envelope_def)
  from analyze_interleaved [OF l(1,2) s demo_analysis(1), of 5 "[TransitionOp 6 demo_id FAILED FAILED (Some ''E'') None None]" 7]
  show ?thesis unfolding d by blast
qed

end
