(* ===== verification/Index_Templates.thy ===== *)
theory Index_Templates
  imports Scenario
begin

text \<open>
  The data of index provisioning, \<open>src/vestibule/provisioning/model.py\<close>, and the catalogue of index templates,
  \<open>templates.py\<close>. As for scenarios, what the YAML parser and pydantic's type coercion made of a file
  is a parameter (\<open>template_doc\<close>); the validators are the model's own. A literal type is a string whose
  values pydantic has already checked, except the kind of a field and the status of an entry, which
  are datatypes.
\<close>

section \<open>Data\<close>

abbreviation INDEX_TEMPLATE_NOT_FOUND :: string where "INDEX_TEMPLATE_NOT_FOUND \<equiv> ''INDEX_TEMPLATE_NOT_FOUND''"
abbreviation INDEX_TEMPLATE_INVALID :: string where "INDEX_TEMPLATE_INVALID \<equiv> ''INDEX_TEMPLATE_INVALID''"
abbreviation INDEX_SCHEMA_DRIFT :: string where "INDEX_SCHEMA_DRIFT \<equiv> ''INDEX_SCHEMA_DRIFT''"
abbreviation INDEX_PROVISION_FAILED :: string where "INDEX_PROVISION_FAILED \<equiv> ''INDEX_PROVISION_FAILED''"
abbreviation INDEX_RETIRED :: string where "INDEX_RETIRED \<equiv> ''INDEX_RETIRED''"
abbreviation INDEX_AUTO_CREATE_DISABLED :: string where "INDEX_AUTO_CREATE_DISABLED \<equiv> ''INDEX_AUTO_CREATE_DISABLED''"
abbreviation INDEX_PROVISION_TIMEOUT :: string where "INDEX_PROVISION_TIMEOUT \<equiv> ''INDEX_PROVISION_TIMEOUT''"
abbreviation INDEX_PROVISION_CONFLICT :: string where "INDEX_PROVISION_CONFLICT \<equiv> ''INDEX_PROVISION_CONFLICT''"
abbreviation INDEX_REGISTRY_UNAVAILABLE :: string where "INDEX_REGISTRY_UNAVAILABLE \<equiv> ''INDEX_REGISTRY_UNAVAILABLE''"
abbreviation INDEX_PROVISIONER_UNAVAILABLE :: string where
  "INDEX_PROVISIONER_UNAVAILABLE \<equiv> ''INDEX_PROVISIONER_UNAVAILABLE''"

datatype field_type =
  KeyField | TextField | VectorField | FilterableString | FilterableStringCollection | FilterableDatetime | RetrievableOnly

record field_spec =
  fs_name :: string
  fs_type :: field_type
  fs_searchable :: bool

record hnsw_settings =
  hs_m :: int
  hs_ef_construction :: int
  hs_ef_search :: int

record index_template =
  it_template_id :: string
  it_template_version :: string
  it_dimensions :: "int option"
  it_metric :: string
  it_hnsw :: hnsw_settings
  it_fields :: "field_spec list"
  it_semantic_ranker_enabled :: bool
  it_hybrid_enabled :: bool

datatype index_status = Provisioning | Ready | Failed | Retired

record registry_entry =
  re_index_name :: string
  re_vertical :: string
  re_scenario_id :: string
  re_template_id :: string
  re_template_version :: string
  re_dimensions :: int
  re_metric :: string
  re_embedding_model :: string
  re_status :: index_status
  re_created_at :: datetime
  re_last_verified_at :: "datetime option"
  re_document_count :: "int option"
  re_claim_token :: "string option"
  re_claimed_at :: "datetime option"
  re_last_error_message :: "string option"
  re_resolved_template :: "index_template option"

record index_description =
  id_dimensions :: int
  id_metric :: string

record provisioning_error =
  pe_index_name :: string
  pe_reason :: string
  pe_error_code :: string

definition provisioning_exn :: "string \<Rightarrow> string \<Rightarrow> string \<Rightarrow> provisioning_error" where
  "provisioning_exn index_name reason code = \<lparr>pe_index_name = index_name, pe_reason = reason, pe_error_code = code\<rparr>"

definition provisioning_error_str :: "provisioning_error \<Rightarrow> string" where
  "provisioning_error_str e = pe_index_name e @ '': '' @ pe_reason e"

text \<open>What a call can raise: the module's own exception, or any other with its text.\<close>

datatype prov_exn = ProvisioningError provisioning_error | ProvException string

section \<open>Validation of a template\<close>

definition version_is_integer_string :: "string \<Rightarrow> string + unit" where
  "version_is_integer_string value = (case py_int value of
       None \<Rightarrow> Inl (''template_version='' @ py_repr value @ '' must parse as a non-negative integer (Assumption A6)'')
     | Some parsed \<Rightarrow> if parsed < 0 then Inl (''template_version='' @ py_repr value @ '' must be non-negative'') else Inr ())"

definition validate_field_shape :: "index_template \<Rightarrow> string + unit" where
  "validate_field_shape t =
     (let key_fields = filter (\<lambda>f. fs_type f = KeyField) (it_fields t);
          vector_fields = filter (\<lambda>f. fs_type f = VectorField) (it_fields t);
          names = map fs_name (it_fields t)
      in if length key_fields \<noteq> 1
         then Inl (''IndexTemplate must declare exactly one field with type='' @ py_repr ''key'' @ '', found '' @
           str_int (int (length key_fields)))
         else if vector_fields = [] then Inl (''IndexTemplate must declare at least one field with type='' @ py_repr ''vector'')
         else if length names \<noteq> length (remdups names) then Inl ''IndexTemplate field names must be unique''
         else Inr ())"

text \<open>The constructor on fields of the declared types: the model's check runs only when the field's did not fail.\<close>

definition make_index_template :: "index_template \<Rightarrow> string + index_template" where
  "make_index_template raw =
     bind_res (version_is_integer_string (it_template_version raw)) (\<lambda>_.
       bind_res (validate_field_shape raw) (\<lambda>_. Inr raw))"

section \<open>IndexTemplateStore\<close>

text \<open>
  A file of the directory: what \<open>yaml.safe_load\<close> raised or returned, and for a mapping the text of its
  \<open>template_id\<close> with what the coercion of its fields raised or returned.
\<close>

datatype template_doc = TemplateYAMLError string | TemplateNotMapping string | TemplateMapping string "string + index_template"

record template_file =
  tf_path :: string
  tf_stem :: string
  tf_doc :: template_doc

type_synonym template_store = "(string, index_template) dict"

definition check_stem :: "template_file \<Rightarrow> index_template \<Rightarrow> provisioning_error + index_template" where
  "check_stem f t =
     (if it_template_id t \<noteq> tf_stem f
      then Inl (provisioning_exn (it_template_id t)
        (tf_path f @ '': filename stem '' @ py_repr (tf_stem f) @ '' does not match declared template_id '' @
         py_repr (it_template_id t)) INDEX_TEMPLATE_INVALID)
      else Inr t)"

text \<open>\<open>exc_text\<close> is the text of pydantic's \<open>ValidationError\<close> for a message of a validator.\<close>

definition load_template :: "(string \<Rightarrow> string) \<Rightarrow> template_file \<Rightarrow> provisioning_error + index_template" where
  "load_template exc_text f = (case tf_doc f of
       TemplateYAMLError exc \<Rightarrow> Inl (provisioning_exn [] (tf_path f @ '': invalid YAML: '' @ exc) INDEX_TEMPLATE_INVALID)
     | TemplateNotMapping ty \<Rightarrow> Inl (provisioning_exn []
         (tf_path f @ '': expected a YAML mapping at the document root, got '' @ ty) INDEX_TEMPLATE_INVALID)
     | TemplateMapping template_id (Inl exc) \<Rightarrow>
         Inl (provisioning_exn template_id (tf_path f @ '': '' @ exc) INDEX_TEMPLATE_INVALID)
     | TemplateMapping template_id (Inr raw) \<Rightarrow> (case make_index_template raw of
           Inl exc \<Rightarrow> Inl (provisioning_exn template_id (tf_path f @ '': '' @ exc_text exc) INDEX_TEMPLATE_INVALID)
         | Inr t \<Rightarrow> check_stem f t))"

fun load_templates :: "(string \<Rightarrow> string) \<Rightarrow> template_store \<Rightarrow> template_file list \<Rightarrow> provisioning_error + template_store" where
  "load_templates exc_text loaded [] = Inr loaded"
| "load_templates exc_text loaded (f # files) = (case load_template exc_text f of
       Inl e \<Rightarrow> Inl e
     | Inr t \<Rightarrow> load_templates exc_text (dict_set (it_template_id t) t loaded) files)"

definition template_store_init :: "(string \<Rightarrow> string) \<Rightarrow> template_file list \<Rightarrow> provisioning_error + template_store" where
  "template_store_init exc_text directory = load_templates exc_text [] (sort_key tf_path directory)"

definition template_get :: "template_store \<Rightarrow> string \<Rightarrow> index_template option" where
  "template_get ts template_id = dict_get ts template_id"

definition template_get_or_raise :: "template_store \<Rightarrow> string \<Rightarrow> provisioning_error + index_template" where
  "template_get_or_raise ts template_id = (case dict_get ts template_id of
       None \<Rightarrow> Inl (provisioning_exn template_id (''no index template registered for template_id='' @ py_repr template_id)
         INDEX_TEMPLATE_NOT_FOUND)
     | Some t \<Rightarrow> Inr t)"

section \<open>Well-formed templates and catalogues\<close>

definition template_ok :: "index_template \<Rightarrow> bool" where
  "template_ok t \<longleftrightarrow> (case py_int (it_template_version t) of None \<Rightarrow> False | Some n \<Rightarrow> 0 \<le> n) \<and>
     length (filter (\<lambda>f. fs_type f = KeyField) (it_fields t)) = 1 \<and>
     (\<exists>f \<in> set (it_fields t). fs_type f = VectorField) \<and> distinct (map fs_name (it_fields t))"

lemma make_index_template_iff: "make_index_template raw = Inr t \<longleftrightarrow> t = raw \<and> template_ok raw"
proof -
  let ?ns = "map fs_name (it_fields raw)"
  have d: "length (it_fields raw) = length (remdups ?ns) \<longleftrightarrow> distinct ?ns"
    by (metis length_map length_remdups_eq remdups_id_iff_distinct)
  show ?thesis
    by (auto simp: make_index_template_def version_is_integer_string_def validate_field_shape_def template_ok_def Let_def
        filter_empty_conv d split: option.splits if_splits)
qed

definition template_store_ok :: "template_store \<Rightarrow> bool" where
  "template_store_ok ts \<longleftrightarrow> dict_ok ts \<and> (\<forall>i t. map_of ts i = Some t \<longrightarrow> it_template_id t = i \<and> template_ok t)"

lemma load_template_Inr:
  assumes "load_template x f = Inr t"
  shows "tf_doc f = TemplateMapping (case tf_doc f of TemplateMapping i _ \<Rightarrow> i) (Inr t) \<and> template_ok t \<and> it_template_id t = tf_stem f"
  using assms
  by (auto simp: load_template_def check_stem_def make_index_template_iff split: template_doc.splits sum.splits if_splits)

lemma load_template_Inl: "load_template x f = Inl e \<Longrightarrow> pe_error_code e = INDEX_TEMPLATE_INVALID"
  by (auto simp: load_template_def check_stem_def provisioning_exn_def split: template_doc.splits sum.splits if_splits)

text \<open>What a file contributes to the catalogue.\<close>

definition template_of :: "(string \<Rightarrow> string) \<Rightarrow> template_file \<Rightarrow> index_template option" where
  "template_of x f = (case load_template x f of Inl _ \<Rightarrow> None | Inr t \<Rightarrow> Some t)"

lemma load_templates_ok:
  assumes "template_store_ok ts" and "load_templates x ts files = Inr ts'"
  shows "template_store_ok ts'"
  using assms
proof (induction files arbitrary: ts)
  case (Cons f files)
  then obtain t where t: "load_template x f = Inr t" "load_templates x (dict_set (it_template_id t) t ts) files = Inr ts'"
    by (auto split: sum.splits)
  have "template_store_ok (dict_set (it_template_id t) t ts)"
    using Cons.prems(1) load_template_Inr [OF t(1)] by (auto simp: template_store_ok_def)
  then show ?case using t(2) by (rule Cons.IH)
qed simp

lemma load_templates_get:
  assumes "load_templates x ts files = Inr ts'" and "distinct (map tf_stem files)"
  shows "map_of ts' i = (case find (\<lambda>f. tf_stem f = i) files of None \<Rightarrow> map_of ts i | Some f \<Rightarrow> template_of x f)"
  using assms
proof (induction files arbitrary: ts)
  case (Cons f files)
  then obtain t where t: "load_template x f = Inr t" "load_templates x (dict_set (it_template_id t) t ts) files = Inr ts'"
    by (auto split: sum.splits)
  have stem: "it_template_id t = tf_stem f" using load_template_Inr [OF t(1)] by simp
  have none: "find (\<lambda>g. tf_stem g = tf_stem f) files = None"
    using Cons.prems(2) by (auto simp: find_None_iff) (metis image_eqI)
  from Cons.IH [OF t(2)] Cons.prems(2) t(1) stem none show ?case by (auto simp: template_of_def split: option.splits)
qed simp

lemma load_templates_err: "load_templates x ts files = Inl e \<Longrightarrow> \<exists>f \<in> set files. load_template x f = Inl e"
  by (induction files arbitrary: ts) (auto split: sum.splits)

lemma load_templates_all: "load_templates x ts files = Inr ts' \<Longrightarrow> f \<in> set files \<Longrightarrow> \<exists>t. load_template x f = Inr t"
  by (induction files arbitrary: ts) (auto split: sum.splits)

section \<open>Properties\<close>

definition demo_template :: index_template where
  "demo_template = \<lparr>it_template_id = ''standard-v1'', it_template_version = ''1'', it_dimensions = None, it_metric = ''cosine'',
     it_hnsw = \<lparr>hs_m = 4, hs_ef_construction = 400, hs_ef_search = 500\<rparr>,
     it_fields = [\<lparr>fs_name = ''chunk_id'', fs_type = KeyField, fs_searchable = False\<rparr>,
       \<lparr>fs_name = ''vector'', fs_type = VectorField, fs_searchable = False\<rparr>],
     it_semantic_ranker_enabled = False, it_hybrid_enabled = True\<rparr>"

lemma demo_template_ok: "template_ok demo_template"
proof -
  have "py_int ''1'' = Some 1" by code_simp
  then show ?thesis by (simp add: template_ok_def demo_template_def)
qed

definition demo_template_file :: template_file where
  "demo_template_file = \<lparr>tf_path = ''standard-v1.yaml'', tf_stem = ''standard-v1'',
     tf_doc = TemplateMapping ''standard-v1'' (Inr demo_template)\<rparr>"



end
