(* ===== verification/Index_Registry.thy ===== *)
theory Index_Registry
  imports Index_Templates
begin

text \<open>
  The registry of provisioned indexes: the port and \<open>InMemoryIndexRegistry\<close> of
  \<open>src/vestibule/provisioning/registry.py\<close> and the TTL cache \<open>stores/cached_registry.py\<close>. Every method of the
  in-memory registry holds one lock, so it is one atomic step on a dictionary. The wall clock a
  method reads is an argument.

  The abstract specification is a map from index names to entries with five operations (\<open>reg_register\<close>,
  \<open>reg_reclaim\<close>, \<open>reg_update\<close> for the three updates). The locale \<open>registry_contract\<close> is what the provisioner relies
  on: a call that returns does what the specification says, a call that raises did that or nothing,
  and a read answers with an entry the registry has or has had. The in-memory registry and the cache
  over any registry that satisfies the contract are interpretations of it.
\<close>

section \<open>The port\<close>

record 'r registry_port =
  gp_get :: "string \<Rightarrow> 'r \<Rightarrow> (prov_exn, registry_entry option, 'r) outcome"
  gp_list_by_vertical :: "string \<Rightarrow> 'r \<Rightarrow> (prov_exn, registry_entry list, 'r) outcome"
  gp_register :: "registry_entry \<Rightarrow> 'r \<Rightarrow> (prov_exn, registry_entry, 'r) outcome"
  gp_reclaim :: "string \<Rightarrow> registry_entry \<Rightarrow> registry_entry \<Rightarrow> 'r \<Rightarrow> (prov_exn, registry_entry, 'r) outcome"
  gp_touch_verified :: "datetime \<Rightarrow> string \<Rightarrow> 'r \<Rightarrow> (prov_exn, registry_entry, 'r) outcome"
  gp_mark_ready :: "datetime \<Rightarrow> string \<Rightarrow> string option \<Rightarrow> 'r \<Rightarrow> (prov_exn, registry_entry, 'r) outcome"
  gp_mark_failed :: "string \<Rightarrow> string \<Rightarrow> string option \<Rightarrow> 'r \<Rightarrow> (prov_exn, registry_entry, 'r) outcome"
  gp_mark_retired :: "string \<Rightarrow> 'r \<Rightarrow> (prov_exn, registry_entry, 'r) outcome"

text \<open>The values the updates write (\<open>model_copy\<close>).\<close>

definition verified_entry :: "datetime \<Rightarrow> registry_entry \<Rightarrow> registry_entry" where
  "verified_entry now e = e\<lparr>re_last_verified_at := Some now\<rparr>"

definition ready_entry :: "datetime \<Rightarrow> registry_entry \<Rightarrow> registry_entry" where
  "ready_entry now e = e\<lparr>re_status := Ready, re_last_verified_at := Some now, re_claim_token := None, re_claimed_at := None,
     re_resolved_template := None\<rparr>"

definition failed_entry :: "string \<Rightarrow> registry_entry \<Rightarrow> registry_entry" where
  "failed_entry reason e = e\<lparr>re_status := Failed, re_last_error_message := Some reason, re_claim_token := None,
     re_claimed_at := None, re_resolved_template := None\<rparr>"

definition retired_entry :: "registry_entry \<Rightarrow> registry_entry" where
  "retired_entry e = e\<lparr>re_status := Retired\<rparr>"

definition registry_conflict :: "string \<Rightarrow> string \<Rightarrow> prov_exn" where
  "registry_conflict index_name reason = ProvisioningError (provisioning_exn index_name reason INDEX_PROVISION_CONFLICT)"

section \<open>InMemoryIndexRegistry\<close>

type_synonym mem_registry = "(string, registry_entry) dict"

definition mem_get :: "string \<Rightarrow> mem_registry \<Rightarrow> (prov_exn, registry_entry option, mem_registry) outcome" where
  "mem_get index_name R = (Inr (dict_get R index_name), R)"

definition mem_list_by_vertical :: "string \<Rightarrow> mem_registry \<Rightarrow> (prov_exn, registry_entry list, mem_registry) outcome" where
  "mem_list_by_vertical vertical R = (Inr (filter (\<lambda>e. re_vertical e = vertical) (dict_values R)), R)"

definition mem_register :: "registry_entry \<Rightarrow> mem_registry \<Rightarrow> (prov_exn, registry_entry, mem_registry) outcome" where
  "mem_register entry R = (case dict_get R (re_index_name entry) of
       Some existing \<Rightarrow> (Inr existing, R)
     | None \<Rightarrow> (Inr entry, dict_set (re_index_name entry) entry R))"

definition mem_reclaim ::
    "string \<Rightarrow> registry_entry \<Rightarrow> registry_entry \<Rightarrow> mem_registry \<Rightarrow> (prov_exn, registry_entry, mem_registry) outcome" where
  "mem_reclaim index_name observed new_entry R =
     (if dict_get R index_name \<noteq> Some observed
      then (Inl (registry_conflict index_name ''reclaim observed a stale snapshot; the stored entry has since changed''), R)
      else (Inr new_entry, dict_set index_name new_entry R))"

definition mem_require :: "mem_registry \<Rightarrow> string \<Rightarrow> prov_exn + registry_entry" where
  "mem_require R index_name = (case dict_get R index_name of
       None \<Rightarrow> Inl (registry_conflict index_name ''no registry entry exists for index_name'')
     | Some current \<Rightarrow> Inr current)"

definition check_claim_token :: "registry_entry \<Rightarrow> string option \<Rightarrow> prov_exn + unit" where
  "check_claim_token current expected_claim_token =
     (if expected_claim_token \<noteq> None \<and> re_claim_token current \<noteq> expected_claim_token
      then Inl (registry_conflict (re_index_name current)
        ''claim_token no longer matches the stored entry (superseded by a reclaim or a concurrent finalization)'')
      else Inr ())"

definition mem_touch_verified :: "datetime \<Rightarrow> string \<Rightarrow> mem_registry \<Rightarrow> (prov_exn, registry_entry, mem_registry) outcome" where
  "mem_touch_verified now index_name R = (case mem_require R index_name of
       Inl e \<Rightarrow> (Inl e, R)
     | Inr current \<Rightarrow> let updated = verified_entry now current in (Inr updated, dict_set index_name updated R))"

definition mem_mark_ready ::
    "datetime \<Rightarrow> string \<Rightarrow> string option \<Rightarrow> mem_registry \<Rightarrow> (prov_exn, registry_entry, mem_registry) outcome" where
  "mem_mark_ready now index_name expected_claim_token R = (case mem_require R index_name of
       Inl e \<Rightarrow> (Inl e, R)
     | Inr current \<Rightarrow> (case check_claim_token current expected_claim_token of
           Inl e \<Rightarrow> (Inl e, R)
         | Inr _ \<Rightarrow> let updated = ready_entry now current in (Inr updated, dict_set index_name updated R)))"

definition mem_mark_failed ::
    "string \<Rightarrow> string \<Rightarrow> string option \<Rightarrow> mem_registry \<Rightarrow> (prov_exn, registry_entry, mem_registry) outcome" where
  "mem_mark_failed index_name reason expected_claim_token R = (case mem_require R index_name of
       Inl e \<Rightarrow> (Inl e, R)
     | Inr current \<Rightarrow> (case check_claim_token current expected_claim_token of
           Inl e \<Rightarrow> (Inl e, R)
         | Inr _ \<Rightarrow> let updated = failed_entry reason current in (Inr updated, dict_set index_name updated R)))"

definition mem_mark_retired :: "string \<Rightarrow> mem_registry \<Rightarrow> (prov_exn, registry_entry, mem_registry) outcome" where
  "mem_mark_retired index_name R = (case mem_require R index_name of
       Inl e \<Rightarrow> (Inl e, R)
     | Inr current \<Rightarrow> let updated = retired_entry current in (Inr updated, dict_set index_name updated R))"

definition mem_registry_port :: "mem_registry registry_port" where
  "mem_registry_port = \<lparr>gp_get = mem_get, gp_list_by_vertical = mem_list_by_vertical, gp_register = mem_register,
     gp_reclaim = mem_reclaim, gp_touch_verified = mem_touch_verified, gp_mark_ready = mem_mark_ready,
     gp_mark_failed = mem_mark_failed, gp_mark_retired = mem_mark_retired\<rparr>"

lemmas mem_ops = mem_get_def mem_list_by_vertical_def mem_register_def mem_reclaim_def mem_require_def mem_touch_verified_def
  mem_mark_ready_def mem_mark_failed_def mem_mark_retired_def check_claim_token_def

section \<open>CachedIndexRegistry\<close>

record 'r cached_registry =
  cr_wrapped :: 'r
  cr_ttl_seconds :: int
  cr_by_name :: "(string, registry_entry option \<times> int) dict"
  cr_by_vertical :: "(string, registry_entry list \<times> int) dict"

definition cached_registry_init :: "'r \<Rightarrow> int \<Rightarrow> 'r cached_registry" where
  "cached_registry_init R ttl = \<lparr>cr_wrapped = R, cr_ttl_seconds = ttl, cr_by_name = [], cr_by_vertical = []\<rparr>"

definition registry_expired :: "int \<Rightarrow> int \<Rightarrow> int \<Rightarrow> bool" where
  "registry_expired ttl now cached_at \<longleftrightarrow> now - cached_at \<ge> ttl"

definition registry_fresh :: "int \<Rightarrow> int \<Rightarrow> ('k, 'v \<times> int) dict \<Rightarrow> 'k \<Rightarrow> 'v option" where
  "registry_fresh ttl now cache key = (case dict_get cache key of
       None \<Rightarrow> None
     | Some (v, cached_at) \<Rightarrow> if registry_expired ttl now cached_at then None else Some v)"

definition registry_invalidate :: "string \<Rightarrow> 'r cached_registry \<Rightarrow> 'r cached_registry" where
  "registry_invalidate index_name C = C\<lparr>cr_by_name := [], cr_by_vertical := []\<rparr>"

definition cached_registry_get ::
    "'r registry_port \<Rightarrow> int \<Rightarrow> int \<Rightarrow> string \<Rightarrow> 'r cached_registry \<Rightarrow> (prov_exn, registry_entry option, 'r cached_registry) outcome" where
  "cached_registry_get port now1 now2 index_name C =
     (case registry_fresh (cr_ttl_seconds C) now1 (cr_by_name C) index_name of
        Some v \<Rightarrow> (Inr v, C)
      | None \<Rightarrow> (case gp_get port index_name (cr_wrapped C) of
            (Inl e, R) \<Rightarrow> (Inl e, C\<lparr>cr_wrapped := R\<rparr>)
          | (Inr v, R) \<Rightarrow> (Inr v, C\<lparr>cr_wrapped := R, cr_by_name := dict_set index_name (v, now2) (cr_by_name C)\<rparr>)))"

definition cached_registry_list ::
    "'r registry_port \<Rightarrow> int \<Rightarrow> int \<Rightarrow> string \<Rightarrow> 'r cached_registry \<Rightarrow> (prov_exn, registry_entry list, 'r cached_registry) outcome" where
  "cached_registry_list port now1 now2 vertical C =
     (case registry_fresh (cr_ttl_seconds C) now1 (cr_by_vertical C) vertical of
        Some v \<Rightarrow> (Inr v, C)
      | None \<Rightarrow> (case gp_list_by_vertical port vertical (cr_wrapped C) of
            (Inl e, R) \<Rightarrow> (Inl e, C\<lparr>cr_wrapped := R\<rparr>)
          | (Inr v, R) \<Rightarrow> (Inr v, C\<lparr>cr_wrapped := R, cr_by_vertical := dict_set vertical (v, now2) (cr_by_vertical C)\<rparr>)))"

text \<open>Every write: delegate, and invalidate when the call returned.\<close>

definition delegate ::
    "('r \<Rightarrow> (prov_exn, registry_entry, 'r) outcome) \<Rightarrow> string \<Rightarrow> 'r cached_registry \<Rightarrow>
     (prov_exn, registry_entry, 'r cached_registry) outcome" where
  "delegate f index_name C = (case f (cr_wrapped C) of
       (Inl e, R) \<Rightarrow> (Inl e, C\<lparr>cr_wrapped := R\<rparr>)
     | (Inr r, R) \<Rightarrow> (Inr r, registry_invalidate index_name (C\<lparr>cr_wrapped := R\<rparr>)))"

definition cached_registry_port :: "'r registry_port \<Rightarrow> int \<times> int \<Rightarrow> 'r cached_registry registry_port" where
  "cached_registry_port port c = \<lparr>gp_get = cached_registry_get port (fst c) (snd c),
     gp_list_by_vertical = cached_registry_list port (fst c) (snd c),
     gp_register = \<lambda>entry. delegate (gp_register port entry) (re_index_name entry),
     gp_reclaim = \<lambda>n observed new_entry. delegate (gp_reclaim port n observed new_entry) n,
     gp_touch_verified = \<lambda>now n. delegate (gp_touch_verified port now n) n,
     gp_mark_ready = \<lambda>now n t. delegate (gp_mark_ready port now n t) n,
     gp_mark_failed = \<lambda>n reason t. delegate (gp_mark_failed port n reason t) n,
     gp_mark_retired = \<lambda>n. delegate (gp_mark_retired port n) n\<rparr>"

text \<open>
  Several processes over one registry: every process has a cache of its own, and what is shared is the
  wrapped registry.
\<close>

record 'r fleet =
  fl_shared :: 'r
  fl_caches :: "nat \<Rightarrow> 'r cached_registry"

definition fleet_view :: "'r fleet \<Rightarrow> nat \<Rightarrow> 'r cached_registry" where
  "fleet_view F p = (fl_caches F p)\<lparr>cr_wrapped := fl_shared F\<rparr>"

definition at_process :: "nat \<Rightarrow> ('r cached_registry \<Rightarrow> 'a \<times> 'r cached_registry) \<Rightarrow> 'r fleet \<Rightarrow> 'a \<times> 'r fleet" where
  "at_process p f F = (let (a, C) = f (fleet_view F p) in (a, \<lparr>fl_shared = cr_wrapped C, fl_caches = (fl_caches F)(p := C)\<rparr>))"

definition fleet_port :: "'r registry_port \<Rightarrow> nat \<times> int \<times> int \<Rightarrow> 'r fleet registry_port" where
  "fleet_port port c = (let p = fst c; P = cached_registry_port port (snd c) in
     \<lparr>gp_get = \<lambda>n. at_process p (gp_get P n), gp_list_by_vertical = \<lambda>v. at_process p (gp_list_by_vertical P v),
      gp_register = \<lambda>entry. at_process p (gp_register P entry), gp_reclaim = \<lambda>n a b. at_process p (gp_reclaim P n a b),
      gp_touch_verified = \<lambda>now n. at_process p (gp_touch_verified P now n),
      gp_mark_ready = \<lambda>now n t. at_process p (gp_mark_ready P now n t),
      gp_mark_failed = \<lambda>n r t. at_process p (gp_mark_failed P n r t),
      gp_mark_retired = \<lambda>n. at_process p (gp_mark_retired P n)\<rparr>)"

section \<open>The contract\<close>

type_synonym registry_map = "string \<Rightarrow> registry_entry option"

definition reg_register :: "registry_entry \<Rightarrow> registry_map \<Rightarrow> (registry_entry \<times> registry_map) option" where
  "reg_register e m = (case m (re_index_name e) of
       Some existing \<Rightarrow> Some (existing, m) | None \<Rightarrow> Some (e, m(re_index_name e \<mapsto> e)))"

definition reg_reclaim ::
    "string \<Rightarrow> registry_entry \<Rightarrow> registry_entry \<Rightarrow> registry_map \<Rightarrow> (registry_entry \<times> registry_map) option" where
  "reg_reclaim n observed new m = (if m n = Some observed then Some (new, m(n \<mapsto> new)) else None)"

definition reg_update ::
    "string \<Rightarrow> string option \<Rightarrow> (registry_entry \<Rightarrow> registry_entry) \<Rightarrow> registry_map \<Rightarrow> (registry_entry \<times> registry_map) option" where
  "reg_update n expected f m = (case m n of
       None \<Rightarrow> None
     | Some e \<Rightarrow> if expected = None \<or> re_claim_token e = expected then Some (f e, m(n \<mapsto> f e)) else None)"

definition refines_call ::
    "('r \<Rightarrow> registry_map) \<Rightarrow> (registry_map \<Rightarrow> (registry_entry \<times> registry_map) option) \<Rightarrow> 'r \<Rightarrow> (prov_exn, registry_entry, 'r) outcome \<Rightarrow> bool" where
  "refines_call contents spec R out = (case fst out of
       Inr e \<Rightarrow> spec (contents R) = Some (e, contents (snd out))
     | Inl _ \<Rightarrow> contents (snd out) = contents R \<or> (\<exists>e. spec (contents R) = Some (e, contents (snd out))))"

definition views_step ::
    "('r \<Rightarrow> registry_map) \<Rightarrow> ('r \<Rightarrow> string \<Rightarrow> registry_entry option set) \<Rightarrow> 'r \<Rightarrow> 'r \<Rightarrow> bool" where
  "views_step contents views R R' \<longleftrightarrow> (\<forall>n. views R' n \<subseteq> views R n \<union> {contents R n, contents R' n})"

definition call_ok where
  "call_ok contents views spec f \<longleftrightarrow>
     (\<forall>R. refines_call contents spec R (f R) \<and> views_step contents views R (snd (f R)))"

locale registry_contract =
  fixes port :: "'c \<Rightarrow> 'r registry_port" and contents :: "'r \<Rightarrow> registry_map"
    and views :: "'r \<Rightarrow> string \<Rightarrow> registry_entry option set"
  assumes get_contents: "contents (snd (gp_get (port c) n R)) = contents R"
    and get_views: "views_step contents views R (snd (gp_get (port c) n R))"
    and get_answer: "fst (gp_get (port c) n R) = Inr v \<Longrightarrow> v \<in> insert (contents R n) (views R n)"
    and register: "call_ok contents views (reg_register e) (gp_register (port c) e)"
    and reclaim: "call_ok contents views (reg_reclaim n e e') (gp_reclaim (port c) n e e')"
    and touch: "call_ok contents views (reg_update n None (verified_entry now)) (gp_touch_verified (port c) now n)"
    and ready: "call_ok contents views (reg_update n t (ready_entry now)) (gp_mark_ready (port c) now n t)"
    and failed: "call_ok contents views (reg_update n t (failed_entry reason)) (gp_mark_failed (port c) n reason t)"
    and retired: "call_ok contents views (reg_update n None retired_entry) (gp_mark_retired (port c) n)"

interpretation mem_reg: registry_contract "\<lambda>_ :: unit. mem_registry_port" map_of "\<lambda>_ _. {}"
  by unfold_locales
    (auto simp: mem_registry_port_def mem_ops call_ok_def refines_call_def views_step_def reg_register_def reg_reclaim_def
      reg_update_def dict_get_def Let_def fun_upd_def split: option.splits)

section \<open>The caches satisfy the contract\<close>

definition cache_views :: "'r cached_registry \<Rightarrow> string \<Rightarrow> registry_entry option set" where
  "cache_views C n = {v. \<exists>t. map_of (cr_by_name C) n = Some (v, t)}"

definition fleet_contents :: "('r \<Rightarrow> registry_map) \<Rightarrow> 'r fleet \<Rightarrow> registry_map" where
  "fleet_contents contents F = contents (fl_shared F)"

definition fleet_views :: "('r \<Rightarrow> string \<Rightarrow> registry_entry option set) \<Rightarrow> 'r fleet \<Rightarrow> string \<Rightarrow> registry_entry option set" where
  "fleet_views views F n = views (fl_shared F) n \<union> (\<Union>p. cache_views (fl_caches F p) n)"

lemma cache_views_wrapped [simp]: "cache_views (C\<lparr>cr_wrapped := R\<rparr>) = cache_views C"
  by (simp add: cache_views_def fun_eq_iff)

lemma cache_views_invalidate [simp]: "cache_views (registry_invalidate i C) n = {}"
  by (simp add: cache_views_def registry_invalidate_def)

lemma delegate_call:
  "fst (delegate f i C) = fst (f (cr_wrapped C)) \<and> cr_wrapped (snd (delegate f i C)) = snd (f (cr_wrapped C)) \<and>
   cache_views (snd (delegate f i C)) n \<subseteq> cache_views C n"
  by (cases "f (cr_wrapped C)"; cases "fst (f (cr_wrapped C))")
    (auto simp: delegate_def registry_invalidate_def cache_views_def)

lemma fleet_call:
  assumes "call_ok contents views spec f"
  shows "call_ok (fleet_contents contents) (fleet_views views) spec (at_process p (delegate f i))"
  unfolding call_ok_def
proof (intro allI conjI)
  fix F :: "'a fleet"
  let ?C = "fleet_view F p"
  have w: "cr_wrapped ?C = fl_shared F" "cache_views ?C = cache_views (fl_caches F p)"
    by (simp_all add: fleet_view_def)
  have eq: "at_process p (delegate f i) F = (fst (delegate f i ?C),
      \<lparr>fl_shared = cr_wrapped (snd (delegate f i ?C)), fl_caches = (fl_caches F)(p := snd (delegate f i ?C))\<rparr>)"
    by (simp add: at_process_def case_prod_beta Let_def)
  note d = delegate_call [of f i ?C]
  have ok: "refines_call contents spec (fl_shared F) (f (fl_shared F))" "views_step contents views (fl_shared F) (snd (f (fl_shared F)))"
    using assms by (simp_all add: call_ok_def)
  show "refines_call (fleet_contents contents) spec F (at_process p (delegate f i) F)"
    using ok(1) d w by (simp add: eq refines_call_def fleet_contents_def split: sum.splits)
  show "views_step (fleet_contents contents) (fleet_views views) F (snd (at_process p (delegate f i) F))"
    using ok(2) d w by (fastforce simp: eq views_step_def fleet_contents_def fleet_views_def split: if_splits)
qed

context registry_contract
begin

lemma cached_get:
  shows "contents (cr_wrapped (snd (cached_registry_get (port c) t u n C))) = contents (cr_wrapped C)"
    and "views_step contents views (cr_wrapped C) (cr_wrapped (snd (cached_registry_get (port c) t u n C)))"
    and "fst (cached_registry_get (port c) t u n C) = Inr v \<Longrightarrow>
           v \<in> insert (contents (cr_wrapped C) n) (views (cr_wrapped C) n \<union> cache_views C n)"
    and "cache_views (snd (cached_registry_get (port c) t u n C)) k \<subseteq>
           cache_views C k \<union> insert (contents (cr_wrapped C) k) (views (cr_wrapped C) k)"
proof -
  let ?g = "gp_get (port c) n (cr_wrapped C)"
  note g = get_contents [of c n "cr_wrapped C"] get_views [of "cr_wrapped C" c n] get_answer [of c n "cr_wrapped C"]
  show "contents (cr_wrapped (snd (cached_registry_get (port c) t u n C))) = contents (cr_wrapped C)"
    using g(1) by (simp add: cached_registry_get_def case_prod_beta split: option.split sum.split)
  show "views_step contents views (cr_wrapped C) (cr_wrapped (snd (cached_registry_get (port c) t u n C)))"
    using g(2) by (auto simp: cached_registry_get_def case_prod_beta views_step_def split: option.split sum.split)
  show "fst (cached_registry_get (port c) t u n C) = Inr v \<Longrightarrow>
      v \<in> insert (contents (cr_wrapped C) n) (views (cr_wrapped C) n \<union> cache_views C n)"
    using g(3) by (auto simp: cached_registry_get_def case_prod_beta registry_fresh_def cache_views_def dict_get_def
        split: option.splits sum.splits if_splits)
  show "cache_views (snd (cached_registry_get (port c) t u n C)) k \<subseteq>
      cache_views C k \<union> insert (contents (cr_wrapped C) k) (views (cr_wrapped C) k)"
    using g(3) by (auto simp: cached_registry_get_def case_prod_beta cache_views_def split: option.splits sum.splits if_splits)
qed

lemma fleet_contract:
  "registry_contract (\<lambda>(c, d). fleet_port (port c) d) (fleet_contents contents) (fleet_views views)"
proof (unfold_locales, goal_cases)
  case (1 c n R)
  then show ?case
    using cached_get(1) [of "fst c" _ _ n "fleet_view R (fst (snd c))"]
    by (simp add: fleet_port_def cached_registry_port_def at_process_def fleet_contents_def case_prod_beta Let_def fleet_view_def)
next
  case (2 R c n)
  let ?C = "fleet_view R (fst (snd c))"
  have w: "cr_wrapped ?C = fl_shared R" "cache_views ?C = cache_views (fl_caches R (fst (snd c)))"
    by (simp_all add: fleet_view_def)
  note g = cached_get(2) [of ?C "fst c" "fst (snd (snd c))" "snd (snd (snd c))" n]
    cached_get(4) [of "fst c" "fst (snd (snd c))" "snd (snd (snd c))" n ?C]
  show ?case
    using g w
    by (fastforce simp: fleet_port_def cached_registry_port_def at_process_def fleet_contents_def fleet_views_def views_step_def
        case_prod_beta Let_def split: if_splits)
next
  case (3 c n R v)
  let ?C = "fleet_view R (fst (snd c))"
  have w: "cr_wrapped ?C = fl_shared R" "cache_views ?C = cache_views (fl_caches R (fst (snd c)))"
    by (simp_all add: fleet_view_def)
  from 3 cached_get(3) [of "fst c" "fst (snd (snd c))" "snd (snd (snd c))" n ?C v] w show ?case
    by (auto simp: fleet_port_def cached_registry_port_def at_process_def fleet_contents_def fleet_views_def case_prod_beta Let_def)
qed (simp_all add: fleet_port_def cached_registry_port_def Let_def case_prod_beta fleet_call register reclaim touch ready failed retired)

end

interpretation fleet_reg: registry_contract "fleet_port mem_registry_port" "fleet_contents map_of" "fleet_views (\<lambda>_ _. {})"
  using mem_reg.fleet_contract unfolding registry_contract_def by simp

definition fleet_init :: "'r \<Rightarrow> int \<Rightarrow> 'r fleet" where
  "fleet_init R ttl = \<lparr>fl_shared = R, fl_caches = \<lambda>_. cached_registry_init R ttl\<rparr>"

end
