(* ===== verification/Provisioner.thy ===== *)
theory Provisioner
  imports Index_Registry Index_Store
begin

text \<open>
  Index provisioning, \<open>src/vestibule/provisioning/provisioner.py\<close>, with the port \<open>adapters/base.py\<close> and the
  in-process adapter \<open>adapters/in_memory.py\<close>.

  Workers of many processes call \<open>ensure\<close> at the same time, and the protocol (claim, create, finalize; wait,
  reclaim) is correct only if every interleaving of their registry and store calls is. So \<open>ensure\<close> is a
  machine: a program counter stands between two calls to the outside (registry, adapter, clock, token
  generator, \<open>sleep\<close>) and carries the local variables, each method of the class is a function to the next
  program counter, and \<open>ensure_step\<close> makes one call. \<open>system_step\<close> interleaves any number of workers with
  the administrative operation \<open>mark_retired\<close>; a claim token is new when it is drawn, which is what
  \<open>uuid4\<close> promises.
\<close>

section \<open>The adapter\<close>

record 'w provisioner_port =
  pp_index_exists :: "string \<Rightarrow> 'w \<Rightarrow> (prov_exn, bool, 'w) outcome"
  pp_create_index :: "string \<Rightarrow> index_template \<Rightarrow> int \<Rightarrow> string \<Rightarrow> 'w \<Rightarrow> (prov_exn, unit, 'w) outcome"
  pp_describe_index :: "string \<Rightarrow> 'w \<Rightarrow> (prov_exn, index_description option, 'w) outcome"
  pp_delete_index :: "string \<Rightarrow> 'w \<Rightarrow> (prov_exn, unit, 'w) outcome"

definition memory_index_exists :: "string \<Rightarrow> 'f memory_index \<Rightarrow> (prov_exn, bool, 'f memory_index) outcome" where
  "memory_index_exists index_name M = (Inr (mi_schema M \<noteq> None), M)"

definition memory_create_index ::
    "string \<Rightarrow> index_template \<Rightarrow> int \<Rightarrow> string \<Rightarrow> 'f memory_index \<Rightarrow> (prov_exn, unit, 'f memory_index) outcome" where
  "memory_create_index index_name template dimensions metric M = (case memory_ensure_schema dimensions metric M of
       (Inr u, M') \<Rightarrow> (Inr u, M')
     | (Inl (StoreIndexerError e), M') \<Rightarrow>
         if ie_error_code e \<noteq> INDEXER_SCHEMA_CONFLICT then (Inl (ProvException (indexer_error_str e)), M')
         else (Inl (ProvisioningError (provisioning_exn index_name (ie_reason e) INDEX_SCHEMA_DRIFT)), M')
     | (Inl (StoreException s), M') \<Rightarrow> (Inl (ProvException s), M'))"

definition memory_describe_index :: "string \<Rightarrow> 'f memory_index \<Rightarrow> (prov_exn, index_description option, 'f memory_index) outcome" where
  "memory_describe_index index_name M = (Inr (case mi_schema M of
       None \<Rightarrow> None | Some (d, m) \<Rightarrow> Some \<lparr>id_dimensions = d, id_metric = m\<rparr>), M)"

definition memory_delete_index :: "string \<Rightarrow> 'f memory_index \<Rightarrow> (prov_exn, unit, 'f memory_index) outcome" where
  "memory_delete_index index_name M = (Inr (), M\<lparr>mi_schema := None\<rparr>)"

definition memory_provisioner :: "'f memory_index provisioner_port" where
  "memory_provisioner = \<lparr>pp_index_exists = memory_index_exists, pp_create_index = memory_create_index,
     pp_describe_index = memory_describe_index, pp_delete_index = memory_delete_index\<rparr>"

section \<open>The machine\<close>

record provisioning_config =
  pc_default_template_id :: string
  pc_provisioning_stale_after :: int
  pc_verification_interval :: int
  pc_wait_timeout :: int
  pc_wait_poll_interval :: int
  pc_auto_create :: bool

definition default_provisioning_config :: "int \<Rightarrow> provisioning_config" where
  "default_provisioning_config second = \<lparr>pc_default_template_id = ''standard-v1'', pc_provisioning_stale_after = 300 * second,
     pc_verification_interval = 300 * second, pc_wait_timeout = 60 * second, pc_wait_poll_interval = 2 * second,
     pc_auto_create = True\<rparr>"

text \<open>
  The program counter: the next call of a worker, with its local variables. In the wait loop the string
  is the name of the entry the loop was entered with and the last number its deadline.
\<close>

datatype prog_counter =
  AtGet
| AtVerify registry_entry
| AtDescribeReady registry_entry index_template int string
| AtTouch string
| AtClaim index_template int string
| AtRegister registry_entry
| AtExists registry_entry
| AtCreate registry_entry
| AtMarkFailed registry_entry string prov_exn
| AtDescribe registry_entry
| AtMarkReady registry_entry
| AtReread registry_entry
| AtWait registry_entry
| AtStale string registry_entry datetime
| AtRenew string registry_entry datetime
| AtReclaim string registry_entry registry_entry datetime
| AtDeadline string datetime
| AtSleep string datetime
| AtPoll string datetime
| Finished "prov_exn + registry_entry"

definition elapsed :: "datetime \<Rightarrow> datetime \<Rightarrow> int \<Rightarrow> bool" where
  "elapsed now since threshold \<longleftrightarrow> now - since \<ge> threshold"

definition failed_error :: "registry_entry \<Rightarrow> prov_exn" where
  "failed_error e = ProvisioningError (provisioning_exn (re_index_name e)
     (str_or (re_last_error_message e) ''index provisioning failed; requires human intervention'') INDEX_PROVISION_FAILED)"

definition retired_error :: "registry_entry \<Rightarrow> prov_exn" where
  "retired_error e = ProvisioningError (provisioning_exn (re_index_name e) ''index has been retired'' INDEX_RETIRED)"

definition dispatch_existing :: "registry_entry \<Rightarrow> prog_counter" where
  "dispatch_existing e = (case re_status e of
       Ready \<Rightarrow> AtVerify e
     | Provisioning \<Rightarrow> AtWait e
     | Failed \<Rightarrow> Finished (Inl (failed_error e))
     | Retired \<Rightarrow> Finished (Inl (retired_error e)))"

definition after_losing_claim :: "registry_entry \<Rightarrow> prog_counter" where
  "after_losing_claim e = (case re_status e of
       Ready \<Rightarrow> Finished (Inr e)
     | Provisioning \<Rightarrow> AtWait e
     | Failed \<Rightarrow> Finished (Inl (failed_error e))
     | Retired \<Rightarrow> Finished (Inl (retired_error e)))"

definition resolve_template ::
    "provisioning_config \<Rightarrow> template_store \<Rightarrow> scenario \<Rightarrow> provisioning_error + index_template \<times> int \<times> string" where
  "resolve_template cfg ts scn =
     (let template_id = str_or (sc_index_template_id scn) (pc_default_template_id cfg);
          wanted = ixs_dimensions (sc_indexer scn)
      in bind_res (template_get_or_raise ts template_id) (\<lambda>template.
        if it_dimensions template \<noteq> None \<and> it_dimensions template \<noteq> Some wanted
        then Inl (provisioning_exn (sc_index_name scn)
          (''template '' @ py_repr (it_template_id template) @ CHR 0x27 # ''s explicit dimensions='' @
           str_int (the (it_dimensions template)) @ '' disagrees with scenario.indexer.dimensions='' @ str_int wanted)
          INDEX_TEMPLATE_INVALID)
        else Inr (template, (case it_dimensions template of None \<Rightarrow> wanted | Some d \<Rightarrow> d), it_metric template)))"

definition handle_ready :: "provisioning_config \<Rightarrow> template_store \<Rightarrow> scenario \<Rightarrow> datetime \<Rightarrow> registry_entry \<Rightarrow> prog_counter" where
  "handle_ready cfg ts scn now e =
     (if (case re_last_verified_at e of None \<Rightarrow> False | Some t \<Rightarrow> \<not> elapsed now t (pc_verification_interval cfg))
      then Finished (Inr e)
      else case resolve_template cfg ts scn of
        Inl x \<Rightarrow> Finished (Inl (ProvisioningError x))
      | Inr (template, dimensions, metric) \<Rightarrow> AtDescribeReady e template dimensions metric)"

definition repr_description :: "index_description option \<Rightarrow> string" where
  "repr_description d = (case d of None \<Rightarrow> ''None''
     | Some x \<Rightarrow> ''IndexDescription(dimensions='' @ str_int (id_dimensions x) @ '', metric='' @ py_repr (id_metric x) @ '')'')"

text \<open>\<open>int(a) < int(b)\<close>: the left conversion fails first.\<close>

definition int_less :: "string \<Rightarrow> string \<Rightarrow> string + bool" where
  "int_less a b = (let bad = \<lambda>s. ''invalid literal for int() with base 10: '' @ py_repr s in
     case py_int a of None \<Rightarrow> Inl (bad a)
     | Some i \<Rightarrow> (case py_int b of None \<Rightarrow> Inl (bad b) | Some j \<Rightarrow> Inr (i < j)))"

definition drifted :: "registry_entry \<Rightarrow> index_template \<Rightarrow> int \<Rightarrow> string \<Rightarrow> index_description option \<Rightarrow> string + bool" where
  "drifted e template dimensions metric description = (case description of
       None \<Rightarrow> Inr True
     | Some d \<Rightarrow> if id_dimensions d \<noteq> dimensions \<or> id_metric d \<noteq> metric then Inr True
         else int_less (re_template_version e) (it_template_version template))"

definition drift_error :: "registry_entry \<Rightarrow> index_template \<Rightarrow> int \<Rightarrow> string \<Rightarrow> index_description option \<Rightarrow> prov_exn" where
  "drift_error e template dimensions metric description = ProvisioningError (provisioning_exn (re_index_name e)
     (''live index incompatible with resolved template: description='' @ repr_description description @
      '', resolved_dimensions='' @ str_int dimensions @ '', resolved_metric='' @ py_repr metric @
      '', entry.template_version='' @ py_repr (re_template_version e) @
      '', template.template_version='' @ py_repr (it_template_version template)) INDEX_SCHEMA_DRIFT)"

text \<open>\<open>_call_adapter\<close>: an exception that is not the module's own becomes \<open>INDEX_PROVISIONER_UNAVAILABLE\<close>.\<close>

definition call_adapter :: "string \<Rightarrow> ('w \<Rightarrow> (prov_exn, 'a, 'w) outcome) \<Rightarrow> 'w \<Rightarrow> (provisioning_error, 'a, 'w) outcome" where
  "call_adapter index_name f W = (case f W of
       (Inr a, W') \<Rightarrow> (Inr a, W')
     | (Inl (ProvisioningError x), W') \<Rightarrow> (Inl x, W')
     | (Inl (ProvException s), W') \<Rightarrow> (Inl (provisioning_exn index_name s INDEX_PROVISIONER_UNAVAILABLE), W'))"

text \<open>The second half of \<open>_handle_ready\<close>, from the answer of \<open>describe_index\<close>.\<close>

definition after_describe_ready ::
    "registry_entry \<Rightarrow> index_template \<Rightarrow> int \<Rightarrow> string \<Rightarrow> provisioning_error + index_description option \<Rightarrow> prog_counter" where
  "after_describe_ready e template dimensions metric r = (case r of
       Inl x \<Rightarrow> Finished (Inl (ProvisioningError x))
     | Inr description \<Rightarrow> (case drifted e template dimensions metric description of
           Inl s \<Rightarrow> Finished (Inl (ProvException s))
         | Inr d \<Rightarrow> if d then Finished (Inl (drift_error e template dimensions metric description))
             else AtTouch (re_index_name e)))"

definition claim_new :: "provisioning_config \<Rightarrow> template_store \<Rightarrow> scenario \<Rightarrow> prog_counter" where
  "claim_new cfg ts scn =
     (if \<not> pc_auto_create cfg
      then Finished (Inl (ProvisioningError (provisioning_exn (sc_index_name scn)
        ''no index exists and config.auto_create is False'' INDEX_AUTO_CREATE_DISABLED)))
      else case resolve_template cfg ts scn of
        Inl x \<Rightarrow> Finished (Inl (ProvisioningError x))
      | Inr (template, dimensions, metric) \<Rightarrow> AtClaim template dimensions metric)"

definition claim_candidate :: "scenario \<Rightarrow> index_template \<Rightarrow> int \<Rightarrow> string \<Rightarrow> datetime \<Rightarrow> string \<Rightarrow> registry_entry" where
  "claim_candidate scn template dimensions metric now token =
     \<lparr>re_index_name = sc_index_name scn, re_vertical = sc_vertical scn, re_scenario_id = sc_scenario_id scn,
      re_template_id = it_template_id template, re_template_version = it_template_version template,
      re_dimensions = dimensions, re_metric = metric, re_embedding_model = emb_model (sc_embedder scn),
      re_status = Provisioning, re_created_at = now, re_last_verified_at = None, re_document_count = None,
      re_claim_token = Some token, re_claimed_at = Some now, re_last_error_message = None,
      re_resolved_template = Some template\<rparr>"

definition after_register :: "registry_entry \<Rightarrow> prov_exn + registry_entry \<Rightarrow> prog_counter" where
  "after_register candidate r = (case r of
       Inl x \<Rightarrow> Finished (Inl x)
     | Inr won \<Rightarrow> if re_claim_token won = re_claim_token candidate then AtExists won else after_losing_claim won)"

text \<open>\<open>_claim_and_create\<close>, call by call.\<close>

definition after_exists :: "registry_entry \<Rightarrow> provisioning_error + bool \<Rightarrow> prog_counter" where
  "after_exists won r = (case r of
       Inl x \<Rightarrow> Finished (Inl (ProvisioningError x))
     | Inr already_exists \<Rightarrow>
         if already_exists then AtDescribe won
         else if re_resolved_template won = None then Finished (Inl (ProvException [])) else AtCreate won)"

definition after_create :: "registry_entry \<Rightarrow> provisioning_error + unit \<Rightarrow> prog_counter" where
  "after_create won r = (case r of
       Inl x \<Rightarrow> AtMarkFailed won (provisioning_error_str x) (ProvisioningError x)
     | Inr _ \<Rightarrow> AtDescribe won)"

definition incompatible_reason :: "registry_entry \<Rightarrow> index_description option \<Rightarrow> string" where
  "incompatible_reason won description =
     ''index '' @ py_repr (re_index_name won) @ '' incompatible after creation/existence check: description='' @
     repr_description description @ '', expected dimensions='' @ str_int (re_dimensions won) @ '', metric='' @
     py_repr (re_metric won)"

definition after_describe :: "registry_entry \<Rightarrow> provisioning_error + index_description option \<Rightarrow> prog_counter" where
  "after_describe won r = (case r of
       Inl x \<Rightarrow> Finished (Inl (ProvisioningError x))
     | Inr description \<Rightarrow>
         if (case description of None \<Rightarrow> True
             | Some d \<Rightarrow> (id_dimensions d, id_metric d) \<noteq> (re_dimensions won, re_metric won))
         then let reason = incompatible_reason won description in
           AtMarkFailed won reason (ProvisioningError (provisioning_exn (re_index_name won) reason INDEX_SCHEMA_DRIFT))
         else AtMarkReady won)"

definition is_conflict :: "prov_exn \<Rightarrow> bool" where
  "is_conflict x = (case x of ProvisioningError e \<Rightarrow> pe_error_code e = INDEX_PROVISION_CONFLICT | ProvException _ \<Rightarrow> False)"

text \<open>\<open>_absorb_conflict\<close>, then the exception the caller raises.\<close>

definition after_mark_failed :: "prov_exn \<Rightarrow> prov_exn + registry_entry \<Rightarrow> prog_counter" where
  "after_mark_failed exc r = (case r of
       Inl x \<Rightarrow> if is_conflict x then Finished (Inl exc) else Finished (Inl x)
     | Inr _ \<Rightarrow> Finished (Inl exc))"

definition after_mark_ready :: "registry_entry \<Rightarrow> prov_exn + registry_entry \<Rightarrow> prog_counter" where
  "after_mark_ready won r = (case r of
       Inl x \<Rightarrow> if is_conflict x then AtReread won else Finished (Inl x)
     | Inr e \<Rightarrow> Finished (Inr e))"

definition after_reread ::
    "provisioning_config \<Rightarrow> template_store \<Rightarrow> scenario \<Rightarrow> prov_exn + registry_entry option \<Rightarrow> prog_counter" where
  "after_reread cfg ts scn r = (case r of
       Inl x \<Rightarrow> Finished (Inl x)
     | Inr None \<Rightarrow> claim_new cfg ts scn
     | Inr (Some current) \<Rightarrow> after_losing_claim current)"

text \<open>\<open>_wait_for_ready\<close>, \<open>_is_stale\<close> and \<open>_try_reclaim\<close>, call by call.\<close>

definition is_stale :: "provisioning_config \<Rightarrow> datetime \<Rightarrow> registry_entry \<Rightarrow> bool" where
  "is_stale cfg now e = (case re_claimed_at e of None \<Rightarrow> False | Some t \<Rightarrow> elapsed now t (pc_provisioning_stale_after cfg))"

definition renewed_claim :: "datetime \<Rightarrow> string \<Rightarrow> registry_entry \<Rightarrow> registry_entry" where
  "renewed_claim now token observed = observed\<lparr>re_claim_token := Some token, re_claimed_at := Some now\<rparr>"

definition after_reclaim :: "string \<Rightarrow> datetime \<Rightarrow> prov_exn + registry_entry \<Rightarrow> prog_counter" where
  "after_reclaim name deadline r = (case r of
       Inl x \<Rightarrow> if is_conflict x then AtDeadline name deadline else Finished (Inl x)
     | Inr reclaimed \<Rightarrow> AtExists reclaimed)"

definition check_deadline :: "string \<Rightarrow> datetime \<Rightarrow> datetime \<Rightarrow> prog_counter" where
  "check_deadline name deadline now =
     (if now \<ge> deadline
      then Finished (Inl (ProvisioningError (provisioning_exn name
        ''timed out waiting for another worker's provisioning claim to reach ready'' INDEX_PROVISION_TIMEOUT)))
      else AtSleep name deadline)"

definition after_poll ::
    "provisioning_config \<Rightarrow> template_store \<Rightarrow> scenario \<Rightarrow> string \<Rightarrow> datetime \<Rightarrow> prov_exn + registry_entry option \<Rightarrow> prog_counter" where
  "after_poll cfg ts scn name deadline r = (case r of
       Inl x \<Rightarrow> Finished (Inl x)
     | Inr None \<Rightarrow> claim_new cfg ts scn
     | Inr (Some refreshed) \<Rightarrow>
         if re_status refreshed \<noteq> Provisioning then after_losing_claim refreshed else AtStale name refreshed deadline)"

definition after_get :: "provisioning_config \<Rightarrow> template_store \<Rightarrow> scenario \<Rightarrow> prov_exn + registry_entry option \<Rightarrow> prog_counter" where
  "after_get cfg ts scn r = (case r of
       Inl x \<Rightarrow> Finished (Inl x)
     | Inr None \<Rightarrow> claim_new cfg ts scn
     | Inr (Some e) \<Rightarrow> dispatch_existing e)"

text \<open>A call on the registry or on the store, and where it leads.\<close>

definition on_registry :: "('a \<Rightarrow> prog_counter) \<Rightarrow> ('r \<Rightarrow> 'a \<times> 'r) \<Rightarrow> 'r \<times> 'w \<Rightarrow> prog_counter \<times> 'r \<times> 'w" where
  "on_registry k f s = (let (a, R) = f (fst s) in (k a, R, snd s))"

definition on_store :: "('a \<Rightarrow> prog_counter) \<Rightarrow> ('w \<Rightarrow> 'a \<times> 'w) \<Rightarrow> 'r \<times> 'w \<Rightarrow> prog_counter \<times> 'r \<times> 'w" where
  "on_store k f s = (let (a, W) = f (snd s) in (k a, fst s, W))"

text \<open>One call of a worker. \<open>now\<close> is what the clock shows and \<open>token\<close> what the generator would return at this step.\<close>

fun ensure_step ::
    "provisioning_config \<Rightarrow> template_store \<Rightarrow> 'r registry_port \<Rightarrow> 'w provisioner_port \<Rightarrow> scenario \<Rightarrow> datetime \<Rightarrow> string \<Rightarrow>
     prog_counter \<Rightarrow> 'r \<times> 'w \<Rightarrow> prog_counter \<times> 'r \<times> 'w" where
  "ensure_step cfg ts rp ad scn now token AtGet s = on_registry (after_get cfg ts scn) (gp_get rp (sc_index_name scn)) s"
| "ensure_step cfg ts rp ad scn now token (AtVerify e) s = (handle_ready cfg ts scn now e, s)"
| "ensure_step cfg ts rp ad scn now token (AtDescribeReady e t d m) s =
     on_store (after_describe_ready e t d m) (call_adapter (re_index_name e) (pp_describe_index ad (re_index_name e))) s"
| "ensure_step cfg ts rp ad scn now token (AtTouch n) s = on_registry Finished (gp_touch_verified rp now n) s"
| "ensure_step cfg ts rp ad scn now token (AtClaim t d m) s = (AtRegister (claim_candidate scn t d m now token), s)"
| "ensure_step cfg ts rp ad scn now token (AtRegister c) s = on_registry (after_register c) (gp_register rp c) s"
| "ensure_step cfg ts rp ad scn now token (AtExists e) s =
     on_store (after_exists e) (call_adapter (re_index_name e) (pp_index_exists ad (re_index_name e))) s"
| "ensure_step cfg ts rp ad scn now token (AtCreate e) s =
     on_store (after_create e) (call_adapter (re_index_name e)
       (pp_create_index ad (re_index_name e) (the (re_resolved_template e)) (re_dimensions e) (re_metric e))) s"
| "ensure_step cfg ts rp ad scn now token (AtMarkFailed e reason exc) s =
     on_registry (after_mark_failed exc) (gp_mark_failed rp (re_index_name e) reason (re_claim_token e)) s"
| "ensure_step cfg ts rp ad scn now token (AtDescribe e) s =
     on_store (after_describe e) (call_adapter (re_index_name e) (pp_describe_index ad (re_index_name e))) s"
| "ensure_step cfg ts rp ad scn now token (AtMarkReady e) s =
     on_registry (after_mark_ready e) (gp_mark_ready rp now (re_index_name e) (re_claim_token e)) s"
| "ensure_step cfg ts rp ad scn now token (AtReread e) s =
     on_registry (after_reread cfg ts scn) (gp_get rp (re_index_name e)) s"
| "ensure_step cfg ts rp ad scn now token (AtWait e) s =
     (AtStale (re_index_name e) e (now + pc_wait_timeout cfg), s)"
| "ensure_step cfg ts rp ad scn now token (AtStale n e deadline) s =
     (if is_stale cfg now e then AtRenew n e deadline else AtDeadline n deadline, s)"
| "ensure_step cfg ts rp ad scn now token (AtRenew n e deadline) s = (AtReclaim n e (renewed_claim now token e) deadline, s)"
| "ensure_step cfg ts rp ad scn now token (AtReclaim n e c deadline) s =
     on_registry (after_reclaim n deadline) (gp_reclaim rp (re_index_name e) e c) s"
| "ensure_step cfg ts rp ad scn now token (AtDeadline n deadline) s = (check_deadline n deadline now, s)"
| "ensure_step cfg ts rp ad scn now token (AtSleep n deadline) s = (AtPoll n deadline, s)"
| "ensure_step cfg ts rp ad scn now token (AtPoll n deadline) s =
     on_registry (after_poll cfg ts scn n deadline) (gp_get rp n) s"
| "ensure_step cfg ts rp ad scn now token (Finished r) s = (Finished r, s)"

section \<open>Many workers\<close>

record ('r, 'w) provisioning_system =
  sys_shared :: "'r \<times> 'w"
  sys_pcs :: "nat \<Rightarrow> prog_counter"
  sys_tokens :: "string set"

text \<open>
  Worker \<open>i\<close> has its own configuration, template catalogue and scenario. \<open>begin_call\<close> is a new call of
  \<open>ensure\<close>: after the last one finished, or after the process died anywhere in it.
\<close>

inductive system_step ::
    "(nat \<Rightarrow> provisioning_config) \<Rightarrow> (nat \<Rightarrow> template_store) \<Rightarrow> ('c \<Rightarrow> 'r registry_port) \<Rightarrow> 'w provisioner_port \<Rightarrow> (nat \<Rightarrow> scenario) \<Rightarrow>
     ('r, 'w) provisioning_system \<Rightarrow> ('r, 'w) provisioning_system \<Rightarrow> bool"
  for cfg ts rp ad scn where
  worker_call: "ensure_step (cfg i) (ts i) (rp c) ad (scn i) now token (sys_pcs s i) (sys_shared s) = (pc, sh) \<Longrightarrow>
     token \<notin> sys_tokens s \<Longrightarrow>
     system_step cfg ts rp ad scn s \<lparr>sys_shared = sh, sys_pcs = (sys_pcs s)(i := pc), sys_tokens = insert token (sys_tokens s)\<rparr>"
| begin_call: "system_step cfg ts rp ad scn s (s\<lparr>sys_pcs := (sys_pcs s)(i := AtGet)\<rparr>)"
| retire_call: "gp_mark_retired (rp c) n (fst (sys_shared s)) = (res, R) \<Longrightarrow>
     system_step cfg ts rp ad scn s (s\<lparr>sys_shared := (R, snd (sys_shared s))\<rparr>)"

abbreviation system_run where
  "system_run cfg ts rp ad scn \<equiv> (system_step cfg ts rp ad scn)\<^sup>*\<^sup>*"

text \<open>The start: an empty registry, empty caches, and a store in any state.\<close>

definition system_init :: "'r \<Rightarrow> 'w \<Rightarrow> ('r, 'w) provisioning_system" where
  "system_init R W = \<lparr>sys_shared = (R, W), sys_pcs = \<lambda>_. AtGet, sys_tokens = {}\<rparr>"

section \<open>What a store promises\<close>

type_synonym live_indexes = "string \<Rightarrow> (int \<times> string) option"

locale index_service =
  fixes ad :: "'w provisioner_port" and live :: "'w \<Rightarrow> live_indexes"
  assumes exists_keeps: "live W k = Some x \<Longrightarrow> live (snd (pp_index_exists ad n W)) k = Some x"
    and create_keeps: "live W k = Some x \<Longrightarrow> live (snd (pp_create_index ad n t d m W)) k = Some x"
    and describe_keeps: "live W k = Some x \<Longrightarrow> live (snd (pp_describe_index ad n W)) k = Some x"
    and describe_live: "pp_describe_index ad n W = (Inr r, W') \<Longrightarrow>
      r = map_option (\<lambda>(d, m). \<lparr>id_dimensions = d, id_metric = m\<rparr>) (live W' n)"

lemma memory_ensure_schema_keeps:
  "mi_schema M = Some x \<Longrightarrow> mi_schema (snd (memory_ensure_schema d m M)) = Some x"
  by (cases x) (auto simp: memory_ensure_schema_def split: option.splits)

interpretation memory_service: index_service memory_provisioner "\<lambda>M _. mi_schema M"
proof (unfold_locales, goal_cases)
  case (2 W k x n t d m)
  from memory_ensure_schema_keeps [OF this, of d m] show ?case
    by (auto simp: memory_provisioner_def memory_create_index_def split: prod.splits sum.splits store_exn.splits)
qed (auto simp: memory_provisioner_def memory_index_exists_def memory_describe_index_def split: option.splits)

end
