(* ===== verification/Provisioning_Safety.thy ===== *)
theory Provisioning_Safety
  imports Provisioner
begin

text \<open>
  Safety of index provisioning under every interleaving of workers, crashes and retirements. The invariant
  \<open>system_ok\<close> says what the registry, the answers its caches can still give, and the local variables of
  every worker have in common; it is proved once for any registry and any store that keep their
  contracts (locale \<open>provisioning\<close>), and interpreted on a fleet of processes with a cache each over
  the in-memory registry, with the in-memory store.
\<close>

section \<open>The invariant\<close>

text \<open>What is fixed when an index is registered.\<close>

definition core :: "registry_entry \<Rightarrow> (string \<times> string \<times> string \<times> string \<times> string) \<times> int \<times> string \<times> string \<times> datetime" where
  "core e = ((re_index_name e, re_vertical e, re_scenario_id e, re_template_id e, re_template_version e),
     re_dimensions e, re_metric e, re_embedding_model e, re_created_at e)"

definition schema_of :: "registry_entry \<Rightarrow> int \<times> string" where
  "schema_of e = (re_dimensions e, re_metric e)"

text \<open>An entry is consistent in itself and with the live indexes.\<close>

definition entry_sound :: "live_indexes \<Rightarrow> string set \<Rightarrow> string \<Rightarrow> registry_entry \<Rightarrow> bool" where
  "entry_sound lv tokens n e \<longleftrightarrow> re_index_name e = n \<and> (\<forall>t. re_claim_token e = Some t \<longrightarrow> t \<in> tokens) \<and>
     (re_status e = Ready \<longrightarrow> re_claim_token e = None \<and> lv n = Some (schema_of e)) \<and>
     (re_status e = Failed \<longrightarrow> re_claim_token e = None) \<and>
     (re_status e = Provisioning \<longrightarrow> re_claim_token e \<noteq> None)"

text \<open>
  How an entry may change: its core never does, and once its claim is settled (there is no claim token)
  the status can only become \<open>Retired\<close> and no new claim is made.
\<close>

definition later :: "registry_entry \<Rightarrow> registry_entry \<Rightarrow> bool" where
  "later e c \<longleftrightarrow> core c = core e \<and>
     (re_claim_token e = None \<longrightarrow> re_claim_token c = None \<and> re_status c \<in> {re_status e, Retired})"

definition known :: "registry_map \<Rightarrow> string \<Rightarrow> registry_entry \<Rightarrow> bool" where
  "known m n e \<longleftrightarrow> (\<exists>c. m n = Some c \<and> later e c)"

abbreviation seen :: "registry_map \<Rightarrow> live_indexes \<Rightarrow> string set \<Rightarrow> string \<Rightarrow> registry_entry \<Rightarrow> bool" where
  "seen m lv tokens n e \<equiv> entry_sound lv tokens n e \<and> known m n e"

abbreviation held :: "registry_map \<Rightarrow> live_indexes \<Rightarrow> string set \<Rightarrow> string \<Rightarrow> registry_entry \<Rightarrow> bool" where
  "held m lv tokens n e \<equiv> seen m lv tokens n e \<and> re_claim_token e \<noteq> None"

text \<open>What holds of the local variables of a worker for the index \<open>n\<close>.\<close>

fun pc_sound :: "registry_map \<Rightarrow> live_indexes \<Rightarrow> string set \<Rightarrow> string \<Rightarrow> prog_counter \<Rightarrow> bool" where
  "pc_sound m lv tk n (AtVerify e) = (seen m lv tk n e \<and> re_status e = Ready)"
| "pc_sound m lv tk n (AtDescribeReady e _ _ _) = (seen m lv tk n e \<and> re_status e = Ready)"
| "pc_sound m lv tk n (AtTouch k) = (k = n \<and> (\<exists>e. seen m lv tk n e \<and> re_status e = Ready))"
| "pc_sound m lv tk n (AtRegister c) = (entry_sound lv tk n c \<and> re_status c = Provisioning)"
| "pc_sound m lv tk n (AtExists e) = held m lv tk n e"
| "pc_sound m lv tk n (AtCreate e) = held m lv tk n e"
| "pc_sound m lv tk n (AtMarkFailed e _ _) = held m lv tk n e"
| "pc_sound m lv tk n (AtDescribe e) = held m lv tk n e"
| "pc_sound m lv tk n (AtMarkReady e) = (held m lv tk n e \<and> lv n = Some (schema_of e))"
| "pc_sound m lv tk n (AtReread e) = (re_index_name e = n)"
| "pc_sound m lv tk n (AtWait e) = (seen m lv tk n e \<and> re_status e = Provisioning)"
| "pc_sound m lv tk n (AtStale k e _) = (k = n \<and> seen m lv tk n e \<and> re_status e = Provisioning)"
| "pc_sound m lv tk n (AtRenew k e _) = (k = n \<and> seen m lv tk n e \<and> re_status e = Provisioning)"
| "pc_sound m lv tk n (AtReclaim k e c _) = (k = n \<and> seen m lv tk n e \<and> re_status e = Provisioning \<and> seen m lv tk n c \<and> re_status c = Provisioning \<and> later e c)"
| "pc_sound m lv tk n (AtDeadline k _) = (k = n)"
| "pc_sound m lv tk n (AtSleep k _) = (k = n)"
| "pc_sound m lv tk n (AtPoll k _) = (k = n)"
| "pc_sound m lv tk n (Finished (Inr e)) =
     (re_index_name e = n \<and> known m n e \<and> lv n = Some (schema_of e) \<and> re_status e \<in> {Ready, Retired})"
| "pc_sound m lv tk n _ = True"

text \<open>Growth: entries are never removed and change as \<open>later\<close> says, live indexes keep their schema, tokens stay used.\<close>

definition grows :: "registry_map \<Rightarrow> live_indexes \<Rightarrow> string set \<Rightarrow> registry_map \<Rightarrow> live_indexes \<Rightarrow> string set \<Rightarrow> bool" where
  "grows m lv tk m' lv' tk' \<longleftrightarrow> (\<forall>n e. m n = Some e \<longrightarrow> (\<exists>e'. m' n = Some e' \<and> later e e')) \<and>
     (\<forall>n. lv n \<noteq> None \<longrightarrow> lv' n = lv n) \<and> tk \<subseteq> tk'"

lemma schema_core: "core c = core e \<Longrightarrow> schema_of c = schema_of e"
  by (simp add: core_def schema_of_def)

lemma later_refl [simp]: "later e e"
  by (simp add: later_def)

lemma later_trans: "later a b \<Longrightarrow> later b c \<Longrightarrow> later a c"
  by (auto simp: later_def)

lemma grows_known: "grows m lv tk m' lv' tk' \<Longrightarrow> known m n e \<Longrightarrow> known m' n e"
  by (auto simp: grows_def known_def) (metis later_trans)

lemma grows_sound: "grows m lv tk m' lv' tk' \<Longrightarrow> entry_sound lv tk n e \<Longrightarrow> entry_sound lv' tk' n e"
  by (auto simp: grows_def entry_sound_def)

lemma grows_live: "grows m lv tk m' lv' tk' \<Longrightarrow> lv n = Some x \<Longrightarrow> lv' n = Some x"
  by (simp add: grows_def)

lemmas grows_keeps = grows_known grows_sound grows_live

lemma pc_sound_grows:
  assumes g: "grows m lv tk m' lv' tk'" and "pc_sound m lv tk n pc"
  shows "pc_sound m' lv' tk' n pc"
proof (cases pc)
  case (AtTouch k)
  with assms(2) grows_keeps [OF g] show ?thesis by fastforce
next
  case (Finished r)
  with assms(2) show ?thesis by (cases r) (auto intro: grows_keeps [OF g])
qed (use assms(2) in \<open>auto intro: grows_keeps [OF g]\<close>)

definition registry_sound :: "registry_map \<Rightarrow> live_indexes \<Rightarrow> string set \<Rightarrow> bool" where
  "registry_sound m lv tk \<longleftrightarrow> (\<forall>n e. m n = Some e \<longrightarrow> entry_sound lv tk n e)"

section \<open>The effect of each write\<close>

definition effect :: "(registry_map \<Rightarrow> (registry_entry \<times> registry_map) option) \<Rightarrow> registry_map \<Rightarrow> registry_map \<Rightarrow> bool" where
  "effect spec m m' \<longleftrightarrow> m' = m \<or> (\<exists>e. spec m = Some (e, m'))"

lemma grows_refl: "grows m lv tk m lv tk"
  by (auto simp: grows_def)

lemma grows_tokens: "grows m lv tk m lv (insert t tk)"
  by (auto simp: grows_def)

lemma grows_update: "m n = Some e \<Longrightarrow> later e e' \<Longrightarrow> grows m lv tk (m(n \<mapsto> e')) lv tk"
  by (auto simp: grows_def)

lemma grows_insert: "m n = None \<Longrightarrow> grows m lv tk (m(n \<mapsto> e)) lv tk"
  by (auto simp: grows_def)

lemma register_effect:
  assumes "registry_sound m lv tk" and "entry_sound lv tk (re_index_name c) c" and "effect (reg_register c) m m'"
  shows "registry_sound m' lv tk \<and> grows m lv tk m' lv tk"
  using assms grows_insert [of m "re_index_name c" lv tk c] grows_refl [of m lv tk]
  by (auto simp: effect_def reg_register_def registry_sound_def split: option.splits if_splits)

lemma reclaim_effect:
  assumes "registry_sound m lv tk" and "entry_sound lv tk n c" and "later e c" and "effect (reg_reclaim n e c) m m'"
  shows "registry_sound m' lv tk \<and> grows m lv tk m' lv tk"
  using assms grows_update [of m n e c lv tk] grows_refl [of m lv tk]
  by (auto simp: effect_def reg_reclaim_def registry_sound_def split: if_splits)

lemma update_effect:
  assumes "registry_sound m lv tk" and "\<And>e. m n = Some e \<Longrightarrow> t = None \<or> re_claim_token e = t \<Longrightarrow> entry_sound lv tk n (f e)"
    and "\<And>e. m n = Some e \<Longrightarrow> t = None \<or> re_claim_token e = t \<Longrightarrow> later e (f e)" and "effect (reg_update n t f) m m'"
  shows "registry_sound m' lv tk \<and> grows m lv tk m' lv tk"
proof -
  consider "m' = m" | e where "m n = Some e" "t = None \<or> re_claim_token e = t" "m' = m(n \<mapsto> f e)"
    using assms(4) by (auto simp: effect_def reg_update_def split: option.splits if_splits)
  then show ?thesis
  proof cases
    case 1
    then show ?thesis using assms(1) grows_refl by simp
  next
    case 2
    then have "entry_sound lv tk n (f e)" using assms(2) by blast
    with 2(3) assms(1) have "registry_sound m' lv tk" by (simp add: registry_sound_def)
    with 2(3) grows_update [of m n e "f e" lv tk, OF 2(1) assms(3) [OF 2(1,2)]] show ?thesis by blast
  qed
qed

lemma update_later:
  "later e (verified_entry now e)" "later e (retired_entry e)"
  "re_claim_token e \<noteq> None \<Longrightarrow> later e (ready_entry now e)" "re_claim_token e \<noteq> None \<Longrightarrow> later e (failed_entry r e)"
  "re_claim_token e \<noteq> None \<Longrightarrow> later e (renewed_claim now t e)"
  by (auto simp: later_def core_def verified_entry_def ready_entry_def failed_entry_def retired_entry_def renewed_claim_def)

lemma update_schema [simp]: "schema_of (verified_entry now e) = schema_of e" "schema_of (ready_entry now e) = schema_of e"
  "schema_of (failed_entry r e) = schema_of e" "schema_of (retired_entry e) = schema_of e" "schema_of (renewed_claim now t e) = schema_of e"
  by (simp_all add: schema_of_def verified_entry_def ready_entry_def failed_entry_def retired_entry_def renewed_claim_def)

lemma updates_sound:
  assumes "entry_sound lv tk n e"
  shows "entry_sound lv tk n (verified_entry now e)"
    and "lv n = Some (schema_of e) \<Longrightarrow> entry_sound lv tk n (ready_entry now e)"
    and "entry_sound lv tk n (failed_entry r e)"
    and "entry_sound lv tk n (retired_entry e)"
    and "re_status e = Provisioning \<Longrightarrow> t \<in> tk \<Longrightarrow> entry_sound lv tk n (renewed_claim now t e)"
  using assms
  by (auto simp: entry_sound_def verified_entry_def ready_entry_def failed_entry_def retired_entry_def renewed_claim_def schema_of_def)

section \<open>Where the steps lead\<close>

lemma after_losing_claim_sound: "seen m lv tk n e \<Longrightarrow> pc_sound m lv tk n (after_losing_claim e)"
  by (cases "re_status e") (auto simp: after_losing_claim_def entry_sound_def)

lemma dispatch_existing_sound: "seen m lv tk n e \<Longrightarrow> pc_sound m lv tk n (dispatch_existing e)"
  by (cases "re_status e") (auto simp: dispatch_existing_def)

lemma claim_new_sound: "pc_sound m lv tk n (claim_new cfg ts scn)"
  by (simp add: claim_new_def case_prod_beta split: sum.split)

lemma handle_ready_sound:
  "seen m lv tk n e \<Longrightarrow> re_status e = Ready \<Longrightarrow> pc_sound m lv tk n (handle_ready cfg ts scn now e)"
  by (auto simp: handle_ready_def entry_sound_def split: sum.splits option.splits)

lemma claim_candidate_sound:
  "token \<in> tk \<Longrightarrow> entry_sound lv tk (sc_index_name scn) (claim_candidate scn t d m now token) \<and>
   re_status (claim_candidate scn t d m now token) = Provisioning"
  by (simp add: claim_candidate_def entry_sound_def)

lemma spec_stores:
  "reg_register c m = Some (e, m') \<Longrightarrow> m' (re_index_name c) = Some e"
  "reg_reclaim n o1 c m = Some (e, m') \<Longrightarrow> m' n = Some e"
  "reg_update n t f m = Some (e, m') \<Longrightarrow> m' n = Some e"
  by (auto simp: reg_register_def reg_reclaim_def reg_update_def split: option.splits if_splits)

lemma stored_seen: "registry_sound m lv tk \<Longrightarrow> m n = Some e \<Longrightarrow> seen m lv tk n e"
  by (auto simp: registry_sound_def known_def)

lemma call_cases:
  assumes "call_ok contents views spec f" and "f R = (res, R')"
  shows "effect spec (contents R) (contents R')" and "res = Inr e \<Longrightarrow> spec (contents R) = Some (e, contents R')"
    and "views_step contents views R R'"
proof -
  have r: "refines_call contents spec R (res, R')" and v: "views_step contents views R (snd (res, R'))"
    using assms by (metis call_ok_def)+
  show "effect spec (contents R) (contents R')"
    using r by (auto simp: refines_call_def effect_def split: sum.splits)
  show "res = Inr e \<Longrightarrow> spec (contents R) = Some (e, contents R')"
    using r by (simp add: refines_call_def)
  show "views_step contents views R R'" using v by simp
qed

lemma call_adapter_store: "snd (call_adapter n f W) = snd (f W)"
  by (simp add: call_adapter_def case_prod_beta split: sum.split prov_exn.split)

lemma call_adapter_Inr: "call_adapter n f W = (Inr a, W') \<Longrightarrow> f W = (Inr a, W')"
  by (auto simp: call_adapter_def split: prod.splits sum.splits prov_exn.splits)

text \<open>The claim token a worker acts under.\<close>

fun pc_token :: "prog_counter \<Rightarrow> string option" where
  "pc_token (AtRegister e) = re_claim_token e"
| "pc_token (AtExists e) = re_claim_token e"
| "pc_token (AtCreate e) = re_claim_token e"
| "pc_token (AtMarkFailed e _ _) = re_claim_token e"
| "pc_token (AtDescribe e) = re_claim_token e"
| "pc_token (AtMarkReady e) = re_claim_token e"
| "pc_token (AtReclaim _ _ e _) = re_claim_token e"
| "pc_token _ = None"

definition tokens_exclusive :: "('r, 'w) provisioning_system \<Rightarrow> bool" where
  "tokens_exclusive s \<longleftrightarrow> (\<forall>i t. pc_token (sys_pcs s i) = Some t \<longrightarrow> t \<in> sys_tokens s) \<and>
     (\<forall>i j t. pc_token (sys_pcs s i) = Some t \<and> pc_token (sys_pcs s j) = Some t \<longrightarrow> i = j)"

section \<open>Every step keeps the invariant\<close>

definition views_sound where
  "views_sound contents views lv tk R \<longleftrightarrow> (\<forall>n e. Some e \<in> views R n \<longrightarrow> seen (contents R) lv tk n e)"

definition shared_ok where
  "shared_ok contents views live tk sh \<longleftrightarrow> registry_sound (contents (fst sh)) (live (snd sh)) tk \<and>
     views_sound contents views (live (snd sh)) tk (fst sh)"

definition shared_step where
  "shared_step contents views live tk sh sh' \<longleftrightarrow> shared_ok contents views live tk sh' \<and>
     grows (contents (fst sh)) (live (snd sh)) tk (contents (fst sh')) (live (snd sh')) tk"

definition leads_to where
  "leads_to contents views live tk n sh pc' sh' \<longleftrightarrow> shared_step contents views live tk sh sh' \<and>
     pc_sound (contents (fst sh')) (live (snd sh')) tk n pc'"

definition system_ok where
  "system_ok contents views live scn s \<longleftrightarrow> shared_ok contents views live (sys_tokens s) (sys_shared s) \<and>
     (\<forall>i. pc_sound (contents (fst (sys_shared s))) (live (snd (sys_shared s))) (sys_tokens s) (sc_index_name (scn i)) (sys_pcs s i))"

definition system_grows where
  "system_grows contents live s s' \<longleftrightarrow>
     grows (contents (fst (sys_shared s))) (live (snd (sys_shared s))) (sys_tokens s)
       (contents (fst (sys_shared s'))) (live (snd (sys_shared s'))) (sys_tokens s')"

lemma grows_trans:
  assumes "grows a b c a' b' c'" and "grows a' b' c' a2 b2 c2"
  shows "grows a b c a2 b2 c2"
  unfolding grows_def
proof (intro conjI allI impI)
  fix n e assume "a n = Some e"
  with assms show "\<exists>e'. a2 n = Some e' \<and> later e e'" unfolding grows_def by (meson later_trans)
qed (use assms in \<open>auto simp: grows_def\<close>)

lemma on_registryE:
  assumes "on_registry k f (R, W) = (pc', sh')"
  obtains res R' where "f R = (res, R')" "pc' = k res" "sh' = (R', W)"
  using assms by (auto simp: on_registry_def split: prod.splits)

lemma on_storeE:
  assumes "on_store k f (R, W) = (pc', sh')"
  obtains res W' where "f W = (res, W')" "pc' = k res" "sh' = (R, W')"
  using assms by (auto simp: on_store_def split: prod.splits)

locale provisioning = registry_contract rp contents views + index_service ad live
  for rp :: "'c \<Rightarrow> 'r registry_port" and contents views and ad :: "'w provisioner_port" and live
begin

abbreviation sh_ok where "sh_ok \<equiv> shared_ok contents views live"
abbreviation sh_step where "sh_step \<equiv> shared_step contents views live"

lemma registry_step:
  assumes "sh_ok tk (R, W)" and "registry_sound (contents R') (live W) tk"
    and g: "grows (contents R) (live W) tk (contents R') (live W) tk" and "views_step contents views R R'"
  shows "sh_step tk (R, W) (R', W)"
proof -
  have "seen (contents R') (live W) tk n e" if v: "Some e \<in> views R' n" for n e
  proof -
    consider "Some e \<in> views R n" | "contents R n = Some e" | "contents R' n = Some e"
      using assms(4) [unfolded views_step_def, rule_format, THEN subsetD, OF v] by auto
    then show ?thesis
    proof cases
      case 1
      with assms(1) show ?thesis by (auto simp: shared_ok_def views_sound_def intro: grows_keeps [OF g])
    next
      case 2
      then have "seen (contents R) (live W) tk n e" using assms(1) by (auto simp: shared_ok_def intro!: stored_seen)
      then show ?thesis by (auto intro: grows_keeps [OF g])
    next
      case 3
      with assms(2) show ?thesis by (rule stored_seen)
    qed
  qed
  with assms(2) g show ?thesis by (simp add: shared_step_def shared_ok_def views_sound_def)
qed

lemma write_step:
  assumes "sh_ok tk (R, W)" and c: "call_ok contents views spec f" "f R = (res, R')"
    and "\<And>m'. effect spec (contents R) m' \<Longrightarrow> registry_sound m' (live W) tk \<and> grows (contents R) (live W) tk m' (live W) tk"
  shows "sh_step tk (R, W) (R', W)"
  using registry_step [OF assms(1) _ _ call_cases(3) [OF c]] assms(4) [OF call_cases(1) [OF c]] by blast

lemma get_step:
  assumes "sh_ok tk (R, W)" and "gp_get (rp c) n R = (res, R')"
  shows "sh_step tk (R, W) (R', W)" and "res = Inr (Some e) \<Longrightarrow> seen (contents R') (live W) tk n e"
proof -
  have eq: "contents R' = contents R" using get_contents [of c n R] assms(2) by simp
  show "sh_step tk (R, W) (R', W)"
    using registry_step [OF assms(1), of R'] get_views [of R c n] assms eq grows_refl by (simp add: shared_ok_def)
  assume "res = Inr (Some e)"
  then have "Some e \<in> insert (contents R n) (views R n)" using get_answer [of c n R "Some e"] assms(2) by simp
  then show "seen (contents R') (live W) tk n e"
    using assms(1) stored_seen [of "contents R" "live W" tk n e] by (auto simp: eq shared_ok_def views_sound_def)
qed

lemma store_step:
  assumes "sh_ok tk (R, W)" and "\<And>k x. live W k = Some x \<Longrightarrow> live W' k = Some x"
  shows "sh_step tk (R, W) (R, W')"
proof -
  have g: "grows (contents R) (live W) tk (contents R) (live W') tk"
    using assms(2) by (force simp: grows_def)
  show ?thesis
    using assms(1) g
    by (auto simp: shared_step_def shared_ok_def registry_sound_def views_sound_def intro: grows_keeps [OF g])
qed

lemma adapter_step:
  assumes "sh_ok tk (R, W)" and "call_adapter k f W = (res, W')" and "\<And>k x. live W k = Some x \<Longrightarrow> live (snd (f W)) k = Some x"
  shows "sh_step tk (R, W) (R, W')"
  using store_step [OF assms(1), of W'] assms(2,3) call_adapter_store [of k f W] by simp

abbreviation goes where "goes \<equiv> leads_to contents views live"

lemma goes_local: "sh_ok tk sh \<Longrightarrow> pc_sound (contents (fst sh)) (live (snd sh)) tk n pc' \<Longrightarrow> goes tk n sh pc' sh"
  using grows_refl by (simp add: shared_step_def leads_to_def)

lemma goes_get:
  assumes ok: "sh_ok tk (R, W)" and st: "on_registry k (gp_get (rp c) n) (R, W) = (pc', sh')"
    and none: "\<And>m. pc_sound m (live W) tk n (k (Inr None))" and err: "\<And>m x. pc_sound m (live W) tk n (k (Inl x))"
    and some: "\<And>m e. seen m (live W) tk n e \<Longrightarrow> pc_sound m (live W) tk n (k (Inr (Some e)))"
  shows "goes tk n (R, W) pc' sh'"
proof -
  from st obtain res R' where f: "gp_get (rp c) n R = (res, R')" and k: "pc' = k res" "sh' = (R', W)" by (rule on_registryE)
  have "pc_sound (contents R') (live W) tk n (k res)"
  proof (cases res)
    case (Inr v)
    then show ?thesis using none some get_step(2) [OF ok f] by (cases v) auto
  qed (simp add: err)
  then show ?thesis using get_step(1) [OF ok f] k by (simp add: leads_to_def)
qed

lemma goes_write:
  assumes ok: "sh_ok tk (R, W)" and st: "on_registry k f (R, W) = (pc', sh')" and call: "call_ok contents views spec f"
    and eff: "\<And>m'. effect spec (contents R) m' \<Longrightarrow> registry_sound m' (live W) tk \<and> grows (contents R) (live W) tk m' (live W) tk"
    and stores: "\<And>e m'. spec (contents R) = Some (e, m') \<Longrightarrow> m' n = Some e"
    and err: "\<And>m x. pc_sound m (live W) tk n (k (Inl x))"
    and some: "\<And>e m'. spec (contents R) = Some (e, m') \<Longrightarrow> seen m' (live W) tk n e \<Longrightarrow> pc_sound m' (live W) tk n (k (Inr e))"
  shows "goes tk n (R, W) pc' sh'"
proof -
  from st obtain res R' where f: "f R = (res, R')" and k: "pc' = k res" "sh' = (R', W)" by (rule on_registryE)
  note c = call f
  have "pc_sound (contents R') (live W) tk n (k res)"
  proof (cases res)
    case (Inr e)
    note s = call_cases(2) [OF c Inr]
    from eff [OF call_cases(1) [OF c]] have "registry_sound (contents R') (live W) tk" by simp
    from stored_seen [OF this stores [OF s]] s Inr some show ?thesis by simp
  qed (simp add: err)
  then show ?thesis using write_step [OF ok c eff] k by (simp add: leads_to_def)
qed

lemma goes_adapter:
  assumes ok: "sh_ok tk (R, W)" and st: "on_store k (call_adapter i g) (R, W) = (pc', sh')"
    and pc: "pc_sound (contents R) (live W) tk n pc"
    and keeps: "\<And>j x. live W j = Some x \<Longrightarrow> live (snd (g W)) j = Some x"
    and sound: "\<And>res W'. call_adapter i g W = (res, W') \<Longrightarrow> pc_sound (contents R) (live W') tk n pc \<Longrightarrow>
      pc_sound (contents R) (live W') tk n (k res)"
  shows "goes tk n (R, W) pc' sh'"
proof -
  from st obtain res W' where f: "call_adapter i g W = (res, W')" and k: "pc' = k res" "sh' = (R, W')" by (rule on_storeE)
  have s: "sh_step tk (R, W) (R, W')" by (rule adapter_step [OF ok f keeps])
  then have "grows (contents R) (live W) tk (contents R) (live W') tk" by (simp add: shared_step_def)
  from sound [OF f pc_sound_grows [OF this pc]] s k show ?thesis by (simp add: leads_to_def)
qed

lemma describe_schema:
  assumes "call_adapter n (pp_describe_index ad n) W = (Inr r, W')"
  shows "r = map_option (\<lambda>(d, m). \<lparr>id_dimensions = d, id_metric = m\<rparr>) (live W' n)"
  by (rule describe_live [OF call_adapter_Inr [OF assms]])

lemma after_describe_ready_sound:
  "seen m lv tk n e \<Longrightarrow> re_status e = Ready \<Longrightarrow> pc_sound m lv tk n (after_describe_ready e t d mt r)"
  by (auto simp: after_describe_ready_def entry_sound_def split: sum.splits)

lemma after_describe_sound:
  assumes "call_adapter n (pp_describe_index ad n) W = (r, W')" and "held m (live W') tk n e"
  shows "pc_sound m (live W') tk n (after_describe e r)"
proof (cases r)
  case (Inr x)
  note d = describe_schema [OF assms(1) [unfolded Inr]]
  show ?thesis using assms(2) d Inr
    by (cases "live W' n") (auto simp: after_describe_def schema_of_def Let_def)
qed (simp add: after_describe_def)

lemma goes_update:
  assumes ok: "sh_ok tk (R, W)" and st: "on_registry k g (R, W) = (pc', sh')" and call: "call_ok contents views (reg_update n t f) g"
    and sound: "\<And>e. contents R n = Some e \<Longrightarrow> t = None \<or> re_claim_token e = t \<Longrightarrow> entry_sound (live W) tk n e \<Longrightarrow>
      entry_sound (live W) tk n (f e) \<and> later e (f e)"
    and err: "\<And>m x. pc_sound m (live W) tk n (k (Inl x))"
    and some: "\<And>e m'. contents R n = Some e \<Longrightarrow> entry_sound (live W) tk n e \<Longrightarrow> later e (f e) \<Longrightarrow> seen m' (live W) tk n (f e) \<Longrightarrow>
      pc_sound m' (live W) tk n (k (Inr (f e)))"
  shows "goes tk n (R, W) pc' sh'"
proof (rule goes_write [OF ok st call])
  have rs: "registry_sound (contents R) (live W) tk" using ok by (simp add: shared_ok_def)
  then have es: "contents R n = Some e \<Longrightarrow> entry_sound (live W) tk n e" for e by (simp add: registry_sound_def)
  fix m' assume "effect (reg_update n t f) (contents R) m'"
  from update_effect [OF rs _ _ this] sound es
  show "registry_sound m' (live W) tk \<and> grows (contents R) (live W) tk m' (live W) tk" by blast
next
  fix e m' assume "reg_update n t f (contents R) = Some (e, m')"
  then show "m' n = Some e" by (rule spec_stores(3))
next
  have es: "contents R n = Some e \<Longrightarrow> entry_sound (live W) tk n e" for e using ok by (simp add: shared_ok_def registry_sound_def)
  fix e m' assume a: "reg_update n t f (contents R) = Some (e, m')" "seen m' (live W) tk n e"
  then obtain c where c: "contents R n = Some c" "e = f c" "t = None \<or> re_claim_token c = t"
    by (auto simp: reg_update_def split: option.splits if_splits)
  from sound [OF c(1,3) es [OF c(1)]] a(2) some [OF c(1) es [OF c(1)]] c(2)
  show "pc_sound m' (live W) tk n (k (Inr e))" by simp
qed (rule err)

lemma known_schema: "known m n e \<Longrightarrow> m n = Some c \<Longrightarrow> schema_of c = schema_of e"
  by (auto simp: known_def later_def dest: schema_core)

lemma touch_sound:
  assumes "sh_ok tk (R, W)" and pc: "pc_sound (contents R) (live W) tk n (AtTouch k)"
    and st: "on_registry Finished (gp_touch_verified (rp c) now k) (R, W) = (pc', sh')"
  shows "goes tk n (R, W) pc' sh'"
proof -
  from pc obtain e where e: "seen (contents R) (live W) tk n e" "re_status e = Ready" and k: "k = n" by auto
  show ?thesis
  proof (rule goes_update [OF assms(1) st [unfolded k] touch])
    fix a m' assume a: "contents R n = Some a" "seen m' (live W) tk n (verified_entry now a)"
    then have "later e a" using e by (auto simp: known_def)
    then have "re_status a \<in> {Ready, Retired}" using e by (auto simp: later_def entry_sound_def)
    moreover have "live W n = Some (schema_of a)" using e known_schema [of "contents R" n e a] a(1) by (auto simp: entry_sound_def)
    ultimately show "pc_sound m' (live W) tk n (Finished (Inr (verified_entry now a)))"
      using a(2) by (auto simp: verified_entry_def entry_sound_def schema_of_def)
  qed (use updates_sound(1) update_later(1) in auto)
qed

lemma mark_ready_sound:
  assumes "sh_ok tk (R, W)" and pc: "pc_sound (contents R) (live W) tk n (AtMarkReady e)"
    and st: "on_registry (after_mark_ready e) (gp_mark_ready (rp c) now n (re_claim_token e)) (R, W) = (pc', sh')"
  shows "goes tk n (R, W) pc' sh'"
proof (rule goes_update [OF assms(1) st ready])
  fix a assume a: "contents R n = Some a" "re_claim_token e = None \<or> re_claim_token a = re_claim_token e" "entry_sound (live W) tk n a"
  then have "re_claim_token a \<noteq> None" "live W n = Some (schema_of a)"
    using pc known_schema [of "contents R" n e a] by auto
  then show "entry_sound (live W) tk n (ready_entry now a) \<and> later a (ready_entry now a)"
    using updates_sound(2) [OF a(3)] update_later(3) by blast
next
  fix a m' assume "contents R n = Some a" "seen m' (live W) tk n (ready_entry now a)"
  then show "pc_sound m' (live W) tk n (after_mark_ready e (Inr (ready_entry now a)))"
    by (auto simp: after_mark_ready_def ready_entry_def entry_sound_def)
qed (use pc in \<open>auto simp: after_mark_ready_def entry_sound_def\<close>)

lemma mark_failed_sound:
  assumes "sh_ok tk (R, W)" and pc: "pc_sound (contents R) (live W) tk n (AtMarkFailed e reason x)"
    and st: "on_registry (after_mark_failed x) (gp_mark_failed (rp c) n reason (re_claim_token e)) (R, W) = (pc', sh')"
  shows "goes tk n (R, W) pc' sh'"
proof (rule goes_update [OF assms(1) st failed])
  fix a assume a: "re_claim_token e = None \<or> re_claim_token a = re_claim_token e" "entry_sound (live W) tk n a"
  then have "re_claim_token a \<noteq> None" using pc by auto
  then show "entry_sound (live W) tk n (failed_entry reason a) \<and> later a (failed_entry reason a)"
    using updates_sound(3) [OF a(2)] update_later(4) by blast
qed (simp_all add: after_mark_failed_def)

lemma register_sound:
  assumes ok: "sh_ok tk (R, W)" and pc: "pc_sound (contents R) (live W) tk n (AtRegister e)"
    and st: "on_registry (after_register e) (gp_register (rp c) e) (R, W) = (pc', sh')"
  shows "goes tk n (R, W) pc' sh'"
proof (rule goes_write [OF ok st register])
  have rs: "registry_sound (contents R) (live W) tk" using ok by (simp add: shared_ok_def)
  have n: "re_index_name e = n" using pc by (simp add: entry_sound_def)
  fix m' assume "effect (reg_register e) (contents R) m'"
  from register_effect [OF rs _ this] pc n show "registry_sound m' (live W) tk \<and> grows (contents R) (live W) tk m' (live W) tk" by auto
next
  fix a m' assume "reg_register e (contents R) = Some (a, m')"
  from spec_stores(1) [OF this] pc show "m' n = Some a" by (auto simp: entry_sound_def)
next
  fix a m' assume "seen m' (live W) tk n a"
  then show "pc_sound m' (live W) tk n (after_register e (Inr a))"
    using after_losing_claim_sound [of "live W" tk n a m'] pc by (auto simp: after_register_def entry_sound_def)
qed (simp add: after_register_def)

lemma reclaim_sound:
  assumes ok: "sh_ok tk (R, W)" and pc: "pc_sound (contents R) (live W) tk n (AtReclaim k e e' d)"
    and st: "on_registry (after_reclaim k d) (gp_reclaim (rp c) n e e') (R, W) = (pc', sh')"
  shows "goes tk n (R, W) pc' sh'"
proof (rule goes_write [OF ok st reclaim])
  have rs: "registry_sound (contents R) (live W) tk" using ok by (simp add: shared_ok_def)
  have lt: "later e e'" using pc by simp
  fix m' assume "effect (reg_reclaim n e e') (contents R) m'"
  from reclaim_effect [OF rs _ lt this] pc show "registry_sound m' (live W) tk \<and> grows (contents R) (live W) tk m' (live W) tk" by auto
next
  fix a m' assume "reg_reclaim n e e' (contents R) = Some (a, m')"
  then show "m' n = Some a" by (rule spec_stores(2))
next
  fix a m' assume a: "reg_reclaim n e e' (contents R) = Some (a, m')" "seen m' (live W) tk n a"
  then have "a = e'" by (auto simp: reg_reclaim_def split: if_splits)
  with a(2) pc show "pc_sound m' (live W) tk n (after_reclaim k d (Inr a))"
    by (auto simp: after_reclaim_def entry_sound_def)
qed (use pc in \<open>auto simp: after_reclaim_def\<close>)

lemma ensure_step_sound:
  assumes ok: "sh_ok tk (R, W)" and tok: "token \<in> tk"
    and pc: "pc_sound (contents R) (live W) tk (sc_index_name scn) pc"
    and st: "ensure_step cfg ts (rp c) ad scn now token pc (R, W) = (pc', sh')"
  shows "goes tk (sc_index_name scn) (R, W) pc' sh'"
proof -
  let ?n = "sc_index_name scn"
  note loc = goes_local [OF ok, of ?n, simplified]
  note get_some = claim_new_sound after_losing_claim_sound dispatch_existing_sound
  show ?thesis
  proof (cases pc)
    case AtGet
    with st show ?thesis by (auto intro!: goes_get [OF ok, where c = c] simp: after_get_def get_some)
  next
    case (AtVerify e)
    with st pc show ?thesis by (auto intro!: loc handle_ready_sound)
  next
    case (AtDescribeReady e t d m)
    with pc have "re_index_name e = ?n" by (simp add: entry_sound_def)
    with AtDescribeReady st pc show ?thesis
      by (auto intro!: goes_adapter [OF ok _ pc] describe_keeps after_describe_ready_sound)
  next
    case (AtTouch k)
    with st pc show ?thesis by (auto intro!: touch_sound [OF ok])
  next
    case (AtClaim t d m)
    with st tok claim_candidate_sound show ?thesis by (auto intro!: loc)
  next
    case (AtRegister e)
    with st pc show ?thesis by (auto intro!: register_sound [OF ok])
  next
    case (AtExists e)
    with st pc show ?thesis
      by (auto intro!: goes_adapter [OF ok _ pc] exists_keeps simp: after_exists_def split: sum.splits)
  next
    case (AtCreate e)
    with st pc show ?thesis
      by (auto intro!: goes_adapter [OF ok _ pc] create_keeps simp: after_create_def split: sum.splits)
  next
    case (AtMarkFailed e reason x)
    with pc have "re_index_name e = ?n" by (simp add: entry_sound_def)
    with AtMarkFailed st pc show ?thesis by (auto intro!: mark_failed_sound [OF ok])
  next
    case (AtDescribe e)
    with pc have "re_index_name e = ?n" by (simp add: entry_sound_def)
    with AtDescribe st pc show ?thesis by (auto intro!: goes_adapter [OF ok _ pc] describe_keeps after_describe_sound)
  next
    case (AtMarkReady e)
    with pc have "re_index_name e = ?n" by (simp add: entry_sound_def)
    with AtMarkReady st pc show ?thesis by (auto intro!: mark_ready_sound [OF ok])
  next
    case (AtReread e)
    with st pc show ?thesis by (auto intro!: goes_get [OF ok, where c = c] simp: after_reread_def get_some)
  next
    case (AtRenew k e d)
    with pc have "re_claim_token e \<noteq> None" by (simp add: entry_sound_def)
    with AtRenew st pc tok show ?thesis
      using updates_sound(5) update_later(5) by (auto intro!: loc simp: known_def later_def renewed_claim_def core_def)
  next
    case (AtReclaim k e e' d)
    with pc have "re_index_name e = ?n" by (simp add: entry_sound_def)
    with AtReclaim st pc show ?thesis by (auto intro!: reclaim_sound [OF ok])
  next
    case (AtPoll k d)
    with st pc show ?thesis by (auto intro!: goes_get [OF ok, where c = c] simp: after_poll_def get_some)
  qed (use st pc in \<open>auto intro!: loc simp: check_deadline_def entry_sound_def split: if_splits\<close>)
qed

lemma shared_ok_tokens: "sh_ok tk sh \<Longrightarrow> sh_ok (insert t tk) sh"
  by (auto simp: shared_ok_def registry_sound_def views_sound_def intro: grows_keeps [OF grows_tokens])

lemma system_step_ok:
  assumes "system_step cfg ts rp ad scn s s'" and ok: "system_ok contents views live scn s"
  shows "system_ok contents views live scn s' \<and> system_grows contents live s s'"
  using assms(1)
proof cases
  case (worker_call i c now token pc sh)
  obtain R W where sh: "sys_shared s = (R, W)" by fastforce
  let ?tk = "insert token (sys_tokens s)"
  have ok': "sh_ok ?tk (R, W)" using ok sh by (auto simp: system_ok_def intro: shared_ok_tokens)
  have pcs: "pc_sound (contents R) (live W) ?tk (sc_index_name (scn j)) (sys_pcs s j)" for j
    using ok sh by (auto simp: system_ok_def intro: pc_sound_grows [OF grows_tokens])
  from ensure_step_sound [OF ok' _ pcs worker_call(2) [unfolded sh]]
  have g: "sh_step ?tk (R, W) sh" "pc_sound (contents (fst sh)) (live (snd sh)) ?tk (sc_index_name (scn i)) pc"
    by (auto simp: leads_to_def)
  then have gr: "grows (contents R) (live W) ?tk (contents (fst sh)) (live (snd sh)) ?tk" by (simp add: shared_step_def)
  then have "grows (contents R) (live W) (sys_tokens s) (contents (fst sh)) (live (snd sh)) ?tk" by (auto simp: grows_def)
  with g worker_call(1) sh pc_sound_grows [OF gr pcs] show ?thesis
    by (auto simp: system_ok_def system_grows_def shared_step_def)
next
  case (begin_call i)
  with ok show ?thesis by (auto simp: system_ok_def system_grows_def grows_refl)
next
  case (retire_call c n res R')
  obtain R W where sh: "sys_shared s = (R, W)" by fastforce
  have ok': "sh_ok (sys_tokens s) (R, W)" using ok sh by (simp add: system_ok_def)
  then have rs: "registry_sound (contents R) (live W) (sys_tokens s)" by (simp add: shared_ok_def)
  have step: "sh_step (sys_tokens s) (R, W) (R', W)"
  proof (rule write_step [OF ok' retired])
    show "gp_mark_retired (rp c) n R = (res, R')" using retire_call(2) sh by simp
    fix m' assume "effect (reg_update n None retired_entry) (contents R) m'"
    then show "registry_sound m' (live W) (sys_tokens s) \<and> grows (contents R) (live W) (sys_tokens s) m' (live W) (sys_tokens s)"
      by (rule update_effect [OF rs updates_sound(4) update_later(2), rotated]) (use rs in \<open>simp add: registry_sound_def\<close>)
  qed
  then have "grows (contents R) (live W) (sys_tokens s) (contents R') (live W) (sys_tokens s)" by (simp add: shared_step_def)
  from pc_sound_grows [OF this] step this ok sh retire_call(1) show ?thesis
    by (auto simp: system_ok_def system_grows_def shared_step_def)
qed

lemma system_run_ok:
  assumes "system_run cfg ts rp ad scn s s'" and "system_ok contents views live scn s"
  shows "system_ok contents views live scn s' \<and> system_grows contents live s s'"
  using assms
proof (induction rule: rtranclp_induct)
  case base
  then show ?case by (simp add: system_grows_def grows_refl)
next
  case (step y z)
  then have "system_ok contents views live scn z \<and> system_grows contents live y z" using system_step_ok by blast
  moreover have "system_grows contents live s y" using step by blast
  ultimately show ?case by (auto simp: system_grows_def intro: grows_trans)
qed

lemma system_init_ok:
  "contents R = (\<lambda>_. None) \<Longrightarrow> (\<And>n. views R n \<subseteq> {None}) \<Longrightarrow> system_ok contents views live scn (system_init R W)"
  by (auto simp: system_ok_def system_init_def shared_ok_def registry_sound_def views_sound_def)

lemma reachable_sound:
  assumes "system_run cfg ts rp ad scn (system_init R W) s" and "\<And>n. contents R n = None" and "\<And>n. views R n \<subseteq> {None}"
  shows "(\<forall>n e. contents (fst (sys_shared s)) n = Some e \<and> re_status e = Ready \<longrightarrow> live (snd (sys_shared s)) n = Some (re_dimensions e, re_metric e)) \<and>
    (\<forall>i e. sys_pcs s i = Finished (Inr e) \<longrightarrow> re_index_name e = sc_index_name (scn i) \<and>
       live (snd (sys_shared s)) (sc_index_name (scn i)) = Some (re_dimensions e, re_metric e) \<and> re_status e \<in> {Ready, Retired})"
proof -
  have "system_ok contents views live scn s"
    using system_run_ok [OF assms(1) system_init_ok] assms(2,3) by blast
  note ok = this [unfolded system_ok_def]
  have "entry_sound (live (snd (sys_shared s))) (sys_tokens s) n e" if "contents (fst (sys_shared s)) n = Some e" for n e
    using ok that by (simp add: shared_ok_def registry_sound_def)
  moreover have "pc_sound (contents (fst (sys_shared s))) (live (snd (sys_shared s))) (sys_tokens s)
      (sc_index_name (scn i)) (Finished (Inr e))" if "sys_pcs s i = Finished (Inr e)" for i e
    using ok that by metis
  ultimately show ?thesis by (fastforce simp: entry_sound_def schema_of_def)
qed

lemma ensure_step_token:
  assumes "ensure_step cfg ts (rp c) ad scn now token pc sh = (pc', sh')"
  shows "pc_token pc' \<in> {None, Some token, pc_token pc}"
proof (cases pc)
  case (AtReclaim k e e' d)
  obtain R W where sh: "sh = (R, W)" by fastforce
  with assms AtReclaim obtain res R' where r: "gp_reclaim (rp c) (re_index_name e) e e' R = (res, R')" "pc' = after_reclaim k d res"
    by (auto elim: on_registryE)
  have "res = Inr x \<Longrightarrow> x = e'" for x
    using call_cases(2) [OF reclaim r(1)] by (auto simp: reg_reclaim_def split: if_splits)
  then show ?thesis using r(2) AtReclaim by (auto simp: after_reclaim_def split: sum.splits)
qed (use assms in \<open>auto simp: on_registry_def on_store_def after_get_def after_poll_def after_reread_def after_register_def
      after_exists_def after_create_def after_describe_def after_mark_failed_def after_mark_ready_def after_describe_ready_def
      handle_ready_def claim_new_def claim_candidate_def dispatch_existing_def after_losing_claim_def check_deadline_def
      renewed_claim_def Let_def
    split: prod.splits sum.splits option.splits if_splits index_status.splits\<close>)

lemma system_step_tokens:
  assumes "system_step cfg ts rp ad scn s s'" and ex: "tokens_exclusive s"
  shows "tokens_exclusive s'"
  using assms(1)
proof cases
  case (worker_call i c now token pc sh)
  note t = ensure_step_token [OF worker_call(2)]
  show ?thesis
    using t ex worker_call(1,3) unfolding tokens_exclusive_def by (auto split: if_splits) (metis)+
next
  case (begin_call i)
  with ex show ?thesis by (auto simp: tokens_exclusive_def)
next
  case (retire_call c n res R)
  with ex show ?thesis by (simp add: tokens_exclusive_def)
qed

lemma on_store_registry: "on_store k f (R, W) = (pc', R', W') \<Longrightarrow> R' = R"
  by (auto simp: on_store_def split: prod.splits)

lemma register_keeps: "effect (reg_register d) m m' \<Longrightarrow> m n = Some e \<Longrightarrow> m' n = Some e"
  by (auto simp: effect_def reg_register_def split: option.splits if_splits)

lemma reclaim_keeps:
  "effect (reg_reclaim k a b) m m' \<Longrightarrow> m n = Some e \<Longrightarrow> re_status b = re_status a \<Longrightarrow> \<exists>e'. m' n = Some e' \<and> re_status e' = re_status e"
  by (auto simp: effect_def reg_reclaim_def split: if_splits)

lemma update_status:
  assumes "effect (reg_update k t f) m m'" and "m n = Some e" and "m' n = Some e'" and "re_status e' \<noteq> re_status e"
  shows "k = n \<and> (t = None \<or> re_claim_token e = t) \<and> e' = f e"
  using assms by (auto simp: effect_def reg_update_def split: option.splits if_splits)

lemma status_change:
  assumes pc: "pc_sound (contents R) (live W) tk (sc_index_name scn) pc"
    and st: "ensure_step cfg ts (rp c) ad scn now token pc (R, W) = (pc', R', W')"
    and e: "contents R n = Some e" "contents R' n = Some e'" "re_status e' \<noteq> re_status e"
  shows "pc_token pc = re_claim_token e \<and> re_claim_token e \<noteq> None"
proof -
  have same: "False" if "contents R' = contents R" using that e by simp
  have got: "False" if "on_registry k (gp_get (rp c) j) (R, W) = (pc', R', W')" for k j
    using that get_contents [of c j R] same by (auto elim!: on_registryE)
  have held: "effect spec (contents R) (contents R')"
    if "call_ok contents views spec f" "on_registry k f (R, W) = (pc', R', W')" for spec f k
    using that call_cases(1) by (auto elim!: on_registryE)
  show ?thesis
  proof (cases pc)
    case (AtTouch k)
    with st have "on_registry Finished (gp_touch_verified (rp c) now k) (R, W) = (pc', R', W')" by simp
    from update_status [OF held [OF touch this] e] e(3) show ?thesis by (auto simp: verified_entry_def)
  next
    case (AtRegister d)
    with st have "effect (reg_register d) (contents R) (contents R')" by (auto intro: held [OF register])
    from register_keeps [OF this e(1)] e show ?thesis by simp
  next
    case (AtMarkFailed d r x)
    with st have "on_registry (after_mark_failed x) (gp_mark_failed (rp c) (re_index_name d) r (re_claim_token d)) (R, W) = (pc', R', W')"
      by simp
    from update_status [OF held [OF failed this] e] pc AtMarkFailed show ?thesis by auto
  next
    case (AtMarkReady d)
    with st have "on_registry (after_mark_ready d) (gp_mark_ready (rp c) now (re_index_name d) (re_claim_token d)) (R, W) = (pc', R', W')"
      by simp
    from update_status [OF held [OF ready this] e] pc AtMarkReady show ?thesis by auto
  next
    case (AtReclaim k a b d)
    with st have "effect (reg_reclaim (re_index_name a) a b) (contents R) (contents R')" by (auto intro: held [OF reclaim])
    from reclaim_keeps [OF this e(1)] pc AtReclaim e show ?thesis by auto
  qed (use st got same in \<open>auto dest: on_store_registry\<close>)
qed

end

interpretation fleet_system: provisioning "fleet_port mem_registry_port" "fleet_contents map_of" "fleet_views (\<lambda>_ _. {})"
    memory_provisioner "\<lambda>M _. mi_schema M" ..

section \<open>Concrete runs\<close>

text \<open>The calls of a schedule, one after the other: worker, call context, clock and token.\<close>

fun run_calls ::
    "(nat \<Rightarrow> provisioning_config) \<Rightarrow> (nat \<Rightarrow> template_store) \<Rightarrow> ('c \<Rightarrow> 'r registry_port) \<Rightarrow> 'w provisioner_port \<Rightarrow> (nat \<Rightarrow> scenario) \<Rightarrow>
     (nat \<times> 'c \<times> datetime \<times> string) list \<Rightarrow> ('r, 'w) provisioning_system \<Rightarrow> ('r, 'w) provisioning_system" where
  "run_calls cfg ts rp ad scn [] s = s"
| "run_calls cfg ts rp ad scn ((i, c, now, token) # calls) s =
     run_calls cfg ts rp ad scn calls
       (let r = ensure_step (cfg i) (ts i) (rp c) ad (scn i) now token (sys_pcs s i) (sys_shared s)
        in \<lparr>sys_shared = snd r, sys_pcs = (sys_pcs s)(i := fst r), sys_tokens = insert token (sys_tokens s)\<rparr>)"

abbreviation call_tokens :: "(nat \<times> 'c \<times> datetime \<times> string) list \<Rightarrow> string list" where
  "call_tokens calls \<equiv> map (\<lambda>(i, c, now, token). token) calls"

lemma run_calls_run:
  "distinct (call_tokens calls) \<Longrightarrow> set (call_tokens calls) \<inter> sys_tokens s = {} \<Longrightarrow>
   system_run cfg ts rp ad scn s (run_calls cfg ts rp ad scn calls s)"
proof (induction calls arbitrary: s)
  case (Cons call calls)
  obtain i c now token where call: "call = (i, c, now, token)" by (cases call) auto
  let ?r = "ensure_step (cfg i) (ts i) (rp c) ad (scn i) now token (sys_pcs s i) (sys_shared s)"
  let ?s = "\<lparr>sys_shared = snd ?r, sys_pcs = (sys_pcs s)(i := fst ?r), sys_tokens = insert token (sys_tokens s)\<rparr>"
  have "system_step cfg ts rp ad scn s ?s"
    by (rule worker_call [where c = c and now = now]) (use Cons.prems call in auto)
  moreover have "system_run cfg ts rp ad scn ?s (run_calls cfg ts rp ad scn calls ?s)"
    by (rule Cons.IH) (use Cons.prems call in auto)
  ultimately show ?case using call by (simp add: Let_def)
qed simp

abbreviation fleet_run where
  "fleet_run cfg ts scn \<equiv> system_run cfg ts (fleet_port mem_registry_port) memory_provisioner scn"

abbreviation fleet_start :: "int \<Rightarrow> 'f memory_index \<Rightarrow> (mem_registry fleet, 'f memory_index) provisioning_system" where
  "fleet_start ttl M \<equiv> system_init (fleet_init [] ttl) M"

definition entry_at :: "('r fleet, 'w) provisioning_system \<Rightarrow> ('r \<Rightarrow> registry_map) \<Rightarrow> string \<Rightarrow> registry_entry option" where
  "entry_at s contents n = contents (fl_shared (fst (sys_shared s))) n"

lemma fleet_start_ok:
  "system_ok (fleet_contents map_of) (fleet_views (\<lambda>_ _. {})) (\<lambda>M _. mi_schema M) scn (fleet_start ttl M)"
  by (rule fleet_system.system_init_ok)
    (auto simp: fleet_contents_def fleet_views_def fleet_init_def cached_registry_init_def cache_views_def)

lemma fleet_reachable_ok:
  assumes "fleet_run cfg ts scn (fleet_start ttl M) s"
  shows "system_ok (fleet_contents map_of) (fleet_views (\<lambda>_ _. {})) (\<lambda>M _. mi_schema M) scn s" and "tokens_exclusive s"
proof -
  show "system_ok (fleet_contents map_of) (fleet_views (\<lambda>_ _. {})) (\<lambda>M _. mi_schema M) scn s"
    using fleet_system.system_run_ok [OF assms fleet_start_ok] by blast
  show "tokens_exclusive s" using assms
  proof (induction rule: rtranclp_induct)
    case base
    then show ?case by (simp add: tokens_exclusive_def system_init_def)
  qed (rule fleet_system.system_step_tokens)
qed

text \<open>One worker provisions an index from nothing in seven calls.\<close>

definition demo_calls :: "(nat \<times> (nat \<times> int \<times> int) \<times> datetime \<times> string) list" where
  "demo_calls = map (\<lambda>k. (0, (0, 0, 0), int (length k), k)) [''a'', ''ab'', ''abc'', ''b'', ''bc'', ''c'', ''d'']"

definition demo_templates :: template_store where
  "demo_templates = [(''standard-v1'', demo_template)]"

abbreviation demo_system :: "(mem_registry fleet, unit memory_index) provisioning_system" where
  "demo_system \<equiv> run_calls (\<lambda>_. default_provisioning_config 1) (\<lambda>_. demo_templates) (fleet_port mem_registry_port) memory_provisioner
     (\<lambda>_. demo_scenario) demo_calls (fleet_start 10 (memory_init ''hr''))"

definition demo_entry :: registry_entry where
  "demo_entry = ready_entry 1 (claim_candidate demo_scenario demo_template 512 ''cosine'' 2 ''ab'')"

lemmas machine_defs = on_registry_def on_store_def after_get_def after_poll_def after_reread_def after_register_def
  after_exists_def after_create_def after_describe_def after_mark_failed_def after_mark_ready_def after_describe_ready_def
  handle_ready_def claim_new_def dispatch_existing_def after_losing_claim_def after_reclaim_def check_deadline_def
  call_adapter_def

lemmas memory_provisioner_defs = memory_provisioner_def memory_index_exists_def memory_create_index_def memory_describe_index_def
  memory_ensure_schema_def

lemma demo_resolve: "resolve_template (default_provisioning_config 1) demo_templates demo_scenario = Inr (demo_template, 512, ''cosine'')"
  by (simp add: resolve_template_def default_provisioning_config_def demo_templates_def demo_scenario_def demo_template_def
      template_get_or_raise_def dict_get_def str_or_def Let_def)

lemma demo_system_run: "fleet_run (\<lambda>_. default_provisioning_config 1) (\<lambda>_. demo_templates) (\<lambda>_. demo_scenario)
    (fleet_start 10 (memory_init ''hr'' :: unit memory_index)) demo_system"
  by (rule run_calls_run) (simp_all add: demo_calls_def system_init_def)

lemma demo_system_state:
  "sys_pcs demo_system 0 = Finished (Inr demo_entry) \<and> entry_at demo_system map_of ''hr'' = Some demo_entry \<and>
   mi_schema (snd (sys_shared demo_system)) = Some (512, ''cosine'')"
  by code_simp

section \<open>Properties\<close>

text \<open>
  C1. Provisioning is sound under every interleaving: whatever any number of processes, each with its own
  cache, configuration and template catalogue, do at the same time, crashes and retirements included,
  an index the registry calls ready exists in the store with exactly the dimensions and the metric of
  its entry; and an entry that a call of \<open>ensure\<close> returned is that of the scenario's index, describes
  the live index, and is ready (or was retired by an operator meanwhile).
\<close>

theorem ensure_sound:
  assumes "fleet_run cfg ts scn (fleet_start ttl M) s"
  shows "(\<forall>n e. entry_at s map_of n = Some e \<and> re_status e = Ready \<longrightarrow>
       mi_schema (snd (sys_shared s)) = Some (re_dimensions e, re_metric e)) \<and>
    (\<forall>i e. sys_pcs s i = Finished (Inr e) \<longrightarrow> re_index_name e = sc_index_name (scn i) \<and>
       mi_schema (snd (sys_shared s)) = Some (re_dimensions e, re_metric e) \<and> re_status e \<in> {Ready, Retired})"
  using fleet_system.reachable_sound [OF assms]
  by (auto simp: entry_at_def fleet_contents_def fleet_views_def fleet_init_def cached_registry_init_def cache_views_def)

theorem ensure_sound_witness:
  "re_index_name demo_entry = ''hr'' \<and> mi_schema (snd (sys_shared demo_system)) = Some (re_dimensions demo_entry, re_metric demo_entry)"
proof -
  have "sc_index_name demo_scenario = ''hr''" by (simp add: demo_scenario_def)
  with ensure_sound [OF demo_system_run] demo_system_state show ?thesis by metis
qed

text \<open>
  A registration is for good. Once an index is registered its entry never disappears, and its identity
  (vertical, scenario, template and its version, dimensions, metric, embedding model, time of
  creation) never changes, also when a stale claim is taken over. A settled entry keeps its outcome: a
  ready or failed index can only be retired, never provisioned anew.
\<close>

theorem registration_stable:
  assumes "fleet_run cfg ts scn (fleet_start ttl M) s" and "fleet_run cfg ts scn s s'" and "entry_at s map_of n = Some e"
  shows "\<exists>e'. entry_at s' map_of n = Some e' \<and> re_index_name e' = n \<and>
    (re_vertical e', re_scenario_id e', re_template_id e', re_template_version e', re_embedding_model e', re_created_at e') =
    (re_vertical e, re_scenario_id e, re_template_id e, re_template_version e, re_embedding_model e, re_created_at e) \<and>
    (re_dimensions e', re_metric e') = (re_dimensions e, re_metric e) \<and>
    (re_status e \<in> {Ready, Failed} \<longrightarrow> re_status e' \<in> {re_status e, Retired})"
proof -
  note ok = fleet_reachable_ok(1) [OF assms(1)]
  have es: "entry_sound (\<lambda>_. mi_schema (snd (sys_shared s))) (sys_tokens s) n e"
    using ok assms(3) by (simp add: system_ok_def shared_ok_def registry_sound_def entry_at_def fleet_contents_def)
  have "system_grows (fleet_contents map_of) (\<lambda>M _. mi_schema M) s s'"
    using fleet_system.system_run_ok [OF assms(2) ok] by blast
  then obtain e' where "entry_at s' map_of n = Some e'" "later e e'"
    using assms(3) unfolding system_grows_def grows_def entry_at_def fleet_contents_def by blast
  with es show ?thesis by (auto simp: later_def core_def entry_sound_def)
qed

theorem registration_stable_witness:
  "\<exists>e'. entry_at demo_system map_of ''hr'' = Some e' \<and> re_status e' \<in> {Ready, Retired}"
proof -
  have r: "re_status demo_entry \<in> {Ready, Failed}" "re_status demo_entry = Ready" by (simp_all add: demo_entry_def ready_entry_def)
  from registration_stable [OF demo_system_run rtranclp.rtrancl_refl conjunct1 [OF conjunct2 [OF demo_system_state]]] r
  show ?thesis by metis
qed

text \<open>
  C7. Claims are exclusive. In every reachable state, if a call of one worker changes the status of an entry,
  that worker acts under the claim token stored in the entry, and no other worker holds this token: a
  worker whose claim was taken over can neither finish nor fail the claim of its successor.
\<close>

theorem claim_exclusive:
  assumes "fleet_run cfg ts scn (fleet_start ttl M) s"
    and "ensure_step (cfg i) (ts i) (fleet_port mem_registry_port c) memory_provisioner (scn i) now token
      (sys_pcs s i) (sys_shared s) = (pc, F, M')"
    and "entry_at s map_of n = Some e" and "map_of (fl_shared F) n = Some e'" and "re_status e' \<noteq> re_status e"
  shows "pc_token (sys_pcs s i) = re_claim_token e \<and> re_claim_token e \<noteq> None \<and>
    (\<forall>j. pc_token (sys_pcs s j) = re_claim_token e \<longrightarrow> j = i)"
proof -
  note ok = fleet_reachable_ok(1) [OF assms(1), unfolded system_ok_def]
  obtain F0 M0 where sh: "sys_shared s = (F0, M0)" by fastforce
  have "pc_token (sys_pcs s i) = re_claim_token e \<and> re_claim_token e \<noteq> None"
    by (rule fleet_system.status_change [where R = F0 and W = M0 and R' = F and n = n])
      (use ok sh assms(2-5) in \<open>auto simp: entry_at_def fleet_contents_def\<close>)
  with fleet_reachable_ok(2) [OF assms(1)] show ?thesis unfolding tokens_exclusive_def by (metis option.exhaust)
qed

definition demo_prefix :: "(mem_registry fleet, unit memory_index) provisioning_system" where
  "demo_prefix = run_calls (\<lambda>_. default_provisioning_config 1) (\<lambda>_. demo_templates) (fleet_port mem_registry_port) memory_provisioner
     (\<lambda>_. demo_scenario) (butlast demo_calls) (fleet_start 10 (memory_init ''hr''))"

definition demo_claim :: registry_entry where
  "demo_claim = claim_candidate demo_scenario demo_template 512 ''cosine'' 2 ''ab''"

lemma demo_prefix_state:
  "entry_at demo_prefix map_of ''hr'' = Some demo_claim \<and>
   map_of (fl_shared (fst (snd (ensure_step (default_provisioning_config 1) demo_templates (fleet_port mem_registry_port (0, 0, 0))
     memory_provisioner demo_scenario 1 ''d'' (sys_pcs demo_prefix 0) (sys_shared demo_prefix))))) ''hr'' = Some demo_entry"
  by code_simp

theorem claim_exclusive_witness:
  "{j. pc_token (sys_pcs demo_prefix j) = Some ''ab''} = {0}"
proof -
  have run: "fleet_run (\<lambda>_. default_provisioning_config 1) (\<lambda>_. demo_templates) (\<lambda>_. demo_scenario)
      (fleet_start 10 (memory_init ''hr'' :: unit memory_index)) demo_prefix"
    unfolding demo_prefix_def by (rule run_calls_run) (simp_all add: demo_calls_def system_init_def)
  obtain pc F M' where st: "ensure_step (default_provisioning_config 1) demo_templates (fleet_port mem_registry_port (0, 0, 0))
     memory_provisioner demo_scenario 1 ''d'' (sys_pcs demo_prefix 0) (sys_shared demo_prefix) = (pc, F, M')"
    by (metis prod.exhaust)
  have ch: "re_status demo_entry \<noteq> re_status demo_claim" "re_claim_token demo_claim = Some ''ab''"
    by (simp_all add: demo_entry_def demo_claim_def ready_entry_def claim_candidate_def)
  from claim_exclusive [OF run st conjunct1 [OF demo_prefix_state] _ ch(1)] demo_prefix_state [unfolded st] ch(2)
  show ?thesis by auto
qed

end
