(* ===== verification/Provisioning_Progress.thy ===== *)
theory Provisioning_Progress
  imports Provisioning_Safety
begin

text \<open>
  Progress of index provisioning: a worker that is not disturbed provisions a new index, takes over the claim
  of a worker that died, or fails the index for good when the store has another schema, each time in
  a bounded number of calls; and a worker that waits for another one leaves the wait loop after a
  bounded number of calls whatever the others do.
\<close>

section \<open>One worker alone\<close>

text \<open>The calls of one worker on a registry and a store nobody else writes, with the clock and token of each.\<close>

fun ensure_run ::
    "provisioning_config \<Rightarrow> template_store \<Rightarrow> 'r registry_port \<Rightarrow> 'w provisioner_port \<Rightarrow> scenario \<Rightarrow> (datetime \<times> string) list \<Rightarrow>
     prog_counter \<times> 'r \<times> 'w \<Rightarrow> prog_counter \<times> 'r \<times> 'w" where
  "ensure_run cfg ts rp ad scn [] s = s"
| "ensure_run cfg ts rp ad scn ((now, token) # calls) s =
     ensure_run cfg ts rp ad scn calls (ensure_step cfg ts rp ad scn now token (fst s) (snd s))"

lemma ensure_run_append: "ensure_run cfg ts rp ad scn (xs @ ys) s = ensure_run cfg ts rp ad scn ys (ensure_run cfg ts rp ad scn xs s)"
proof (induction xs arbitrary: s)
  case (Cons x xs)
  then show ?case by (cases x) (simp only: append_Cons ensure_run.simps)
qed simp

lemma ensure_run_finished [simp]: "ensure_run cfg ts rp ad scn calls (Finished r, sh) = (Finished r, sh)"
  by (induction calls) auto

abbreviation mem_step where
  "mem_step cfg ts \<equiv> ensure_step cfg ts mem_registry_port memory_provisioner"

abbreviation mem_run where
  "mem_run cfg ts \<equiv> ensure_run cfg ts mem_registry_port memory_provisioner"

text \<open>From a held claim: what the in-memory store and registry make of it.\<close>

definition claim_outcome ::
    "registry_entry \<Rightarrow> datetime \<Rightarrow> mem_registry \<Rightarrow> 'f memory_index \<Rightarrow> prog_counter \<times> mem_registry \<times> 'f memory_index" where
  "claim_outcome e now R M = (case mi_schema M of
       Some x \<Rightarrow> if x = schema_of e then (Finished (Inr (ready_entry now e)), dict_set (re_index_name e) (ready_entry now e) R, M)
         else let reason = incompatible_reason e (Some \<lparr>id_dimensions = fst x, id_metric = snd x\<rparr>) in
           (Finished (Inl (ProvisioningError (provisioning_exn (re_index_name e) reason INDEX_SCHEMA_DRIFT))),
            dict_set (re_index_name e) (failed_entry reason e) R, M)
     | None \<Rightarrow> (Finished (Inr (ready_entry now e)), dict_set (re_index_name e) (ready_entry now e) R,
         M\<lparr>mi_schema := Some (schema_of e)\<rparr>))"

lemma mem_steps_create:
  fixes M :: "'f memory_index"
  assumes "map_of R (re_index_name e) = Some e" and "re_resolved_template e \<noteq> None"
  shows "mem_step cfg ts scn t1 k1 (AtExists e) (R, M) = (if mi_schema M = None then AtCreate e else AtDescribe e, R, M)"
    and "mi_schema M = None \<Longrightarrow> mem_step cfg ts scn t1 k1 (AtCreate e) (R, M) = (AtDescribe e, R, M\<lparr>mi_schema := Some (schema_of e)\<rparr>)"
    and "mi_schema M = Some x \<Longrightarrow> mem_step cfg ts scn t1 k1 (AtDescribe e) (R, M) =
      (if x = schema_of e then AtMarkReady e
       else let reason = incompatible_reason e (Some \<lparr>id_dimensions = fst x, id_metric = snd x\<rparr>) in
         AtMarkFailed e reason (ProvisioningError (provisioning_exn (re_index_name e) reason INDEX_SCHEMA_DRIFT)), R, M)"
    and "mem_step cfg ts scn t1 k1 (AtMarkReady e) (R, M) =
      (Finished (Inr (ready_entry t1 e)), dict_set (re_index_name e) (ready_entry t1 e) R, M)"
    and "mem_step cfg ts scn t1 k1 (AtMarkFailed e r x') (R, M) =
      (Finished (Inl x'), dict_set (re_index_name e) (failed_entry r e) R, M)"
  using assms
  by (auto simp: machine_defs memory_provisioner_defs mem_registry_port_def mem_ops dict_get_def schema_of_def Let_def
      split: option.splits if_splits prod.splits)

lemma claim_run:
  fixes M :: "'f memory_index"
  assumes stored: "map_of R (re_index_name e) = Some e" and tmpl: "re_resolved_template e \<noteq> None"
  shows "\<exists>now. now \<in> {t1, t2, t3, t4} \<and>
    mem_run cfg ts scn [(t1, k1), (t2, k2), (t3, k3), (t4, k4)] (AtExists e, R, M) = claim_outcome e now R M"
proof -
  note st = mem_steps_create [OF stored tmpl]
  have fin: "mem_step cfg ts scn t k (Finished r) sh = (Finished r, sh)" for t k r and sh :: "mem_registry \<times> 'f memory_index" by simp
  show ?thesis
  proof (cases "mi_schema M")
    case None
    then show ?thesis by (intro exI [of _ t4]) (simp add: st claim_outcome_def del: ensure_step.simps)
  next
    case (Some x)
    then show ?thesis
      by (intro exI [of _ t3]) (simp add: st st(3) [OF Some] claim_outcome_def Let_def fin del: ensure_step.simps)
  qed
qed

text \<open>Up to the claim: a new registration, and the take-over of a stale claim.\<close>

lemma new_claim_run:
  assumes "map_of R (sc_index_name scn) = None" and "pc_auto_create cfg" and "resolve_template cfg ts scn = Inr (t, d, m)"
  shows "mem_run cfg ts scn [(t1, k1), (t2, k2), (t3, k3)] (AtGet, R, M) =
    (AtExists (claim_candidate scn t d m t2 k2), dict_set (sc_index_name scn) (claim_candidate scn t d m t2 k2) R, M)"
  using assms
  by (simp add: machine_defs mem_registry_port_def mem_ops dict_get_def) (simp add: claim_candidate_def)

lemma takeover_run:
  assumes "map_of R (sc_index_name scn) = Some e" and "re_index_name e = sc_index_name scn" and "re_status e = Provisioning"
    and "re_claimed_at e = Some t0" and "t0 + pc_provisioning_stale_after cfg \<le> t3"
  shows "mem_run cfg ts scn [(t1, k1), (t2, k2), (t3, k3), (t4, k4), (t5, k5)] (AtGet, R, M) =
    (AtExists (renewed_claim t4 k4 e), dict_set (sc_index_name scn) (renewed_claim t4 k4 e) R, M)"
  using assms
  by (simp add: machine_defs mem_registry_port_def mem_ops dict_get_def is_stale_def elapsed_def)

section \<open>The wait loop\<close>

fun in_wait_loop :: "prog_counter \<Rightarrow> bool" where
  "in_wait_loop (AtWait _) = True"
| "in_wait_loop (AtStale _ _ _) = True"
| "in_wait_loop (AtRenew _ _ _) = True"
| "in_wait_loop (AtReclaim _ _ _ _) = True"
| "in_wait_loop (AtDeadline _ _) = True"
| "in_wait_loop (AtSleep _ _) = True"
| "in_wait_loop (AtPoll _ _) = True"
| "in_wait_loop _ = False"

text \<open>Rounds that still fit before the deadline, and a measure of the position in the loop.\<close>

definition rounds_left :: "int \<Rightarrow> datetime \<Rightarrow> datetime \<Rightarrow> nat" where
  "rounds_left poll deadline now = nat ((deadline - now + poll - 1) div poll)"

fun wait_measure :: "int \<Rightarrow> datetime \<Rightarrow> prog_counter \<Rightarrow> nat" where
  "wait_measure poll now (AtPoll _ d) = 6 * rounds_left poll d now + 5"
| "wait_measure poll now (AtStale _ _ d) = 6 * rounds_left poll d now + 4"
| "wait_measure poll now (AtRenew _ _ d) = 6 * rounds_left poll d now + 3"
| "wait_measure poll now (AtReclaim _ _ _ d) = 6 * rounds_left poll d now + 2"
| "wait_measure poll now (AtDeadline _ d) = 6 * rounds_left poll d now + 1"
| "wait_measure poll now (AtSleep _ d) = 6 * max 1 (rounds_left poll d now)"
| "wait_measure poll now _ = 0"

lemma rounds_left_mono: "0 < poll \<Longrightarrow> now \<le> now' \<Longrightarrow> rounds_left poll d now' \<le> rounds_left poll d now"
  by (simp add: rounds_left_def nat_mono zdiv_mono1)

lemma rounds_left_sleep:
  assumes "0 < poll" and "now + poll \<le> now'"
  shows "rounds_left poll d now' \<le> max 1 (rounds_left poll d now) - 1"
proof -
  have "(d - now' + poll - 1) div poll \<le> (d - now - 1) div poll"
    using assms by (intro zdiv_mono1) auto
  moreover have "(d - now - 1 + poll) div poll = (d - now - 1) div poll + 1"
    using assms(1) by (intro div_add_self2) simp
  moreover have "d - now - 1 + poll = d - now + poll - 1" by simp
  ultimately have "(d - now' + poll - 1) div poll \<le> (d - now + poll - 1) div poll - 1" by simp
  moreover have "nat a \<le> max 1 (nat b) - 1" if "a \<le> b - 1" for a b :: int using that by linarith
  ultimately show ?thesis by (simp only: rounds_left_def)
qed

lemma rounds_left_pos: "0 < poll \<Longrightarrow> now < d \<Longrightarrow> 1 \<le> rounds_left poll d now"
  using zdiv_mono1 [of poll "d - now + poll - 1" poll] by (simp add: rounds_left_def le_nat_iff)

lemma wait_measure_decreases:
  assumes st: "ensure_step cfg ts rp ad scn now token pc sh = (pc', sh')" and "in_wait_loop pc" and "in_wait_loop pc'"
    and "\<And>e. pc \<noteq> AtWait e" and "\<And>e. pc' \<noteq> AtWait e" and poll: "0 < pc_wait_poll_interval cfg" "now \<le> now'"
    and sleep: "\<And>n d. pc = AtSleep n d \<Longrightarrow> now + pc_wait_poll_interval cfg \<le> now'"
  shows "wait_measure (pc_wait_poll_interval cfg) now' pc' < wait_measure (pc_wait_poll_interval cfg) now pc"
proof (cases pc)
  case (AtSleep n d)
  with st have pc': "pc' = AtPoll n d" by simp
  from rounds_left_sleep [OF poll(1) sleep [OF AtSleep], of d] show ?thesis by (simp add: AtSleep pc')
next
  case (AtDeadline n d)
  with st assms(3) have "now < d" "pc' = AtSleep n d" by (auto simp: check_deadline_def split: if_splits)
  with rounds_left_pos [OF poll(1), of now d] rounds_left_mono [OF poll, of d] AtDeadline show ?thesis by simp
next
  case (AtStale n e d)
  with st rounds_left_mono [OF poll, of d] show ?thesis by (auto split: if_splits)
qed (use assms rounds_left_mono [OF poll] in
    \<open>auto simp: on_registry_def after_reclaim_def after_poll_def after_losing_claim_def claim_new_def less_Suc_eq_le
      split: prod.splits sum.splits option.splits if_splits index_status.splits\<close>)

lemma loop_leaves_wait:
  assumes "ensure_step cfg ts rp ad scn now token pc sh = (AtWait e, sh')"
  shows "\<not> in_wait_loop pc"
  using assms
  by (cases pc) (auto simp: machine_defs split: prod.splits sum.splits option.splits if_splits index_status.splits)

section \<open>Properties\<close>

text \<open>
  C20. A new index is provisioned by one undisturbed worker in at most seven calls. \<open>claim_outcome\<close> is the result:
  when the store has no index yet, or one with the dimensions and the metric of the resolved template,
  \<open>ensure\<close> returns the registered entry, now ready, and the store has the index; when the store has an
  index of another schema, \<open>INDEX_SCHEMA_DRIFT\<close> is raised and the entry is failed with this reason.
\<close>

theorem ensure_provisions_new:
  assumes "map_of R (sc_index_name scn) = None" and "pc_auto_create cfg" and "resolve_template cfg ts scn = Inr (t, d, m)"
    and "length calls = 7"
  shows "\<exists>e now. e = claim_candidate scn t d m (fst (calls ! 1)) (snd (calls ! 1)) \<and> now \<in> fst ` set calls \<and>
    mem_run cfg ts scn calls (AtGet, R, M) = claim_outcome e now (dict_set (sc_index_name scn) e R) M"
proof -
  from assms(4) obtain c1 c2 c3 c4 c5 c6 c7 where c: "calls = [c1, c2, c3, c4, c5, c6, c7]"
    by (auto simp: length_Suc_conv numeral_eq_Suc)
  then have calls: "calls = [(fst c1, snd c1), (fst c2, snd c2), (fst c3, snd c3)] @
      [(fst c4, snd c4), (fst c5, snd c5), (fst c6, snd c6), (fst c7, snd c7)]" by simp
  let ?e = "claim_candidate scn t d m (fst c2) (snd c2)"
  let ?R = "dict_set (sc_index_name scn) ?e R"
  have "map_of ?R (re_index_name ?e) = Some ?e" "re_resolved_template ?e \<noteq> None" by (simp_all add: claim_candidate_def)
  from claim_run [OF this, where ?t1.0 = "fst c4" and ?k1.0 = "snd c4" and ?t2.0 = "fst c5" and ?k2.0 = "snd c5" and ?t3.0 = "fst c6" and ?k3.0 = "snd c6" and ?t4.0 = "fst c7" and ?k4.0 = "snd c7",
      where cfg = cfg and ts = ts and scn = scn and M = M]
  obtain now where now: "now \<in> {fst c4, fst c5, fst c6, fst c7}"
    "mem_run cfg ts scn [(fst c4, snd c4), (fst c5, snd c5), (fst c6, snd c6), (fst c7, snd c7)] (AtExists ?e, ?R, M) = claim_outcome ?e now ?R M"
    by blast
  have "mem_run cfg ts scn calls (AtGet, R, M) = claim_outcome ?e now ?R M"
    unfolding calls ensure_run_append new_claim_run [OF assms(1-3)] by (rule now(2))
  with now(1) show ?thesis by (intro exI [of _ ?e] exI [of _ now] conjI) (auto simp: c)
qed

theorem ensure_provisions_new_witness:
  "\<exists>e now. mem_run (default_provisioning_config 1) demo_templates demo_scenario
      (map (\<lambda>k. (0, k)) [''a'', ''b'', ''c'', ''d'', ''e'', ''f'', ''g'']) (AtGet, [], memory_init ''hr'' :: unit memory_index) =
    claim_outcome e now [(''hr'', e)] (memory_init ''hr'')"
proof -
  have a: "map_of [] (sc_index_name demo_scenario) = None" "pc_auto_create (default_provisioning_config 1)"
    "dict_set (sc_index_name demo_scenario) e [] = [(''hr'', e)]" for e :: registry_entry
    by (simp_all add: default_provisioning_config_def demo_scenario_def)
  have l: "length (map (\<lambda>k. (0, k)) [''a'', ''b'', ''c'', ''d'', ''e'', ''f'', ''g'']) = 7" by simp
  from ensure_provisions_new [OF a(1,2) demo_resolve l, of "memory_init ''hr'' :: unit memory_index"] a(3) show ?thesis by metis
qed

text \<open>
  C21. A dead worker does not block an index: when the registered claim is older than the configured limit, one
  undisturbed worker takes it over and completes it in at most nine calls, with the template,
  dimensions, metric and time of creation recorded by the worker that died. The result is again
  \<open>claim_outcome\<close>.
\<close>

theorem stale_claim_completed:
  assumes "map_of R (sc_index_name scn) = Some e" and "re_index_name e = sc_index_name scn" and "re_status e = Provisioning"
    and "re_claimed_at e = Some t0" and "re_resolved_template e \<noteq> None" and "length calls = 9"
    and "t0 + pc_provisioning_stale_after cfg \<le> fst (calls ! 2)"
  shows "\<exists>e' now. e' = renewed_claim (fst (calls ! 3)) (snd (calls ! 3)) e \<and> now \<in> fst ` set calls \<and>
    mem_run cfg ts scn calls (AtGet, R, M) = claim_outcome e' now (dict_set (sc_index_name scn) e' R) M"
proof -
  from assms(6) obtain c1 c2 c3 c4 c5 c6 c7 c8 c9 where c: "calls = [c1, c2, c3, c4, c5, c6, c7, c8, c9]"
    by (auto simp: length_Suc_conv numeral_eq_Suc)
  then have calls: "calls = [(fst c1, snd c1), (fst c2, snd c2), (fst c3, snd c3), (fst c4, snd c4), (fst c5, snd c5)] @
      [(fst c6, snd c6), (fst c7, snd c7), (fst c8, snd c8), (fst c9, snd c9)]" by simp
  let ?e = "renewed_claim (fst c4) (snd c4) e"
  let ?R = "dict_set (sc_index_name scn) ?e R"
  have "map_of ?R (re_index_name ?e) = Some ?e" "re_resolved_template ?e \<noteq> None"
    using assms(2,5) by (simp_all add: renewed_claim_def)
  from claim_run [OF this, where ?t1.0 = "fst c6" and ?k1.0 = "snd c6" and ?t2.0 = "fst c7" and ?k2.0 = "snd c7" and ?t3.0 = "fst c8" and ?k3.0 = "snd c8" and ?t4.0 = "fst c9" and ?k4.0 = "snd c9",
      where cfg = cfg and ts = ts and scn = scn and M = M]
  obtain now where now: "now \<in> {fst c6, fst c7, fst c8, fst c9}"
    "mem_run cfg ts scn [(fst c6, snd c6), (fst c7, snd c7), (fst c8, snd c8), (fst c9, snd c9)] (AtExists ?e, ?R, M) = claim_outcome ?e now ?R M"
    by blast
  have "t0 + pc_provisioning_stale_after cfg \<le> fst c3" using assms(7) c by simp
  note take = takeover_run [OF assms(1-4) this]
  have "mem_run cfg ts scn calls (AtGet, R, M) = claim_outcome ?e now ?R M"
    unfolding calls ensure_run_append take by (rule now(2))
  with now(1) show ?thesis by (intro exI [of _ ?e] exI [of _ now] conjI) (auto simp: c)
qed

theorem stale_claim_completed_witness:
  "\<exists>e' now. mem_run (default_provisioning_config 1) demo_templates demo_scenario
      (map (\<lambda>k. (900, k)) [''a'', ''b'', ''c'', ''d'', ''e'', ''f'', ''g'', ''h'', ''i'']) (AtGet, [(''hr'', demo_claim)], memory_init ''hr'' :: unit memory_index) =
    claim_outcome e' now [(''hr'', e')] (memory_init ''hr'')"
proof -
  let ?calls = "map (\<lambda>k. (900 :: datetime, k)) [''a'', ''b'', ''c'', ''d'', ''e'', ''f'', ''g'', ''h'', ''i'']"
  have n: "sc_index_name demo_scenario = ''hr''" by (simp add: demo_scenario_def)
  have e: "map_of [(''hr'', demo_claim)] (sc_index_name demo_scenario) = Some demo_claim" using n by simp
  have f: "re_index_name demo_claim = sc_index_name demo_scenario" "re_status demo_claim = Provisioning"
    "re_claimed_at demo_claim = Some 2" "re_resolved_template demo_claim \<noteq> None"
    by (simp_all add: demo_claim_def claim_candidate_def)
  have l: "length ?calls = 9" "2 + pc_provisioning_stale_after (default_provisioning_config 1) \<le> fst (?calls ! 2)"
    by (simp_all add: default_provisioning_config_def)
  from stale_claim_completed [OF e f l, of demo_templates "memory_init ''hr'' :: unit memory_index"] n show ?thesis by auto
qed

text \<open>
  C22. The wait loop ends, whatever the other workers, the registry and the store do between its calls: if the
  clock does not run backwards and every sleep takes at least the poll interval, a worker that starts
  waiting is out of the loop (with an answer, an error, the claim in its hands, or
  \<open>INDEX_PROVISION_TIMEOUT\<close>) after at most six calls per poll interval of the timeout and six more.
\<close>

theorem wait_bounded:
  assumes "pcs 0 = AtWait e" and poll: "0 < pc_wait_poll_interval cfg" and "0 \<le> pc_wait_timeout cfg"
    and step: "\<And>k. fst (ensure_step cfg ts (rp k) (ad k) scn (now k) (token k) (pcs k) (sh k)) = pcs (Suc k)"
    and clock: "\<And>k. now k \<le> now (Suc k)"
    and sleeps: "\<And>k n d. pcs k = AtSleep n d \<Longrightarrow> now k + pc_wait_poll_interval cfg \<le> now (Suc k)"
  shows "\<exists>k \<le> 6 * nat (pc_wait_timeout cfg div pc_wait_poll_interval cfg + 1) + 6. \<not> in_wait_loop (pcs k)"
proof (rule ccontr)
  let ?p = "pc_wait_poll_interval cfg" and ?t = "pc_wait_timeout cfg"
  let ?N = "6 * nat (?t div ?p + 1) + 6"
  assume "\<not> ?thesis"
  then have loop: "in_wait_loop (pcs k)" if "k \<le> ?N" for k using that by blast
  have st: "ensure_step cfg ts (rp k) (ad k) scn (now k) (token k) (pcs k) (sh k) = (pcs (Suc k), snd (ensure_step cfg ts (rp k) (ad k) scn (now k) (token k) (pcs k) (sh k)))" for k
    using step [of k] by (metis prod.collapse)
  have one: "pcs 1 = AtStale (re_index_name e) e (now 0 + ?t)" using step [of 0] assms(1) by simp
  have nw: "pcs (Suc k) \<noteq> AtWait e'" if "k \<le> ?N" for k e'
    using loop_leaves_wait [of cfg ts "rp k" "ad k" scn "now k" "token k" "pcs k" "sh k" e'] st [of k] loop [OF that] by metis
  have dec: "wait_measure ?p (now (Suc k)) (pcs (Suc k)) < wait_measure ?p (now k) (pcs k)" if k: "0 < k" "Suc k \<le> ?N" for k
  proof (rule wait_measure_decreases [OF st])
    show "in_wait_loop (pcs k)" "in_wait_loop (pcs (Suc k))" using loop k by auto
    show "pcs k \<noteq> AtWait e'" "pcs (Suc k) \<noteq> AtWait e'" for e' using nw [of "k - 1"] nw [of k] k by auto
  qed (use poll clock sleeps in auto)
  have "k + wait_measure ?p (now (Suc k)) (pcs (Suc k)) \<le> wait_measure ?p (now 1) (pcs 1)" if "Suc k \<le> ?N" for k
    using that
  proof (induction k)
    case (Suc k)
    with dec [of "Suc k"] show ?case by simp
  qed simp
  from this [of "?N - 1"] have "?N - 1 \<le> wait_measure ?p (now 1) (pcs 1)" by simp
  moreover have "rounds_left ?p (now 0 + ?t) (now 1) \<le> nat (?t div ?p + 1)"
  proof -
    have "(now 0 + ?t - now 1 + ?p - 1) div ?p \<le> (?t + ?p) div ?p"
      using clock [of 0] poll by (intro zdiv_mono1) auto
    then show ?thesis using poll by (simp add: rounds_left_def nat_mono)
  qed
  ultimately show False using one by simp
qed

text \<open>A worker that waits for a claim which never ends.\<close>

primrec demo_wait :: "nat \<Rightarrow> prog_counter" where
  "demo_wait 0 = AtWait demo_claim"
| "demo_wait (Suc k) = fst (mem_step (default_provisioning_config 1) demo_templates demo_scenario (2 * int k) ''t''
     (demo_wait k) ([(''hr'', demo_claim)], memory_init ''hr'' :: unit memory_index))"

theorem wait_bounded_witness: "\<exists>k \<le> 192. \<not> in_wait_loop (demo_wait k)"
proof -
  have c: "pc_wait_poll_interval (default_provisioning_config 1) = 2" "pc_wait_timeout (default_provisioning_config 1) = 60"
    by (simp_all add: default_provisioning_config_def)
  have "\<exists>k \<le> 6 * nat (pc_wait_timeout (default_provisioning_config 1) div pc_wait_poll_interval (default_provisioning_config 1) + 1) + 6.
      \<not> in_wait_loop (demo_wait k)"
    by (rule wait_bounded [where ts = demo_templates and rp = "\<lambda>_. mem_registry_port" and ad = "\<lambda>_. memory_provisioner"
          and scn = demo_scenario and now = "\<lambda>k. 2 * int k" and token = "\<lambda>_. ''t''"
          and sh = "\<lambda>_. ([(''hr'', demo_claim)], memory_init ''hr'' :: unit memory_index)" and e = demo_claim])
      (simp_all add: c)
  then show ?thesis by (simp add: c)
qed

text \<open>
  An index that is ready: an entry verified within the interval is returned as it is, without a look at the
  store, at the template or at the dimensions the scenario asks for; after the interval the store
  must still have an index with the resolved dimensions and metric, and the entry must not be older
  than the template, or \<open>INDEX_SCHEMA_DRIFT\<close> is raised and nothing is written; otherwise the verification
  is recorded.
\<close>

definition recently_verified :: "provisioning_config \<Rightarrow> datetime \<Rightarrow> registry_entry \<Rightarrow> bool" where
  "recently_verified cfg now e = (case re_last_verified_at e of None \<Rightarrow> False | Some t \<Rightarrow> now - t < pc_verification_interval cfg)"

definition live_description :: "'f memory_index \<Rightarrow> index_description option" where
  "live_description M = (case mi_schema M of None \<Rightarrow> None | Some x \<Rightarrow> Some \<lparr>id_dimensions = fst x, id_metric = snd x\<rparr>)"

lemma handle_ready_cases:
  "recently_verified cfg now e \<Longrightarrow> handle_ready cfg ts scn now e = Finished (Inr e)"
  "\<not> recently_verified cfg now e \<Longrightarrow> resolve_template cfg ts scn = Inr (t, d, m) \<Longrightarrow>
     handle_ready cfg ts scn now e = AtDescribeReady e t d m"
  by (auto simp: recently_verified_def handle_ready_def elapsed_def split: option.splits)

theorem ready_entry_outcomes:
  assumes "map_of R (sc_index_name scn) = Some e" and "re_index_name e = sc_index_name scn" and "re_status e = Ready"
  shows "(recently_verified cfg t2 e \<longrightarrow>
       mem_run cfg ts scn [(t1, k1), (t2, k2), (t3, k3), (t4, k4)] (AtGet, R, M) = (Finished (Inr e), R, M)) \<and>
    (\<not> recently_verified cfg t2 e \<and> resolve_template cfg ts scn = Inr (t, d, m) \<and>
     py_int (re_template_version e) = Some v \<and> py_int (it_template_version t) = Some w \<longrightarrow>
       mem_run cfg ts scn [(t1, k1), (t2, k2), (t3, k3), (t4, k4)] (AtGet, R, M) =
       (if mi_schema M = Some (d, m) \<and> w \<le> v
        then (Finished (Inr (verified_entry t4 e)), dict_set (sc_index_name scn) (verified_entry t4 e) R, M)
        else (Finished (Inl (drift_error e t d m (live_description M))), R, M)))"
proof (intro conjI impI)
  have g: "mem_step cfg ts scn t1 k1 AtGet (R, M) = (AtVerify e, R, M)"
    using assms by (simp add: on_registry_def after_get_def dispatch_existing_def mem_registry_port_def mem_get_def dict_get_def)
  assume "recently_verified cfg t2 e"
  then show "mem_run cfg ts scn [(t1, k1), (t2, k2), (t3, k3), (t4, k4)] (AtGet, R, M) = (Finished (Inr e), R, M)"
    by (simp add: g [simplified] handle_ready_cases)
next
  have g: "mem_step cfg ts scn t1 k1 AtGet (R, M) = (AtVerify e, R, M)"
    using assms by (simp add: on_registry_def after_get_def dispatch_existing_def mem_registry_port_def mem_get_def dict_get_def)
  assume a: "\<not> recently_verified cfg t2 e \<and> resolve_template cfg ts scn = Inr (t, d, m) \<and>
     py_int (re_template_version e) = Some v \<and> py_int (it_template_version t) = Some w"
  then have v: "mem_step cfg ts scn t2 k2 (AtVerify e) (R, M) = (AtDescribeReady e t d m, R, M)" by (simp add: handle_ready_cases)
  have ds: "mem_step cfg ts scn t3 k3 (AtDescribeReady e t d m) (R, M) =
      (if mi_schema M = Some (d, m) \<and> w \<le> v then AtTouch (sc_index_name scn) else Finished (Inl (drift_error e t d m (live_description M))), R, M)"
    using a assms(2)
    by (cases "mi_schema M") (auto simp: on_store_def after_describe_ready_def call_adapter_def memory_provisioner_def
        memory_describe_index_def drifted_def int_less_def live_description_def Let_def split: if_splits)
  have tc: "mem_step cfg ts scn t4 k4 (AtTouch (sc_index_name scn)) (R, M) =
      (Finished (Inr (verified_entry t4 e)), dict_set (sc_index_name scn) (verified_entry t4 e) R, M)"
    using assms(1) by (simp add: on_registry_def mem_registry_port_def mem_touch_verified_def mem_require_def dict_get_def Let_def)
  have fin: "mem_step cfg ts scn t4 k4 (Finished r) (R, M) = (Finished r, R, M)" for r by simp
  show "mem_run cfg ts scn [(t1, k1), (t2, k2), (t3, k3), (t4, k4)] (AtGet, R, M) =
       (if mi_schema M = Some (d, m) \<and> w \<le> v
        then (Finished (Inr (verified_entry t4 e)), dict_set (sc_index_name scn) (verified_entry t4 e) R, M)
        else (Finished (Inl (drift_error e t d m (live_description M))), R, M))"
    by (simp add: g v ds tc fin del: ensure_step.simps)
qed

theorem ready_entry_outcomes_witness:
  "mem_run (default_provisioning_config 1) demo_templates (demo_scenario\<lparr>sc_indexer := (sc_indexer demo_scenario)\<lparr>ixs_dimensions := 9\<rparr>\<rparr>)
     [(0, []), (2, []), (3, []), (4, [])] (AtGet, [(''hr'', demo_entry)], memory_init ''hr'' :: unit memory_index) =
   (Finished (Inr demo_entry), [(''hr'', demo_entry)], memory_init ''hr'')"
proof -
  let ?scn = "demo_scenario\<lparr>sc_indexer := (sc_indexer demo_scenario)\<lparr>ixs_dimensions := 9\<rparr>\<rparr>"
  have n: "sc_index_name ?scn = ''hr''" by (simp add: demo_scenario_def)
  have e: "map_of [(''hr'', demo_entry)] (sc_index_name ?scn) = Some demo_entry" "re_index_name demo_entry = sc_index_name ?scn"
    "re_status demo_entry = Ready" "recently_verified (default_provisioning_config 1) 2 demo_entry"
    using n by (simp_all add: demo_entry_def ready_entry_def claim_candidate_def recently_verified_def default_provisioning_config_def)
  from ready_entry_outcomes [OF e(1-3), of "default_provisioning_config 1" 2 demo_templates 0 "[]" "[]" 3 "[]" 4 "[]"] e(4)
  show ?thesis by blast
qed

text \<open>
  Retirement does not stop a claim in flight: \<open>mark_retired\<close> keeps the claim token, so the holder's
  \<open>mark_ready\<close> still matches and the retired index is ready again.
\<close>

lemma retired_claim_revived:
  assumes "map_of R n = Some e" and "re_claim_token e = Some t"
  shows "fst (mem_mark_ready now n (Some t) (snd (mem_mark_retired n R))) = Inr (ready_entry now (retired_entry e)) \<and>
    re_status (ready_entry now (retired_entry e)) = Ready"
  using assms by (simp add: mem_ops dict_get_def Let_def retired_entry_def ready_entry_def)

end
