(* ===== verification/Azure_Provisioner.thy ===== *)
theory Azure_Provisioner
  imports Provisioning_Safety
begin

text \<open>
  The Azure AI Search adapter of provisioning: \<open>src/vestibule/provisioning/adapters/azure_ai_search.py\<close> over
  its duck-typed backend, and the production backend \<open>_azure_search_backend.py\<close>, which translates an index
  definition into the vendor's objects and reads dimensions and metric back off them.

  The vendor's SDK is a parameter: its constructors and the attributes the code reads (\<open>search_models\<close>),
  and the methods of its index client (\<open>search_client\<close>). What the code relies on is stated by two locales: an
  attribute reads what the constructor was given (\<open>search_sdk\<close>), and the service answers with the index it
  holds, creates what it is given, and refuses to change the vector field and the metric of an existing
  index (\<open>search_index_service\<close>). The lengths of the waits between attempts are left out.
\<close>

section \<open>The adapter\<close>

record provision_definition =
  pd_index_name :: string
  pd_dimensions :: int
  pd_metric :: string
  pd_hnsw_m :: int
  pd_hnsw_ef_construction :: int
  pd_hnsw_ef_search :: int
  pd_fields :: "field_spec list"
  pd_semantic_ranker_enabled :: bool

record 'w provisioner_backend =
  bk_get_index_schema :: "string \<Rightarrow> ((int \<times> string) option, 'w) backend_call"
  bk_create_or_update_index :: "provision_definition \<Rightarrow> (unit, 'w) backend_call"
  bk_delete_index :: "string \<Rightarrow> (unit, 'w) backend_call"

record azure_provisioner =
  ap_timeout :: string
  ap_max_attempts :: int

definition transient_status :: "int option \<Rightarrow> bool" where
  "transient_status status_code \<longleftrightarrow> status_code = Some 429 \<or> (case status_code of None \<Rightarrow> False | Some c \<Rightarrow> 500 \<le> c)"

fun provisioner_retryable :: "backend_exn \<Rightarrow> bool" where
  "provisioner_retryable (BackendTimeout t) = True"
| "provisioner_retryable (HttpResponseError code t) = transient_status code"
| "provisioner_retryable (BackendException t) = False"

fun map_provisioner_error :: "backend_exn \<Rightarrow> prov_exn" where
  "map_provisioner_error (BackendTimeout t) = ProvisioningError (provisioning_exn [] t INDEX_PROVISIONER_UNAVAILABLE)"
| "map_provisioner_error (HttpResponseError code t) =
     (if \<not> transient_status code then ProvException t
      else ProvisioningError (provisioning_exn [] t INDEX_PROVISIONER_UNAVAILABLE))"
| "map_provisioner_error (BackendException t) = ProvException t"

definition provisioner_call ::
    "(int \<Rightarrow> nat) \<Rightarrow> azure_provisioner \<Rightarrow> ('a, 'w) backend_call \<Rightarrow> 'w \<Rightarrow> (prov_exn, 'a, 'w) outcome" where
  "provisioner_call grants A fn w = map_prod (map_sum map_provisioner_error id) id
     (retry_loop (grants (ap_max_attempts A)) provisioner_retryable (timed_call (ap_timeout A) fn) w)"

definition azure_index_exists where
  "azure_index_exists grants A B index_name w =
     map_prod (map_sum id (\<lambda>schema. schema \<noteq> None)) id (provisioner_call grants A (bk_get_index_schema B index_name) w)"

definition template_definition :: "string \<Rightarrow> index_template \<Rightarrow> int \<Rightarrow> string \<Rightarrow> provision_definition" where
  "template_definition n t d m = \<lparr>pd_index_name = n, pd_dimensions = d, pd_metric = m,
     pd_hnsw_m = hs_m (it_hnsw t), pd_hnsw_ef_construction = hs_ef_construction (it_hnsw t),
     pd_hnsw_ef_search = hs_ef_search (it_hnsw t), pd_fields = it_fields t,
     pd_semantic_ranker_enabled = it_semantic_ranker_enabled t\<rparr>"

definition azure_create_index where
  "azure_create_index grants A B index_name template dimensions metric w =
     provisioner_call grants A (bk_create_or_update_index B (template_definition index_name template dimensions metric)) w"

definition azure_describe_index where
  "azure_describe_index grants A B index_name w =
     map_prod (map_sum id (map_option (\<lambda>(dimensions, metric). \<lparr>id_dimensions = dimensions, id_metric = metric\<rparr>))) id
       (provisioner_call grants A (bk_get_index_schema B index_name) w)"

definition azure_delete_index where
  "azure_delete_index grants A B index_name w = provisioner_call grants A (bk_delete_index B index_name) w"

definition azure_provisioner_port :: "(int \<Rightarrow> nat) \<Rightarrow> azure_provisioner \<Rightarrow> 'w provisioner_backend \<Rightarrow> 'w provisioner_port" where
  "azure_provisioner_port grants A B = \<lparr>pp_index_exists = azure_index_exists grants A B, pp_create_index = azure_create_index grants A B,
     pp_describe_index = azure_describe_index grants A B, pp_delete_index = azure_delete_index grants A B\<rparr>"

section \<open>The production backend\<close>

text \<open>The constructors and attributes of the SDK that the code uses; every object of the SDK has the type \<open>'x\<close>.\<close>

record 'x search_models =
  sm_string :: 'x
  sm_single :: 'x
  sm_datetime :: 'x
  sm_collection :: "'x \<Rightarrow> 'x"
  sm_simple_field :: "string \<Rightarrow> 'x \<Rightarrow> bool \<Rightarrow> bool \<Rightarrow> 'x"
  sm_search_field :: "string \<Rightarrow> 'x \<Rightarrow> bool \<Rightarrow> (int \<times> string) option \<Rightarrow> 'x"
  sm_field_dimensions :: "'x \<Rightarrow> int option"
  sm_metric :: "string \<Rightarrow> string + 'x"
  sm_hnsw :: "string \<Rightarrow> int \<Rightarrow> int \<Rightarrow> int \<Rightarrow> 'x \<Rightarrow> 'x"
  sm_algorithm_metric :: "'x \<Rightarrow> string option"
  sm_vector_search :: "'x list \<Rightarrow> (string \<times> string) list \<Rightarrow> 'x"
  sm_semantic_search :: "(string \<times> string list) list \<Rightarrow> 'x"
  sm_index :: "string \<Rightarrow> 'x list \<Rightarrow> 'x \<Rightarrow> 'x option \<Rightarrow> 'x"
  sm_index_fields :: "'x \<Rightarrow> 'x list"
  sm_index_algorithms :: "'x \<Rightarrow> 'x list"

definition profile_name :: "provision_definition \<Rightarrow> string" where
  "profile_name d = pd_index_name d @ ''-vector-profile''"

definition build_field :: "'x search_models \<Rightarrow> provision_definition \<Rightarrow> field_spec \<Rightarrow> 'x" where
  "build_field S d f = (case fs_type f of
       KeyField \<Rightarrow> sm_simple_field S (fs_name f) (sm_string S) True False
     | TextField \<Rightarrow> sm_search_field S (fs_name f) (sm_string S) (fs_searchable f) None
     | VectorField \<Rightarrow> sm_search_field S (fs_name f) (sm_collection S (sm_single S)) (fs_searchable f)
         (Some (pd_dimensions d, profile_name d))
     | FilterableString \<Rightarrow> sm_simple_field S (fs_name f) (sm_string S) False True
     | FilterableStringCollection \<Rightarrow> sm_simple_field S (fs_name f) (sm_collection S (sm_string S)) False True
     | FilterableDatetime \<Rightarrow> sm_simple_field S (fs_name f) (sm_datetime S) False True
     | RetrievableOnly \<Rightarrow> sm_simple_field S (fs_name f) (sm_string S) False False)"

definition build_fields :: "'x search_models \<Rightarrow> provision_definition \<Rightarrow> 'x list" where
  "build_fields S d = map (build_field S d) (pd_fields d)"

definition build_vector_search :: "'x search_models \<Rightarrow> provision_definition \<Rightarrow> string + 'x" where
  "build_vector_search S d =
     (let algorithm_name = pd_index_name d @ ''-hnsw'' in
      bind_res (sm_metric S (pd_metric d)) (\<lambda>metric.
        Inr (sm_vector_search S
          [sm_hnsw S algorithm_name (pd_hnsw_m d) (pd_hnsw_ef_construction d) (pd_hnsw_ef_search d) metric]
          [(profile_name d, algorithm_name)])))"

definition build_semantic_search :: "'x search_models \<Rightarrow> provision_definition \<Rightarrow> 'x option" where
  "build_semantic_search S d =
     (if \<not> pd_semantic_ranker_enabled d then None
      else Some (sm_semantic_search S
        [(pd_index_name d @ ''-semantic-config'', map fs_name (filter (\<lambda>f. fs_type f = TextField) (pd_fields d)))]))"

definition build_search_index :: "'x search_models \<Rightarrow> provision_definition \<Rightarrow> string + 'x" where
  "build_search_index S d = bind_res (build_vector_search S d) (\<lambda>vector_search.
     Inr (sm_index S (pd_index_name d) (build_fields S d) vector_search (build_semantic_search S d)))"

fun first_metric :: "'x search_models \<Rightarrow> 'x list \<Rightarrow> string" where
  "first_metric S [] = ''cosine''"
| "first_metric S (a # as) = (case sm_algorithm_metric S a of Some metric \<Rightarrow> metric | None \<Rightarrow> first_metric S as)"

definition extract_metric :: "'x search_models \<Rightarrow> 'x \<Rightarrow> string" where
  "extract_metric S index = first_metric S (sm_index_algorithms S index)"

text \<open>A field counts as the vector field when its dimensions are set and not zero.\<close>

definition vector_dimensions :: "'x search_models \<Rightarrow> 'x \<Rightarrow> int option" where
  "vector_dimensions S f = (case sm_field_dimensions S f of Some d \<Rightarrow> if d \<noteq> 0 then Some d else None | None \<Rightarrow> None)"

definition index_schema :: "'x search_models \<Rightarrow> 'x \<Rightarrow> (int \<times> string) option" where
  "index_schema S index = (case List.map_filter (vector_dimensions S) (sm_index_fields S index) of
       [] \<Rightarrow> None
     | d # _ \<Rightarrow> Some (d, extract_metric S index))"

text \<open>The index client; \<open>None\<close> is its \<open>ResourceNotFoundError\<close>.\<close>

record ('x, 'w) search_client =
  cl_get_index :: "string \<Rightarrow> ('x option, 'w) backend_call"
  cl_create_or_update_index :: "'x \<Rightarrow> (unit, 'w) backend_call"
  cl_delete_index :: "string \<Rightarrow> (unit, 'w) backend_call"

definition real_get_index_schema where
  "real_get_index_schema S L index_name w = (case cl_get_index L index_name w of
       (timed.Finished (Inr index), w') \<Rightarrow> (timed.Finished (Inr (Option.bind index (index_schema S))), w')
     | (timed.Finished (Inl e), w') \<Rightarrow> (timed.Finished (Inl e), w')
     | (TooLate, w') \<Rightarrow> (TooLate, w'))"

definition real_create_or_update_index where
  "real_create_or_update_index S L d w = (case build_search_index S d of
       Inl text \<Rightarrow> (timed.Finished (Inl (BackendException text)), w)
     | Inr index \<Rightarrow> cl_create_or_update_index L index w)"

definition real_backend :: "'x search_models \<Rightarrow> ('x, 'w) search_client \<Rightarrow> 'w provisioner_backend" where
  "real_backend S L = \<lparr>bk_get_index_schema = real_get_index_schema S L,
     bk_create_or_update_index = real_create_or_update_index S L, bk_delete_index = cl_delete_index L\<rparr>"

section \<open>What the adapter relies on\<close>

text \<open>The backend, by the dimensions and metric of the live indexes.\<close>

definition definition_ok :: "provision_definition \<Rightarrow> bool" where
  "definition_ok d \<longleftrightarrow> pd_dimensions d \<noteq> 0 \<and> (\<exists>f \<in> set (pd_fields d). fs_type f = VectorField)"

locale provisioner_service =
  fixes B :: "'w provisioner_backend" and live :: "'w \<Rightarrow> live_indexes"
  assumes get_schema: "bk_get_index_schema B n w = (res, w') \<Longrightarrow> live w' = live w \<and> (\<forall>x. res = timed.Finished (Inr x) \<longrightarrow> x = live w n)"
    and create: "bk_create_or_update_index B d w = (cres, w') \<Longrightarrow> (\<forall>k x. live w k = Some x \<longrightarrow> live w' k = Some x) \<and>
      (cres = timed.Finished (Inr ()) \<and> definition_ok d \<longrightarrow> live w' (pd_index_name d) = Some (pd_dimensions d, pd_metric d))"
begin

lemma schema_call:
  assumes "provisioner_call grants A (bk_get_index_schema B n) w = (res, w')"
  shows "live w' = live w \<and> (\<forall>x. res = Inr x \<longrightarrow> x = live w n)"
proof -
  let ?f = "timed_call (ap_timeout A) (bk_get_index_schema B n)" and ?Q = "\<lambda>v r v'. live v' = live v \<and> (\<forall>x. r = Inr x \<longrightarrow> x = live v n)"
  obtain r where r: "retry_loop (grants (ap_max_attempts A)) provisioner_retryable ?f w = (r, w')" "res = map_sum map_provisioner_error id r"
    using assms by (cases "retry_loop (grants (ap_max_attempts A)) provisioner_retryable ?f w") (auto simp: provisioner_call_def)
  have "?Q w r w'"
  proof (rule retry_loop_rule [where Q = ?Q, OF _ _ r(1)])
    show "?Q v x v'" if "?f v = (x, v')" for v x v'
      using that get_schema [of n v] by (auto simp: timed_call_def split: prod.splits timed.splits)
  qed simp
  with r(2) show ?thesis by (cases r) auto
qed

lemma create_call:
  assumes "provisioner_call grants A (bk_create_or_update_index B d) w = (res, w')"
  shows "(\<forall>k x. live w k = Some x \<longrightarrow> live w' k = Some x) \<and>
    (res = Inr () \<and> definition_ok d \<longrightarrow> live w' (pd_index_name d) = Some (pd_dimensions d, pd_metric d))"
proof -
  let ?f = "timed_call (ap_timeout A) (bk_create_or_update_index B d)"
  let ?Q = "\<lambda>v r v'. (\<forall>k x. live v k = Some x \<longrightarrow> live v' k = Some x) \<and>
    (r = Inr () \<and> definition_ok d \<longrightarrow> live v' (pd_index_name d) = Some (pd_dimensions d, pd_metric d))"
  obtain r where r: "retry_loop (grants (ap_max_attempts A)) provisioner_retryable ?f w = (r, w')" "res = map_sum map_provisioner_error id r"
    using assms by (cases "retry_loop (grants (ap_max_attempts A)) provisioner_retryable ?f w") (auto simp: provisioner_call_def)
  have "?Q w r w'"
  proof (rule retry_loop_rule [where Q = ?Q, OF _ _ r(1)])
    show "?Q v x v'" if "?f v = (x, v')" for v x v'
      using that create [of d v] by (auto simp: timed_call_def split: prod.splits timed.splits)
  qed simp
  with r(2) show ?thesis by (cases r) auto
qed

lemma azure_index_service: "index_service (azure_provisioner_port grants A B) live"
proof (unfold_locales, goal_cases)
  case (1 W k x n)
  then show ?case using schema_call [of grants A n W]
    by (simp add: azure_provisioner_port_def azure_index_exists_def split: prod.split) (metis prod.collapse)
next
  case (2 W k x n t d m)
  then show ?case using create_call
    by (simp add: azure_provisioner_port_def azure_create_index_def) (metis prod.collapse)
next
  case (3 W k x n)
  then show ?case using schema_call [of grants A n W]
    by (simp add: azure_provisioner_port_def azure_describe_index_def split: prod.split) (metis prod.collapse)
next
  case (4 n W r W')
  obtain q where q: "provisioner_call grants A (bk_get_index_schema B n) W = (q, W')"
      and r: "Inr r = map_sum id (map_option (\<lambda>(d, m). \<lparr>id_dimensions = d, id_metric = m\<rparr>)) q"
    using 4 by (cases "provisioner_call grants A (bk_get_index_schema B n) W") (auto simp: azure_provisioner_port_def azure_describe_index_def)
  from schema_call [OF q] r show ?case by (cases q) auto
qed

end

section \<open>What the production backend relies on\<close>

locale search_sdk =
  fixes S :: "'x search_models"
  assumes simple_field_dimensions [simp]: "sm_field_dimensions S (sm_simple_field S n t key filterable) = None"
    and search_field_dimensions [simp]: "sm_field_dimensions S (sm_search_field S n t searchable v) = map_option fst v"
    and index_fields [simp]: "sm_index_fields S (sm_index S n fs vs ss) = fs"
    and index_algorithms [simp]: "sm_index_algorithms S (sm_index S n fs (sm_vector_search S algs ps) ss) = algs"
    and hnsw_metric: "sm_metric S m = Inr x \<Longrightarrow> sm_algorithm_metric S (sm_hnsw S n a b c x) = Some m"
begin

lemma built_vector_dimensions:
  "pd_dimensions d \<noteq> 0 \<Longrightarrow> vector_dimensions S (build_field S d f) = (if fs_type f = VectorField then Some (pd_dimensions d) else None)"
  by (cases "fs_type f") (simp_all add: vector_dimensions_def build_field_def)

lemma schema_of_built:
  assumes "build_search_index S d = Inr ix" and "definition_ok d"
  shows "index_schema S ix = Some (pd_dimensions d, pd_metric d)"
proof -
  obtain x where x: "sm_metric S (pd_metric d) = Inr x" and ix: "ix = sm_index S (pd_index_name d) (build_fields S d)
      (sm_vector_search S [sm_hnsw S (pd_index_name d @ ''-hnsw'') (pd_hnsw_m d) (pd_hnsw_ef_construction d) (pd_hnsw_ef_search d) x]
        [(profile_name d, pd_index_name d @ ''-hnsw'')]) (build_semantic_search S d)"
    using assms(1) by (cases "sm_metric S (pd_metric d)") (auto simp: build_search_index_def build_vector_search_def Let_def)
  have "List.map_filter (vector_dimensions S) (map (build_field S d) fs) =
      map (\<lambda>_. pd_dimensions d) (filter (\<lambda>f. fs_type f = VectorField) fs)" for fs
    using assms(2) by (induction fs) (simp_all add: map_filter_simps built_vector_dimensions definition_ok_def)
  moreover from assms(2) obtain f fs where "filter (\<lambda>f. fs_type f = VectorField) (pd_fields d) = f # fs"
    by (metis (mono_tags, lifting) definition_ok_def filter_empty_conv list.exhaust)
  ultimately have "List.map_filter (vector_dimensions S) (build_fields S d) = pd_dimensions d # map (\<lambda>_. pd_dimensions d) fs"
    by (simp add: build_fields_def)
  with x show ?thesis by (simp add: index_schema_def ix extract_metric_def hnsw_metric)
qed

end

locale search_index_service = search_sdk S for S :: "'x search_models" +
  fixes L :: "('x, 'w) search_client" and stored :: "'w \<Rightarrow> string \<Rightarrow> 'x option"
  assumes get_index: "cl_get_index L n w = (res, w') \<Longrightarrow> stored w' = stored w \<and> (\<forall>x. res = timed.Finished (Inr x) \<longrightarrow> x = stored w n)"
    and immutable: "cl_create_or_update_index L ix w = (cres, w') \<Longrightarrow> Option.bind (stored w k) (index_schema S) = Some x \<Longrightarrow>
      Option.bind (stored w' k) (index_schema S) = Some x"
    and created: "cl_create_or_update_index L (sm_index S n fs vs ss) w = (timed.Finished (Inr ()), w') \<Longrightarrow>
      \<exists>i. stored w' n = Some i \<and> index_schema S i = index_schema S (sm_index S n fs vs ss)"

sublocale search_index_service < production: provisioner_service "real_backend S L" "\<lambda>w n. Option.bind (stored w n) (index_schema S)"
proof (unfold_locales, goal_cases)
  case (1 n w res w')
  obtain r where c: "cl_get_index L n w = (r, w')"
    using 1 by (auto simp: real_backend_def real_get_index_schema_def split: prod.splits timed.splits sum.splits)
  from get_index [OF c] 1 c show ?case
    by (auto simp: real_backend_def real_get_index_schema_def split: timed.splits sum.splits)
next
  case (2 d w cres w')
  show ?case
  proof (cases "build_search_index S d")
    case (Inl t)
    with 2 show ?thesis by (auto simp: real_backend_def real_create_or_update_index_def)
  next
    case (Inr ix)
    with 2 have c: "cl_create_or_update_index L ix w = (cres, w')" by (simp add: real_backend_def real_create_or_update_index_def)
    obtain fs vs ss where ix: "ix = sm_index S (pd_index_name d) fs vs ss"
      using Inr by (auto simp: build_search_index_def)
    have "Option.bind (stored w' (pd_index_name d)) (index_schema S) = Some (pd_dimensions d, pd_metric d)"
      if "cres = timed.Finished (Inr ())" "definition_ok d"
      using created [OF c [unfolded that(1) ix]] schema_of_built [OF Inr that(2)] ix by auto
    with immutable [OF c] show ?thesis by blast
  qed
qed

context search_index_service
begin

lemma production_service: "provisioner_service (real_backend S L) (\<lambda>w n. Option.bind (stored w n) (index_schema S))"
  by unfold_locales

lemma azure_adapter_service:
  "index_service (azure_provisioner_port grants A (real_backend S L)) (\<lambda>w n. Option.bind (stored w n) (index_schema S))"
  by (rule production.azure_index_service)

end

section \<open>A service in memory\<close>

text \<open>The SDK's objects as terms, and an index client over a dictionary that refuses to change a schema.\<close>

datatype sdk_object =
    SdkType string
  | SdkCollection sdk_object
  | SdkMetric string
  | SdkSimpleField string sdk_object bool bool
  | SdkSearchField string sdk_object bool "(int \<times> string) option"
  | SdkHnsw string int int int sdk_object
  | SdkVectorSearch "sdk_object list" "(string \<times> string) list"
  | SdkSemanticSearch "(string \<times> string list) list"
  | SdkIndex string "sdk_object list" sdk_object "sdk_object option"

fun sdk_dimensions :: "sdk_object \<Rightarrow> int option" where
  "sdk_dimensions (SdkSearchField n t s v) = map_option fst v"
| "sdk_dimensions x = None"

fun sdk_algorithm_metric :: "sdk_object \<Rightarrow> string option" where
  "sdk_algorithm_metric (SdkHnsw n a b c (SdkMetric m)) = Some m"
| "sdk_algorithm_metric x = None"

fun sdk_index_fields :: "sdk_object \<Rightarrow> sdk_object list" where
  "sdk_index_fields (SdkIndex n fs vs ss) = fs"
| "sdk_index_fields x = []"

fun sdk_index_algorithms :: "sdk_object \<Rightarrow> sdk_object list" where
  "sdk_index_algorithms (SdkIndex n fs (SdkVectorSearch algs ps) ss) = algs"
| "sdk_index_algorithms x = []"

fun sdk_index_name :: "sdk_object \<Rightarrow> string" where
  "sdk_index_name (SdkIndex n fs vs ss) = n"
| "sdk_index_name x = []"

definition sdk_models :: "sdk_object search_models" where
  "sdk_models = \<lparr>sm_string = SdkType ''Edm.String'', sm_single = SdkType ''Edm.Single'', sm_datetime = SdkType ''Edm.DateTimeOffset'',
     sm_collection = SdkCollection, sm_simple_field = SdkSimpleField, sm_search_field = SdkSearchField,
     sm_field_dimensions = sdk_dimensions,
     sm_metric = \<lambda>m. if m \<in> {''cosine'', ''dotProduct'', ''euclidean''} then Inr (SdkMetric m) else Inl m,
     sm_hnsw = SdkHnsw, sm_algorithm_metric = sdk_algorithm_metric, sm_vector_search = SdkVectorSearch,
     sm_semantic_search = SdkSemanticSearch, sm_index = SdkIndex, sm_index_fields = sdk_index_fields,
     sm_index_algorithms = sdk_index_algorithms\<rparr>"

type_synonym mem_search = "(string, sdk_object) dict"

definition mem_create_or_update :: "sdk_object \<Rightarrow> (unit, mem_search) backend_call" where
  "mem_create_or_update ix M = (case Option.bind (dict_get M (sdk_index_name ix)) (index_schema sdk_models) of
       Some x \<Rightarrow> if index_schema sdk_models ix = Some x then (timed.Finished (Inr ()), dict_set (sdk_index_name ix) ix M)
         else (timed.Finished (Inl (HttpResponseError (Some 400) ''CannotChangeExistingField'')), M)
     | None \<Rightarrow> (timed.Finished (Inr ()), dict_set (sdk_index_name ix) ix M))"

definition mem_search_client :: "(sdk_object, mem_search) search_client" where
  "mem_search_client = \<lparr>cl_get_index = \<lambda>n M. (timed.Finished (Inr (dict_get M n)), M),
     cl_create_or_update_index = mem_create_or_update,
     cl_delete_index = \<lambda>n M. (timed.Finished (Inr ()), dict_pop n M)\<rparr>"

interpretation sdk_terms: search_sdk sdk_models
  by unfold_locales (auto simp: sdk_models_def split: if_splits)

interpretation mem_search: search_index_service sdk_models mem_search_client map_of
proof (unfold_locales, goal_cases)
  case (1 n w res w')
  then show ?case by (auto simp: mem_search_client_def)
next
  case (2 ix w cres w' k x)
  then show ?case
    by (cases "k = sdk_index_name ix")
      (auto simp: mem_search_client_def mem_create_or_update_def split: option.splits if_splits)
next
  case (3 n fs vs ss w w')
  have "sdk_index_name (sm_index sdk_models n fs vs ss) = n" by (simp add: sdk_models_def)
  with 3 show ?case
    by (auto simp: mem_search_client_def mem_create_or_update_def split: option.splits if_splits)
qed

section \<open>Properties\<close>

lemma template_definition_ok: "template_ok t \<Longrightarrow> d \<noteq> 0 \<Longrightarrow> definition_ok (template_definition n t d m)"
  by (auto simp: template_ok_def definition_ok_def template_definition_def)


text \<open>
  A created index is never taken for a drifted one. For a valid template and a dimension other than zero,
  when \<open>create_index\<close> returned and a later \<open>describe_index\<close> returns, it reports exactly the requested
  dimensions and metric: what the backend reads off the vendor's objects is what it had built into them.
\<close>

theorem azure_create_then_describe:
  assumes "search_index_service S L stored" and "template_ok t" and "d \<noteq> 0"
    and "azure_create_index grants A (real_backend S L) n t d m w = (Inr (), w1)"
    and "azure_describe_index grants A (real_backend S L) n w1 = (Inr r, w2)"
  shows "r = Some \<lparr>id_dimensions = d, id_metric = m\<rparr>"
proof -
  note prod = search_index_service.production_service [OF assms(1)]
  have "Option.bind (stored w1 n) (index_schema S) = Some (d, m)"
    using provisioner_service.create_call [OF prod assms(4) [unfolded azure_create_index_def]] template_definition_ok [OF assms(2,3)]
    by (simp add: template_definition_def)
  moreover obtain q where q: "provisioner_call grants A (bk_get_index_schema (real_backend S L) n) w1 = (q, w2)"
      and "Inr r = map_sum id (map_option (\<lambda>(d, m). \<lparr>id_dimensions = d, id_metric = m\<rparr>)) q"
    using assms(5) by (cases "provisioner_call grants A (bk_get_index_schema (real_backend S L) n) w1") (auto simp: azure_describe_index_def)
  ultimately show ?thesis using provisioner_service.schema_call [OF prod q] by (cases q) auto
qed

definition demo_azure :: azure_provisioner where
  "demo_azure = \<lparr>ap_timeout = ''30'', ap_max_attempts = 5\<rparr>"

theorem azure_create_then_describe_witness:
  "\<exists>w1 w2. azure_create_index nat demo_azure (real_backend sdk_models mem_search_client) ''hr'' demo_template 512 ''cosine'' [] = (Inr (), w1) \<and>
     azure_describe_index nat demo_azure (real_backend sdk_models mem_search_client) ''hr'' w1 =
       (Inr (Some \<lparr>id_dimensions = 512, id_metric = ''cosine''\<rparr>), w2)"
proof -
  let ?c = "azure_create_index nat demo_azure (real_backend sdk_models mem_search_client) ''hr'' demo_template 512 ''cosine'' []"
  let ?d = "azure_describe_index nat demo_azure (real_backend sdk_models mem_search_client) ''hr'' (snd ?c)"
  have c: "fst ?c = Inr ()" by code_simp
  have "\<not> isl (fst ?d)" by code_simp
  then obtain r where r: "fst ?d = Inr r" by (cases "fst ?d") auto
  have "?c = (Inr (), snd ?c)" "?d = (Inr r, snd ?d)" using c r by (metis prod.collapse)+
  with azure_create_then_describe [OF mem_search.search_index_service_axioms demo_template_ok _ this] show ?thesis
    by (intro exI [of _ "snd ?c"] exI [of _ "snd ?d"]) simp
qed

text \<open>
  Provisioning on Azure AI Search is sound. Under every interleaving of any number of processes with their
  own caches, through retries, timeouts and answers that are lost, an index that the registry calls
  ready exists in the service with the dimensions and the metric of its entry, and so does every index
  for which \<open>ensure\<close> returned an entry.
\<close>

theorem azure_ensure_sound:
  assumes "search_index_service S L stored"
    and "system_run cfg ts (fleet_port mem_registry_port) (azure_provisioner_port grants A (real_backend S L)) scn
      (system_init (fleet_init [] ttl) w) s"
  shows "(\<forall>n e. entry_at s map_of n = Some e \<and> re_status e = Ready \<longrightarrow>
       Option.bind (stored (snd (sys_shared s)) n) (index_schema S) = Some (re_dimensions e, re_metric e)) \<and>
    (\<forall>i e. sys_pcs s i = Finished (Inr e) \<longrightarrow> re_index_name e = sc_index_name (scn i) \<and> re_status e \<in> {Ready, Retired} \<and>
       Option.bind (stored (snd (sys_shared s)) (re_index_name e)) (index_schema S) = Some (re_dimensions e, re_metric e))"
proof -
  have "provisioning (fleet_port mem_registry_port) (fleet_contents map_of) (fleet_views (\<lambda>_ _. {}))
      (azure_provisioner_port grants A (real_backend S L)) (\<lambda>w n. Option.bind (stored w n) (index_schema S))"
    by (rule provisioning.intro [OF fleet_reg.registry_contract_axioms search_index_service.azure_adapter_service [OF assms(1)]])
  from provisioning.reachable_sound [OF this assms(2)] show ?thesis
    by (auto simp: entry_at_def fleet_contents_def fleet_views_def fleet_init_def cached_registry_init_def cache_views_def)
qed

abbreviation azure_system :: "(mem_registry fleet, mem_search) provisioning_system" where
  "azure_system \<equiv> run_calls (\<lambda>_. default_provisioning_config 1) (\<lambda>_. demo_templates) (fleet_port mem_registry_port)
     (azure_provisioner_port nat demo_azure (real_backend sdk_models mem_search_client)) (\<lambda>_. demo_scenario) demo_calls
     (system_init (fleet_init [] 10) [])"

theorem azure_ensure_sound_witness:
  "sys_pcs azure_system 0 = Finished (Inr demo_entry) \<and>
   Option.bind (map_of (snd (sys_shared azure_system)) ''hr'') (index_schema sdk_models) = Some (512, ''cosine'')"
proof -
  have run: "system_run (\<lambda>_. default_provisioning_config 1) (\<lambda>_. demo_templates) (fleet_port mem_registry_port)
      (azure_provisioner_port nat demo_azure (real_backend sdk_models mem_search_client)) (\<lambda>_. demo_scenario)
      (system_init (fleet_init [] 10) []) azure_system"
    by (rule run_calls_run) (simp_all add: demo_calls_def system_init_def)
  have fin: "sys_pcs azure_system 0 = Finished (Inr demo_entry)" by code_simp
  have e: "re_index_name demo_entry = ''hr''" "re_dimensions demo_entry = 512" "re_metric demo_entry = ''cosine''" by code_simp+
  from azure_ensure_sound [OF mem_search.search_index_service_axioms run] fin e show ?thesis by metis
qed

end
