(* ===== verification/Azure_Search_Sdk.thy ===== *)
theory Azure_Search_Sdk
  imports Azure_Search Azure_Provisioner
begin

text \<open>
  The production backend of the indexer's Azure AI Search adapter,
  \<open>src/vestibule/indexer/adapters/_azure_search_backend.py\<close>: the schema it builds, the way it reads a schema back, and
  the three calls on documents. The SDK is the parameter of \<open>Azure_Provisioner\<close> (\<open>search_models\<close>, \<open>search_client\<close>), with the
  calls of its document client (\<open>documents_client\<close>) beside. Indexer and provisioning talk to the same service, and
  the last section says where they agree and where not.
\<close>

section \<open>The backend\<close>

record ('f, 'w) documents_client =
  dc_merge_or_upload :: "string \<Rightarrow> 'f document list \<Rightarrow> ((string \<times> bool \<times> string option) list, 'w) backend_call"
  dc_delete_documents :: "string \<Rightarrow> (string, string) dict list \<Rightarrow> (unit, 'w) backend_call"
  dc_search :: "string \<Rightarrow> string \<Rightarrow> string \<Rightarrow> string list \<Rightarrow> ((string, string option) dict list, 'w) backend_call"

definition index_profile_name :: "index_definition \<Rightarrow> string" where
  "index_profile_name d = xd_index_name d @ ''-vector-profile''"

definition indexer_fields :: "'x search_models \<Rightarrow> index_definition \<Rightarrow> 'x list" where
  "indexer_fields S d =
     [sm_simple_field S ''chunk_id'' (sm_string S) True False,
      sm_search_field S ''content'' (sm_string S) True None,
      sm_search_field S ''content_vector'' (sm_collection S (sm_single S)) True (Some (xd_dimensions d, index_profile_name d)),
      sm_simple_field S ''doc_id'' (sm_string S) False True,
      sm_simple_field S ''doc_version'' (sm_string S) False True,
      sm_simple_field S ''allowed_groups'' (sm_collection S (sm_string S)) False True,
      sm_simple_field S ''trust_tier'' (sm_string S) False True,
      sm_simple_field S ''config_version'' (sm_string S) False True]"

definition indexer_vector_search :: "'x search_models \<Rightarrow> index_definition \<Rightarrow> string + 'x" where
  "indexer_vector_search S d =
     (let algorithm_name = xd_index_name d @ ''-hnsw'' in
      bind_res (sm_metric S (xd_metric d)) (\<lambda>metric.
        Inr (sm_vector_search S
          [sm_hnsw S algorithm_name (xd_hnsw_m d) (xd_hnsw_ef_construction d) (xd_hnsw_ef_search d) metric]
          [(index_profile_name d, algorithm_name)])))"

definition indexer_search_index :: "'x search_models \<Rightarrow> index_definition \<Rightarrow> string + 'x" where
  "indexer_search_index S d = bind_res (indexer_vector_search S d) (\<lambda>vector_search.
     Inr (sm_index S (xd_index_name d) (indexer_fields S d) vector_search None))"

definition indexer_create_index where
  "indexer_create_index S L d w = (case indexer_search_index S d of
       Inl text \<Rightarrow> (timed.Finished (Inl (BackendException text)), w)
     | Inr index \<Rightarrow> cl_create_or_update_index L index w)"

text \<open>The value of \<open>doc_id\<close> inside a filter: every quote is doubled.\<close>

abbreviation quote :: char where "quote \<equiv> CHR 0x27"

definition escape_quotes :: "string \<Rightarrow> string" where
  "escape_quotes s = concat (map (\<lambda>c. if c = quote then [quote, quote] else [c]) s)"

definition doc_id_filter :: "string \<Rightarrow> string" where
  "doc_id_filter doc_id = ''doc_id eq '' @ quote # escape_quotes doc_id @ [quote]"

definition search_real_backend ::
    "'x search_models \<Rightarrow> ('x, 'w) search_client \<Rightarrow> ('f, 'w) documents_client \<Rightarrow> ('f, 'w) search_backend" where
  "search_real_backend S L D = \<lparr>sb_get_index_schema = real_get_index_schema S L,
     sb_create_or_update_index = indexer_create_index S L,
     sb_upload_documents = dc_merge_or_upload D,
     sb_delete_documents = \<lambda>index_name chunk_ids. dc_delete_documents D index_name (map (\<lambda>cid. [(''chunk_id'', cid)]) chunk_ids),
     sb_documents_for_doc_id = \<lambda>index_name doc_id.
       dc_search D index_name ''*'' (doc_id_filter doc_id) [''chunk_id'', ''doc_version'']\<rparr>"

text \<open>
  \<open>_load_real_backend\<close> of both adapters: \<open>installed\<close> says whether \<open>azure-search-documents\<close> can be imported; the clients
  are built without a call of the service.
\<close>

definition azure_search_hint :: "string \<Rightarrow> string" where
  "azure_search_hint user = ''azure-search-documents is not installed; install the '' @ py_repr ''azure_search'' @
     '' extra (pip install vestibule[azure_search]) to use '' @ user"

definition indexer_load_backend ::
    "bool \<Rightarrow> 'x search_models \<Rightarrow> ('x, 'w) search_client \<Rightarrow> ('f, 'w) documents_client \<Rightarrow> indexer_error + ('f, 'w) search_backend" where
  "indexer_load_backend installed S L D =
     (if \<not> installed then Inl (indexer_exn [] (azure_search_hint ''AzureAISearchIndexer'') INDEXER_DEPENDENCY_MISSING)
      else Inr (search_real_backend S L D))"

definition provisioner_load_backend ::
    "bool \<Rightarrow> 'x search_models \<Rightarrow> ('x, 'w) search_client \<Rightarrow> provisioning_error + 'w provisioner_backend" where
  "provisioner_load_backend installed S L =
     (if \<not> installed
      then Inl (provisioning_exn [] (azure_search_hint ''AzureAISearchProvisioner'') ''INDEX_PROVISIONER_DEPENDENCY_MISSING'')
      else Inr (real_backend S L))"

section \<open>Lemmas\<close>

context search_sdk
begin

lemma indexer_schema_of_built:
  assumes "indexer_search_index S d = Inr ix" and "xd_dimensions d \<noteq> 0"
  shows "index_schema S ix = Some (xd_dimensions d, xd_metric d)"
proof -
  obtain x where x: "sm_metric S (xd_metric d) = Inr x" and ix: "ix = sm_index S (xd_index_name d) (indexer_fields S d)
      (sm_vector_search S [sm_hnsw S (xd_index_name d @ ''-hnsw'') (xd_hnsw_m d) (xd_hnsw_ef_construction d) (xd_hnsw_ef_search d) x]
        [(index_profile_name d, xd_index_name d @ ''-hnsw'')]) None"
    using assms(1) by (cases "sm_metric S (xd_metric d)") (auto simp: indexer_search_index_def indexer_vector_search_def Let_def)
  have "List.map_filter (vector_dimensions S) (indexer_fields S d) = [xd_dimensions d]"
    using assms(2) by (simp add: indexer_fields_def map_filter_simps vector_dimensions_def)
  with x show ?thesis by (simp add: index_schema_def ix extract_metric_def hnsw_metric)
qed

end

lemma sdk_error_code: "map_backend_error x = StoreIndexerError y \<Longrightarrow> ie_error_code y \<noteq> INDEXER_SCHEMA_CONFLICT"
  by (cases x) (auto simp: map_status_to_error_code_def indexer_exn_def split: option.splits if_splits)

lemma with_retry_rule:
  assumes step: "\<And>v r v'. fn v = (timed.Finished r, v') \<Longrightarrow> Q v r v'" "\<And>v t v'. fn v = (TooLate, v') \<Longrightarrow> Q v (Inl (BackendTimeout t)) v'"
    and compose: "\<And>v e v' r v''. Q v (Inl e) v' \<Longrightarrow> Q v' r v'' \<Longrightarrow> Q v r v''"
    and run: "with_retry grants A fn w = (res, w')"
  shows "\<exists>r. res = map_sum map_backend_error id r \<and> Q w r w'"
proof -
  obtain r where r: "retry_loop (grants (sx_max_attempts A)) search_retryable (call_with_timeout A fn) w = (r, w')"
      "res = map_sum map_backend_error id r"
    using run by (cases "retry_loop (grants (sx_max_attempts A)) search_retryable (call_with_timeout A fn) w") (auto simp: with_retry_def)
  have "Q w r w'"
    by (rule retry_loop_rule [where Q = Q, OF _ compose r(1)])
      (auto simp: call_with_timeout_def step split: prod.splits timed.splits)
  with r(2) show ?thesis by blast
qed

context search_index_service
begin

abbreviation live where "live \<equiv> \<lambda>w n. Option.bind (stored w n) (index_schema S)"

lemma indexer_schema_call:
  assumes "with_retry grants A (sb_get_index_schema (search_real_backend S L D) n) w = (res, w')"
  shows "live w' = live w \<and> (case res of Inr x \<Rightarrow> x = live w n | Inl e \<Rightarrow> \<forall>y. e = StoreIndexerError y \<longrightarrow> ie_error_code y \<noteq> INDEXER_SCHEMA_CONFLICT)"
proof -
  let ?Q = "\<lambda>v r v'. live v' = live v \<and> (\<forall>x. r = Inr x \<longrightarrow> x = live v n)"
  have get: "live v' = live v \<and> (\<forall>x. r = timed.Finished (Inr x) \<longrightarrow> x = live v n)" if "real_get_index_schema S L n v = (r, v')" for v r v'
    using production.get_schema [of n v r v'] that by (simp add: real_backend_def)
  have "\<exists>r. res = map_sum map_backend_error id r \<and> ?Q w r w'"
  proof (rule with_retry_rule [where Q = ?Q, OF _ _ _ assms])
    show "?Q v r v'" if "sb_get_index_schema (search_real_backend S L D) n v = (timed.Finished r, v')" for v r v'
      using get [of v "timed.Finished r" v'] that by (simp add: search_real_backend_def)
    show "?Q v (Inl (BackendTimeout t)) v'" if "sb_get_index_schema (search_real_backend S L D) n v = (TooLate, v')" for v t v'
      using get [of v TooLate v'] that by (simp add: search_real_backend_def)
  qed (auto simp: fun_eq_iff)
  then obtain r where "res = map_sum map_backend_error id r" "?Q w r w'" by blast
  then show ?thesis by (cases r) (auto dest: sdk_error_code)
qed

lemma indexer_create_call:
  assumes "with_retry grants A (sb_create_or_update_index (search_real_backend S L D) d) w = (res, w')" and "xd_dimensions d \<noteq> 0"
  shows "(\<forall>k x. live w k = Some x \<longrightarrow> live w' k = Some x) \<and> (res = Inr () \<longrightarrow> live w' (xd_index_name d) = Some (xd_dimensions d, xd_metric d))"
proof -
  let ?Q = "\<lambda>v r v'. (\<forall>k x. live v k = Some x \<longrightarrow> live v' k = Some x) \<and>
    (r = Inr () \<longrightarrow> live v' (xd_index_name d) = Some (xd_dimensions d, xd_metric d))"
  have c: "(\<forall>k x. live v k = Some x \<longrightarrow> live v' k = Some x) \<and>
      (r = timed.Finished (Inr ()) \<longrightarrow> live v' (xd_index_name d) = Some (xd_dimensions d, xd_metric d))"
    if "indexer_create_index S L d v = (r, v')" for v r v'
  proof (cases "indexer_search_index S d")
    case (Inl t)
    with that show ?thesis by (auto simp: indexer_create_index_def)
  next
    case (Inr ix)
    with that have cr: "cl_create_or_update_index L ix v = (r, v')" by (simp add: indexer_create_index_def)
    obtain fs vs ss where ix: "ix = sm_index S (xd_index_name d) fs vs ss" using Inr by (auto simp: indexer_search_index_def)
    have "live v' (xd_index_name d) = Some (xd_dimensions d, xd_metric d)" if "r = timed.Finished (Inr ())"
      using created [OF cr [unfolded that ix]] indexer_schema_of_built [OF Inr assms(2)] ix by auto
    with immutable [OF cr] show ?thesis by blast
  qed
  have "\<exists>r. res = map_sum map_backend_error id r \<and> ?Q w r w'"
  proof (rule with_retry_rule [where Q = ?Q, OF _ _ _ assms(1)])
    show "?Q v r v'" if "sb_create_or_update_index (search_real_backend S L D) d v = (timed.Finished r, v')" for v r v'
      using c [of v "timed.Finished r" v'] that by (simp add: search_real_backend_def)
    show "?Q v (Inl (BackendTimeout t)) v'" if "sb_create_or_update_index (search_real_backend S L D) d v = (TooLate, v')" for v t v'
      using c [of v TooLate v'] that by (simp add: search_real_backend_def)
  qed simp
  then obtain r where "res = map_sum map_backend_error id r" "?Q w r w'" by blast
  then show ?thesis by (cases r) auto
qed

text \<open>What \<open>ensure_schema\<close> does to the service, and what its outcomes mean.\<close>

lemma ensure_schema_outcomes:
  assumes "search_ensure_schema grants (search_real_backend S L D) A d m w = (res, w')" and "d \<noteq> 0"
  shows "(\<forall>k x. live w k = Some x \<longrightarrow> live w' k = Some x) \<and> (res = Inr () \<longrightarrow> live w' (sx_index_name A) = Some (d, m)) \<and>
    (live w (sx_index_name A) = Some (d, m) \<longrightarrow> (\<forall>y. res = Inl (StoreIndexerError y) \<longrightarrow> ie_error_code y \<noteq> INDEXER_SCHEMA_CONFLICT))"
proof -
  obtain r w1 where c: "with_retry grants A (sb_get_index_schema (search_real_backend S L D) (sx_index_name A)) w = (r, w1)" by fastforce
  note g = indexer_schema_call [OF c]
  show ?thesis
  proof (cases r)
    case (Inl e)
    with c assms(1) have "res = Inl e" "w' = w1" by (auto simp: search_ensure_schema_def)
    with g Inl show ?thesis by (simp add: fun_eq_iff)
  next
    case (Inr x)
    with g have x: "x = live w (sx_index_name A)" and w1: "live w1 = live w" by simp_all
    show ?thesis
    proof (cases x)
      case None
      let ?def = "\<lparr>xd_index_name = sx_index_name A, xd_dimensions = d, xd_metric = m, xd_hnsw_m = sx_hnsw_m A,
        xd_hnsw_ef_construction = sx_hnsw_ef_construction A, xd_hnsw_ef_search = sx_hnsw_ef_search A\<rparr>"
      have "with_retry grants A (sb_create_or_update_index (search_real_backend S L D) ?def) w1 = (res, w')"
        using c assms(1) Inr None by (simp add: search_ensure_schema_def)
      from indexer_create_call [OF this] assms(2) w1 x None show ?thesis by (simp add: fun_eq_iff)
    next
      case (Some y)
      obtain d' m' where y: "y = (d', m')" by fastforce
      with c assms(1) Inr Some have out: "w' = w1" "d' = d \<and> m' = m \<longrightarrow> res = Inr ()" "\<not> (d' = d \<and> m' = m) \<longrightarrow> res \<noteq> Inr ()"
        by (auto simp: search_ensure_schema_def split: if_splits)
      have ly: "live w (sx_index_name A) = Some (d', m')" using x Some y by simp
      have "live w1 k = live w k" for k using w1 by (simp add: fun_eq_iff)
      with ly out show ?thesis by (cases "d' = d \<and> m' = m") auto
    qed
  qed
qed

end

section \<open>Properties\<close>

text \<open>
  C29. What provisioning created, the indexer accepts. After \<open>create_index\<close> of the provisioning adapter returned for an
  index, \<open>ensure_schema\<close> of the indexer for the same index, dimensions and metric leaves the schema as it
  is and never reports a conflict, whatever calls time out or have to be repeated.
\<close>

theorem provisioned_index_accepted:
  assumes "search_index_service S L stored" and "template_ok t" and "d \<noteq> 0"
    and "azure_create_index grants P (real_backend S L) (sx_index_name A) t d m w = (Inr (), w1)"
    and "search_ensure_schema grants' (search_real_backend S L D) A d m w1 = (res, w2)"
  shows "Option.bind (stored w2 (sx_index_name A)) (index_schema S) = Some (d, m) \<and>
    (\<forall>y. res = Inl (StoreIndexerError y) \<longrightarrow> ie_error_code y \<noteq> INDEXER_SCHEMA_CONFLICT)"
proof -
  note prod = search_index_service.production_service [OF assms(1)]
  have "Option.bind (stored w1 (sx_index_name A)) (index_schema S) = Some (d, m)"
    using provisioner_service.create_call [OF prod assms(4) [unfolded azure_create_index_def]] template_definition_ok [OF assms(2,3)]
    by (simp add: template_definition_def)
  with search_index_service.ensure_schema_outcomes [OF assms(1) assms(5,3)] show ?thesis by blast
qed

definition demo_documents :: "(unit, mem_search) documents_client" where
  "demo_documents = \<lparr>dc_merge_or_upload = \<lambda>n docs w. (timed.Finished (Inr []), w),
     dc_delete_documents = \<lambda>n keys w. (timed.Finished (Inr ()), w), dc_search = \<lambda>n t f sel w. (timed.Finished (Inr []), w)\<rparr>"

theorem provisioned_index_accepted_witness:
  "\<exists>w1 w2. azure_create_index nat demo_azure (real_backend sdk_models mem_search_client) ''docs'' demo_template 512 ''cosine'' [] = (Inr (), w1) \<and>
     search_ensure_schema nat (search_real_backend sdk_models mem_search_client demo_documents) demo_search 512 ''cosine'' w1 = (Inr (), w2) \<and>
     Option.bind (map_of w2 ''docs'') (index_schema sdk_models) = Some (512, ''cosine'')"
proof -
  let ?c = "azure_create_index nat demo_azure (real_backend sdk_models mem_search_client) ''docs'' demo_template 512 ''cosine'' []"
  let ?s = "search_ensure_schema nat (search_real_backend sdk_models mem_search_client demo_documents) demo_search 512 ''cosine'' (snd ?c)"
  have n: "sx_index_name demo_search = ''docs''" by (simp add: demo_search_def)
  have c: "fst ?c = Inr ()" by code_simp
  have s: "fst ?s = Inr ()" by code_simp
  have e: "?c = (Inr (), snd ?c)" "?s = (Inr (), snd ?s)" using c s by (metis prod.collapse)+
  obtain w1 where w1: "?c = (Inr (), w1)" using e(1) by blast
  then have "?s = search_ensure_schema nat (search_real_backend sdk_models mem_search_client demo_documents) demo_search 512 ''cosine'' w1" by simp
  with e(2) obtain w2 where w2: "search_ensure_schema nat (search_real_backend sdk_models mem_search_client demo_documents) demo_search 512 ''cosine'' w1 = (Inr (), w2)"
    by metis
  have "(512 :: int) \<noteq> 0" by simp
  from provisioned_index_accepted [OF mem_search.search_index_service_axioms demo_template_ok this w1 [folded n] w2] n w1 w2 show ?thesis by auto
qed

text \<open>
  The filter on \<open>doc_id\<close> cannot be escaped from: the vendor's reader of string literals, which ends a literal at
  a quote that is not doubled, reads back exactly the identifier and finds the end of the filter, for
  every identifier, quotes included.
\<close>

fun odata_literal :: "string \<Rightarrow> (string \<times> string) option" where
  "odata_literal [] = None"
| "odata_literal [c] = (if c = quote then Some ([], []) else None)"
| "odata_literal (c # b # s) =
     (if c = quote
      then if b = quote then map_option (\<lambda>(t, rest). (quote # t, rest)) (odata_literal s) else Some ([], b # s)
      else map_option (\<lambda>(t, rest). (c # t, rest)) (odata_literal (b # s)))"

lemma odata_literal_other: "c \<noteq> quote \<Longrightarrow> odata_literal (c # s) = map_option (\<lambda>(t, rest). (c # t, rest)) (odata_literal s)"
  by (cases s) simp_all

theorem doc_id_filter_faithful: "doc_id_filter d = ''doc_id eq '' @ quote # escape_quotes d @ [quote] \<and> odata_literal (escape_quotes d @ [quote]) = Some (d, [])"
proof -
  have "odata_literal (escape_quotes d @ [quote]) = Some (d, [])"
    by (induction d) (auto simp: escape_quotes_def odata_literal_other)
  then show ?thesis by (simp add: doc_id_filter_def)
qed

text \<open>
  The documents the indexer uploads have seven properties that neither the index it creates itself nor one
  provisioned from the shipped template has a field for.
\<close>

fun sdk_field_name :: "sdk_object \<Rightarrow> string" where
  "sdk_field_name (SdkSimpleField n t k f) = n"
| "sdk_field_name (SdkSearchField n t s v) = n"
| "sdk_field_name x = []"

lemma uploaded_fields_missing:
  "filter (\<lambda>k. k \<notin> set (map sdk_field_name (indexer_fields sdk_models d))) (map fst (record_to_document fmt r)) =
     [''position'', ''section_path'', ''element_types'', ''strategy'', ''embedding_model'', ''embedding_dimensions'', ''indexed_at'']"
  by (simp add: indexer_fields_def record_to_document_def sdk_models_def)

end
