(* ===== verification/Table_Backend.thy ===== *)
theory Table_Backend
  imports Adapter_Support
begin

text \<open>
  What the two stores on Azure Table Storage share: the duck-typed backend of
  \<open>src/vestibule/scenario/stores/table_storage_store.py\<close> and \<open>provisioning/stores/table_storage_registry.py\<close>, and
  the bounded retry of one call. The backend wraps the vendor's SDK and is a parameter; the locale
  \<open>table_service\<close> is what the service documents: rows under a partition key and a row key, each with an
  ETag that changes with every write, writes that are conditional on the ETag (or on the absence of
  the row), and calls that fail or time out either before or after their effect. A table in memory
  (\<open>mem_table\<close>) satisfies it.
\<close>

section \<open>The backend\<close>

datatype table_prop = PStr string | PInt int | PBool bool

type_synonym entity_data = "(string, table_prop) dict"

record table_entity =
  te_partition_key :: string
  te_row_key :: string
  te_data :: entity_data
  te_etag :: string

text \<open>\<open>str(value)\<close>, \<open>bool(value)\<close> of a property, and a property that is a string.\<close>

fun prop_str :: "table_prop \<Rightarrow> string" where
  "prop_str (PStr s) = s"
| "prop_str (PInt i) = str_int i"
| "prop_str (PBool b) = (if b then ''True'' else ''False'')"

fun prop_truthy :: "table_prop \<Rightarrow> bool" where
  "prop_truthy (PStr s) = (s \<noteq> [])"
| "prop_truthy (PInt i) = (i \<noteq> 0)"
| "prop_truthy (PBool b) = b"

fun str_prop :: "table_prop \<Rightarrow> string option" where
  "str_prop (PStr s) = Some s"
| "str_prop p = None"

text \<open>\<open>data[key]\<close>: the text of a \<open>KeyError\<close> is the key's \<open>repr\<close>.\<close>

definition data_item :: "entity_data \<Rightarrow> string \<Rightarrow> string + table_prop" where
  "data_item data key = (case dict_get data key of None \<Rightarrow> Inl (py_repr key) | Some p \<Rightarrow> Inr p)"

record 'w table_backend =
  tb_get_entity :: "string \<Rightarrow> string \<Rightarrow> (table_entity option, 'w) backend_call"
  tb_query :: "string option \<Rightarrow> string option \<Rightarrow> (table_entity list, 'w) backend_call"
  tb_upsert_entity :: "string \<Rightarrow> string \<Rightarrow> entity_data \<Rightarrow> string option \<Rightarrow> (string, 'w) backend_call"
  tb_delete_entity :: "string \<Rightarrow> string \<Rightarrow> (unit, 'w) backend_call"

record table_client =
  tc_timeout :: string
  tc_max_attempts :: int

definition conflict_status :: "int option \<Rightarrow> bool" where
  "conflict_status code \<longleftrightarrow> code \<in> {Some 409, Some 412}"

fun table_retryable :: "backend_exn \<Rightarrow> bool" where
  "table_retryable (BackendTimeout t) = True"
| "table_retryable (HttpResponseError code t) =
     (if conflict_status code then False
      else code = Some 429 \<or> (case code of None \<Rightarrow> False | Some c \<Rightarrow> 500 \<le> c))"
| "table_retryable (BackendException t) = False"

definition table_call :: "(int \<Rightarrow> nat) \<Rightarrow> table_client \<Rightarrow> ('a, 'w) backend_call \<Rightarrow> 'w \<Rightarrow> (backend_exn, 'a, 'w) outcome" where
  "table_call grants T fn w = retry_loop (grants (tc_max_attempts T)) table_retryable (timed_call (tc_timeout T) fn) w"

section \<open>What the service promises\<close>

type_synonym table_rows = "string \<times> string \<Rightarrow> (entity_data \<times> string) option"

definition entity_at :: "table_rows \<Rightarrow> string \<times> string \<Rightarrow> table_entity option" where
  "entity_at rows k = map_option (\<lambda>(d, t). \<lparr>te_partition_key = fst k, te_row_key = snd k, te_data = d, te_etag = t\<rparr>) (rows k)"

lemma entity_at_Some:
  "entity_at rs k = Some e \<longleftrightarrow> te_partition_key e = fst k \<and> te_row_key e = snd k \<and> rs k = Some (te_data e, te_etag e)"
  by (cases e) (auto simp: entity_at_def)

text \<open>The condition of a write: no row yet, or the row with this ETag.\<close>

definition write_allowed :: "table_rows \<Rightarrow> string \<times> string \<Rightarrow> string option \<Rightarrow> bool" where
  "write_allowed rows k etag \<longleftrightarrow> (case etag of None \<Rightarrow> rows k = None | Some t \<Rightarrow> \<exists>d. rows k = Some (d, t))"

text \<open>
  The properties of an entity that are not the store's own. A client writes only such, each once; the
  service may return them in another order.
\<close>

definition reserved_keys :: "string list" where
  "reserved_keys = [''PartitionKey'', ''RowKey'', ''Timestamp'', ''etag'']"

definition plain_data :: "entity_data \<Rightarrow> bool" where
  "plain_data data \<longleftrightarrow> dict_ok data \<and> set (map fst data) \<inter> set reserved_keys = {}"

definition written :: "table_rows \<Rightarrow> string \<times> string \<Rightarrow> entity_data \<Rightarrow> string option \<Rightarrow> table_rows \<Rightarrow> bool" where
  "written rows k data etag rows' \<longleftrightarrow> write_allowed rows k etag \<and> 
     (\<exists>d t. map_of d = map_of data \<and> rows' = rows(k \<mapsto> (d, t)) \<and> etag \<noteq> Some t)"

locale table_service =
  fixes B :: "'w table_backend" and valid :: "'w \<Rightarrow> bool" and rows :: "'w \<Rightarrow> table_rows" and evolves :: "'w \<Rightarrow> 'w \<Rightarrow> bool"
  assumes get_entity: "valid w \<Longrightarrow> tb_get_entity B p r w = (res, w') \<Longrightarrow> valid w' \<and> rows w' = rows w \<and> evolves w w' \<and>
      (\<forall>e. res = Finished (Inr e) \<longrightarrow> e = entity_at (rows w) (p, r))"
    and query: "valid w \<Longrightarrow> tb_query B pk rk w = (qres, w') \<Longrightarrow> valid w' \<and> rows w' = rows w \<and> evolves w w' \<and>
      (\<forall>es. qres = Finished (Inr es) \<longrightarrow> distinct es \<and> set es = {e. \<exists>k. entity_at (rows w) k = Some e \<and>
         (pk = None \<or> pk = Some (fst k)) \<and> (rk = None \<or> rk = Some (snd k))})"
    and upsert: "valid w \<Longrightarrow> plain_data data \<Longrightarrow> tb_upsert_entity B p r data etag w = (ures, w') \<Longrightarrow> valid w' \<and> evolves w w' \<and>
      (case ures of Finished (Inr t) \<Rightarrow> written (rows w) (p, r) data etag (rows w') \<and> (\<exists>d. rows w' (p, r) = Some (d, t))
       | _ \<Rightarrow> rows w' = rows w \<or> written (rows w) (p, r) data etag (rows w'))"
    and delete: "valid w \<Longrightarrow> tb_delete_entity B p r w = (dres, w') \<Longrightarrow> valid w' \<and> evolves w w' \<and>
      (case dres of Finished (Inr _) \<Rightarrow> rows w' = (rows w)((p, r) := None)
       | _ \<Rightarrow> rows w' = rows w \<or> rows w' = (rows w)((p, r) := None))"
    and evolves_valid: "valid w \<Longrightarrow> evolves w w' \<Longrightarrow> valid w'"
    and evolves_refl: "valid w \<Longrightarrow> evolves w w"
    and evolves_trans: "evolves w w' \<Longrightarrow> evolves w' w'' \<Longrightarrow> evolves w w''"
    and etag_identifies: "valid w \<Longrightarrow> evolves w w' \<Longrightarrow> rows w k = Some (d, t) \<Longrightarrow> rows w' k = Some (d', t) \<Longrightarrow> d' = d"
begin

lemma timed_read:
  assumes "\<And>w res w'. valid w \<Longrightarrow> fn w = (res, w') \<Longrightarrow> valid w' \<and> rows w' = rows w \<and> evolves w w' \<and> (\<forall>x. res = Finished (Inr x) \<longrightarrow> P (rows w) x)"
    and "valid w" and "table_call grants T fn w = (res, w')"
  shows "valid w' \<and> rows w' = rows w \<and> evolves w w' \<and> (\<forall>x. res = Inr x \<longrightarrow> P (rows w) x)"
proof -
  let ?Q = "\<lambda>v r v'. valid v \<longrightarrow> valid v' \<and> rows v' = rows v \<and> evolves v v' \<and> (\<forall>x. r = Inr x \<longrightarrow> P (rows v) x)"
  have "?Q w res w'"
  proof (rule retry_loop_rule [where Q = ?Q, OF _ _ assms(3) [unfolded table_call_def]])
    show "?Q v r v'" if "timed_call (tc_timeout T) fn v = (r, v')" for v r v'
      using that assms(1) [of v] by (auto simp: timed_call_def split: prod.splits timed.splits)
    show "?Q v r v''" if "?Q v (Inl e) v'" "?Q v' r v''" for v e v' r v''
      using that evolves_trans [of v v' v''] by auto
  qed
  with assms(2) show ?thesis by blast
qed

lemma get_entity_call:
  assumes "valid w" and "table_call grants T (tb_get_entity B p r) w = (res, w')"
  shows "valid w' \<and> rows w' = rows w \<and> evolves w w' \<and> (\<forall>e. res = Inr e \<longrightarrow> e = entity_at (rows w) (p, r))"
  by (rule timed_read [OF get_entity assms])

lemma query_call:
  assumes "valid w" and "table_call grants T (tb_query B pk rk) w = (res, w')"
  shows "valid w' \<and> rows w' = rows w \<and> evolves w w' \<and>
    (\<forall>es. res = Inr es \<longrightarrow> distinct es \<and> set es = {e. \<exists>k. entity_at (rows w) k = Some e \<and>
       (pk = None \<or> pk = Some (fst k)) \<and> (rk = None \<or> rk = Some (snd k))})"
  by (rule timed_read [OF query assms])

text \<open>A conditional write that returned did its one effect; one that raised did it or did nothing.\<close>

lemma upsert_call:
  assumes "valid w" and "plain_data data" and "table_call grants T (tb_upsert_entity B p r data etag) w = (res, w')"
  shows "valid w' \<and> evolves w w' \<and> (case res of Inr t \<Rightarrow> written (rows w) (p, r) data etag (rows w') \<and> (\<exists>d. rows w' (p, r) = Some (d, t))
    | Inl _ \<Rightarrow> rows w' = rows w \<or> written (rows w) (p, r) data etag (rows w'))"
proof -
  let ?Q = "\<lambda>v res v'. valid v \<longrightarrow> valid v' \<and> evolves v v' \<and> (case res of
      Inr t \<Rightarrow> written (rows v) (p, r) data etag (rows v') \<and> (\<exists>d. rows v' (p, r) = Some (d, t))
    | Inl _ \<Rightarrow> rows v' = rows v \<or> written (rows v) (p, r) data etag (rows v'))"
  have once: "\<not> written rs' (p, r) data etag rs''" if "written rs (p, r) data etag rs'" for rs rs' rs''
    using that by (auto simp: written_def write_allowed_def split: option.splits)
  have "?Q w res w'"
  proof (rule retry_loop_rule [where Q = ?Q, OF _ _ assms(3) [unfolded table_call_def]])
    show "?Q v x v'" if "timed_call (tc_timeout T) (tb_upsert_entity B p r data etag) v = (x, v')" for v x v'
      using that upsert [OF _ assms(2), of v p r etag] by (fastforce simp: timed_call_def split: prod.splits timed.splits sum.splits)
    show "?Q v x v''" if "?Q v (Inl e) v'" "?Q v' x v''" for v e v' x v''
      using that evolves_trans [of v v' v''] once [of "rows v" "rows v'" "rows v''"] by (cases x) auto
  qed
  with assms(1) show ?thesis by blast
qed

lemma delete_call:
  assumes "valid w" and "table_call grants T (tb_delete_entity B p r) w = (res, w')"
  shows "valid w' \<and> evolves w w' \<and> (case res of Inr _ \<Rightarrow> rows w' = (rows w)((p, r) := None)
    | Inl _ \<Rightarrow> rows w' = rows w \<or> rows w' = (rows w)((p, r) := None))"
proof -
  let ?Q = "\<lambda>v res v'. valid v \<longrightarrow> valid v' \<and> evolves v v' \<and> (case res of Inr _ \<Rightarrow> rows v' = (rows v)((p, r) := None)
    | Inl _ \<Rightarrow> rows v' = rows v \<or> rows v' = (rows v)((p, r) := None))"
  have "?Q w res w'"
  proof (rule retry_loop_rule [where Q = ?Q, OF _ _ assms(2) [unfolded table_call_def]])
    show "?Q v x v'" if "timed_call (tc_timeout T) (tb_delete_entity B p r) v = (x, v')" for v x v'
      using that delete [of v p r] by (fastforce simp: timed_call_def split: prod.splits timed.splits sum.splits)
    show "?Q v x v''" if "?Q v (Inl e) v'" "?Q v' x v''" for v e v' x v''
      using that evolves_trans [of v v' v''] by (cases x) auto
  qed
  with assms(1) show ?thesis by blast
qed

text \<open>
  Optimistic concurrency: an entity was read, others worked on the table, and a write under the ETag that
  was read succeeded. Then the row is still the one that was read.
\<close>

lemma cas_unchanged:
  assumes "valid w" and "evolves w w'" and "entity_at (rows w) k = Some e" and "written (rows w') k data (Some (te_etag e)) rs"
  shows "entity_at (rows w') k = Some e"
proof -
  from assms(3) have r: "rows w k = Some (te_data e, te_etag e)" by (simp add: entity_at_Some)
  from assms(4) obtain d where "rows w' k = Some (d, te_etag e)" by (auto simp: written_def write_allowed_def)
  with etag_identifies [OF assms(1,2) r this] assms(3) show ?thesis by (simp add: entity_at_Some)
qed

end

section \<open>A table in memory\<close>

record mem_table =
  mt_rows :: "(string \<times> string, entity_data \<times> nat) dict"
  mt_next :: nat

definition mem_rows :: "mem_table \<Rightarrow> table_rows" where
  "mem_rows M k = map_option (\<lambda>(d, i). (d, str_int (int i))) (map_of (mt_rows M) k)"

definition mem_valid :: "mem_table \<Rightarrow> bool" where
  "mem_valid M \<longleftrightarrow> dict_ok (mt_rows M) \<and> (\<forall>k d i. map_of (mt_rows M) k = Some (d, i) \<longrightarrow> i < mt_next M)"

definition mem_evolves :: "mem_table \<Rightarrow> mem_table \<Rightarrow> bool" where
  "mem_evolves M M' \<longleftrightarrow> mem_valid M' \<and> mt_next M \<le> mt_next M' \<and>
     (\<forall>k d i. map_of (mt_rows M') k = Some (d, i) \<and> i < mt_next M \<longrightarrow> map_of (mt_rows M) k = Some (d, i))"

definition mem_entity :: "(string \<times> string) \<times> entity_data \<times> nat \<Rightarrow> table_entity" where
  "mem_entity = (\<lambda>((p, r), d, i). \<lparr>te_partition_key = p, te_row_key = r, te_data = d, te_etag = str_int (int i)\<rparr>)"

definition mem_put :: "string \<times> string \<Rightarrow> entity_data \<Rightarrow> mem_table \<Rightarrow> (backend_exn + string) timed \<times> mem_table" where
  "mem_put k data M = (Finished (Inr (str_int (int (mt_next M)))),
     M\<lparr>mt_rows := dict_set k (data, mt_next M) (mt_rows M), mt_next := Suc (mt_next M)\<rparr>)"

definition mem_backend :: "mem_table table_backend" where
  "mem_backend = \<lparr>tb_get_entity = \<lambda>p r M. (Finished (Inr (entity_at (mem_rows M) (p, r))), M),
     tb_query = \<lambda>p r M. (Finished (Inr (map mem_entity
       (filter (\<lambda>((pk, rk), _). (p = None \<or> p = Some pk) \<and> (r = None \<or> r = Some rk)) (mt_rows M)))), M),
     tb_upsert_entity = \<lambda>p r data etag M. (case etag of
         None \<Rightarrow> if mem_rows M (p, r) = None then mem_put (p, r) data M
           else (Finished (Inl (HttpResponseError (Some 409) ''EntityAlreadyExists'')), M)
       | Some t \<Rightarrow> if map_option snd (mem_rows M (p, r)) = Some t then mem_put (p, r) data M
           else (Finished (Inl (HttpResponseError (Some 412) ''UpdateConditionNotSatisfied'')), M)),
     tb_delete_entity = \<lambda>p r M. (Finished (Inr ()), M\<lparr>mt_rows := dict_pop (p, r) (mt_rows M)\<rparr>)\<rparr>"

lemma mem_rows_some: "mem_rows M k = Some (d, t) \<longleftrightarrow> (\<exists>i. map_of (mt_rows M) k = Some (d, i) \<and> t = str_int (int i))"
  by (auto simp: mem_rows_def)

lemma mem_valid_lt: "mem_valid M \<Longrightarrow> map_of (mt_rows M) k = Some (d, i) \<Longrightarrow> i < mt_next M"
  unfolding mem_valid_def by blast

lemma entity_at_mem: "entity_at (mem_rows M) k = Some e \<longleftrightarrow> (\<exists>d i. map_of (mt_rows M) k = Some (d, i) \<and> e = mem_entity (k, d, i))"
  by (cases k) (auto simp: entity_at_def mem_rows_def mem_entity_def)

lemma mem_put_written:
  assumes "mem_valid M" and "write_allowed (mem_rows M) k etag" and "mem_put k data M = (res, M')"
  shows "mem_valid M' \<and> mem_evolves M M' \<and> written (mem_rows M) k data etag (mem_rows M') \<and>
    (\<exists>t. res = Finished (Inr t) \<and> mem_rows M' k = Some (data, t))"
proof -
  have "etag \<noteq> Some (str_int (int (mt_next M)))"
    using assms(1,2) by (auto simp: write_allowed_def mem_rows_some str_int_inj simp del: map_of_eq_Some_iff dest: mem_valid_lt)
  then have "written (mem_rows M) k data etag (mem_rows M')"
    using assms(2,3) unfolding written_def by (intro conjI exI [of _ data]) (auto simp: mem_put_def mem_rows_def fun_eq_iff)
  moreover have "i < mt_next M'" if "map_of (mt_rows M') j = Some (d, i)" for j d i
    using that assms(3) mem_valid_lt [OF assms(1), of j d i] by (auto simp: mem_put_def split: if_splits)
  ultimately have v: "mem_valid M'" and "written (mem_rows M) k data etag (mem_rows M')"
      "\<exists>t. res = Finished (Inr t) \<and> mem_rows M' k = Some (data, t)"
    using assms(1,3) unfolding mem_valid_def by (auto simp: mem_put_def mem_rows_def)
  moreover have "mem_evolves M M'" using v assms(3) by (auto simp: mem_evolves_def mem_put_def split: if_splits)
  ultimately show ?thesis by blast
qed

interpretation mem_service: table_service mem_backend mem_valid mem_rows mem_evolves
proof (unfold_locales, goal_cases)
  case (1 w p r res w')
  then show ?case by (auto simp: mem_backend_def mem_evolves_def)
next
  case (2 w pk rk qres w')
  have inj: "inj mem_entity" by (auto simp: inj_def mem_entity_def str_int_inj)
  have ok: "dict_ok (mt_rows w)" using 2(1) by (simp add: mem_valid_def)
  then have d: "distinct (mt_rows w)" by (simp add: distinct_map)
  let ?es = "map mem_entity (filter (\<lambda>((p, r), _). (pk = None \<or> pk = Some p) \<and> (rk = None \<or> rk = Some r)) (mt_rows w))"
  have res: "qres = Finished (Inr ?es)" "w' = w" using 2(2) by (auto simp: mem_backend_def)
  have "distinct ?es" using d inj by (auto simp: distinct_map intro: inj_on_subset)
  moreover have "set ?es = {e. \<exists>k. entity_at (mem_rows w) k = Some e \<and> (pk = None \<or> pk = Some (fst k)) \<and> (rk = None \<or> rk = Some (snd k))}"
    using ok by (auto simp: entity_at_mem image_iff)
  ultimately show ?case using res 2(1) by (auto simp: mem_evolves_def)
next
  case (3 w data p r etag ures w')
  show ?case
  proof (cases "write_allowed (mem_rows w) (p, r) etag")
    case True
    with 3(3) have "mem_put (p, r) data w = (ures, w')"
      by (auto simp: mem_backend_def write_allowed_def split: option.splits)
    from mem_put_written [OF 3(1) True this] show ?thesis by auto
  next
    case False
    with 3(3) have "w' = w" "\<exists>x. ures = Finished (Inl x)"
      by (auto simp: mem_backend_def write_allowed_def split: option.splits if_splits)
    with 3(1) show ?thesis by (auto simp: mem_evolves_def)
  qed
next
  case (4 w p r dres w')
  then show ?case by (auto simp: mem_backend_def mem_valid_def mem_evolves_def mem_rows_def fun_eq_iff split: if_splits)
next
  case (5 w w')
  then show ?case by (simp add: mem_evolves_def)
next
  case (6 w)
  then show ?case by (auto simp: mem_evolves_def)
next
  case (7 w w' w'')
  then show ?case by (auto simp: mem_evolves_def)
next
  case (8 w w' k d t d')
  then obtain i where i: "map_of (mt_rows w) k = Some (d, i)" "map_of (mt_rows w') k = Some (d', i)"
    by (auto simp: mem_rows_some str_int_inj)
  with mem_valid_lt [OF 8(1) i(1)] 8(2) have "map_of (mt_rows w) k = Some (d', i)" unfolding mem_evolves_def by blast
  with i(1) show ?case by simp
qed

text \<open>A table whose first write takes effect although its answer is lost.\<close>

definition lossy_backend :: "mem_table table_backend" where
  "lossy_backend = mem_backend\<lparr>tb_upsert_entity := \<lambda>p r data etag M. (case tb_upsert_entity mem_backend p r data etag M of
     (res, M') \<Rightarrow> (if mt_next M = 0 then TooLate else res, M'))\<rparr>"

interpretation lossy_service: table_service lossy_backend mem_valid mem_rows mem_evolves
proof (unfold_locales, goal_cases)
  case (1 w p r res w')
  then show ?case using mem_service.get_entity [of w p r res w'] by (simp add: lossy_backend_def)
next
  case (2 w pk rk qres w')
  then show ?case using mem_service.query [of w pk rk qres w'] by (simp add: lossy_backend_def)
next
  case (3 w data p r etag ures w')
  obtain res where u: "tb_upsert_entity mem_backend p r data etag w = (res, w')" and ures: "ures = (if mt_next w = 0 then TooLate else res)"
    using 3(3) by (auto simp: lossy_backend_def split: prod.splits)
  from mem_service.upsert [OF 3(1,2) u] ures show ?case by (auto split: timed.splits sum.splits)
next
  case (4 w p r dres w')
  then show ?case using mem_service.delete [of w p r dres w'] by (simp add: lossy_backend_def)
qed (fact mem_service.evolves_valid mem_service.evolves_refl mem_service.evolves_trans mem_service.etag_identifies)+

definition demo_table :: mem_table where
  "demo_table = \<lparr>mt_rows = [], mt_next = 0\<rparr>"

definition demo_client :: table_client where
  "demo_client = \<lparr>tc_timeout = ''30'', tc_max_attempts = 5\<rparr>"

lemma demo_table_valid: "mem_valid demo_table"
  by (simp add: mem_valid_def demo_table_def)

end
