(* ===== verification/Scenario_Table.thy ===== *)
theory Scenario_Table
  imports Scenario_Store Table_Backend
begin

text \<open>
  Scenarios on Azure Table Storage: \<open>src/vestibule/scenario/stores/table_storage_store.py\<close> and the entity codec
  \<open>_entity_codec.py\<close>. Parameters (\<open>scenario_codec\<close>) are the ISO text of a timestamp and its parser, and
  pydantic's JSON text of the nested settings with its parser; what the code relies on is that a
  parser inverts its printer (\<open>codec_ok\<close>). \<open>upsert\<close> reads and writes in two calls, and what other
  processes do to the table in between is an argument (\<open>between\<close>).
\<close>

section \<open>The entity codec\<close>

datatype scen_exn = ScenarioError scenario_error | ScenarioException string

record scenario_codec =
  sk_isoformat :: "datetime \<Rightarrow> string"
  sk_fromisoformat :: "string \<Rightarrow> string + datetime"
  sk_dump_chunker :: "chunker_settings \<Rightarrow> string"
  sk_load_chunker :: "table_prop \<Rightarrow> string + chunker_settings"
  sk_dump_embedder :: "embedder_settings \<Rightarrow> string"
  sk_load_embedder :: "table_prop \<Rightarrow> string + embedder_settings"
  sk_dump_indexer :: "indexer_settings \<Rightarrow> string"
  sk_load_indexer :: "table_prop \<Rightarrow> string + indexer_settings"
  sk_validation_text :: "entity_data \<Rightarrow> string"

fun acl_value :: "acl_source \<Rightarrow> string" where
  "acl_value AclEnvelope = ''envelope''"
| "acl_value AclBlobMetadata = ''blob_metadata''"
| "acl_value AclSourceSystem = ''source_system''"

definition acl_of :: "string \<Rightarrow> acl_source option" where
  "acl_of s = (if s = ''envelope'' then Some AclEnvelope else if s = ''blob_metadata'' then Some AclBlobMetadata
     else if s = ''source_system'' then Some AclSourceSystem else None)"

definition is_enabled :: "table_entity \<Rightarrow> bool" where
  "is_enabled e = (case dict_get (te_data e) ''enabled'' of None \<Rightarrow> False | Some p \<Rightarrow> prop_truthy p)"

definition parse_datetime :: "scenario_codec \<Rightarrow> table_prop \<Rightarrow> string + datetime" where
  "parse_datetime C p = sk_fromisoformat C (prop_str p)"

definition scenario_to_entity_data :: "scenario_codec \<Rightarrow> scenario \<Rightarrow> entity_data" where
  "scenario_to_entity_data C s =
     [(''scenario_id'', PStr (sc_scenario_id s)), (''vertical'', PStr (sc_vertical s)),
      (''config_version'', PStr (sc_config_version s)), (''index_name'', PStr (sc_index_name s)),
      (''acl_source'', PStr (acl_value (sc_acl_source s))), (''default_trust_tier'', PStr (sc_default_trust_tier s)),
      (''enabled'', PBool (sc_enabled s)), (''created_at'', PStr (sk_isoformat C (sc_created_at s))),
      (''updated_at'', PStr (sk_isoformat C (sc_updated_at s))), (''chunker_json'', PStr (sk_dump_chunker C (sc_chunker s))),
      (''embedder_json'', PStr (sk_dump_embedder C (sc_embedder s))), (''indexer_json'', PStr (sk_dump_indexer C (sc_indexer s)))] @
     (case sc_index_template_id s of None \<Rightarrow> [] | Some t \<Rightarrow> [(''index_template_id'', PStr t)])"

text \<open>
  The constructor call on what was read: fields of another type than the model declares and an unknown
  \<open>acl_source\<close> are refused by pydantic, then its validators run.
\<close>

definition construct_scenario ::
    "string \<Rightarrow> table_prop \<Rightarrow> table_prop \<Rightarrow> table_prop \<Rightarrow> table_prop \<Rightarrow> chunker_settings \<Rightarrow> embedder_settings \<Rightarrow> indexer_settings \<Rightarrow>
     table_prop \<Rightarrow> table_prop \<Rightarrow> bool \<Rightarrow> datetime \<Rightarrow> datetime \<Rightarrow> table_prop option \<Rightarrow> string + scenario" where
  "construct_scenario text scenario_id vertical config_version index_name chunker embedder indexer acl tier enabled created updated template =
     (case (str_prop scenario_id, str_prop vertical, str_prop config_version, str_prop index_name, Option.bind (str_prop acl) acl_of,
            str_prop tier, (case template of None \<Rightarrow> Some None | Some p \<Rightarrow> map_option Some (str_prop p))) of
        (Some i, Some v, Some c, Some n, Some a, Some t, Some tmpl) \<Rightarrow>
          (case make_scenario \<lparr>sc_scenario_id = i, sc_vertical = v, sc_config_version = c, sc_index_name = n, sc_chunker = chunker,
               sc_embedder = embedder, sc_indexer = indexer, sc_acl_source = a, sc_default_trust_tier = t, sc_enabled = enabled,
               sc_created_at = created, sc_updated_at = updated, sc_index_template_id = tmpl\<rparr> of
             Inl _ \<Rightarrow> Inl text | Inr s \<Rightarrow> Inr s)
      | _ \<Rightarrow> Inl text)"

definition decode_scenario :: "scenario_codec \<Rightarrow> entity_data \<Rightarrow> string + scenario" where
  "decode_scenario C data =
     bind_res (data_item data ''scenario_id'') (\<lambda>scenario_id.
     bind_res (data_item data ''vertical'') (\<lambda>vertical.
     bind_res (data_item data ''config_version'') (\<lambda>config_version.
     bind_res (data_item data ''index_name'') (\<lambda>index_name.
     bind_res (bind_res (data_item data ''chunker_json'') (sk_load_chunker C)) (\<lambda>chunker.
     bind_res (bind_res (data_item data ''embedder_json'') (sk_load_embedder C)) (\<lambda>embedder.
     bind_res (bind_res (data_item data ''indexer_json'') (sk_load_indexer C)) (\<lambda>indexer.
     bind_res (data_item data ''acl_source'') (\<lambda>acl.
     bind_res (data_item data ''default_trust_tier'') (\<lambda>tier.
     bind_res (data_item data ''enabled'') (\<lambda>enabled.
     bind_res (bind_res (data_item data ''created_at'') (parse_datetime C)) (\<lambda>created.
     bind_res (bind_res (data_item data ''updated_at'') (parse_datetime C)) (\<lambda>updated.
       construct_scenario (sk_validation_text C data) scenario_id vertical config_version index_name chunker embedder indexer
         acl tier (prop_truthy enabled) created updated (dict_get data ''index_template_id'')))))))))))))"

definition entity_to_scenario :: "scenario_codec \<Rightarrow> table_entity \<Rightarrow> scenario_error + scenario" where
  "entity_to_scenario C e = (case decode_scenario C (te_data e) of
       Inl text \<Rightarrow> Inl (scenario_exn (case dict_get (te_data e) ''scenario_id'' of None \<Rightarrow> [] | Some p \<Rightarrow> prop_str p)
         (''corrupt table entity: '' @ text) SCENARIO_INVALID)
     | Inr s \<Rightarrow> Inr s)"

section \<open>The store\<close>

definition table_status_code :: "int option \<Rightarrow> string" where
  "table_status_code code = (if conflict_status code then SCENARIO_CONFLICT else SCENARIO_STORE_UNAVAILABLE)"

fun map_table_error :: "backend_exn \<Rightarrow> scen_exn" where
  "map_table_error (BackendTimeout t) = ScenarioError (scenario_exn [] t SCENARIO_STORE_UNAVAILABLE)"
| "map_table_error (HttpResponseError code t) =
     ScenarioError (scenario_exn [] t (table_status_code code))"
| "map_table_error (BackendException t) = ScenarioException t"

definition scenario_call :: "(int \<Rightarrow> nat) \<Rightarrow> table_client \<Rightarrow> ('a, 'w) backend_call \<Rightarrow> 'w \<Rightarrow> (scen_exn, 'a, 'w) outcome" where
  "scenario_call grants T fn w = map_prod (map_sum map_table_error id) id (table_call grants T fn w)"

definition decode_entities :: "scenario_codec \<Rightarrow> table_entity list \<Rightarrow> scen_exn + scenario list" where
  "decode_entities C es = map_res (\<lambda>e. map_sum ScenarioError id (entity_to_scenario C e)) es"

definition table_get ::
    "scenario_codec \<Rightarrow> (int \<Rightarrow> nat) \<Rightarrow> table_client \<Rightarrow> 'w table_backend \<Rightarrow> string \<Rightarrow> 'w \<Rightarrow> (scen_exn, scenario option, 'w) outcome" where
  "table_get C grants T B scenario_id w = (case scenario_call grants T (tb_query B None (Some scenario_id)) w of
       (Inl e, w') \<Rightarrow> (Inl e, w')
     | (Inr [], w') \<Rightarrow> (Inr None, w')
     | (Inr (m # _), w') \<Rightarrow> (map_sum ScenarioError Some (entity_to_scenario C m), w'))"

definition table_get_by_vertical ::
    "scenario_codec \<Rightarrow> (int \<Rightarrow> nat) \<Rightarrow> table_client \<Rightarrow> 'w table_backend \<Rightarrow> string \<Rightarrow> 'w \<Rightarrow> (scen_exn, scenario option, 'w) outcome" where
  "table_get_by_vertical C grants T B vertical w = (case scenario_call grants T (tb_query B (Some vertical) None) w of
       (Inl e, w') \<Rightarrow> (Inl e, w')
     | (Inr matches, w') \<Rightarrow> (map_sum id select_enabled_for_vertical (decode_entities C (filter is_enabled matches)), w'))"

definition table_list_all ::
    "scenario_codec \<Rightarrow> (int \<Rightarrow> nat) \<Rightarrow> table_client \<Rightarrow> 'w table_backend \<Rightarrow> bool \<Rightarrow> 'w \<Rightarrow> (scen_exn, scenario list, 'w) outcome" where
  "table_list_all C grants T B include_disabled w = (case scenario_call grants T (tb_query B None None) w of
       (Inl e, w') \<Rightarrow> (Inl e, w')
     | (Inr matches, w') \<Rightarrow> (map_sum id (\<lambda>ss. if include_disabled then ss else filter sc_enabled ss) (decode_entities C matches), w'))"

definition revalidate :: "scenario \<Rightarrow> scen_exn + unit" where
  "revalidate s = (case validate_cross_field_invariants s of
       Inl m \<Rightarrow> Inl (ScenarioError (scenario_exn (sc_scenario_id s) m SCENARIO_INVALID)) | Inr u \<Rightarrow> Inr u)"

definition bump_config_version :: "table_prop option \<Rightarrow> string" where
  "bump_config_version existing = (case existing of
       None \<Rightarrow> ''1''
     | Some (PStr s) \<Rightarrow> (case py_int s of None \<Rightarrow> ''1'' | Some i \<Rightarrow> str_int (i + 1))
     | Some (PInt i) \<Rightarrow> str_int (i + 1)
     | Some (PBool b) \<Rightarrow> str_int ((if b then 1 else 0) + 1))"

text \<open>The scenario that \<open>upsert\<close> writes, from the entity it has read.\<close>

definition updated_scenario :: "scenario_codec \<Rightarrow> datetime \<Rightarrow> scenario \<Rightarrow> table_entity option \<Rightarrow> scen_exn + scenario" where
  "updated_scenario C now s existing = (case existing of
       None \<Rightarrow> Inr (s\<lparr>sc_config_version := bump_config_version None, sc_updated_at := now\<rparr>)
     | Some e \<Rightarrow> (case bind_res (data_item (te_data e) ''created_at'') (parse_datetime C) of
           Inl text \<Rightarrow> Inl (ScenarioException text)
         | Inr created \<Rightarrow> Inr (s\<lparr>sc_config_version := bump_config_version (dict_get (te_data e) ''config_version''),
             sc_created_at := created, sc_updated_at := now\<rparr>)))"

definition table_upsert ::
    "scenario_codec \<Rightarrow> (int \<Rightarrow> nat) \<Rightarrow> table_client \<Rightarrow> 'w table_backend \<Rightarrow> datetime \<Rightarrow> ('w \<Rightarrow> 'w) \<Rightarrow> scenario \<Rightarrow> 'w \<Rightarrow>
     (scen_exn, scenario, 'w) outcome" where
  "table_upsert C grants T B now between s w = (case revalidate s of
       Inl e \<Rightarrow> (Inl e, w)
     | Inr _ \<Rightarrow> (case scenario_call grants T (tb_get_entity B (sc_vertical s) (sc_scenario_id s)) w of
           (Inl e, w1) \<Rightarrow> (Inl e, w1)
         | (Inr existing, w1) \<Rightarrow> (case updated_scenario C now s existing of
               Inl e \<Rightarrow> (Inl e, w1)
             | Inr updated \<Rightarrow>
                 (case scenario_call grants T (tb_upsert_entity B (sc_vertical updated) (sc_scenario_id updated)
                     (scenario_to_entity_data C updated) (map_option te_etag existing)) (between w1) of
                    (Inl e, w2) \<Rightarrow> (Inl e, w2)
                  | (Inr _, w2) \<Rightarrow> (Inr updated, w2)))))"

definition table_delete ::
    "(int \<Rightarrow> nat) \<Rightarrow> table_client \<Rightarrow> 'w table_backend \<Rightarrow> string \<Rightarrow> 'w \<Rightarrow> (scen_exn, bool, 'w) outcome" where
  "table_delete grants T B scenario_id w = (case scenario_call grants T (tb_query B None (Some scenario_id)) w of
       (Inl e, w') \<Rightarrow> (Inl e, w')
     | (Inr [], w') \<Rightarrow> (Inr False, w')
     | (Inr (m # _), w') \<Rightarrow> (case scenario_call grants T (tb_delete_entity B (te_partition_key m) (te_row_key m)) w' of
           (Inl e, w'') \<Rightarrow> (Inl e, w'')
         | (Inr _, w'') \<Rightarrow> (Inr True, w'')))"

section \<open>Lemmas\<close>

definition codec_ok :: "scenario_codec \<Rightarrow> scenario \<Rightarrow> bool" where
  "codec_ok C s \<longleftrightarrow> (\<forall>t \<in> {sc_created_at s, sc_updated_at s}. sk_fromisoformat C (sk_isoformat C t) = Inr t) \<and>
     sk_load_chunker C (PStr (sk_dump_chunker C (sc_chunker s))) = Inr (sc_chunker s) \<and>
     sk_load_embedder C (PStr (sk_dump_embedder C (sc_embedder s))) = Inr (sc_embedder s) \<and>
     sk_load_indexer C (PStr (sk_dump_indexer C (sc_indexer s))) = Inr (sc_indexer s)"

lemma acl_of_value [simp]: "acl_of (acl_value a) = Some a"
  by (cases a) (simp_all add: acl_of_def)

lemma decode_encode:
  assumes "codec_ok C s" and "scenario_ok s"
  shows "decode_scenario C (scenario_to_entity_data C s) = Inr s"
proof -
  have m: "make_scenario s = Inr s" using assms(2) by (simp add: make_scenario_Inr)
  have get: "dict_get (scenario_to_entity_data C s) ''index_template_id'' = map_option PStr (sc_index_template_id s)"
    by (simp add: scenario_to_entity_data_def dict_get_def split: option.splits)
  have "construct_scenario x (PStr (sc_scenario_id s)) (PStr (sc_vertical s)) (PStr (sc_config_version s)) (PStr (sc_index_name s))
      (sc_chunker s) (sc_embedder s) (sc_indexer s) (PStr (acl_value (sc_acl_source s))) (PStr (sc_default_trust_tier s)) (sc_enabled s)
      (sc_created_at s) (sc_updated_at s) (map_option PStr (sc_index_template_id s)) = Inr s" for x
    using m by (cases s; cases "sc_index_template_id s") (auto simp: construct_scenario_def)
  with assms(1) get show ?thesis
    by (simp add: decode_scenario_def data_item_def codec_ok_def parse_datetime_def)
      (simp add: scenario_to_entity_data_def dict_get_def)
qed

text \<open>
  What a call to \<open>upsert\<close> does, in one step: from the rows \<open>rs\<close> at one moment to \<open>rs'\<close>, writing the scenario
  that the row of this moment determines.
\<close>

definition upsert_effect :: "scenario_codec \<Rightarrow> datetime \<Rightarrow> scenario \<Rightarrow> table_rows \<Rightarrow> scenario \<Rightarrow> table_rows \<Rightarrow> bool" where
  "upsert_effect C now s rs s' rs' \<longleftrightarrow> (let k = (sc_vertical s, sc_scenario_id s) in
     updated_scenario C now s (entity_at rs k) = Inr s' \<and> 
     (\<exists>d t. map_of d = map_of (scenario_to_entity_data C s') \<and> rs' = rs(k \<mapsto> (d, t))))"

lemma plain_scenario: "plain_data (scenario_to_entity_data C s)"
  by (auto simp: plain_data_def reserved_keys_def scenario_to_entity_data_def split: option.splits)

lemma updated_scenario_key:
  "updated_scenario C now s x = Inr s' \<Longrightarrow> sc_vertical s' = sc_vertical s \<and> sc_scenario_id s' = sc_scenario_id s"
  by (auto simp: updated_scenario_def split: option.splits sum.splits)

lemma scenario_call_table: "scenario_call grants T fn w = (res, w') \<Longrightarrow>
    \<exists>r. table_call grants T fn w = (r, w') \<and> res = map_sum map_table_error id r"
  by (cases "table_call grants T fn w") (simp add: scenario_call_def)

context table_service
begin

lemma upsert_writes:
  assumes v: "valid w1" "evolves w1 w2" and ent: "existing = entity_at (rows w1) k" and k: "k = (sc_vertical s, sc_scenario_id s)"
    and up: "updated_scenario C now s existing = Inr s'"
    and wr: "written (rows w2) k (scenario_to_entity_data C s') (map_option te_etag existing) rs"
  shows "upsert_effect C now s (rows w2) s' rs"
proof -
  have "entity_at (rows w2) k = existing"
  proof (cases existing)
    case None
    with wr show ?thesis by (auto simp: written_def write_allowed_def entity_at_def)
  next
    case (Some e)
    with wr have "written (rows w2) k (scenario_to_entity_data C s') (Some (te_etag e)) rs" by simp
    from cas_unchanged [OF v ent [symmetric, unfolded Some] this] Some show ?thesis by simp
  qed
  with up wr k show ?thesis by (auto simp: upsert_effect_def written_def Let_def)
qed

lemma table_upsert_linear:
  assumes v: "valid w" and env: "\<And>v. valid v \<Longrightarrow> evolves v (between v)"
    and up: "table_upsert C grants T B now between s w = (res, w')"
  shows "\<exists>wb. evolves w wb \<and> (case res of Inr s' \<Rightarrow> upsert_effect C now s (rows wb) s' (rows w')
    | Inl _ \<Rightarrow> rows w' = rows wb \<or> (\<exists>s'. upsert_effect C now s (rows wb) s' (rows w')))"
proof (cases "revalidate s")
  case (Inl e)
  with up evolves_refl [OF v] show ?thesis by (intro exI [of _ w]) (auto simp: table_upsert_def)
next
  case (Inr u)
  let ?k = "(sc_vertical s, sc_scenario_id s)"
  obtain r1 w1 where c1: "scenario_call grants T (tb_get_entity B (fst ?k) (snd ?k)) w = (r1, w1)" by fastforce
  then obtain t1 where t1: "table_call grants T (tb_get_entity B (fst ?k) (snd ?k)) w = (t1, w1)" "r1 = map_sum map_table_error id t1"
    using scenario_call_table by metis
  note g = get_entity_call [OF v t1(1)]
  then have v1: "valid w1" and e1: "evolves w w1" "rows w1 = rows w" by auto
  show ?thesis
  proof (cases "\<exists>existing s'. r1 = Inr existing \<and> updated_scenario C now s existing = Inr s'")
    case False
    have "w' = w1 \<and> (\<exists>x. res = Inl x)"
    proof (cases r1)
      case (Inl x)
      with up c1 Inr show ?thesis by (auto simp: table_upsert_def)
    next
      case (Inr existing)
      with False obtain x where "updated_scenario C now s existing = Inl x" by (metis sum.exhaust)
      with up c1 Inr \<open>revalidate s = Inr u\<close> show ?thesis by (auto simp: table_upsert_def) metis
    qed
    with e1 show ?thesis by (intro exI [of _ w1]) auto
  next
    case True
    then obtain existing s' where r1: "r1 = Inr existing" and s': "updated_scenario C now s existing = Inr s'" by blast
    have ent: "existing = entity_at (rows w1) ?k" using g t1(2) r1 e1(2) by (cases t1) auto
    note key = updated_scenario_key [OF s']
    obtain r2 where c2: "scenario_call grants T (tb_upsert_entity B (fst ?k) (snd ?k) (scenario_to_entity_data C s')
        (map_option te_etag existing)) (between w1) = (r2, w')" and res: "res = map_sum id (\<lambda>_. s') r2"
      using up c1 Inr r1 s' key by (auto simp: table_upsert_def split: prod.splits sum.splits)
    then obtain t2 where t2: "table_call grants T (tb_upsert_entity B (fst ?k) (snd ?k) (scenario_to_entity_data C s')
        (map_option te_etag existing)) (between w1) = (t2, w')" "r2 = map_sum map_table_error id t2"
      using scenario_call_table by metis
    note ev = env [OF v1]
    note u = upsert_call [OF evolves_valid [OF v1 ev] plain_scenario t2(1)]
    have eff: "upsert_effect C now s (rows (between w1)) s' (rows w')"
      if "written (rows (between w1)) ?k (scenario_to_entity_data C s') (map_option te_etag existing) (rows w')"
      by (rule upsert_writes [OF v1 ev ent refl s' that])
    have "evolves w (between w1)" by (rule evolves_trans [OF e1(1) ev])
    with u eff res t2(2) show ?thesis by (intro exI [of _ "between w1"]) (cases t2; auto)
  qed
qed

end

section \<open>Properties\<close>

text \<open>
  Storing a scenario loses nothing: the entity written for a valid scenario is read back as exactly this
  scenario, template reference or not, provided the JSON and timestamp parsers invert their printers.
\<close>

theorem scenario_entity_roundtrip:
  assumes "codec_ok C s" and "scenario_ok s"
  shows "entity_to_scenario C \<lparr>te_partition_key = sc_vertical s, te_row_key = sc_scenario_id s,
    te_data = scenario_to_entity_data C s, te_etag = t\<rparr> = Inr s"
  using decode_encode [OF assms] by (simp add: entity_to_scenario_def)

definition demo_codec :: scenario_codec where
  "demo_codec = \<lparr>sk_isoformat = str_int, sk_fromisoformat = (\<lambda>x. case py_int x of None \<Rightarrow> Inl x | Some i \<Rightarrow> Inr i),
     sk_dump_chunker = \<lambda>_. ''c'', sk_load_chunker = \<lambda>_. Inr (sc_chunker demo_scenario),
     sk_dump_embedder = \<lambda>_. ''e'', sk_load_embedder = \<lambda>_. Inr (sc_embedder demo_scenario),
     sk_dump_indexer = \<lambda>_. ''i'', sk_load_indexer = \<lambda>_. Inr (sc_indexer demo_scenario), sk_validation_text = \<lambda>_. []\<rparr>"

theorem scenario_entity_roundtrip_witness:
  "entity_to_scenario demo_codec \<lparr>te_partition_key = sc_vertical demo_scenario, te_row_key = sc_scenario_id demo_scenario,
    te_data = scenario_to_entity_data demo_codec demo_scenario, te_etag = ''7''\<rparr> = Inr demo_scenario"
proof (rule scenario_entity_roundtrip [OF _ demo_scenario_ok])
  have "py_int (str_int 0) = Some 0" by code_simp
  then show "codec_ok demo_codec demo_scenario" by (simp add: codec_ok_def demo_codec_def) (simp add: demo_scenario_def)
qed



end
