(* ===== verification/Registry_Table.thy ===== *)
theory Registry_Table
  imports Index_Registry Table_Backend
begin

text \<open>
  The index registry on Azure Table Storage: \<open>src/vestibule/provisioning/stores/table_storage_registry.py\<close> and the
  entity codec \<open>_entity_codec.py\<close>. Parameters (\<open>registry_codec\<close>) are the ISO text of a timestamp with its parser and
  pydantic's JSON text of a template with its parser. Every method that reads and then writes has an
  argument \<open>between\<close>: what other processes do to the table in between.

  The rows of the table are an implementation of the map from index names to entries that
  \<open>Index_Registry\<close> specifies, as long as every index name belongs to one vertical (\<open>owner\<close>): the row of an index
  lies in the partition of its vertical. Under this assumption every method that returns did what the
  specification says, in one step, at some moment during the call (\<open>linearized\<close>).
\<close>

section \<open>The entity codec\<close>

record registry_codec =
  rk_isoformat :: "datetime \<Rightarrow> string"
  rk_fromisoformat :: "string \<Rightarrow> string + datetime"
  rk_dump_template :: "index_template \<Rightarrow> string"
  rk_load_template :: "string \<Rightarrow> string + index_template"
  rk_validation_text :: "entity_data \<Rightarrow> string"

fun status_value :: "index_status \<Rightarrow> string" where
  "status_value Provisioning = ''provisioning''"
| "status_value Ready = ''ready''"
| "status_value Failed = ''failed''"
| "status_value Retired = ''retired''"

definition status_of :: "string \<Rightarrow> index_status option" where
  "status_of s = (if s = ''provisioning'' then Some Provisioning else if s = ''ready'' then Some Ready
     else if s = ''failed'' then Some Failed else if s = ''retired'' then Some Retired else None)"

definition set_optional :: "string \<Rightarrow> table_prop option \<Rightarrow> entity_data \<Rightarrow> entity_data" where
  "set_optional key v data = (case v of None \<Rightarrow> data | Some p \<Rightarrow> dict_set key p data)"

definition entry_to_entity_data :: "registry_codec \<Rightarrow> registry_entry \<Rightarrow> entity_data" where
  "entry_to_entity_data C e =
     set_optional ''resolved_template_json'' (map_option (PStr \<circ> rk_dump_template C) (re_resolved_template e))
     (set_optional ''last_error_message'' (map_option PStr (re_last_error_message e))
     (set_optional ''claimed_at'' (map_option (PStr \<circ> rk_isoformat C) (re_claimed_at e))
     (set_optional ''claim_token'' (map_option PStr (re_claim_token e))
     (set_optional ''document_count'' (map_option PInt (re_document_count e))
     (set_optional ''last_verified_at'' (map_option (PStr \<circ> rk_isoformat C) (re_last_verified_at e))
       [(''index_name'', PStr (re_index_name e)), (''vertical'', PStr (re_vertical e)), (''scenario_id'', PStr (re_scenario_id e)),
        (''template_id'', PStr (re_template_id e)), (''template_version'', PStr (re_template_version e)),
        (''dimensions'', PInt (re_dimensions e)), (''metric'', PStr (re_metric e)), (''embedding_model'', PStr (re_embedding_model e)),
        (''status'', PStr (status_value (re_status e))), (''created_at'', PStr (rk_isoformat C (re_created_at e)))])))))"

text \<open>\<open>int(value)\<close> of a property.\<close>

fun prop_int :: "table_prop \<Rightarrow> string + int" where
  "prop_int (PStr s) = (case py_int s of None \<Rightarrow> Inl (''invalid literal for int() with base 10: '' @ py_repr s) | Some i \<Rightarrow> Inr i)"
| "prop_int (PInt i) = Inr i"
| "prop_int (PBool b) = Inr (if b then 1 else 0)"

definition parse_entry_datetime :: "registry_codec \<Rightarrow> table_prop \<Rightarrow> string + datetime" where
  "parse_entry_datetime C p = rk_fromisoformat C (prop_str p)"

definition parse_optional :: "(table_prop \<Rightarrow> string + 'a) \<Rightarrow> table_prop option \<Rightarrow> string + 'a option" where
  "parse_optional f v = (case v of None \<Rightarrow> Inr None | Some p \<Rightarrow> map_sum id Some (f p))"

text \<open>
  The constructor call on what was read: pydantic refuses a field of another type than the model declares,
  and a status that is not one of the four.
\<close>

definition opt_str_prop :: "table_prop option \<Rightarrow> string option option" where
  "opt_str_prop v = (case v of None \<Rightarrow> Some None | Some p \<Rightarrow> map_option Some (str_prop p))"

definition construct_entry ::
    "string \<Rightarrow> table_prop list \<Rightarrow> int \<Rightarrow> table_prop \<Rightarrow> datetime \<Rightarrow> datetime option \<Rightarrow> int option \<Rightarrow> table_prop option \<Rightarrow> datetime option \<Rightarrow>
     table_prop option \<Rightarrow> index_template option \<Rightarrow> string + registry_entry" where
  "construct_entry text strs dimensions status created verified documents token claimed error template =
     (case (map str_prop strs, Option.bind (str_prop status) status_of, opt_str_prop token, opt_str_prop error) of
        ([Some n, Some v, Some i, Some ti, Some tv, Some me, Some em], Some st, Some tok, Some err) \<Rightarrow>
          Inr \<lparr>re_index_name = n, re_vertical = v, re_scenario_id = i, re_template_id = ti, re_template_version = tv,
            re_dimensions = dimensions, re_metric = me, re_embedding_model = em, re_status = st, re_created_at = created,
            re_last_verified_at = verified, re_document_count = documents, re_claim_token = tok, re_claimed_at = claimed,
            re_last_error_message = err, re_resolved_template = template\<rparr>
      | _ \<Rightarrow> Inl text)"

definition decode_entry :: "registry_codec \<Rightarrow> entity_data \<Rightarrow> string + registry_entry" where
  "decode_entry C data =
     bind_res (map_res (data_item data) [''index_name'', ''vertical'', ''scenario_id'', ''template_id'', ''template_version'']) (\<lambda>texts.
     bind_res (bind_res (data_item data ''dimensions'') prop_int) (\<lambda>dimensions.
     bind_res (map_res (data_item data) [''metric'', ''embedding_model'']) (\<lambda>texts'.
     bind_res (data_item data ''status'') (\<lambda>status.
     bind_res (bind_res (data_item data ''created_at'') (parse_entry_datetime C)) (\<lambda>created.
     bind_res (parse_optional (parse_entry_datetime C) (dict_get data ''last_verified_at'')) (\<lambda>verified.
     bind_res (parse_optional prop_int (dict_get data ''document_count'')) (\<lambda>documents.
     bind_res (parse_optional (parse_entry_datetime C) (dict_get data ''claimed_at'')) (\<lambda>claimed.
     bind_res (parse_optional (rk_load_template C \<circ> prop_str) (dict_get data ''resolved_template_json'')) (\<lambda>template.
       construct_entry (rk_validation_text C data) (texts @ texts') dimensions status created verified documents
         (dict_get data ''claim_token'') claimed (dict_get data ''last_error_message'') template)))))))))"

definition entity_to_entry :: "registry_codec \<Rightarrow> table_entity \<Rightarrow> prov_exn + registry_entry" where
  "entity_to_entry C m = (case decode_entry C (te_data m) of
       Inl text \<Rightarrow> Inl (ProvisioningError (provisioning_exn
         (case dict_get (te_data m) ''index_name'' of None \<Rightarrow> [] | Some p \<Rightarrow> prop_str p)
         (''corrupt table entity: '' @ text) INDEX_REGISTRY_UNAVAILABLE))
     | Inr e \<Rightarrow> Inr e)"

section \<open>The registry\<close>

definition registry_status_code :: "int option \<Rightarrow> string" where
  "registry_status_code code = (if conflict_status code then INDEX_PROVISION_CONFLICT else INDEX_REGISTRY_UNAVAILABLE)"

fun map_registry_error :: "backend_exn \<Rightarrow> prov_exn" where
  "map_registry_error (BackendTimeout t) = ProvisioningError (provisioning_exn [] t INDEX_REGISTRY_UNAVAILABLE)"
| "map_registry_error (HttpResponseError code t) = ProvisioningError (provisioning_exn [] t (registry_status_code code))"
| "map_registry_error (BackendException t) = ProvException t"

definition registry_call :: "(int \<Rightarrow> nat) \<Rightarrow> table_client \<Rightarrow> ('a, 'w) backend_call \<Rightarrow> 'w \<Rightarrow> (prov_exn, 'a, 'w) outcome" where
  "registry_call grants T fn w = map_prod (map_sum map_registry_error id) id (table_call grants T fn w)"

definition require_record ::
    "(int \<Rightarrow> nat) \<Rightarrow> table_client \<Rightarrow> 'w table_backend \<Rightarrow> string \<Rightarrow> 'w \<Rightarrow> (prov_exn, table_entity, 'w) outcome" where
  "require_record grants T B index_name w = (case registry_call grants T (tb_query B None (Some index_name)) w of
       (Inl e, w') \<Rightarrow> (Inl e, w')
     | (Inr [], w') \<Rightarrow> (Inl (registry_conflict index_name ''no registry entry exists for index_name''), w')
     | (Inr (m # _), w') \<Rightarrow> (Inr m, w'))"

definition registry_table_get ::
    "registry_codec \<Rightarrow> (int \<Rightarrow> nat) \<Rightarrow> table_client \<Rightarrow> 'w table_backend \<Rightarrow> string \<Rightarrow> 'w \<Rightarrow>
     (prov_exn, registry_entry option, 'w) outcome" where
  "registry_table_get C grants T B index_name w = (case registry_call grants T (tb_query B None (Some index_name)) w of
       (Inl e, w') \<Rightarrow> (Inl e, w')
     | (Inr [], w') \<Rightarrow> (Inr None, w')
     | (Inr (m # _), w') \<Rightarrow> (map_sum id Some (entity_to_entry C m), w'))"

definition registry_table_list ::
    "registry_codec \<Rightarrow> (int \<Rightarrow> nat) \<Rightarrow> table_client \<Rightarrow> 'w table_backend \<Rightarrow> string \<Rightarrow> 'w \<Rightarrow>
     (prov_exn, registry_entry list, 'w) outcome" where
  "registry_table_list C grants T B vertical w = (case registry_call grants T (tb_query B (Some vertical) None) w of
       (Inl e, w') \<Rightarrow> (Inl e, w')
     | (Inr matches, w') \<Rightarrow> (map_res (entity_to_entry C) matches, w'))"

text \<open>The write that ends every method: the value on success, the exception of the call otherwise.\<close>

definition write_entry ::
    "registry_codec \<Rightarrow> (int \<Rightarrow> nat) \<Rightarrow> table_client \<Rightarrow> 'w table_backend \<Rightarrow> string \<Rightarrow> string \<Rightarrow> registry_entry \<Rightarrow> string option \<Rightarrow> 'w \<Rightarrow>
     (prov_exn, registry_entry, 'w) outcome" where
  "write_entry C grants T B vertical index_name entry etag w =
     map_prod (map_sum id (\<lambda>_. entry)) id
       (registry_call grants T (tb_upsert_entity B vertical index_name (entry_to_entity_data C entry) etag) w)"

definition registry_table_register ::
    "registry_codec \<Rightarrow> (int \<Rightarrow> nat) \<Rightarrow> table_client \<Rightarrow> 'w table_backend \<Rightarrow> ('w \<Rightarrow> 'w) \<Rightarrow> registry_entry \<Rightarrow> 'w \<Rightarrow>
     (prov_exn, registry_entry, 'w) outcome" where
  "registry_table_register C grants T B between entry w =
     (case write_entry C grants T B (re_vertical entry) (re_index_name entry) entry None w of
        (Inr r, w1) \<Rightarrow> (Inr r, w1)
      | (Inl (ProvException t), w1) \<Rightarrow> (Inl (ProvException t), w1)
      | (Inl (ProvisioningError x), w1) \<Rightarrow>
          if pe_error_code x \<noteq> INDEX_PROVISION_CONFLICT then (Inl (ProvisioningError x), w1)
          else (case registry_call grants T (tb_get_entity B (re_vertical entry) (re_index_name entry)) (between w1) of
              (Inl e, w2) \<Rightarrow> (Inl e, w2)
            | (Inr None, w2) \<Rightarrow> (Inl (ProvisioningError x), w2)
            | (Inr (Some m), w2) \<Rightarrow> (entity_to_entry C m, w2)))"

definition stale_snapshot :: "string \<Rightarrow> prov_exn" where
  "stale_snapshot index_name =
     registry_conflict index_name ''reclaim observed a stale snapshot; the stored entry has since changed''"

definition registry_table_reclaim ::
    "registry_codec \<Rightarrow> (int \<Rightarrow> nat) \<Rightarrow> table_client \<Rightarrow> 'w table_backend \<Rightarrow> ('w \<Rightarrow> 'w) \<Rightarrow> string \<Rightarrow> registry_entry \<Rightarrow> registry_entry \<Rightarrow> 'w \<Rightarrow>
     (prov_exn, registry_entry, 'w) outcome" where
  "registry_table_reclaim C grants T B between index_name observed new_entry w =
     (case registry_call grants T (tb_get_entity B (re_vertical observed) index_name) w of
        (Inl e, w1) \<Rightarrow> (Inl e, w1)
      | (Inr None, w1) \<Rightarrow> (Inl (stale_snapshot index_name), w1)
      | (Inr (Some m), w1) \<Rightarrow> (case entity_to_entry C m of
            Inl e \<Rightarrow> (Inl e, w1)
          | Inr current \<Rightarrow>
              if current \<noteq> observed then (Inl (stale_snapshot index_name), w1)
              else write_entry C grants T B (re_vertical new_entry) index_name new_entry (Some (te_etag m)) (between w1)))"

text \<open>
  The four updates differ in the check of the claim token and in the value written; the reads, the check and
  the conditional write come in the same order in all of them.
\<close>

definition update_record ::
    "registry_codec \<Rightarrow> (int \<Rightarrow> nat) \<Rightarrow> table_client \<Rightarrow> 'w table_backend \<Rightarrow> ('w \<Rightarrow> 'w) \<Rightarrow> string \<Rightarrow> (registry_entry \<Rightarrow> prov_exn + unit) \<Rightarrow>
     (registry_entry \<Rightarrow> registry_entry) \<Rightarrow> 'w \<Rightarrow> (prov_exn, registry_entry, 'w) outcome" where
  "update_record C grants T B between index_name check update w = (case require_record grants T B index_name w of
       (Inl e, w1) \<Rightarrow> (Inl e, w1)
     | (Inr m, w1) \<Rightarrow> (case entity_to_entry C m of
           Inl e \<Rightarrow> (Inl e, w1)
         | Inr entry \<Rightarrow> (case check entry of
               Inl e \<Rightarrow> (Inl e, w1)
             | Inr _ \<Rightarrow> write_entry C grants T B (re_vertical entry) index_name (update entry) (Some (te_etag m)) (between w1))))"

definition table_touch_verified where
  "table_touch_verified C grants T B between now index_name =
     update_record C grants T B between index_name (\<lambda>_. Inr ()) (verified_entry now)"

definition table_mark_ready where
  "table_mark_ready C grants T B between now index_name expected_claim_token =
     update_record C grants T B between index_name (\<lambda>entry. check_claim_token entry expected_claim_token) (ready_entry now)"

definition table_mark_failed where
  "table_mark_failed C grants T B between index_name reason expected_claim_token =
     update_record C grants T B between index_name (\<lambda>entry. check_claim_token entry expected_claim_token) (failed_entry reason)"

definition table_mark_retired where
  "table_mark_retired C grants T B between index_name =
     update_record C grants T B between index_name (\<lambda>_. Inr ()) retired_entry"


section \<open>The rows as a registry\<close>

text \<open>
  What is asked of the parsers: they invert the printers, and a template that was read is one of those
  that can be written (\<open>TS\<close>, e.g. the valid templates).
\<close>

definition registry_codec_ok :: "registry_codec \<Rightarrow> index_template set \<Rightarrow> bool" where
  "registry_codec_ok C TS \<longleftrightarrow> (\<forall>t. rk_fromisoformat C (rk_isoformat C t) = Inr t) \<and>
     (\<forall>t \<in> TS. rk_load_template C (rk_dump_template C t) = Inr t) \<and> (\<forall>x t. rk_load_template C x = Inr t \<longrightarrow> t \<in> TS)"

definition storable :: "index_template set \<Rightarrow> registry_entry \<Rightarrow> bool" where
  "storable TS e \<longleftrightarrow> set_option (re_resolved_template e) \<subseteq> TS"

definition rows_ok :: "(string \<Rightarrow> string) \<Rightarrow> registry_codec \<Rightarrow> table_rows \<Rightarrow> bool" where
  "rows_ok owner C rs \<longleftrightarrow> (\<forall>v n d t. rs (v, n) = Some (d, t) \<longrightarrow> v = owner n \<and>
     (\<exists>e. decode_entry C d = Inr e \<and> re_vertical e = v \<and> re_index_name e = n))"

definition entries :: "(string \<Rightarrow> string) \<Rightarrow> registry_codec \<Rightarrow> table_rows \<Rightarrow> registry_map" where
  "entries owner C rs n = (case rs (owner n, n) of None \<Rightarrow> None
     | Some (d, _) \<Rightarrow> (case decode_entry C d of Inl _ \<Rightarrow> None | Inr e \<Rightarrow> Some e))"

lemma status_of_value [simp]: "status_of (status_value st) = Some st"
  by (cases st) (simp_all add: status_of_def)

lemma map_of_set_optional [simp]:
  "map_of (set_optional k v data) j = (if j = k \<and> v \<noteq> None then v else map_of data j)"
  by (auto simp: set_optional_def split: option.splits)

lemma parse_optional_map [simp]: "(\<And>x. f (g x) = Inr x) \<Longrightarrow> parse_optional f (map_option g v) = Inr v"
  by (cases v) (simp_all add: parse_optional_def)

lemma opt_str_prop_map [simp]: "opt_str_prop (map_option PStr v) = Some v"
  by (cases v) (simp_all add: opt_str_prop_def)

lemma entry_gets:
  "map_of (entry_to_entity_data C e) ''index_name'' = Some (PStr (re_index_name e))"
  "map_of (entry_to_entity_data C e) ''vertical'' = Some (PStr (re_vertical e))"
  "map_of (entry_to_entity_data C e) ''scenario_id'' = Some (PStr (re_scenario_id e))"
  "map_of (entry_to_entity_data C e) ''template_id'' = Some (PStr (re_template_id e))"
  "map_of (entry_to_entity_data C e) ''template_version'' = Some (PStr (re_template_version e))"
  "map_of (entry_to_entity_data C e) ''dimensions'' = Some (PInt (re_dimensions e))"
  "map_of (entry_to_entity_data C e) ''metric'' = Some (PStr (re_metric e))"
  "map_of (entry_to_entity_data C e) ''embedding_model'' = Some (PStr (re_embedding_model e))"
  "map_of (entry_to_entity_data C e) ''status'' = Some (PStr (status_value (re_status e)))"
  "map_of (entry_to_entity_data C e) ''created_at'' = Some (PStr (rk_isoformat C (re_created_at e)))"
  "map_of (entry_to_entity_data C e) ''last_verified_at'' = map_option (PStr \<circ> rk_isoformat C) (re_last_verified_at e)"
  "map_of (entry_to_entity_data C e) ''document_count'' = map_option PInt (re_document_count e)"
  "map_of (entry_to_entity_data C e) ''claim_token'' = map_option PStr (re_claim_token e)"
  "map_of (entry_to_entity_data C e) ''claimed_at'' = map_option (PStr \<circ> rk_isoformat C) (re_claimed_at e)"
  "map_of (entry_to_entity_data C e) ''last_error_message'' = map_option PStr (re_last_error_message e)"
  "map_of (entry_to_entity_data C e) ''resolved_template_json'' = map_option (PStr \<circ> rk_dump_template C) (re_resolved_template e)"
  unfolding entry_to_entity_data_def by simp_all

lemma decode_stored_entry:
  assumes "registry_codec_ok C TS" and "storable TS e" and d: "map_of d = map_of (entry_to_entity_data C e)"
  shows "decode_entry C d = Inr e"
proof -
  have iso: "rk_fromisoformat C (rk_isoformat C t) = Inr t" for t using assms(1) by (simp add: registry_codec_ok_def)
  have tmpl: "parse_optional (rk_load_template C \<circ> prop_str) (map_option (PStr \<circ> rk_dump_template C) (re_resolved_template e))
      = Inr (re_resolved_template e)"
    using assms by (cases "re_resolved_template e") (auto simp: parse_optional_def registry_codec_ok_def storable_def)
  show ?thesis
    by (simp add: decode_entry_def data_item_def d entry_gets parse_entry_datetime_def iso tmpl construct_entry_def)
qed

lemmas decode_encode_entry = decode_stored_entry [OF _ _ refl]

lemma plain_set_optional: "plain_data data \<Longrightarrow> k \<notin> set reserved_keys \<Longrightarrow> plain_data (set_optional k v data)"
  using keys_dict_set [of k _ data] by (cases v) (simp_all add: set_optional_def plain_data_def dict_ok_set)

lemma plain_entry: "plain_data (entry_to_entity_data C e)"
  unfolding entry_to_entity_data_def by (intro plain_set_optional) (simp_all add: plain_data_def reserved_keys_def)

lemma bind_res_Inr_iff: "bind_res m f = Inr y \<longleftrightarrow> (\<exists>x. m = Inr x \<and> f x = Inr y)"
  by (cases m) auto

lemma parse_optional_Inr: "parse_optional f v = Inr x \<Longrightarrow> x = Some y \<Longrightarrow> \<exists>p. v = Some p \<and> f p = Inr y"
  by (cases v) (auto simp: parse_optional_def map_sum_def split: sum.splits)

lemma construct_entry_template: "construct_entry x ss d st cr ve doc tok cl er t = Inr e \<Longrightarrow> re_resolved_template e = t"
  by (auto simp: construct_entry_def split: option.splits list.splits)

lemma decoded_storable:
  assumes "registry_codec_ok C TS" and "decode_entry C d = Inr e"
  shows "storable TS e"
proof -
  from assms(2) obtain t where t: "parse_optional (rk_load_template C \<circ> prop_str) (dict_get d ''resolved_template_json'') = Inr t"
      and "re_resolved_template e = t"
    unfolding decode_entry_def bind_res_Inr_iff by (blast dest: construct_entry_template)
  with parse_optional_Inr [OF t] assms(1) show ?thesis
    by (cases t) (auto simp: storable_def registry_codec_ok_def)
qed

lemma entry_updates_storable [simp]:
  "storable TS (verified_entry now e) = storable TS e" "storable TS (ready_entry now e)" "storable TS (failed_entry r e)"
  "storable TS (retired_entry e) = storable TS e"
  by (simp_all add: storable_def verified_entry_def ready_entry_def failed_entry_def retired_entry_def)

definition same_key :: "registry_entry \<Rightarrow> registry_entry \<Rightarrow> bool" where
  "same_key e e' \<longleftrightarrow> re_vertical e' = re_vertical e \<and> re_index_name e' = re_index_name e"

lemma entry_updates_key [simp]:
  "same_key e (verified_entry now e)" "same_key e (ready_entry now e)" "same_key e (failed_entry r e)" "same_key e (retired_entry e)"
  by (simp_all add: same_key_def verified_entry_def ready_entry_def failed_entry_def retired_entry_def)

lemma entries_Some:
  "rows_ok owner C rs \<Longrightarrow> entries owner C rs n = Some e \<longleftrightarrow> (\<exists>d t. rs (owner n, n) = Some (d, t) \<and> decode_entry C d = Inr e)"
  by (auto simp: entries_def split: option.splits sum.splits)

lemma entries_None: "rows_ok owner C rs \<Longrightarrow> entries owner C rs n = None \<longleftrightarrow> rs (owner n, n) = None"
  by (fastforce simp: entries_def rows_ok_def split: option.splits sum.splits)

lemma entries_key:
  "rows_ok owner C rs \<Longrightarrow> entries owner C rs n = Some e \<Longrightarrow> re_vertical e = owner n \<and> re_index_name e = n"
  unfolding rows_ok_def entries_def by (force split: option.splits sum.splits)

lemma written_entries:
  assumes "registry_codec_ok C TS" and "storable TS e" and "re_vertical e = owner n" and "re_index_name e = n"
    and "rows_ok owner C rs" and "written rs (owner n, n) (entry_to_entity_data C e) etag rs'"
  shows "rows_ok owner C rs' \<and> entries owner C rs' = (entries owner C rs)(n \<mapsto> e)"
proof -
  obtain d0 t where rs': "rs' = rs((owner n, n) \<mapsto> (d0, t))" and d0: "map_of d0 = map_of (entry_to_entity_data C e)"
    using assms(6) by (auto simp: written_def)
  note d = decode_stored_entry [OF assms(1,2) d0]
  have "rows_ok owner C rs'" using assms(3-5) d unfolding rs' rows_ok_def by auto
  moreover have "entries owner C rs' = (entries owner C rs)(n \<mapsto> e)" by (auto simp: fun_eq_iff entries_def rs' d)
  ultimately show ?thesis ..
qed

text \<open>A call does, at one moment while it runs, what the specification says (or raises, with or without its effect).\<close>

definition linearized ::
    "('w \<Rightarrow> 'w \<Rightarrow> bool) \<Rightarrow> ('w \<Rightarrow> registry_map) \<Rightarrow> (registry_map \<Rightarrow> (registry_entry \<times> registry_map) option) \<Rightarrow> 'w \<Rightarrow>
     (prov_exn, registry_entry, 'w) outcome \<Rightarrow> bool" where
  "linearized evolves contents spec w out \<longleftrightarrow> (\<exists>wb. evolves w wb \<and> refines_call contents spec wb out)"

lemma linearized_raise: "evolves w w' \<Longrightarrow> linearized evolves contents spec w (Inl x, w')"
  unfolding linearized_def refines_call_def by auto

lemma registry_call_table: "registry_call grants T fn w = (res, w') \<Longrightarrow>
    \<exists>r. table_call grants T fn w = (r, w') \<and> res = map_sum map_registry_error id r"
  by (cases "table_call grants T fn w") (simp add: registry_call_def)

text \<open>What other clients of the registry may do to the table: anything that keeps its rows well formed.\<close>

definition interference where
  "interference owner C valid rows evolves between \<longleftrightarrow>
     (\<forall>v. valid v \<and> rows_ok owner C (rows v) \<longrightarrow> evolves v (between v) \<and> rows_ok owner C (rows (between v)))"

context table_service
begin

lemma registry_get_entity:
  assumes "valid w" and "registry_call grants T (tb_get_entity B p r) w = (res, w')"
  shows "valid w' \<and> rows w' = rows w \<and> evolves w w' \<and> (\<forall>e. res = Inr e \<longrightarrow> e = entity_at (rows w) (p, r))"
proof -
  from registry_call_table [OF assms(2)] obtain t where t: "table_call grants T (tb_get_entity B p r) w = (t, w')"
    "res = map_sum map_registry_error id t" by blast
  from get_entity_call [OF assms(1) t(1)] t(2) show ?thesis by (cases t) auto
qed

lemma registry_query:
  assumes "valid w" and "registry_call grants T (tb_query B pk rk) w = (res, w')"
  shows "valid w' \<and> rows w' = rows w \<and> evolves w w' \<and>
    (\<forall>es. res = Inr es \<longrightarrow> distinct es \<and> set es = {e. \<exists>k. entity_at (rows w) k = Some e \<and>
       (pk = None \<or> pk = Some (fst k)) \<and> (rk = None \<or> rk = Some (snd k))})"
proof -
  from registry_call_table [OF assms(2)] obtain t where t: "table_call grants T (tb_query B pk rk) w = (t, w')"
    "res = map_sum map_registry_error id t" by blast
  from query_call [OF assms(1) t(1)] t(2) show ?thesis by (cases t) auto
qed

lemma write_entry_call:
  assumes "valid w" and "write_entry C grants T B v n e etag w = (res, w')"
  shows "valid w' \<and> evolves w w' \<and> (case res of Inr r \<Rightarrow> r = e \<and> written (rows w) (v, n) (entry_to_entity_data C e) etag (rows w')
    | Inl _ \<Rightarrow> rows w' = rows w \<or> written (rows w) (v, n) (entry_to_entity_data C e) etag (rows w'))"
proof -
  let ?fn = "tb_upsert_entity B v n (entry_to_entity_data C e) etag"
  obtain q where q: "registry_call grants T ?fn w = (q, w')" "res = map_sum id (\<lambda>_. e) q"
    using assms(2) by (cases "registry_call grants T ?fn w") (auto simp: write_entry_def)
  from registry_call_table [OF q(1)] obtain t where t: "table_call grants T ?fn w = (t, w')" "q = map_sum map_registry_error id t" by blast
  from upsert_call [OF assms(1) plain_entry t(1)] t(2) q(2) show ?thesis by (cases t) auto
qed

lemma require_record_call:
  assumes "valid w" and "rows_ok owner C (rows w)" and "require_record grants T B n w = (res, w')"
  shows "valid w' \<and> rows w' = rows w \<and> evolves w w' \<and> (\<forall>m. res = Inr m \<longrightarrow> entity_at (rows w) (owner n, n) = Some m)"
proof -
  obtain q where q: "registry_call grants T (tb_query B None (Some n)) w = (q, w')"
    using assms(3) by (auto simp: require_record_def split: prod.splits sum.splits list.splits)
  note r = registry_query [OF assms(1) q]
  have "entity_at (rows w) (owner n, n) = Some m" if "res = Inr m" for m
  proof -
    from that assms(3) q obtain ms where "q = Inr (m # ms)" by (auto simp: require_record_def split: sum.splits list.splits)
    with r have "\<exists>k. entity_at (rows w) k = Some m \<and> snd k = n" by auto
    then obtain v where "entity_at (rows w) (v, n) = Some m" by auto
    moreover from this assms(2) have "v = owner n" by (cases "rows w (v, n)") (auto simp: entity_at_def rows_ok_def)
    ultimately show ?thesis by simp
  qed
  with r show ?thesis by blast
qed

lemma conditional_write:
  assumes ok: "registry_codec_ok C TS" "storable TS e'" "re_vertical e' = owner n" "re_index_name e' = n"
    and w: "valid w1" "evolves w1 w2" "rows_ok owner C (rows w2)"
    and read: "entity_at (rows w1) (owner n, n) = Some m" "decode_entry C (te_data m) = Inr e"
    and spec: "\<And>f. f n = Some e \<Longrightarrow> spec f = Some (e', f(n \<mapsto> e'))"
    and wr: "write_entry C grants T B (owner n) n e' (Some (te_etag m)) w2 = (res, w')"
  shows "valid w' \<and> rows_ok owner C (rows w') \<and> refines_call (\<lambda>w. entries owner C (rows w)) spec w2 (res, w')"
proof -
  let ?wr = "written (rows w2) (owner n, n) (entry_to_entity_data C e') (Some (te_etag m)) (rows w')"
  note c = write_entry_call [OF evolves_valid [OF w(1,2)] wr]
  have eff: "rows_ok owner C (rows w') \<and> spec (entries owner C (rows w2)) = Some (e', entries owner C (rows w'))" if ?wr
  proof -
    from cas_unchanged [OF w(1,2) read(1) that] read(2) w(3) have "entries owner C (rows w2) n = Some e"
      by (auto simp: entries_Some entity_at_Some)
    from spec [of "entries owner C (rows w2)", OF this] written_entries [OF ok w(3) that] show ?thesis by simp
  qed
  show ?thesis
  proof (cases res)
    case (Inl x)
    with c consider "rows w' = rows w2" | ?wr by auto
    then show ?thesis by cases (use c w(3) eff Inl in \<open>auto simp: refines_call_def\<close>)
  next
    case (Inr r)
    with c eff show ?thesis by (auto simp: refines_call_def)
  qed
qed

lemma update_linear:
  assumes codec: "registry_codec_ok C TS" and w: "valid w" "rows_ok owner C (rows w)"
    and env: "interference owner C valid rows evolves between"
    and upd: "\<And>e. storable TS e \<Longrightarrow> storable TS (f e)" "\<And>e. same_key e (f e)"
    and check: "\<And>e. check e = Inr () \<longleftrightarrow> expected = None \<or> re_claim_token e = expected"
    and run: "update_record C grants T B between n check f w = (res, w')"
  shows "valid w' \<and> rows_ok owner C (rows w') \<and>
    linearized evolves (\<lambda>w. entries owner C (rows w)) (reg_update n expected f) w (res, w')"
proof -
  obtain r1 w1 where c1: "require_record grants T B n w = (r1, w1)" by fastforce
  note g = require_record_call [OF w c1]
  have raise: ?thesis if "res = Inl x" "w' = w1" for x
    using g that linearized_raise [of evolves w w1] w(2) by auto
  show ?thesis
  proof (cases "\<exists>m e. r1 = Inr m \<and> decode_entry C (te_data m) = Inr e \<and> check e = Inr ()")
    case False
    then have "\<exists>x. res = Inl x \<and> w' = w1"
      using run c1 by (auto simp: update_record_def entity_to_entry_def split: sum.splits)
    with raise show ?thesis by blast
  next
    case True
    then obtain m e where r1: "r1 = Inr m" and e: "decode_entry C (te_data m) = Inr e" and ch: "check e = Inr ()" by blast
    have m: "entity_at (rows w1) (owner n, n) = Some m" using g r1 by simp
    have ew: "entries owner C (rows w1) n = Some e" using g w(2) m e by (auto simp: entries_Some entity_at_Some)
    have key: "re_vertical e = owner n" "re_index_name e = n" using entries_key [OF _ ew] g w(2) by simp_all
    have wr: "write_entry C grants T B (owner n) n (f e) (Some (te_etag m)) (between w1) = (res, w')"
      using run c1 r1 e ch key by (simp add: update_record_def entity_to_entry_def)
    have b: "evolves w1 (between w1)" "rows_ok owner C (rows (between w1))"
      using env g w(2) by (simp_all add: interference_def)
    have "storable TS (f e)" "re_vertical (f e) = owner n" "re_index_name (f e) = n"
      using upd(1) [OF decoded_storable [OF codec e]] upd(2) [of e] key by (simp_all add: same_key_def)
    moreover have "reg_update n expected f h = Some (f e, h(n \<mapsto> f e))" if "h n = Some e" for h
      using that ch check by (simp add: reg_update_def)
    ultimately have "valid w' \<and> rows_ok owner C (rows w') \<and>
        refines_call (\<lambda>w. entries owner C (rows w)) (reg_update n expected f) (between w1) (res, w')"
      using conditional_write [OF codec _ _ _ _ b m e _ wr] g by blast
    moreover have "evolves w (between w1)" using evolves_trans g b(1) by blast
    ultimately show ?thesis unfolding linearized_def by blast
  qed
qed

lemma reclaim_linear:
  assumes codec: "registry_codec_ok C TS" and w: "valid w" "rows_ok owner C (rows w)"
    and env: "interference owner C valid rows evolves between"
    and new: "storable TS new" "re_vertical new = owner n" "re_index_name new = n" "re_vertical observed = owner n"
    and run: "registry_table_reclaim C grants T B between n observed new w = (res, w')"
  shows "valid w' \<and> rows_ok owner C (rows w') \<and>
    linearized evolves (\<lambda>w. entries owner C (rows w)) (reg_reclaim n observed new) w (res, w')"
proof -
  obtain r1 w1 where c1: "registry_call grants T (tb_get_entity B (owner n) n) w = (r1, w1)" by fastforce
  note g = registry_get_entity [OF w(1) c1]
  have raise: ?thesis if "res = Inl x" "w' = w1" for x
    using g that linearized_raise [of evolves w w1] w(2) by auto
  show ?thesis
  proof (cases "\<exists>m. r1 = Inr (Some m) \<and> decode_entry C (te_data m) = Inr observed")
    case False
    then have "\<exists>x. res = Inl x \<and> w' = w1"
      using run c1 new(4) by (auto simp: registry_table_reclaim_def entity_to_entry_def split: sum.splits option.splits if_splits)
    with raise show ?thesis by blast
  next
    case True
    then obtain m where r1: "r1 = Inr (Some m)" and e: "decode_entry C (te_data m) = Inr observed" by blast
    have m: "entity_at (rows w1) (owner n, n) = Some m" using g r1 by simp
    have wr: "write_entry C grants T B (owner n) n new (Some (te_etag m)) (between w1) = (res, w')"
      using run c1 r1 e new by (simp add: registry_table_reclaim_def entity_to_entry_def)
    have b: "evolves w1 (between w1)" "rows_ok owner C (rows (between w1))"
      using env g w(2) by (simp_all add: interference_def)
    have "reg_reclaim n observed new h = Some (new, h(n \<mapsto> new))" if "h n = Some observed" for h
      using that by (simp add: reg_reclaim_def)
    then have "valid w' \<and> rows_ok owner C (rows w') \<and>
        refines_call (\<lambda>w. entries owner C (rows w)) (reg_reclaim n observed new) (between w1) (res, w')"
      using conditional_write [OF codec new(1-3) _ b m e _ wr] g by blast
    moreover have "evolves w (between w1)" using evolves_trans g b(1) by blast
    ultimately show ?thesis unfolding linearized_def by blast
  qed
qed

text \<open>
  \<open>register\<close>: the create, or after a conflict the read. A create that timed out after its effect is repeated
  and conflicts with itself; the read then finds the caller's own entry.
\<close>

lemma register_linear:
  assumes codec: "registry_codec_ok C TS" and w: "valid w" "rows_ok owner C (rows w)"
    and env: "interference owner C valid rows evolves between"
    and new: "storable TS e" "re_vertical e = owner (re_index_name e)"
    and run: "registry_table_register C grants T B between e w = (res, w')"
  shows "valid w' \<and> rows_ok owner C (rows w') \<and>
    linearized evolves (\<lambda>w. entries owner C (rows w)) (reg_register e) w (res, w') \<and>
    (entries owner C (rows w) (re_index_name e) = None \<and> (\<forall>v. between v = v) \<longrightarrow>
      (\<forall>r. res = Inr r \<longrightarrow> reg_register e (entries owner C (rows w)) = Some (r, entries owner C (rows w'))))"
proof -
  let ?n = "re_index_name e" and ?E = "\<lambda>w. entries owner C (rows w)"
  obtain r1 w1 where c1: "write_entry C grants T B (owner ?n) ?n e None w = (r1, w1)" by fastforce
  note c = write_entry_call [OF w(1) c1]
  have wrote: "rows_ok owner C (rows w1) \<and> ?E w ?n = None \<and> ?E w1 = (?E w)(?n \<mapsto> e)"
    if wr: "written (rows w) (owner ?n, ?n) (entry_to_entity_data C e) None (rows w1)"
    using written_entries [OF codec new refl w(2) wr] wr w(2) by (auto simp: written_def write_allowed_def entries_None)
  have ok1: "rows_ok owner C (rows w1)" using c wrote w(2) by (cases r1) auto
  have fx: "rows w1 = rows w \<or> written (rows w) (owner ?n, ?n) (entry_to_entity_data C e) None (rows w1)"
    using c by (cases r1) auto
  show ?thesis
  proof (cases "\<exists>x. r1 = Inl (ProvisioningError x) \<and> pe_error_code x = INDEX_PROVISION_CONFLICT")
    case False
    then have out: "(res, w') = (r1, w1)"
      using run c1 new(2) by (auto simp: registry_table_register_def split: sum.splits prov_exn.splits if_splits)
    have "refines_call ?E (reg_register e) w (r1, w1)"
      using c fx wrote by (cases r1) (auto simp: refines_call_def reg_register_def)
    with evolves_refl [OF w(1)] c ok1 out show ?thesis
      unfolding linearized_def by (auto simp: refines_call_def)
  next
    case True
    then obtain x where x: "r1 = Inl (ProvisioningError x)" "pe_error_code x = INDEX_PROVISION_CONFLICT" by blast
    have b: "evolves w1 (between w1)" "rows_ok owner C (rows (between w1))"
      using env c ok1 by (simp_all add: interference_def)
    obtain r2 where c2: "registry_call grants T (tb_get_entity B (owner ?n) ?n) (between w1) = (r2, w')"
      and res: "res = (case r2 of Inl x \<Rightarrow> Inl x | Inr None \<Rightarrow> Inl (ProvisioningError x) | Inr (Some m) \<Rightarrow> entity_to_entry C m)"
      using run c1 new(2) x by (auto simp: registry_table_register_def split: prod.splits sum.splits option.splits)
    note g = registry_get_entity [OF evolves_valid [OF conjunct1 [OF c] b(1)] c2]
    have ans: "?E (between w1) ?n = Some r \<and> ?E w' = ?E (between w1)" if "res = Inr r" for r
    proof -
      from that res obtain m where m: "r2 = Inr (Some m)" "decode_entry C (te_data m) = Inr r"
        by (auto simp: entity_to_entry_def split: sum.splits option.splits)
      with g have "entity_at (rows (between w1)) (owner ?n, ?n) = Some m" by simp
      with m(2) b(2) g show ?thesis by (auto simp: entries_Some entity_at_Some)
    qed
    have "refines_call ?E (reg_register e) (between w1) (res, w')"
      using ans g by (cases res) (auto simp: refines_call_def reg_register_def)
    moreover have "evolves w (between w1)" using evolves_trans c b(1) by blast
    ultimately have lin: "linearized evolves ?E (reg_register e) w (res, w')" unfolding linearized_def by blast
    have "reg_register e (?E w) = Some (r, ?E w')" if "?E w ?n = None" "\<forall>v. between v = v" "res = Inr r" for r
    proof -
      from ans [OF that(3)] that(2) have a: "?E w1 ?n = Some r" "?E w' = ?E w1" by simp_all
      with fx that(1) wrote have "?E w1 = (?E w)(?n \<mapsto> e)" by auto
      with a that(1) show ?thesis by (auto simp: reg_register_def)
    qed
    with lin g b(2) show ?thesis by auto
  qed
qed

end

section \<open>Properties\<close>

text \<open>
  Storing a registry entry loses nothing: the entity written for an entry, its optional fields omitted where
  they are absent, is read back as exactly this entry.
\<close>

theorem registry_entry_roundtrip:
  assumes "registry_codec_ok C TS" and "storable TS e"
  shows "entity_to_entry C \<lparr>te_partition_key = re_vertical e, te_row_key = re_index_name e,
    te_data = entry_to_entity_data C e, te_etag = t\<rparr> = Inr e"
  using decode_encode_entry [OF assms] by (simp add: entity_to_entry_def)

definition demo_registry_codec :: registry_codec where
  "demo_registry_codec = \<lparr>rk_isoformat = str_int, rk_fromisoformat = (\<lambda>x. case py_int x of None \<Rightarrow> Inl x | Some i \<Rightarrow> Inr i),
     rk_dump_template = \<lambda>_. ''t'', rk_load_template = \<lambda>_. Inr demo_template, rk_validation_text = \<lambda>_. []\<rparr>"

definition claim_of :: "string \<Rightarrow> registry_entry" where
  "claim_of vertical = \<lparr>re_index_name = ''idx'', re_vertical = vertical, re_scenario_id = ''s'', re_template_id = ''standard-v1'',
     re_template_version = ''1'', re_dimensions = 4, re_metric = ''cosine'', re_embedding_model = ''m'', re_status = Provisioning,
     re_created_at = 5, re_last_verified_at = None, re_document_count = None, re_claim_token = Some vertical,
     re_claimed_at = Some 5, re_last_error_message = None, re_resolved_template = Some demo_template\<rparr>"

lemma demo_codec_ok: "registry_codec_ok demo_registry_codec {demo_template}"
  by (simp add: registry_codec_ok_def demo_registry_codec_def py_int_str_int)

lemma claim_storable: "storable {demo_template} (claim_of v)"
  by (simp add: storable_def claim_of_def)

theorem registry_entry_roundtrip_witness:
  "entity_to_entry demo_registry_codec \<lparr>te_partition_key = re_vertical (claim_of ''v''), te_row_key = re_index_name (claim_of ''v''),
     te_data = entry_to_entity_data demo_registry_codec (claim_of ''v''), te_etag = ''7''\<rparr> = Inr (claim_of ''v'')"
  by (rule registry_entry_roundtrip [OF demo_codec_ok claim_storable])

text \<open>The calls of the port that write, on the table and in the specification.\<close>

datatype registry_op =
    OpRegister registry_entry
  | OpReclaim string registry_entry registry_entry
  | OpTouchVerified datetime string
  | OpMarkReady datetime string "string option"
  | OpMarkFailed string string "string option"
  | OpMarkRetired string

fun table_op where
  "table_op C grants T B between (OpRegister e) = registry_table_register C grants T B between e"
| "table_op C grants T B between (OpReclaim n observed new) = registry_table_reclaim C grants T B between n observed new"
| "table_op C grants T B between (OpTouchVerified now n) = table_touch_verified C grants T B between now n"
| "table_op C grants T B between (OpMarkReady now n t) = table_mark_ready C grants T B between now n t"
| "table_op C grants T B between (OpMarkFailed n reason t) = table_mark_failed C grants T B between n reason t"
| "table_op C grants T B between (OpMarkRetired n) = table_mark_retired C grants T B between n"

fun spec_op :: "registry_op \<Rightarrow> registry_map \<Rightarrow> (registry_entry \<times> registry_map) option" where
  "spec_op (OpRegister e) = reg_register e"
| "spec_op (OpReclaim n observed new) = reg_reclaim n observed new"
| "spec_op (OpTouchVerified now n) = reg_update n None (verified_entry now)"
| "spec_op (OpMarkReady now n t) = reg_update n t (ready_entry now)"
| "spec_op (OpMarkFailed n reason t) = reg_update n t (failed_entry reason)"
| "spec_op (OpMarkRetired n) = reg_update n None retired_entry"

text \<open>The entries a client passes carry the vertical that owns the index.\<close>

fun op_ok :: "(string \<Rightarrow> string) \<Rightarrow> index_template set \<Rightarrow> registry_op \<Rightarrow> bool" where
  "op_ok owner TS (OpRegister e) = (storable TS e \<and> re_vertical e = owner (re_index_name e))"
| "op_ok owner TS (OpReclaim n observed new) =
     (storable TS new \<and> re_vertical new = owner n \<and> re_index_name new = n \<and> re_vertical observed = owner n)"
| "op_ok owner TS _ = True"


definition demo_registry :: mem_table where
  "demo_registry = \<lparr>mt_rows = [((''v'', ''idx''), entry_to_entity_data demo_registry_codec (claim_of ''v''), 1)], mt_next = 2\<rparr>"

lemma demo_registry_ok: "mem_valid demo_registry" "rows_ok (\<lambda>_. ''v'') demo_registry_codec (mem_rows demo_registry)"
  using decode_encode_entry [OF demo_codec_ok claim_storable, of "''v''"]
  by (auto simp: mem_valid_def demo_registry_def rows_ok_def mem_rows_def claim_of_def split: if_splits)

lemma no_interference: "interference owner C mem_valid mem_rows mem_evolves id"
  by (simp add: interference_def mem_service.evolves_refl)




text \<open>
  Two limits. The row of an index is keyed by its vertical too, so that two scenarios of different verticals
  can both win the claim of one index name. And \<open>touch_verified\<close> is conditional on the ETag, so that it
  raises a conflict when another process touched the entry in between.
\<close>

lemma claims_of_two_verticals:
  "fst (registry_table_register demo_registry_codec nat demo_client mem_backend id (claim_of ''w'') demo_registry) = Inr (claim_of ''w'')"
  by code_simp

lemma touch_verified_conflicts:
  "fst (table_touch_verified demo_registry_codec nat demo_client mem_backend
     (\<lambda>w. snd (table_touch_verified demo_registry_codec nat demo_client mem_backend id 8 ''idx'' w)) 9 ''idx'' demo_registry) =
   Inl (ProvisioningError (provisioning_exn [] ''UpdateConditionNotSatisfied'' INDEX_PROVISION_CONFLICT))"
  by code_simp

end
