(* ===== verification/Azure_Table.thy ===== *)
theory Azure_Table
  imports Scenario_Table Registry_Table
begin

text \<open>
  The production backend of both stores on Azure Table Storage:
  \<open>src/vestibule/scenario/stores/_azure_table_backend.py\<close> and its twin under \<open>provisioning/stores\<close>, which differ only in
  the error that reports a missing dependency. The table client of the SDK is a parameter (\<open>sdk_client\<close>); the
  locale \<open>table_sdk\<close> is what the SDK documents of it: entities are dictionaries with their two keys among the
  properties and the ETag in the metadata, a filter is a conjunction of parameterised comparisons, a create
  needs an absent entity and an update with \<open>IfNotModified\<close> needs the given ETag.

  Under these laws the wrapper is a \<open>table_service\<close>, the contract on which the theorems on both stores rest.
\<close>

section \<open>The client of the SDK\<close>

record sdk_entity =
  se_items :: entity_data
  se_metadata :: "(string, string) dict option"

text \<open>\<open>ResourceNotFoundError\<close> is an \<open>HttpResponseError\<close>; only \<open>get_entity\<close> tells it from the others.\<close>

datatype sdk_exn = ResourceNotFoundError "int option" string | SdkError backend_exn

fun http_exn :: "sdk_exn \<Rightarrow> backend_exn" where
  "http_exn (ResourceNotFoundError code text) = HttpResponseError code text"
| "http_exn (SdkError x) = x"

datatype update_mode = MERGE | REPLACE

datatype match_condition = Unconditionally | IfNotModified | IfModified | IfPresent | IfMissing

type_synonym ('a, 'w) sdk_call = "'w \<Rightarrow> (sdk_exn + 'a) timed \<times> 'w"

record 'w sdk_client =
  sdk_get_entity :: "string \<Rightarrow> string \<Rightarrow> (sdk_entity, 'w) sdk_call"
  sdk_list_entities :: "(sdk_entity list, 'w) sdk_call"
  sdk_query_entities :: "string \<Rightarrow> (string, string) dict \<Rightarrow> (sdk_entity list, 'w) sdk_call"
  sdk_create_entity :: "entity_data \<Rightarrow> ((string, string) dict, 'w) sdk_call"
  sdk_update_entity :: "entity_data \<Rightarrow> update_mode \<Rightarrow> string \<Rightarrow> match_condition \<Rightarrow> ((string, string) dict, 'w) sdk_call"
  sdk_delete_entity :: "string \<Rightarrow> string \<Rightarrow> (unit, 'w) sdk_call"

section \<open>The wrapper\<close>

definition to_record :: "sdk_entity \<Rightarrow> string + table_entity" where
  "to_record e =
     (let etag = (case se_metadata e of None \<Rightarrow> [] | Some m \<Rightarrow> (case dict_get m ''etag'' of None \<Rightarrow> [] | Some t \<Rightarrow> t));
          data = filter (\<lambda>(key, value). key \<notin> set [''PartitionKey'', ''RowKey'', ''Timestamp'', ''etag'']) (se_items e) in
      bind_res (data_item (se_items e) ''PartitionKey'') (\<lambda>p.
      bind_res (data_item (se_items e) ''RowKey'') (\<lambda>r.
        Inr \<lparr>te_partition_key = prop_str p, te_row_key = prop_str r, te_data = data, te_etag = etag\<rparr>)))"

text \<open>
  The rest of a method after a call of the client: a value is worked on by \<open>ok\<close>, whose failure is a
  \<open>KeyError\<close>; an exception of the client goes through \<open>no\<close>.
\<close>

definition sdk_then :: "(sdk_exn \<Rightarrow> backend_exn + 'b) \<Rightarrow> ('a \<Rightarrow> string + 'b) \<Rightarrow> ('a, 'w) sdk_call \<Rightarrow> ('b, 'w) backend_call" where
  "sdk_then no ok call w = (case call w of
       (TooLate, w') \<Rightarrow> (TooLate, w')
     | (Finished (Inl x), w') \<Rightarrow> (Finished (no x), w')
     | (Finished (Inr a), w') \<Rightarrow> (Finished (case ok a of Inl text \<Rightarrow> Inl (BackendException text) | Inr b \<Rightarrow> Inr b), w'))"

definition real_get_entity :: "'w sdk_client \<Rightarrow> string \<Rightarrow> string \<Rightarrow> (table_entity option, 'w) backend_call" where
  "real_get_entity C partition_key row_key = sdk_then
     (\<lambda>x. case x of ResourceNotFoundError code text \<Rightarrow> Inr None | SdkError y \<Rightarrow> Inl y)
     (\<lambda>entity. bind_res (to_record entity) (\<lambda>r. Inr (Some r)))
     (sdk_get_entity C partition_key row_key)"

definition query_clauses :: "string option \<Rightarrow> string option \<Rightarrow> string list" where
  "query_clauses partition_key row_key =
     (case partition_key of None \<Rightarrow> [] | Some _ \<Rightarrow> [''PartitionKey eq @pk'']) @
     (case row_key of None \<Rightarrow> [] | Some _ \<Rightarrow> [''RowKey eq @rk''])"

definition query_parameters :: "string option \<Rightarrow> string option \<Rightarrow> (string, string) dict" where
  "query_parameters partition_key row_key =
     (case partition_key of None \<Rightarrow> [] | Some p \<Rightarrow> [(''pk'', p)]) @ (case row_key of None \<Rightarrow> [] | Some r \<Rightarrow> [(''rk'', r)])"

definition real_query :: "'w sdk_client \<Rightarrow> string option \<Rightarrow> string option \<Rightarrow> (table_entity list, 'w) backend_call" where
  "real_query C partition_key row_key = sdk_then (\<lambda>x. Inl (http_exn x)) (map_res to_record)
     (let clauses = query_clauses partition_key row_key in
      if clauses = [] then sdk_list_entities C
      else sdk_query_entities C (str_join '' and '' clauses) (query_parameters partition_key row_key))"

text \<open>\<open>{**base, **data}\<close>\<close>

definition dict_update :: "('k, 'v) dict \<Rightarrow> ('k, 'v) dict \<Rightarrow> ('k, 'v) dict" where
  "dict_update base data = fold (\<lambda>(k, v). dict_set k v) data base"

definition real_upsert_entity :: "'w sdk_client \<Rightarrow> string \<Rightarrow> string \<Rightarrow> entity_data \<Rightarrow> string option \<Rightarrow> (string, 'w) backend_call" where
  "real_upsert_entity C partition_key row_key data etag =
     (let entity = dict_update [(''PartitionKey'', PStr partition_key), (''RowKey'', PStr row_key)] data in
      sdk_then (\<lambda>x. Inl (http_exn x)) (\<lambda>result. Inr (case dict_get result ''etag'' of None \<Rightarrow> [] | Some t \<Rightarrow> t))
        (case etag of
           None \<Rightarrow> sdk_create_entity C entity
         | Some t \<Rightarrow> sdk_update_entity C entity REPLACE t IfNotModified))"

definition real_delete_entity :: "'w sdk_client \<Rightarrow> string \<Rightarrow> string \<Rightarrow> (unit, 'w) backend_call" where
  "real_delete_entity C partition_key row_key =
     sdk_then (\<lambda>x. Inl (http_exn x)) (\<lambda>_. Inr ()) (sdk_delete_entity C partition_key row_key)"

definition real_table_backend :: "'w sdk_client \<Rightarrow> 'w table_backend" where
  "real_table_backend C = \<lparr>tb_get_entity = real_get_entity C, tb_query = real_query C,
     tb_upsert_entity = real_upsert_entity C, tb_delete_entity = real_delete_entity C\<rparr>"

text \<open>
  \<open>_load_real_backend\<close>. \<open>installed\<close> says whether \<open>azure-data-tables\<close> can be imported, \<open>create_table\<close> is the effect of building the
  clients and of \<open>create_table_if_not_exists\<close>, whose exceptions are passed on as they are.
\<close>

abbreviation SCENARIO_STORE_DEPENDENCY_MISSING :: string where "SCENARIO_STORE_DEPENDENCY_MISSING \<equiv> ''SCENARIO_STORE_DEPENDENCY_MISSING''"

abbreviation INDEX_PROVISIONER_DEPENDENCY_MISSING :: string where "INDEX_PROVISIONER_DEPENDENCY_MISSING \<equiv> ''INDEX_PROVISIONER_DEPENDENCY_MISSING''"

definition install_hint :: "string \<Rightarrow> string" where
  "install_hint user = ''azure-data-tables is not installed; install the '' @ py_repr ''table_storage'' @
     '' extra (pip install vestibule[table_storage]) to use '' @ user"

definition scenario_dependency_missing :: scenario_error where
  "scenario_dependency_missing = scenario_exn [] (install_hint ''TableStorageScenarioStore'') SCENARIO_STORE_DEPENDENCY_MISSING"

definition registry_dependency_missing :: provisioning_error where
  "registry_dependency_missing = provisioning_exn [] (install_hint ''TableStorageIndexRegistry'') INDEX_PROVISIONER_DEPENDENCY_MISSING"

definition load_real_backend :: "'e \<Rightarrow> bool \<Rightarrow> ('w \<Rightarrow> (backend_exn + unit) \<times> 'w) \<Rightarrow> 'w sdk_client \<Rightarrow> 'w
    \<Rightarrow> (('e + backend_exn) + 'w table_backend) \<times> 'w" where
  "load_real_backend missing installed create_table C w =
     (if \<not> installed then (Inl (Inl missing), w)
      else case create_table w of
          (Inl x, w') \<Rightarrow> (Inl (Inr x), w')
        | (Inr _, w') \<Rightarrow> (Inr (real_table_backend C), w'))"

text \<open>The constructors of the stores: an injected backend is used as it is.\<close>

definition table_store_init :: "'e \<Rightarrow> 'w table_backend option \<Rightarrow> bool \<Rightarrow> ('w \<Rightarrow> (backend_exn + unit) \<times> 'w) \<Rightarrow> 'w sdk_client \<Rightarrow> 'w
    \<Rightarrow> (('e + backend_exn) + 'w table_backend) \<times> 'w" where
  "table_store_init missing backend installed create_table C w = (case backend of
       Some B \<Rightarrow> (Inr B, w)
     | None \<Rightarrow> load_real_backend missing installed create_table C w)"

section \<open>What the SDK documents\<close>

type_synonym sdk_items = "string \<times> string \<Rightarrow> (entity_data \<times> string) option"

definition represents :: "sdk_items \<Rightarrow> string \<times> string \<Rightarrow> sdk_entity \<Rightarrow> bool" where
  "represents items k e \<longleftrightarrow> (\<exists>m t. se_metadata e = Some m \<and> map_of m ''etag'' = Some t \<and> items k = Some (se_items e, t))"

definition entities_of :: "sdk_items \<Rightarrow> (string \<times> string \<Rightarrow> bool) \<Rightarrow> sdk_entity list \<Rightarrow> bool" where
  "entities_of items sel es \<longleftrightarrow> (\<exists>ks. distinct ks \<and> set ks = {k. items k \<noteq> None \<and> sel k} \<and> list_all2 (represents items) ks es)"

text \<open>One comparison \<open><key> eq @<name>\<close> of a filter, with the value of the parameter.\<close>

definition comparison :: "string \<times> string \<Rightarrow> string" where
  "comparison = (\<lambda>(c, n). c @ '' eq @'' @ n)"

definition key_value :: "string \<Rightarrow> string \<times> string \<Rightarrow> string" where
  "key_value c k = (if c = ''PartitionKey'' then fst k else snd k)"

definition comparisons_ok :: "(string \<times> string) list \<Rightarrow> (string, string) dict \<Rightarrow> bool" where
  "comparisons_ok cs params \<longleftrightarrow> cs \<noteq> [] \<and> (\<forall>(c, n)\<in>set cs. c \<in> {''PartitionKey'', ''RowKey''} \<and> CHR '' '' \<notin> set n \<and> map_of params n \<noteq> None)"

definition comparisons_hold :: "(string \<times> string) list \<Rightarrow> (string, string) dict \<Rightarrow> string \<times> string \<Rightarrow> bool" where
  "comparisons_hold cs params k \<longleftrightarrow> (\<forall>(c, n)\<in>set cs. map_of params n = Some (key_value c k))"

text \<open>A write stores the properties it was given; the service's own properties are its own business.\<close>

definition keyed :: "string \<times> string \<Rightarrow> entity_data \<Rightarrow> bool" where
  "keyed k d \<longleftrightarrow> map_of d ''PartitionKey'' = Some (PStr (fst k)) \<and> map_of d ''RowKey'' = Some (PStr (snd k))"

definition stores :: "sdk_items \<Rightarrow> string \<times> string \<Rightarrow> entity_data \<Rightarrow> string \<Rightarrow> sdk_items \<Rightarrow> bool" where
  "stores items k entity t items' \<longleftrightarrow> (\<exists>d. items' = items(k \<mapsto> (d, t)) \<and>
     (\<forall>key. key \<notin> {''Timestamp'', ''etag''} \<longrightarrow> map_of d key = map_of entity key))"

locale table_sdk =
  fixes C :: "'w sdk_client" and valid :: "'w \<Rightarrow> bool" and items :: "'w \<Rightarrow> sdk_items" and evolves :: "'w \<Rightarrow> 'w \<Rightarrow> bool"
  assumes keys_stored: "valid w \<Longrightarrow> items w k = Some (d, t) \<Longrightarrow> keyed k d"
    and sdk_get: "valid w \<Longrightarrow> sdk_get_entity C p r w = (res, w') \<Longrightarrow> valid w' \<and> items w' = items w \<and> evolves w w' \<and>
      (case res of Finished (Inr e) \<Rightarrow> represents (items w) (p, r) e
       | Finished (Inl (ResourceNotFoundError _ _)) \<Rightarrow> items w (p, r) = None | _ \<Rightarrow> True)"
    and sdk_list: "valid w \<Longrightarrow> sdk_list_entities C w = (lres, w') \<Longrightarrow> valid w' \<and> items w' = items w \<and> evolves w w' \<and>
      (\<forall>es. lres = Finished (Inr es) \<longrightarrow> entities_of (items w) (\<lambda>_. True) es)"
    and sdk_query: "valid w \<Longrightarrow> comparisons_ok cs params \<Longrightarrow>
      sdk_query_entities C (str_join '' and '' (map comparison cs)) params w = (qres, w') \<Longrightarrow>
      valid w' \<and> items w' = items w \<and> evolves w w' \<and>
      (\<forall>es. qres = Finished (Inr es) \<longrightarrow> entities_of (items w) (comparisons_hold cs params) es)"
    and sdk_create: "valid w \<Longrightarrow> dict_ok entity \<Longrightarrow> keyed k entity \<Longrightarrow> sdk_create_entity C entity w = (cres, w') \<Longrightarrow>
      valid w' \<and> evolves w w' \<and>
      (case cres of Finished (Inr m) \<Rightarrow> items w k = None \<and> (\<exists>t. map_of m ''etag'' = Some t \<and> stores (items w) k entity t (items w'))
       | _ \<Rightarrow> items w' = items w \<or> items w k = None \<and> (\<exists>t. stores (items w) k entity t (items w')))"
    and sdk_update: "valid w \<Longrightarrow> dict_ok entity \<Longrightarrow> keyed k entity \<Longrightarrow>
      sdk_update_entity C entity REPLACE etag IfNotModified w = (ures, w') \<Longrightarrow> valid w' \<and> evolves w w' \<and>
      (case ures of Finished (Inr m) \<Rightarrow> map_option snd (items w k) = Some etag \<and>
           (\<exists>t. t \<noteq> etag \<and> map_of m ''etag'' = Some t \<and> stores (items w) k entity t (items w'))
       | _ \<Rightarrow> items w' = items w \<or> map_option snd (items w k) = Some etag \<and> (\<exists>t. t \<noteq> etag \<and> stores (items w) k entity t (items w')))"
    and sdk_delete: "valid w \<Longrightarrow> sdk_delete_entity C p r w = (dres, w') \<Longrightarrow> valid w' \<and> evolves w w' \<and>
      (case dres of Finished (Inr _) \<Rightarrow> items w' = (items w)((p, r) := None)
       | _ \<Rightarrow> items w' = items w \<or> items w' = (items w)((p, r) := None))"
    and sdk_evolves_valid: "valid w \<Longrightarrow> evolves w w' \<Longrightarrow> valid w'"
    and sdk_evolves_refl: "valid w \<Longrightarrow> evolves w w"
    and sdk_evolves_trans: "evolves w w' \<Longrightarrow> evolves w' w'' \<Longrightarrow> evolves w w''"
    and sdk_etag: "valid w \<Longrightarrow> evolves w w' \<Longrightarrow> items w k = Some (d, t) \<Longrightarrow> items w' k = Some (d', t) \<Longrightarrow> d' = d"

section \<open>The wrapper keeps the contract\<close>

text \<open>The rows behind the entities: the properties that are not the service's own.\<close>

definition plain_items :: "entity_data \<Rightarrow> entity_data" where
  "plain_items d = filter (\<lambda>(key, value). key \<notin> set reserved_keys) d"

definition plain_rows :: "sdk_items \<Rightarrow> table_rows" where
  "plain_rows items k = map_option (\<lambda>(d, t). (plain_items d, t)) (items k)"

lemma map_of_plain_items: "map_of (plain_items d) key = (if key \<in> set reserved_keys then None else map_of d key)"
  by (induction d) (auto simp: plain_items_def)

lemma plain_rows_upd [simp]:
  "plain_rows (items(k \<mapsto> (d, t))) = (plain_rows items)(k \<mapsto> (plain_items d, t))" "plain_rows (items(k := None)) = (plain_rows items)(k := None)"
  by (auto simp: plain_rows_def fun_eq_iff)

lemma dict_update_simps:
  "dict_update base [] = base" "dict_update base ((k, v) # d) = dict_update (dict_set k v base) d"
  by (simp_all add: dict_update_def)

lemma dict_update_ok: "dict_ok base \<Longrightarrow> dict_ok (dict_update base d)"
  by (induction d arbitrary: base) (auto simp: dict_update_simps)

lemma map_of_dict_update: "dict_ok d \<Longrightarrow> map_of (dict_update base d) = map_of base ++ map_of d"
proof (induction d arbitrary: base)
  case (Cons x d)
  obtain k v where x: "x = (k, v)" by fastforce
  from Cons.prems x have "map_of d k = None" by (simp add: map_of_eq_None_iff)
  with Cons x show ?case by (auto simp: dict_update_simps map_add_def fun_eq_iff split: option.splits)
qed (simp add: dict_update_simps)

lemma to_record_represents:
  assumes "represents items k e" and "keyed k (se_items e)"
  shows "\<exists>r. to_record e = Inr r \<and> entity_at (plain_rows items) k = Some r"
  using assms by (auto simp: to_record_def represents_def keyed_def data_item_def entity_at_def plain_rows_def plain_items_def reserved_keys_def)

lemma records_of:
  assumes "list_all2 (represents items) ks es" and "\<And>k d t. items k = Some (d, t) \<Longrightarrow> keyed k d"
  shows "\<exists>rs. map_res to_record es = Inr rs \<and> map (entity_at (plain_rows items)) ks = map Some rs"
  using assms(1)
proof (induction rule: list_all2_induct)
  case (Cons k ks e es)
  from Cons.hyps(1) have "keyed k (se_items e)" using assms(2) [of k "se_items e"] by (auto simp: represents_def)
  from to_record_represents [OF Cons.hyps(1) this] Cons.IH show ?case by auto
qed simp

lemma entities_of_records:
  assumes "entities_of items sel es" and "\<And>k d t. items k = Some (d, t) \<Longrightarrow> keyed k d"
  shows "\<exists>rs. map_res to_record es = Inr rs \<and> distinct rs \<and> set rs = {r. \<exists>k. entity_at (plain_rows items) k = Some r \<and> sel k}"
proof -
  from assms(1) obtain ks where ks: "distinct ks" "set ks = {k. items k \<noteq> None \<and> sel k}" "list_all2 (represents items) ks es"
    by (auto simp: entities_of_def)
  from records_of [OF ks(3)] assms(2) obtain rs where rs: "map_res to_record es = Inr rs"
      "map (entity_at (plain_rows items)) ks = map Some rs" by metis
  have keys: "map (\<lambda>r. (te_partition_key r, te_row_key r)) rs = ks"
    using rs(2) by (induction ks arbitrary: rs) (auto simp: entity_at_Some Cons_eq_map_conv map_eq_Cons_conv prod_eq_iff)
  then have "distinct rs" using ks(1) by (metis distinct_map)
  moreover have "r \<in> set rs \<longleftrightarrow> (\<exists>k. entity_at (plain_rows items) k = Some r \<and> sel k)" for r
  proof -
    have "r \<in> set rs \<longleftrightarrow> Some r \<in> entity_at (plain_rows items) ` set ks"
      using arg_cong [OF rs(2), of set] by auto
    also have "\<dots> \<longleftrightarrow> (\<exists>k. entity_at (plain_rows items) k = Some r \<and> k \<in> set ks)" by (auto simp: image_iff eq_commute)
    also have "\<dots> \<longleftrightarrow> (\<exists>k. entity_at (plain_rows items) k = Some r \<and> sel k)"
      unfolding ks(2) by (auto simp: entity_at_def plain_rows_def)
    finally show ?thesis .
  qed
  ultimately show ?thesis using rs(1) by blast
qed

lemma query_clauses_comparisons:
  assumes "query_clauses pk rk \<noteq> []"
  obtains cs where "query_clauses pk rk = map comparison cs" and "comparisons_ok cs (query_parameters pk rk)"
    and "comparisons_hold cs (query_parameters pk rk) = (\<lambda>k. (pk = None \<or> pk = Some (fst k)) \<and> (rk = None \<or> rk = Some (snd k)))"
proof
  let ?cs = "(case pk of None \<Rightarrow> [] | Some _ \<Rightarrow> [(''PartitionKey'', ''pk'')]) @ (case rk of None \<Rightarrow> [] | Some _ \<Rightarrow> [(''RowKey'', ''rk'')])"
  show "query_clauses pk rk = map comparison ?cs"
    by (simp add: query_clauses_def comparison_def split: option.splits)
  show "comparisons_ok ?cs (query_parameters pk rk)"
    using assms by (simp add: comparisons_ok_def query_clauses_def query_parameters_def split: option.splits)
  show "comparisons_hold ?cs (query_parameters pk rk) = (\<lambda>k. (pk = None \<or> pk = Some (fst k)) \<and> (rk = None \<or> rk = Some (snd k)))"
    by (cases pk; cases rk) (auto simp: comparisons_hold_def query_parameters_def key_value_def fun_eq_iff)
qed

text \<open>The dictionary that is written has the two keys and the data beside.\<close>

lemma written_entity:
  fixes p r :: string
  assumes "plain_data data"
  defines "entity \<equiv> dict_update [(''PartitionKey'', PStr p), (''RowKey'', PStr r)] data"
  shows "dict_ok entity" and "keyed (p, r) entity" and "map_of (plain_items entity) = map_of data"
proof -
  have fresh: "map_of data key = None" if "key \<in> set reserved_keys" for key
    using assms(1) that by (auto simp: plain_data_def map_of_eq_None_iff)
  have m: "map_of entity = [''PartitionKey'' \<mapsto> PStr p, ''RowKey'' \<mapsto> PStr r] ++ map_of data"
    using assms(1) by (auto simp: entity_def plain_data_def map_of_dict_update fun_eq_iff map_add_def split: option.splits)
  show "dict_ok entity" by (simp add: entity_def dict_update_ok)
  show "keyed (p, r) entity" using fresh [of "''PartitionKey''"] fresh [of "''RowKey''"]
    by (simp add: keyed_def m map_add_def reserved_keys_def)
  show "map_of (plain_items entity) = map_of data"
    using fresh by (auto simp: fun_eq_iff map_of_plain_items m map_add_def reserved_keys_def split: option.splits)
qed

lemma stores_written:
  assumes "plain_data data" and "stores items (p, r) (dict_update [(''PartitionKey'', PStr p), (''RowKey'', PStr r)] data) t items'"
    and "write_allowed (plain_rows items) (p, r) etag" and "etag \<noteq> Some t"
  shows "written (plain_rows items) (p, r) data etag (plain_rows items') \<and> (\<exists>d. plain_rows items' (p, r) = Some (d, t))"
proof -
  let ?entity = "dict_update [(''PartitionKey'', PStr p), (''RowKey'', PStr r)] data"
  from assms(2) obtain d where d: "items' = items((p, r) \<mapsto> (d, t))"
      "\<And>key. key \<notin> {''Timestamp'', ''etag''} \<Longrightarrow> map_of d key = map_of ?entity key"
    by (auto simp: stores_def)
  have "map_of (plain_items d) key = map_of (plain_items ?entity) key" for key
    using d(2) [of key] by (simp add: map_of_plain_items reserved_keys_def)
  then have "map_of (plain_items d) = map_of data" using written_entity(3) [OF assms(1), of p r] by (simp add: fun_eq_iff)
  then show ?thesis using assms(3,4) d(1) by (auto simp: written_def)
qed

lemma plain_write_allowed:
  "write_allowed (plain_rows items) k None \<longleftrightarrow> items k = None"
  "write_allowed (plain_rows items) k (Some t) \<longleftrightarrow> map_option snd (items k) = Some t"
  by (auto simp: write_allowed_def plain_rows_def)

context table_sdk
begin

lemma real_reads:
  assumes "valid w"
  shows "real_get_entity C p r w = (gres, w') \<Longrightarrow> valid w' \<and> items w' = items w \<and> evolves w w' \<and>
      (\<forall>e. gres = Finished (Inr e) \<longrightarrow> e = entity_at (plain_rows (items w)) (p, r))"
    and "real_query C pk rk w = (qres, w') \<Longrightarrow> valid w' \<and> items w' = items w \<and> evolves w w' \<and>
      (\<forall>es. qres = Finished (Inr es) \<longrightarrow> distinct es \<and> set es = {e. \<exists>k. entity_at (plain_rows (items w)) k = Some e \<and>
         (pk = None \<or> pk = Some (fst k)) \<and> (rk = None \<or> rk = Some (snd k))})"
proof -
  assume g: "real_get_entity C p r w = (gres, w')"
  obtain res v where c: "sdk_get_entity C p r w = (res, v)" by fastforce
  note get = sdk_get [OF assms c]
  from g c have [simp]: "v = w'" by (auto simp: real_get_entity_def sdk_then_def split: timed.splits sum.splits)
  have "e = entity_at (plain_rows (items w)) (p, r)" if e: "gres = Finished (Inr e)" for e
  proof (cases "\<exists>ent. res = Finished (Inr ent)")
    case True
    then obtain ent where ent: "res = Finished (Inr ent)" by blast
    with get have rep: "represents (items w) (p, r) ent" by simp
    then have "keyed (p, r) (se_items ent)" using keys_stored [OF assms] by (auto simp: represents_def)
    from to_record_represents [OF rep this] g c e ent show ?thesis by (auto simp: real_get_entity_def sdk_then_def)
  next
    case False
    with g c e obtain code msg where "res = Finished (Inl (ResourceNotFoundError code msg))" "e = None"
      by (auto simp: real_get_entity_def sdk_then_def split: timed.splits sum.splits sdk_exn.splits)
    with get show ?thesis by (simp add: entity_at_def plain_rows_def)
  qed
  with get show "valid w' \<and> items w' = items w \<and> evolves w w' \<and>
      (\<forall>e. gres = Finished (Inr e) \<longrightarrow> e = entity_at (plain_rows (items w)) (p, r))" by simp
next
  assume q: "real_query C pk rk w = (qres, w')"
  let ?sel = "\<lambda>k. (pk = None \<or> pk = Some (fst k)) \<and> (rk = None \<or> rk = Some (snd k))"
  let ?call = "if query_clauses pk rk = [] then sdk_list_entities C
      else sdk_query_entities C (str_join '' and '' (query_clauses pk rk)) (query_parameters pk rk)"
  obtain res v where c: "?call w = (res, v)" by fastforce
  have read: "valid v \<and> items v = items w \<and> evolves w v \<and> (\<forall>es. res = Finished (Inr es) \<longrightarrow> entities_of (items w) ?sel es)"
  proof (cases "query_clauses pk rk = []")
    case True
    then have "?sel = (\<lambda>_. True)" by (auto simp: query_clauses_def split: option.splits)
    with sdk_list [OF assms, of res v] c True show ?thesis by simp
  next
    case False
    then obtain cs where cs: "query_clauses pk rk = map comparison cs" "comparisons_ok cs (query_parameters pk rk)"
        "comparisons_hold cs (query_parameters pk rk) = ?sel" by (rule query_clauses_comparisons)
    from c False have "sdk_query_entities C (str_join '' and '' (map comparison cs)) (query_parameters pk rk) w = (res, v)"
      by (simp add: cs(1))
    from sdk_query [OF assms cs(2) this, unfolded cs(3)] show ?thesis .
  qed
  from q c have "v = w'" and r: "qres = (case res of TooLate \<Rightarrow> TooLate | Finished (Inl x) \<Rightarrow> Finished (Inl (http_exn x))
      | Finished (Inr es) \<Rightarrow> Finished (case map_res to_record es of Inl text \<Rightarrow> Inl (BackendException text) | Inr rs \<Rightarrow> Inr rs))"
    by (auto simp: real_query_def sdk_then_def Let_def split: timed.splits sum.splits if_splits)
  moreover have "distinct rs \<and> set rs = {e. \<exists>k. entity_at (plain_rows (items w)) k = Some e \<and> ?sel k}" if "qres = Finished (Inr rs)" for rs
  proof -
    from that r obtain es where es: "res = Finished (Inr es)" "map_res to_record es = Inr rs"
      by (auto split: timed.splits sum.splits)
    with read have "entities_of (items w) ?sel es" by blast
    from entities_of_records [OF this keys_stored [OF assms]] es(2) show ?thesis by auto
  qed
  ultimately show "valid w' \<and> items w' = items w \<and> evolves w w' \<and>
      (\<forall>es. qres = Finished (Inr es) \<longrightarrow> distinct es \<and> set es = {e. \<exists>k. entity_at (plain_rows (items w)) k = Some e \<and> ?sel k})"
    using read by blast
qed

lemma real_upsert:
  assumes "valid w" and "plain_data data" and "real_upsert_entity C p r data etag w = (ures, w')"
  shows "valid w' \<and> evolves w w' \<and> (case ures of
      Finished (Inr t) \<Rightarrow> written (plain_rows (items w)) (p, r) data etag (plain_rows (items w')) \<and>
        (\<exists>d. plain_rows (items w') (p, r) = Some (d, t))
    | _ \<Rightarrow> plain_rows (items w') = plain_rows (items w) \<or> written (plain_rows (items w)) (p, r) data etag (plain_rows (items w')))"
proof -
  let ?entity = "dict_update [(''PartitionKey'', PStr p), (''RowKey'', PStr r)] data"
  let ?call = "case etag of None \<Rightarrow> sdk_create_entity C ?entity | Some t \<Rightarrow> sdk_update_entity C ?entity REPLACE t IfNotModified"
  obtain res where c: "?call w = (res, w')" and u: "ures = (case res of TooLate \<Rightarrow> TooLate | Finished (Inl x) \<Rightarrow> Finished (Inl (http_exn x))
      | Finished (Inr m) \<Rightarrow> Finished (Inr (case map_of m ''etag'' of None \<Rightarrow> [] | Some t \<Rightarrow> t)))"
    using assms(3) by (auto simp: real_upsert_entity_def sdk_then_def Let_def split: timed.splits sum.splits prod.splits)
  note entity = written_entity [OF assms(2), of p r]
  have "valid w' \<and> evolves w w' \<and> (case res of
      Finished (Inr m) \<Rightarrow> \<exists>t. map_of m ''etag'' = Some t \<and> etag \<noteq> Some t \<and> write_allowed (plain_rows (items w)) (p, r) etag \<and>
        stores (items w) (p, r) ?entity t (items w')
    | _ \<Rightarrow> items w' = items w \<or> (\<exists>t. etag \<noteq> Some t \<and> write_allowed (plain_rows (items w)) (p, r) etag \<and>
        stores (items w) (p, r) ?entity t (items w')))"
  proof (cases etag)
    case None
    with sdk_create [OF assms(1) entity(1,2), of res w'] c show ?thesis
      by (cases res) (auto simp: plain_write_allowed split: sum.splits)
  next
    case (Some t)
    with sdk_update [OF assms(1) entity(1,2), of t res w'] c show ?thesis
      by (cases res) (auto simp: plain_write_allowed split: sum.splits)
  qed
  then show ?thesis using u stores_written [OF assms(2), of "items w" p r _ "items w'" etag]
    by (cases res) (auto split: sum.splits)
qed

lemma real_delete:
  assumes "valid w" and "real_delete_entity C p r w = (dres, w')"
  shows "valid w' \<and> evolves w w' \<and> (case dres of Finished (Inr _) \<Rightarrow> plain_rows (items w') = (plain_rows (items w))((p, r) := None)
    | _ \<Rightarrow> plain_rows (items w') = plain_rows (items w) \<or> plain_rows (items w') = (plain_rows (items w))((p, r) := None))"
proof -
  obtain res where c: "sdk_delete_entity C p r w = (res, w')"
    and d: "dres = (case res of TooLate \<Rightarrow> TooLate | Finished (Inl x) \<Rightarrow> Finished (Inl (http_exn x)) | Finished (Inr _) \<Rightarrow> Finished (Inr ()))"
    using assms(2) by (auto simp: real_delete_entity_def sdk_then_def split: timed.splits sum.splits prod.splits)
  from sdk_delete [OF assms(1) c] d show ?thesis by (cases res) (auto split: sum.splits)
qed

end

sublocale table_sdk < table_service "real_table_backend C" valid "\<lambda>w. plain_rows (items w)" evolves
proof (unfold_locales, goal_cases)
  case (1 w p r res w')
  then show ?case using real_reads(1) [of w p r res w'] by (simp add: real_table_backend_def)
next
  case (2 w pk rk qres w')
  then show ?case using real_reads(2) [of w pk rk qres w'] by (simp add: real_table_backend_def)
next
  case (3 w data p r etag ures w')
  then show ?case using real_upsert [of w data p r etag ures w'] by (simp add: real_table_backend_def)
next
  case (4 w p r dres w')
  then show ?case using real_delete [of w p r dres w'] by (simp add: real_table_backend_def)
next
  case (8 w w' k d t d')
  then show ?case using sdk_etag [of w w' k _ t] by (fastforce simp: plain_rows_def)
qed (fact sdk_evolves_valid sdk_evolves_refl sdk_evolves_trans)+

context table_sdk
begin

lemma real_backend_service: "table_service (real_table_backend C) valid (\<lambda>w. plain_rows (items w)) evolves"
  by (rule table_service_axioms)

end

section \<open>A client in memory\<close>

text \<open>
  The client splits a filter at its spaces, as the SDK does, and adds a time stamp to what it stores. It
  satisfies the laws.
\<close>

fun split_space :: "string \<Rightarrow> string list" where
  "split_space [] = [[]]"
| "split_space (c # s) = (case split_space s of
     [] \<Rightarrow> [[c]] | w # ws \<Rightarrow> if c = CHR '' '' then [] # w # ws else (c # w) # ws)"

fun parse_filter :: "string list \<Rightarrow> (string \<times> string) list" where
  "parse_filter (c # _ # n # _ # ws) = (c, tl n) # parse_filter ws"
| "parse_filter [c, _, n] = [(c, tl n)]"
| "parse_filter _ = []"

definition mem_sdk_entity :: "(string \<times> string) \<times> entity_data \<times> nat \<Rightarrow> sdk_entity" where
  "mem_sdk_entity = (\<lambda>(_, d, i). \<lparr>se_items = d, se_metadata = Some [(''etag'', str_int (int i))]\<rparr>)"

definition mem_sdk_select :: "(string \<times> string \<Rightarrow> bool) \<Rightarrow> (sdk_entity list, mem_table) sdk_call" where
  "mem_sdk_select sel M = (Finished (Inr (map mem_sdk_entity (filter (\<lambda>row. sel (fst row)) (mt_rows M)))), M)"

definition mem_sdk_put :: "entity_data \<Rightarrow> (string option \<Rightarrow> bool) \<Rightarrow> int \<Rightarrow> ((string, string) dict, mem_table) sdk_call" where
  "mem_sdk_put entity allowed code M = (case (map_of entity ''PartitionKey'', map_of entity ''RowKey'') of
       (Some (PStr p), Some (PStr r)) \<Rightarrow>
         if allowed (map_option snd (mem_rows M (p, r)))
         then (case mem_put (p, r) (dict_set ''Timestamp'' (PInt 0) entity) M of
             (_, M') \<Rightarrow> (Finished (Inr [(''etag'', str_int (int (mt_next M)))]), M'))
         else (Finished (Inl (SdkError (HttpResponseError (Some code) []))), M)
     | _ \<Rightarrow> (Finished (Inl (SdkError (BackendException ''ValueError''))), M))"

definition mem_sdk :: "mem_table sdk_client" where
  "mem_sdk = \<lparr>sdk_get_entity = \<lambda>p r M. (case map_of (mt_rows M) (p, r) of
         None \<Rightarrow> (Finished (Inl (ResourceNotFoundError (Some 404) ''ResourceNotFound'')), M)
       | Some row \<Rightarrow> (Finished (Inr (mem_sdk_entity ((p, r), row))), M)),
     sdk_list_entities = mem_sdk_select (\<lambda>_. True),
     sdk_query_entities = \<lambda>f params. mem_sdk_select (\<lambda>k. list_all (\<lambda>(c, n). map_of params n = Some (key_value c k)) (parse_filter (split_space f))),
     sdk_create_entity = \<lambda>entity. mem_sdk_put entity (\<lambda>t. t = None) 409,
     sdk_update_entity = \<lambda>entity mode etag cond. mem_sdk_put entity (\<lambda>t. t = Some etag \<or> cond = Unconditionally) 412,
     sdk_delete_entity = \<lambda>p r M. (Finished (Inr ()), M\<lparr>mt_rows := dict_pop (p, r) (mt_rows M)\<rparr>)\<rparr>"

definition mem_sdk_valid :: "mem_table \<Rightarrow> bool" where
  "mem_sdk_valid M \<longleftrightarrow> mem_valid M \<and> (\<forall>k d t. mem_rows M k = Some (d, t) \<longrightarrow> keyed k d)"

definition mem_sdk_evolves :: "mem_table \<Rightarrow> mem_table \<Rightarrow> bool" where
  "mem_sdk_evolves M M' \<longleftrightarrow> mem_evolves M M' \<and> mem_sdk_valid M'"

lemma split_space_nonempty: "split_space s \<noteq> []"
  by (cases s) (auto split: list.splits)

lemma split_space_word: "CHR '' '' \<notin> set x \<Longrightarrow> split_space x = [x]"
  by (induction x) auto

lemma split_space_words: "CHR '' '' \<notin> set x \<Longrightarrow> split_space (x @ CHR '' '' # s) = x # split_space s"
  using split_space_nonempty [of s] by (induction x) (auto split: list.splits)

lemma parse_comparisons:
  assumes "comparisons_ok cs params"
  shows "parse_filter (split_space (str_join '' and '' (map comparison cs))) = cs"
proof -
  have eq: "split_space (comparison (c, n)) = [c, ''eq'', CHR ''@'' # n]"
    and more: "split_space (comparison (c, n) @ '' and '' @ s) = [c, ''eq'', CHR ''@'' # n, ''and''] @ split_space s"
    if "CHR '' '' \<notin> set c" "CHR '' '' \<notin> set n" for c n s
    using that split_space_words [of c "''eq @'' @ n"] split_space_words [of c "''eq @'' @ n @ '' and '' @ s"]
      split_space_words [of "''eq''" "CHR ''@'' # n"] split_space_words [of "''eq''" "CHR ''@'' # n @ '' and '' @ s"]
      split_space_words [of "CHR ''@'' # n" "''and '' @ s"] split_space_words [of "''and''" s] split_space_word [of "CHR ''@'' # n"]
    by (simp_all add: comparison_def)
  from assms have "cs \<noteq> []" "\<forall>(c, n)\<in>set cs. CHR '' '' \<notin> set c \<and> CHR '' '' \<notin> set n" by (auto simp: comparisons_ok_def)
  then show ?thesis
  proof (induction cs rule: induct_list012)
    case (2 x)
    then show ?case using eq by (cases x) simp
  next
    case (3 x y zs)
    then show ?case using more by (cases x) simp
  qed simp
qed

lemma mem_sdk_represents:
  assumes "map_of (mt_rows M) k = Some row"
  shows "represents (mem_rows M) k (mem_sdk_entity (k, row))"
  using assms by (cases row) (auto simp: represents_def mem_sdk_entity_def mem_rows_def)

lemma mem_sdk_select_entities:
  assumes "mem_sdk_valid M" and "mem_sdk_select sel M = (res, M')"
  shows "mem_sdk_valid M' \<and> mem_rows M' = mem_rows M \<and> mem_sdk_evolves M M' \<and>
    (\<forall>es. res = Finished (Inr es) \<longrightarrow> entities_of (mem_rows M) sel es)"
proof -
  let ?rows = "filter (\<lambda>row. sel (fst row)) (mt_rows M)"
  have ok: "dict_ok (mt_rows M)" using assms(1) by (simp add: mem_sdk_valid_def mem_valid_def)
  have "entities_of (mem_rows M) sel (map mem_sdk_entity ?rows)"
    unfolding entities_of_def
  proof (intro exI conjI)
    show "distinct (map fst ?rows)" using ok by (rule distinct_map_filter)
    show "set (map fst ?rows) = {k. mem_rows M k \<noteq> None \<and> sel k}"
      by (force simp: mem_rows_def map_of_eq_None_iff image_iff)
    show "list_all2 (represents (mem_rows M)) (map fst ?rows) (map mem_sdk_entity ?rows)"
      using ok mem_sdk_represents [of M] by (force simp: list_all2_map1 list_all2_map2 intro: list.rel_refl_strong)
  qed
  with assms show ?thesis by (auto simp: mem_sdk_select_def mem_sdk_evolves_def mem_sdk_valid_def mem_evolves_def)
qed

lemma mem_sdk_put_stores:
  assumes "mem_sdk_valid M" and "keyed (p, r) entity" and "mem_sdk_put entity allowed code M = (res, M')"
    and "\<And>t. allowed t \<longleftrightarrow> t = etag"
  shows "mem_sdk_valid M' \<and> mem_sdk_evolves M M' \<and>
    (case res of Finished (Inr m) \<Rightarrow> map_option snd (mem_rows M (p, r)) = etag \<and>
         (\<exists>t. etag \<noteq> Some t \<and> map_of m ''etag'' = Some t \<and> stores (mem_rows M) (p, r) entity t (mem_rows M'))
     | _ \<Rightarrow> mem_rows M' = mem_rows M)"
proof (cases "map_option snd (mem_rows M (p, r)) = etag")
  case False
  with assms show ?thesis by (auto simp: mem_sdk_put_def keyed_def mem_sdk_evolves_def mem_sdk_valid_def mem_evolves_def)
next
  case True
  let ?d = "dict_set ''Timestamp'' (PInt 0) entity" and ?t = "str_int (int (mt_next M))"
  have v: "mem_valid M" using assms(1) by (simp add: mem_sdk_valid_def)
  obtain x where put: "mem_put (p, r) ?d M = (x, M')" and res: "res = Finished (Inr [(''etag'', ?t)])"
    using assms True by (auto simp: mem_sdk_put_def keyed_def split: prod.splits)
  have "write_allowed (mem_rows M) (p, r) etag" using True by (cases "mem_rows M (p, r)") (auto simp: write_allowed_def)
  from mem_put_written [OF v this put] have M': "mem_valid M'" "mem_evolves M M'" by auto
  have rows: "mem_rows M' = (mem_rows M)((p, r) \<mapsto> (?d, ?t))" using put by (auto simp: mem_put_def mem_rows_def fun_eq_iff)
  have "keyed (p, r) ?d" using assms(2) by (simp add: keyed_def)
  with assms(1) M'(1) rows have valid: "mem_sdk_valid M'" by (simp add: mem_sdk_valid_def)
  have "etag \<noteq> Some ?t" using True v by (auto simp: mem_rows_def str_int_inj dest!: mem_valid_lt)
  moreover have "stores (mem_rows M) (p, r) entity ?t (mem_rows M')" unfolding stores_def rows by (intro exI [of _ ?d]) simp
  ultimately show ?thesis using M' valid res True by (simp add: mem_sdk_evolves_def)
qed

interpretation mem_sdk_service: table_sdk mem_sdk mem_sdk_valid mem_rows mem_sdk_evolves
proof (unfold_locales, goal_cases)
  case (1 w k d t)
  then show ?case unfolding mem_sdk_valid_def by blast
next
  case (2 w p r res w')
  then show ?case
    using mem_sdk_represents [of w "(p, r)"] by (auto simp: mem_sdk_def mem_sdk_evolves_def mem_sdk_valid_def mem_evolves_def mem_rows_def split: option.splits)
next
  case (3 w lres w')
  then show ?case using mem_sdk_select_entities [of w "\<lambda>_. True" lres w'] by (simp add: mem_sdk_def)
next
  case (4 w cs params qres w')
  let ?sel = "\<lambda>k. list_all (\<lambda>(c, n). map_of params n = Some (key_value c k)) cs"
  have sel: "comparisons_hold cs params = ?sel" by (simp add: comparisons_hold_def list_all_iff fun_eq_iff)
  from 4(3) have "mem_sdk_select ?sel w = (qres, w')" by (simp add: mem_sdk_def parse_comparisons [OF 4(2)])
  from mem_sdk_select_entities [OF 4(1) this] show ?case unfolding sel .
next
  case (5 w entity k cres w')
  obtain p r where k: "k = (p, r)" by fastforce
  from 5(4) have "mem_sdk_put entity (\<lambda>t. t = None) 409 w = (cres, w')" by (simp add: mem_sdk_def)
  from mem_sdk_put_stores [OF 5(1) 5(3) [unfolded k] this, of None] show ?case unfolding k by (auto split: timed.splits sum.splits)
next
  case (6 w entity k etag ures w')
  obtain p r where k: "k = (p, r)" by fastforce
  from 6(4) have "mem_sdk_put entity (\<lambda>t. t = Some etag) 412 w = (ures, w')" by (simp add: mem_sdk_def)
  from mem_sdk_put_stores [OF 6(1) 6(3) [unfolded k] this, of "Some etag"] show ?case unfolding k by (auto split: timed.splits sum.splits)
next
  case (7 w p r dres w')
  then show ?case
    using mem_service.delete [of w p r "Finished (Inr ())" w']
    by (auto simp: mem_sdk_def mem_backend_def mem_sdk_evolves_def mem_sdk_valid_def split: if_splits)
next
  case (11 w w' k d t d')
  then show ?case using mem_service.etag_identifies [of w w' k d t d'] by (simp add: mem_sdk_valid_def mem_sdk_evolves_def)
qed (auto simp: mem_sdk_evolves_def mem_sdk_valid_def mem_evolves_def)

section \<open>The property\<close>

text \<open>
  C10. The production backend keeps the contract of the table service, on which the guarantees of the scenario
  store and of the index registry rest: over any client that behaves as the SDK documents, a read
  returns the stored row or none, a query exactly the rows of the given keys, a write without an ETag
  takes effect only on an absent row and one with an ETag only on the row with it, and a call that
  raises or is cut off did its one effect or nothing; the properties of the service itself never reach
  the stores.
\<close>

theorem real_backend_keeps_contract:
  assumes "table_sdk C valid items evolves"
  shows "table_service (real_table_backend C) valid (\<lambda>w. plain_rows (items w)) evolves"
  by (rule table_sdk.real_backend_service [OF assms])

definition demo_write :: "mem_table \<Rightarrow> mem_table" where
  "demo_write M = snd (real_upsert_entity mem_sdk ''v'' ''idx'' [(''dimensions'', PInt 3)] None M)"

theorem real_backend_keeps_contract_witness:
  "table_service (real_table_backend mem_sdk) mem_sdk_valid (\<lambda>w. plain_rows (mem_rows w)) mem_sdk_evolves \<and>
   mem_sdk_valid demo_table \<and>
   fst (real_get_entity mem_sdk ''v'' ''idx'' (demo_write demo_table)) =
     Finished (Inr (Some \<lparr>te_partition_key = ''v'', te_row_key = ''idx'', te_data = [(''dimensions'', PInt 3)], te_etag = ''0''\<rparr>)) \<and>
   fst (real_query mem_sdk None (Some ''idx'') (demo_write demo_table)) =
     Finished (Inr [\<lparr>te_partition_key = ''v'', te_row_key = ''idx'', te_data = [(''dimensions'', PInt 3)], te_etag = ''0''\<rparr>]) \<and>
   fst (real_get_entity mem_sdk ''v'' ''other'' (demo_write demo_table)) = Finished (Inr None) \<and>
   fst (real_upsert_entity mem_sdk ''v'' ''idx'' [] (Some ''7'') (demo_write demo_table)) = Finished (Inl (HttpResponseError (Some 412) []))"
proof (intro conjI)
  show "table_service (real_table_backend mem_sdk) mem_sdk_valid (\<lambda>w. plain_rows (mem_rows w)) mem_sdk_evolves"
    by (rule real_backend_keeps_contract [OF mem_sdk_service.table_sdk_axioms])
  show "mem_sdk_valid demo_table" using demo_table_valid by (simp add: mem_sdk_valid_def mem_rows_def demo_table_def)
qed (code_simp)+

end
