(* ===== verification/Table_Provisioning.thy ===== *)
theory Table_Provisioning
  imports Azure_Table Azure_Provisioner
begin

text \<open>
  Provisioning in production: the protocol of \<open>src/vestibule/provisioning/provisioner.py\<close> over the registry on Azure Table
  Storage (\<open>stores/table_storage_registry.py\<close>), behind a cache per process, and over the Azure adapter, down to
  the two SDKs.

  A method of the table registry that updates an entry reads the row first and writes it later under the
  ETag it read. Its two halves are taken apart (\<open>update_plan\<close>, \<open>reclaim_plan\<close>, \<open>commit\<close>; the lemmas \<open>update_record_split\<close> and
  \<open>reclaim_split\<close> say that they make up the method), and other processes may do any number of calls in
  between: the state of the registry keeps its history, and a call commits what it read at any earlier
  moment. The read after a refused create is taken to follow the create at once, which changes the answer only
  when the create took effect and its answer was lost.
\<close>

section \<open>The two halves of an update\<close>

definition update_plan ::
    "registry_codec \<Rightarrow> (int \<Rightarrow> nat) \<Rightarrow> table_client \<Rightarrow> 'w table_backend \<Rightarrow> string \<Rightarrow> (registry_entry \<Rightarrow> prov_exn + unit) \<Rightarrow>
     (registry_entry \<Rightarrow> registry_entry) \<Rightarrow> 'w \<Rightarrow> (prov_exn, string \<times> registry_entry \<times> string, 'w) outcome" where
  "update_plan C grants T B index_name check update w = (case require_record grants T B index_name w of
       (Inl e, w1) \<Rightarrow> (Inl e, w1)
     | (Inr m, w1) \<Rightarrow> (case entity_to_entry C m of
           Inl e \<Rightarrow> (Inl e, w1)
         | Inr entry \<Rightarrow> (case check entry of
               Inl e \<Rightarrow> (Inl e, w1)
             | Inr _ \<Rightarrow> (Inr (re_vertical entry, update entry, te_etag m), w1))))"

definition reclaim_plan ::
    "registry_codec \<Rightarrow> (int \<Rightarrow> nat) \<Rightarrow> table_client \<Rightarrow> 'w table_backend \<Rightarrow> string \<Rightarrow> registry_entry \<Rightarrow> registry_entry \<Rightarrow> 'w \<Rightarrow>
     (prov_exn, string \<times> registry_entry \<times> string, 'w) outcome" where
  "reclaim_plan C grants T B index_name observed new_entry w =
     (case registry_call grants T (tb_get_entity B (re_vertical observed) index_name) w of
        (Inl e, w1) \<Rightarrow> (Inl e, w1)
      | (Inr None, w1) \<Rightarrow> (Inl (stale_snapshot index_name), w1)
      | (Inr (Some m), w1) \<Rightarrow> (case entity_to_entry C m of
            Inl e \<Rightarrow> (Inl e, w1)
          | Inr current \<Rightarrow>
              if current \<noteq> observed then (Inl (stale_snapshot index_name), w1)
              else (Inr (re_vertical new_entry, new_entry, te_etag m), w1)))"

definition commit ::
    "registry_codec \<Rightarrow> (int \<Rightarrow> nat) \<Rightarrow> table_client \<Rightarrow> 'w table_backend \<Rightarrow> string \<Rightarrow> prov_exn + string \<times> registry_entry \<times> string \<Rightarrow> 'w \<Rightarrow>
     (prov_exn, registry_entry, 'w) outcome" where
  "commit C grants T B index_name plan w = (case plan of
       Inl e \<Rightarrow> (Inl e, w)
     | Inr (vertical, entry, etag) \<Rightarrow> write_entry C grants T B vertical index_name entry (Some etag) w)"

lemma update_record_split:
  "update_record C grants T B between n check f w = (case update_plan C grants T B n check f w of
     (plan, w1) \<Rightarrow> commit C grants T B n plan (if isl plan then w1 else between w1))"
  by (simp add: update_record_def update_plan_def commit_def split: prod.splits sum.splits)

lemma reclaim_split:
  "registry_table_reclaim C grants T B between n observed new w = (case reclaim_plan C grants T B n observed new w of
     (plan, w1) \<Rightarrow> commit C grants T B n plan (if isl plan then w1 else between w1))"
  by (simp add: registry_table_reclaim_def reclaim_plan_def commit_def split: prod.splits sum.splits option.splits)

section \<open>The registry with its history\<close>

record 'w table_history =
  th_now :: 'w
  th_past :: "'w list"

definition advance :: "'w \<Rightarrow> 'w table_history \<Rightarrow> 'w table_history" where
  "advance w H = \<lparr>th_now = w, th_past = th_now H # th_past H\<rparr>"

text \<open>The state \<open>k\<close> calls ago (the oldest one when there are fewer).\<close>

definition seen_at :: "nat \<Rightarrow> 'w table_history \<Rightarrow> 'w" where
  "seen_at k H = (th_now H # th_past H) ! min k (length (th_past H))"

text \<open>The reads of other calls in flight: they change nothing in the rows, but the service sees them.\<close>

datatype table_read = ReadRow string string | ReadRows "string option" "string option"

fun read_effect :: "(int \<Rightarrow> nat) \<Rightarrow> table_client \<Rightarrow> 'w table_backend \<Rightarrow> table_read \<Rightarrow> 'w \<Rightarrow> 'w" where
  "read_effect grants T B (ReadRow p r) w = snd (registry_call grants T (tb_get_entity B p r) w)"
| "read_effect grants T B (ReadRows p r) w = snd (registry_call grants T (tb_query B p r) w)"

definition settle :: "(int \<Rightarrow> nat) \<Rightarrow> table_client \<Rightarrow> 'w table_backend \<Rightarrow> table_read list \<Rightarrow> 'w table_history \<Rightarrow> 'w table_history" where
  "settle grants T B reads H = fold (\<lambda>rd H. advance (read_effect grants T B rd (th_now H)) H) reads H"

definition prompt_call :: "('w \<Rightarrow> (prov_exn, 'a, 'w) outcome) \<Rightarrow> 'w table_history \<Rightarrow> (prov_exn, 'a, 'w table_history) outcome" where
  "prompt_call f H = (case f (th_now H) of (r, w) \<Rightarrow> (r, advance w H))"

definition late_call ::
    "registry_codec \<Rightarrow> (int \<Rightarrow> nat) \<Rightarrow> table_client \<Rightarrow> 'w table_backend \<Rightarrow> nat \<Rightarrow> string \<Rightarrow>
     ('w \<Rightarrow> (prov_exn, string \<times> registry_entry \<times> string, 'w) outcome) \<Rightarrow> 'w table_history \<Rightarrow>
     (prov_exn, registry_entry, 'w table_history) outcome" where
  "late_call C grants T B k index_name plan H =
     (case commit C grants T B index_name (fst (plan (seen_at k H))) (th_now H) of (r, w) \<Rightarrow> (r, advance w H))"

text \<open>One call in the context of the reads that happen just before it and of the moment of its own read.\<close>

definition settled :: "(int \<Rightarrow> nat) \<Rightarrow> table_client \<Rightarrow> 'w table_backend \<Rightarrow> table_read list \<Rightarrow> ('w table_history \<Rightarrow> 'a) \<Rightarrow> 'w table_history \<Rightarrow> 'a" where
  "settled grants T B reads call H = call (settle grants T B reads H)"

definition table_registry_port ::
    "registry_codec \<Rightarrow> (int \<Rightarrow> nat) \<Rightarrow> table_client \<Rightarrow> 'w table_backend \<Rightarrow> table_read list \<times> nat \<Rightarrow> 'w table_history registry_port" where
  "table_registry_port C grants T B c =
     \<lparr>gp_get = \<lambda>n. settled grants T B (fst c) (prompt_call (registry_table_get C grants T B n)),
      gp_list_by_vertical = \<lambda>v. settled grants T B (fst c) (prompt_call (registry_table_list C grants T B v)),
      gp_register = \<lambda>e. settled grants T B (fst c) (prompt_call (registry_table_register C grants T B id e)),
      gp_reclaim = \<lambda>n observed new. settled grants T B (fst c)
        (late_call C grants T B (snd c) n (reclaim_plan C grants T B n observed new)),
      gp_touch_verified = \<lambda>now n. settled grants T B (fst c)
        (late_call C grants T B (snd c) n (update_plan C grants T B n (\<lambda>_. Inr ()) (verified_entry now))),
      gp_mark_ready = \<lambda>now n t. settled grants T B (fst c)
        (late_call C grants T B (snd c) n (update_plan C grants T B n (\<lambda>e. check_claim_token e t) (ready_entry now))),
      gp_mark_failed = \<lambda>n reason t. settled grants T B (fst c)
        (late_call C grants T B (snd c) n (update_plan C grants T B n (\<lambda>e. check_claim_token e t) (failed_entry reason))),
      gp_mark_retired = \<lambda>n. settled grants T B (fst c)
        (late_call C grants T B (snd c) n (update_plan C grants T B n (\<lambda>_. Inr ()) retired_entry))\<rparr>"

section \<open>A guarded port\<close>

text \<open>
  The contract of a registry is about all states of it. The table keeps it in good states and for
  admissible entries; the guarded port does nothing elsewhere, so that it keeps the contract everywhere, and
  the runs of the system never notice the guard.
\<close>

definition guard :: "bool \<Rightarrow> ('r \<Rightarrow> (prov_exn, 'a, 'r) outcome) \<Rightarrow> 'r \<Rightarrow> (prov_exn, 'a, 'r) outcome" where
  "guard b f R = (if b then f R else (Inl (ProvException []), R))"

definition guarded :: "('r \<Rightarrow> bool) \<Rightarrow> (string \<Rightarrow> registry_entry \<Rightarrow> bool) \<Rightarrow> 'r registry_port \<Rightarrow> 'r registry_port" where
  "guarded good adm P =
     \<lparr>gp_get = \<lambda>n R. guard (good R) (gp_get P n) R, gp_list_by_vertical = gp_list_by_vertical P,
      gp_register = \<lambda>e R. guard (good R \<and> adm (re_index_name e) e) (gp_register P e) R,
      gp_reclaim = \<lambda>n e e' R. guard (good R \<and> adm n e \<and> adm n e') (gp_reclaim P n e e') R,
      gp_touch_verified = \<lambda>now n R. guard (good R) (gp_touch_verified P now n) R,
      gp_mark_ready = \<lambda>now n t R. guard (good R) (gp_mark_ready P now n t) R,
      gp_mark_failed = \<lambda>n reason t R. guard (good R) (gp_mark_failed P n reason t) R,
      gp_mark_retired = \<lambda>n R. guard (good R) (gp_mark_retired P n) R\<rparr>"

definition admissible :: "(string \<Rightarrow> string) \<Rightarrow> index_template set \<Rightarrow> string \<Rightarrow> registry_entry \<Rightarrow> bool" where
  "admissible owner TS n e \<longleftrightarrow> storable TS e \<and> re_index_name e = n \<and> re_vertical e = owner n"

lemma admissible_updates:
  "admissible owner TS n e \<Longrightarrow> admissible owner TS n (verified_entry now e)" "admissible owner TS n e \<Longrightarrow> admissible owner TS n (ready_entry now e)"
  "admissible owner TS n e \<Longrightarrow> admissible owner TS n (failed_entry r e)" "admissible owner TS n e \<Longrightarrow> admissible owner TS n (retired_entry e)"
  by (simp_all add: admissible_def storable_def verified_entry_def ready_entry_def failed_entry_def retired_entry_def)

lemma guard_keeps: "(b \<Longrightarrow> J (snd (f R))) \<Longrightarrow> J R \<Longrightarrow> J (snd (guard b f R))"
  by (simp add: guard_def)

lemma guard_call_ok:
  assumes "\<And>R. b R \<Longrightarrow> refines_call contents spec R (f R)"
  shows "call_ok contents (\<lambda>_ _. {}) spec (\<lambda>R. guard (b R) f R)"
  using assms by (simp add: call_ok_def guard_def views_step_def refines_call_def)

section \<open>The table registry in good states\<close>

definition good_history :: "('w \<Rightarrow> bool) \<Rightarrow> ('w \<Rightarrow> table_rows) \<Rightarrow> ('w \<Rightarrow> 'w \<Rightarrow> bool) \<Rightarrow> (string \<Rightarrow> string) \<Rightarrow> registry_codec \<Rightarrow> 'w table_history \<Rightarrow> bool" where
  "good_history valid rows evolves owner C H \<longleftrightarrow> valid (th_now H) \<and> rows_ok owner C (rows (th_now H)) \<and>
     (\<forall>v \<in> set (th_past H). valid v \<and> rows_ok owner C (rows v) \<and> evolves v (th_now H))"

lemma rows_owner: "rows_ok owner C rs \<Longrightarrow> rs (v, n) = Some (d, t) \<Longrightarrow> v = owner n"
  unfolding rows_ok_def by blast

locale table_registry = table_service B valid rows evolves
  for B :: "'w table_backend" and valid rows evolves +
  fixes C :: registry_codec and TS :: "index_template set" and owner :: "string \<Rightarrow> string" and grants :: "int \<Rightarrow> nat" and T :: table_client
  assumes codec: "registry_codec_ok C TS"
begin

abbreviation good :: "'w table_history \<Rightarrow> bool" where
  "good \<equiv> good_history valid rows evolves owner C"

abbreviation table_entries :: "'w table_history \<Rightarrow> registry_map" where
  "table_entries H \<equiv> entries owner C (rows (th_now H))"

lemma good_advance:
  assumes "good H" and "valid w" and "evolves (th_now H) w" and "rows_ok owner C (rows w)"
  shows "good (advance w H)"
  using assms evolves_trans [of _ "th_now H" w] by (auto simp: good_history_def advance_def)

lemma good_settle: "good H \<Longrightarrow> good (settle grants T B reads H) \<and> table_entries (settle grants T B reads H) = table_entries H"
proof (induction reads arbitrary: H)
  case (Cons rd reads)
  let ?w = "read_effect grants T B rd (th_now H)"
  have v: "valid (th_now H)" "rows_ok owner C (rows (th_now H))" using Cons.prems by (simp_all add: good_history_def)
  have r: "valid ?w \<and> rows ?w = rows (th_now H) \<and> evolves (th_now H) ?w"
  proof (cases rd)
    case (ReadRow p r)
    then show ?thesis using registry_get_entity [OF v(1), of grants T p r] by (metis prod.collapse read_effect.simps(1))
  next
    case (ReadRows p r)
    then show ?thesis using registry_query [OF v(1), of grants T p r] by (metis prod.collapse read_effect.simps(2))
  qed
  with good_advance [OF Cons.prems, of ?w] v(2) have "good (advance ?w H)" by simp
  from Cons.IH [OF this] r show ?case by (simp add: settle_def advance_def)
qed (simp add: settle_def)

lemma good_seen:
  assumes "good H"
  shows "valid (seen_at k H)" and "rows_ok owner C (rows (seen_at k H))" and "evolves (seen_at k H) (th_now H)"
proof -
  have "min k (length (th_past H)) < length (th_now H # th_past H)" by simp
  then have "seen_at k H \<in> set (th_now H # th_past H)" unfolding seen_at_def by (rule nth_mem)
  then show "valid (seen_at k H)" "rows_ok owner C (rows (seen_at k H))" "evolves (seen_at k H) (th_now H)"
    using assms evolves_refl by (auto simp: good_history_def)
qed

lemma prompt_read:
  assumes "good H" and "registry_table_get C grants T B n (th_now H) = (res, w)"
  shows "good (advance w H) \<and> rows w = rows (th_now H) \<and> (\<forall>v. res = Inr v \<longrightarrow> v = table_entries H n)"
proof -
  have v: "valid (th_now H)" "rows_ok owner C (rows (th_now H))" using assms(1) by (simp_all add: good_history_def)
  obtain q where q: "registry_call grants T (tb_query B None (Some n)) (th_now H) = (q, w)"
    using assms(2) by (auto simp: registry_table_get_def split: prod.splits sum.splits list.splits)
  note r = registry_query [OF v(1) q]
  have "v = table_entries H n" if "res = Inr v" for v
  proof (cases q)
    case (Inr ms)
    have keys: "m \<in> set ms \<longleftrightarrow> entity_at (rows (th_now H)) (owner n, n) = Some m" for m
    proof -
      have "v = owner n" if "entity_at (rows (th_now H)) (v, n) = Some m" for v
        using that rows_owner [OF v(2), of v n] by (simp add: entity_at_Some)
      moreover have "m \<in> set ms \<longleftrightarrow> (\<exists>k. entity_at (rows (th_now H)) k = Some m \<and> snd k = n)" using r Inr by auto
      ultimately show ?thesis by (metis eq_snd_iff snd_conv)
    qed
    show ?thesis
    proof (cases ms)
      case Nil
      then have "rows (th_now H) (owner n, n) = None" using keys by (cases "rows (th_now H) (owner n, n)") (auto simp: entity_at_def)
      with that Nil Inr assms(2) q v(2) show ?thesis by (simp add: registry_table_get_def entries_def)
    next
      case (Cons m ms')
      with keys [of m] have "rows (th_now H) (owner n, n) = Some (te_data m, te_etag m)" by (simp add: entity_at_Some)
      with that Cons Inr assms(2) q show ?thesis
        by (auto simp: registry_table_get_def entries_def entity_to_entry_def split: sum.splits)
    qed
  qed (use that assms(2) q in \<open>simp add: registry_table_get_def\<close>)
  moreover have "good (advance w H)" by (rule good_advance [OF assms(1)]) (use r v in simp_all)
  ultimately show ?thesis using r by blast
qed

lemma late_write:
  assumes "good H" and "plan = (v, e', t)" and "v = owner n" and "admissible owner TS n e'"
    and "rows (seen_at k H) (owner n, n) = Some (d, t)" and "decode_entry C d = Inr e"
    and "\<And>f. f n = Some e \<Longrightarrow> spec f = Some (e', f(n \<mapsto> e'))"
    and "commit C grants T B n (Inr plan) (th_now H) = (res, w)"
  shows "good (advance w H) \<and> refines_call (\<lambda>w. entries owner C (rows w)) spec (th_now H) (res, w)"
proof -
  let ?m = "\<lparr>te_partition_key = owner n, te_row_key = n, te_data = d, te_etag = t\<rparr>"
  have w: "valid (th_now H)" "rows_ok owner C (rows (th_now H))" using assms(1) by (simp_all add: good_history_def)
  have m: "entity_at (rows (seen_at k H)) (owner n, n) = Some ?m" using assms(5) by (simp add: entity_at_Some)
  have wr: "write_entry C grants T B (owner n) n e' (Some (te_etag ?m)) (th_now H) = (res, w)"
    using assms(2,3,8) by (simp add: commit_def)
  have "valid w \<and> rows_ok owner C (rows w) \<and> refines_call (\<lambda>w. entries owner C (rows w)) spec (th_now H) (res, w)"
    by (rule conditional_write [OF codec _ _ _ good_seen(1,3) [OF assms(1)] w(2) m _ assms(7) wr])
      (use assms(4,6) in \<open>simp_all add: admissible_def\<close>)
  with good_advance [OF assms(1), of w] write_entry_call [OF w(1) wr] show ?thesis by blast
qed

text \<open>A call that raises before it writes changes nothing.\<close>

lemma late_raise:
  assumes "good H" and "commit C grants T B n (Inl x) (th_now H) = (res, w)"
  shows "good (advance w H) \<and> refines_call (\<lambda>w. entries owner C (rows w)) spec (th_now H) (res, w)"
  using assms good_advance [OF assms(1), of w] evolves_refl by (auto simp: commit_def refines_call_def good_history_def)

lemma refines_late:
  assumes "\<And>res w. commit C grants T B n (fst (plan (seen_at k H))) (th_now H) = (res, w) \<Longrightarrow>
      good (advance w H) \<and> refines_call (\<lambda>w. entries owner C (rows w)) spec (th_now H) (res, w)"
  shows "good (snd (late_call C grants T B k n plan H)) \<and> refines_call table_entries spec H (late_call C grants T B k n plan H)"
proof -
  obtain res w where "commit C grants T B n (fst (plan (seen_at k H))) (th_now H) = (res, w)" by fastforce
  with assms [OF this] show ?thesis by (cases res) (simp_all add: late_call_def refines_call_def advance_def)
qed

lemma update_late:
  assumes "good H" and upd: "\<And>n e. admissible owner TS n e \<Longrightarrow> admissible owner TS n (f e)"
    and check: "\<And>e. check e = Inr () \<longleftrightarrow> expected = None \<or> re_claim_token e = expected"
  shows "good (snd (late_call C grants T B k n (update_plan C grants T B n check f) H)) \<and>
    refines_call table_entries (reg_update n expected f) H (late_call C grants T B k n (update_plan C grants T B n check f) H)"
proof (rule refines_late)
  fix res w
  let ?v = "seen_at k H"
  assume c: "commit C grants T B n (fst (update_plan C grants T B n check f ?v)) (th_now H) = (res, w)"
  obtain r1 w1 where c1: "require_record grants T B n ?v = (r1, w1)" by fastforce
  note g = require_record_call [OF good_seen(1,2) [OF assms(1)] c1]
  show "good (advance w H) \<and> refines_call (\<lambda>w. entries owner C (rows w)) (reg_update n expected f) (th_now H) (res, w)"
  proof (cases "\<exists>m e. r1 = Inr m \<and> decode_entry C (te_data m) = Inr e \<and> check e = Inr ()")
    case False
    then have "isl (fst (update_plan C grants T B n check f ?v))"
      using c1 by (cases r1) (auto simp: update_plan_def entity_to_entry_def split: sum.splits)
    then obtain x where "fst (update_plan C grants T B n check f ?v) = Inl x" by (auto simp: isl_def)
    with late_raise [OF assms(1)] c show ?thesis by simp
  next
    case True
    then obtain m e where r1: "r1 = Inr m" and e: "decode_entry C (te_data m) = Inr e" and ch: "check e = Inr ()" by blast
    have row: "rows ?v (owner n, n) = Some (te_data m, te_etag m)" using g r1 by (simp add: entity_at_Some)
    with e have "entries owner C (rows ?v) n = Some e" by (simp add: entries_def)
    from entries_key [OF good_seen(2) [OF assms(1)] this] decoded_storable [OF codec e]
    have adm: "admissible owner TS n e" by (simp add: admissible_def)
    have p: "fst (update_plan C grants T B n check f ?v) = Inr (re_vertical e, f e, te_etag m)"
      using c1 r1 e ch by (simp add: update_plan_def entity_to_entry_def)
    have "reg_update n expected f h = Some (f e, h(n \<mapsto> f e))" if "h n = Some e" for h
      using that ch check by (simp add: reg_update_def)
    from late_write [OF assms(1) refl _ upd [OF adm] row e this] c adm show ?thesis by (simp add: p admissible_def)
  qed
qed

lemma reclaim_late:
  assumes "good H" and "admissible owner TS n observed" and "admissible owner TS n new"
  shows "good (snd (late_call C grants T B k n (reclaim_plan C grants T B n observed new) H)) \<and>
    refines_call table_entries (reg_reclaim n observed new) H (late_call C grants T B k n (reclaim_plan C grants T B n observed new) H)"
proof (rule refines_late)
  fix res w
  let ?v = "seen_at k H"
  assume c: "commit C grants T B n (fst (reclaim_plan C grants T B n observed new ?v)) (th_now H) = (res, w)"
  have key: "re_vertical observed = owner n" "re_vertical new = owner n" using assms(2,3) by (simp_all add: admissible_def)
  obtain r1 w1 where c1: "registry_call grants T (tb_get_entity B (owner n) n) ?v = (r1, w1)" by fastforce
  note g = registry_get_entity [OF good_seen(1) [OF assms(1)] c1]
  show "good (advance w H) \<and> refines_call (\<lambda>w. entries owner C (rows w)) (reg_reclaim n observed new) (th_now H) (res, w)"
  proof (cases "\<exists>m. r1 = Inr (Some m) \<and> decode_entry C (te_data m) = Inr observed")
    case False
    then have "isl (fst (reclaim_plan C grants T B n observed new ?v))"
      using c1 key by (cases r1) (auto simp: reclaim_plan_def entity_to_entry_def split: sum.splits option.splits)
    then obtain x where "fst (reclaim_plan C grants T B n observed new ?v) = Inl x" by (auto simp: isl_def)
    with late_raise [OF assms(1)] c show ?thesis by simp
  next
    case True
    then obtain m where r1: "r1 = Inr (Some m)" and e: "decode_entry C (te_data m) = Inr observed" by blast
    have "entity_at (rows ?v) (owner n, n) = Some m" using g r1 by metis
    then have row: "rows ?v (owner n, n) = Some (te_data m, te_etag m)" by (simp add: entity_at_Some)
    have p: "fst (reclaim_plan C grants T B n observed new ?v) = Inr (owner n, new, te_etag m)"
      using c1 r1 e key by (simp add: reclaim_plan_def entity_to_entry_def)
    have "reg_reclaim n observed new h = Some (new, h(n \<mapsto> new))" if "h n = Some observed" for h
      using that by (simp add: reg_reclaim_def)
    from late_write [OF assms(1) refl refl assms(3) row e this] c show ?thesis by (simp add: p)
  qed
qed

lemma register_prompt:
  assumes "good H" and "admissible owner TS (re_index_name e) e" and "registry_table_register C grants T B id e (th_now H) = (res, w)"
  shows "good (advance w H) \<and> refines_call (\<lambda>w. entries owner C (rows w)) (reg_register e) (th_now H) (res, w)"
proof -
  let ?n = "re_index_name e" and ?E = "\<lambda>w. entries owner C (rows w)" and ?w = "th_now H"
  have v: "valid ?w" "rows_ok owner C (rows ?w)" using assms(1) by (simp_all add: good_history_def)
  have new: "storable TS e" "re_vertical e = owner ?n" using assms(2) by (simp_all add: admissible_def)
  obtain r1 w1 where c1: "write_entry C grants T B (owner ?n) ?n e None ?w = (r1, w1)" by fastforce
  note c = write_entry_call [OF v(1) c1]
  have wrote: "rows_ok owner C (rows w1) \<and> ?E ?w ?n = None \<and> ?E w1 = (?E ?w)(?n \<mapsto> e)"
    if wr: "written (rows ?w) (owner ?n, ?n) (entry_to_entity_data C e) None (rows w1)"
    using written_entries [OF codec new refl v(2) wr] wr v(2) by (auto simp: written_def write_allowed_def entries_None)
  have fx: "rows w1 = rows ?w \<or> written (rows ?w) (owner ?n, ?n) (entry_to_entity_data C e) None (rows w1)"
    using c by (cases r1) auto
  have ok1: "rows_ok owner C (rows w1)" using fx wrote v(2) by auto
  have g1: "good (advance w1 H)" using good_advance [OF assms(1), of w1] c ok1 by blast
  show ?thesis
  proof (cases "\<exists>x. r1 = Inl (ProvisioningError x) \<and> pe_error_code x = INDEX_PROVISION_CONFLICT")
    case False
    then have out: "res = r1" "w = w1"
      using assms(3) c1 new(2) by (auto simp: registry_table_register_def split: sum.splits prov_exn.splits if_splits)
    have "refines_call ?E (reg_register e) ?w (r1, w1)"
      using c fx wrote by (cases r1) (auto simp: refines_call_def reg_register_def)
    with g1 out show ?thesis by simp
  next
    case True
    then obtain x where x: "r1 = Inl (ProvisioningError x)" "pe_error_code x = INDEX_PROVISION_CONFLICT" by blast
    obtain r2 where c2: "registry_call grants T (tb_get_entity B (owner ?n) ?n) w1 = (r2, w)"
      and res: "res = (case r2 of Inl x \<Rightarrow> Inl x | Inr None \<Rightarrow> Inl (ProvisioningError x) | Inr (Some m) \<Rightarrow> entity_to_entry C m)"
      using assms(3) c1 new(2) x by (auto simp: registry_table_register_def split: prod.splits sum.splits option.splits)
    note g = registry_get_entity [OF conjunct1 [OF c] c2]
    have ans: "?E w1 ?n = Some r" if "res = Inr r" for r
    proof -
      from that res obtain m where m: "r2 = Inr (Some m)" "decode_entry C (te_data m) = Inr r"
        by (auto simp: entity_to_entry_def split: sum.splits option.splits)
      with g have "entity_at (rows w1) (owner ?n, ?n) = Some m" by metis
      with m(2) ok1 show ?thesis by (auto simp: entries_Some entity_at_Some)
    qed
    have "good (advance w H)"
      by (rule good_advance [OF assms(1)]) (use g c ok1 evolves_trans [of ?w w1 w] in auto)
    moreover have "refines_call ?E (reg_register e) ?w (res, w)"
      using ans g fx wrote by (cases res) (auto simp: refines_call_def reg_register_def split: option.splits)
    ultimately show ?thesis by blast
  qed
qed

lemma refines_settled:
  assumes "good H" and "good (settle grants T B reads H) \<Longrightarrow> good (snd out) \<and> refines_call table_entries spec (settle grants T B reads H) out"
  shows "good (snd out) \<and> refines_call table_entries spec H out"
  using assms good_settle [OF assms(1), of reads] by (cases "fst out") (auto simp: refines_call_def)

lemma prompt_register:
  assumes "good H" and "admissible owner TS (re_index_name e) e"
  shows "good (snd (prompt_call (registry_table_register C grants T B id e) H)) \<and>
    refines_call table_entries (reg_register e) H (prompt_call (registry_table_register C grants T B id e) H)"
proof -
  obtain res w where out: "registry_table_register C grants T B id e (th_now H) = (res, w)" by fastforce
  from register_prompt [OF assms out] out show ?thesis by (cases res) (simp_all add: prompt_call_def refines_call_def advance_def)
qed

lemma prompt_get:
  assumes "good H"
  shows "good (snd (prompt_call (registry_table_get C grants T B n) H)) \<and>
    table_entries (snd (prompt_call (registry_table_get C grants T B n) H)) = table_entries H \<and>
    (\<forall>v. fst (prompt_call (registry_table_get C grants T B n) H) = Inr v \<longrightarrow> v = table_entries H n)"
proof -
  obtain res w where out: "registry_table_get C grants T B n (th_now H) = (res, w)" by fastforce
  from prompt_read [OF assms out] out show ?thesis by (simp add: prompt_call_def advance_def)
qed

lemma check_claim_token_iff: "check_claim_token e t = Inr () \<longleftrightarrow> t = None \<or> re_claim_token e = t"
  by (auto simp: check_claim_token_def)

text \<open>Every call of the port in a good state keeps it good and does what the specification says.\<close>

lemma port_calls:
  assumes "good H"
  shows "good (snd (gp_get (table_registry_port C grants T B c) n H)) \<and>
      table_entries (snd (gp_get (table_registry_port C grants T B c) n H)) = table_entries H \<and>
      (\<forall>v. fst (gp_get (table_registry_port C grants T B c) n H) = Inr v \<longrightarrow> v = table_entries H n)"
    and "admissible owner TS (re_index_name e) e \<Longrightarrow> good (snd (gp_register (table_registry_port C grants T B c) e H)) \<and>
      refines_call table_entries (reg_register e) H (gp_register (table_registry_port C grants T B c) e H)"
    and "admissible owner TS n e \<Longrightarrow> admissible owner TS n e' \<Longrightarrow> good (snd (gp_reclaim (table_registry_port C grants T B c) n e e' H)) \<and>
      refines_call table_entries (reg_reclaim n e e') H (gp_reclaim (table_registry_port C grants T B c) n e e' H)"
    and "good (snd (gp_touch_verified (table_registry_port C grants T B c) now n H)) \<and>
      refines_call table_entries (reg_update n None (verified_entry now)) H (gp_touch_verified (table_registry_port C grants T B c) now n H)"
    and "good (snd (gp_mark_ready (table_registry_port C grants T B c) now n t H)) \<and>
      refines_call table_entries (reg_update n t (ready_entry now)) H (gp_mark_ready (table_registry_port C grants T B c) now n t H)"
    and "good (snd (gp_mark_failed (table_registry_port C grants T B c) n reason t H)) \<and>
      refines_call table_entries (reg_update n t (failed_entry reason)) H (gp_mark_failed (table_registry_port C grants T B c) n reason t H)"
    and "good (snd (gp_mark_retired (table_registry_port C grants T B c) n H)) \<and>
      refines_call table_entries (reg_update n None retired_entry) H (gp_mark_retired (table_registry_port C grants T B c) n H)"
proof -
  let ?H = "settle grants T B (fst c) H"
  have s: "good ?H" "table_entries ?H = table_entries H" using good_settle [OF assms, of "fst c"] by blast+
  note port = table_registry_port_def settled_def registry_port.simps
  show "good (snd (gp_get (table_registry_port C grants T B c) n H)) \<and>
      table_entries (snd (gp_get (table_registry_port C grants T B c) n H)) = table_entries H \<and>
      (\<forall>v. fst (gp_get (table_registry_port C grants T B c) n H) = Inr v \<longrightarrow> v = table_entries H n)"
    unfolding port using prompt_get [OF s(1)] s(2) by simp
  show "admissible owner TS (re_index_name e) e \<Longrightarrow> good (snd (gp_register (table_registry_port C grants T B c) e H)) \<and>
      refines_call table_entries (reg_register e) H (gp_register (table_registry_port C grants T B c) e H)"
    unfolding port by (rule refines_settled [OF assms]) (rule prompt_register)
  show "admissible owner TS n e \<Longrightarrow> admissible owner TS n e' \<Longrightarrow> good (snd (gp_reclaim (table_registry_port C grants T B c) n e e' H)) \<and>
      refines_call table_entries (reg_reclaim n e e') H (gp_reclaim (table_registry_port C grants T B c) n e e' H)"
    unfolding port by (rule refines_settled [OF assms]) (rule reclaim_late)
  show "good (snd (gp_touch_verified (table_registry_port C grants T B c) now n H)) \<and>
      refines_call table_entries (reg_update n None (verified_entry now)) H (gp_touch_verified (table_registry_port C grants T B c) now n H)"
    unfolding port by (rule refines_settled [OF assms], rule update_late) (simp_all add: admissible_updates)
  show "good (snd (gp_mark_ready (table_registry_port C grants T B c) now n t H)) \<and>
      refines_call table_entries (reg_update n t (ready_entry now)) H (gp_mark_ready (table_registry_port C grants T B c) now n t H)"
    unfolding port by (rule refines_settled [OF assms], rule update_late) (simp_all add: admissible_updates check_claim_token_iff)
  show "good (snd (gp_mark_failed (table_registry_port C grants T B c) n reason t H)) \<and>
      refines_call table_entries (reg_update n t (failed_entry reason)) H (gp_mark_failed (table_registry_port C grants T B c) n reason t H)"
    unfolding port by (rule refines_settled [OF assms], rule update_late) (simp_all add: admissible_updates check_claim_token_iff)
  show "good (snd (gp_mark_retired (table_registry_port C grants T B c) n H)) \<and>
      refines_call table_entries (reg_update n None retired_entry) H (gp_mark_retired (table_registry_port C grants T B c) n H)"
    unfolding port by (rule refines_settled [OF assms], rule update_late) (simp_all add: admissible_updates)
qed

abbreviation guarded_port :: "table_read list \<times> nat \<Rightarrow> 'w table_history registry_port" where
  "guarded_port c \<equiv> guarded good (admissible owner TS) (table_registry_port C grants T B c)"

lemma guarded_contract: "registry_contract guarded_port table_entries (\<lambda>_ _. {})"
proof (unfold_locales, goal_cases)
  case (1 c n R)
  then show ?case using port_calls(1) [of R c n] by (simp add: guarded_def guard_def)
next
  case (2 R c n)
  then show ?case by (simp add: views_step_def)
next
  case (3 c n R v)
  then show ?case using port_calls(1) [of R c n] by (auto simp: guarded_def guard_def split: if_splits)
next
  case (4 e c)
  show ?case unfolding guarded_def registry_port.simps by (rule guard_call_ok) (use port_calls(2) in blast)
next
  case (5 n e e' c)
  show ?case unfolding guarded_def registry_port.simps by (rule guard_call_ok) (use port_calls(3) in blast)
qed (simp_all add: guarded_def guard_call_ok port_calls)

end

section \<open>Admissible runs\<close>

text \<open>
  The entries a worker handles: those of its own index, of the vertical that owns it, with templates that
  can be stored.
\<close>

fun pc_admissible :: "(string \<Rightarrow> registry_entry \<Rightarrow> bool) \<Rightarrow> index_template set \<Rightarrow> string \<Rightarrow> prog_counter \<Rightarrow> bool" where
  "pc_admissible adm TS n (AtClaim t d m) = (t \<in> TS)"
| "pc_admissible adm TS n (AtVerify e) = adm n e"
| "pc_admissible adm TS n (AtDescribeReady e t d m) = adm n e"
| "pc_admissible adm TS n (AtRegister e) = adm n e"
| "pc_admissible adm TS n (AtExists e) = adm n e"
| "pc_admissible adm TS n (AtCreate e) = adm n e"
| "pc_admissible adm TS n (AtMarkFailed e r x) = adm n e"
| "pc_admissible adm TS n (AtDescribe e) = adm n e"
| "pc_admissible adm TS n (AtMarkReady e) = adm n e"
| "pc_admissible adm TS n (AtReread e) = adm n e"
| "pc_admissible adm TS n (AtWait e) = adm n e"
| "pc_admissible adm TS n (AtStale m e d) = (m = n \<and> adm n e)"
| "pc_admissible adm TS n (AtRenew m e d) = (m = n \<and> adm n e)"
| "pc_admissible adm TS n (AtReclaim m e c d) = (m = n \<and> adm n e \<and> adm n c)"
| "pc_admissible adm TS n (AtDeadline m d) = (m = n)"
| "pc_admissible adm TS n (AtSleep m d) = (m = n)"
| "pc_admissible adm TS n (AtPoll m d) = (m = n)"
| "pc_admissible adm TS n _ = True"

definition map_admissible :: "(string \<Rightarrow> registry_entry \<Rightarrow> bool) \<Rightarrow> registry_map \<Rightarrow> bool" where
  "map_admissible adm m \<longleftrightarrow> (\<forall>n e. m n = Some e \<longrightarrow> adm n e)"

definition registry_admissible where
  "registry_admissible contents views adm R \<longleftrightarrow> map_admissible adm (contents R) \<and> (\<forall>n e. Some e \<in> views R n \<longrightarrow> adm n e)"

text \<open>A specification that writes admissible entries and answers with one.\<close>

definition spec_admissible where
  "spec_admissible adm n spec \<longleftrightarrow> (\<forall>m e m'. map_admissible adm m \<and> spec m = Some (e, m') \<longrightarrow> map_admissible adm m' \<and> adm n e)"

lemma spec_admissible_ops:
  "adm (re_index_name e) e \<Longrightarrow> spec_admissible adm (re_index_name e) (reg_register e)"
  "adm n e' \<Longrightarrow> spec_admissible adm n (reg_reclaim n e e')"
  "(\<And>e. adm n e \<Longrightarrow> adm n (f e)) \<Longrightarrow> spec_admissible adm n (reg_update n t f)"
  by (auto simp: spec_admissible_def map_admissible_def reg_register_def reg_reclaim_def reg_update_def split: option.splits if_splits)

lemma views_admissible:
  assumes "views_step contents views R R'" and "registry_admissible contents views adm R" and "map_admissible adm (contents R')"
  shows "registry_admissible contents views adm R'"
proof -
  have "adm m e" if "Some e \<in> views R' m" for m e
  proof -
    have "Some e \<in> views R m \<or> contents R m = Some e \<or> contents R' m = Some e"
      using assms(1) that unfolding views_step_def by fastforce
    then show ?thesis using assms(2,3) by (auto simp: registry_admissible_def map_admissible_def)
  qed
  with assms(3) show ?thesis by (simp add: registry_admissible_def)
qed

context registry_contract
begin

lemma admissible_write:
  assumes "call_ok contents views spec f" and "spec_admissible adm n spec" and "registry_admissible contents views adm R" and "f R = (res, R')"
  shows "registry_admissible contents views adm R' \<and> (\<forall>e. res = Inr e \<longrightarrow> adm n e)"
proof -
  have r: "refines_call contents spec R (res, R')" and v: "views_step contents views R R'"
    using assms(1,4) unfolding call_ok_def by (metis, metis snd_conv)
  have "map_admissible adm (contents R') \<and> (\<forall>e. res = Inr e \<longrightarrow> adm n e)"
    using r assms(2,3) by (cases res) (auto simp: refines_call_def spec_admissible_def registry_admissible_def)
  with views_admissible [OF v assms(3)] show ?thesis by blast
qed

lemma admissible_get:
  assumes "registry_admissible contents views adm R" and "gp_get (port c) n R = (res, R')"
  shows "registry_admissible contents views adm R' \<and> (\<forall>e. res = Inr (Some e) \<longrightarrow> adm n e)"
proof -
  have c: "contents R' = contents R" and v: "views_step contents views R R'"
    using get_contents [of c n R] get_views [of R c n] assms(2) by simp_all
  have "registry_admissible contents views adm R'"
    by (rule views_admissible [OF v assms(1)]) (use assms(1) c in \<open>simp add: registry_admissible_def\<close>)
  moreover have "adm n e" if "res = Inr (Some e)" for e
    using get_answer [of c n R "Some e"] assms that unfolding registry_admissible_def map_admissible_def by auto
  ultimately show ?thesis by blast
qed

end

text \<open>Where the answers of a call lead, in terms of admissible entries.\<close>

abbreviation pc_adm :: "(string \<Rightarrow> string) \<Rightarrow> index_template set \<Rightarrow> string \<Rightarrow> prog_counter \<Rightarrow> bool" where
  "pc_adm owner TS \<equiv> pc_admissible (admissible owner TS) TS"

lemma pc_adm_answers:
  assumes "admissible owner TS n e"
  shows "pc_adm owner TS n (dispatch_existing e)" and "pc_adm owner TS n (after_losing_claim e)"
    and "pc_adm owner TS n (handle_ready cfg ts scn now e)" and "pc_adm owner TS n (after_exists e b)"
    and "pc_adm owner TS n (after_create e u)" and "pc_adm owner TS n (after_describe e desc)"
    and "admissible owner TS n (renewed_claim now token e)"
proof -
  show "pc_adm owner TS n (dispatch_existing e)" "pc_adm owner TS n (after_losing_claim e)"
    using assms by (auto simp: dispatch_existing_def after_losing_claim_def split: index_status.split)
  show "pc_adm owner TS n (handle_ready cfg ts scn now e)"
    using assms by (auto simp: handle_ready_def split: sum.split option.split)
  show "pc_adm owner TS n (after_exists e b)" "pc_adm owner TS n (after_create e u)" "pc_adm owner TS n (after_describe e desc)"
    using assms by (auto simp: after_exists_def after_create_def after_describe_def Let_def split: sum.split option.split)
  show "admissible owner TS n (renewed_claim now token e)" using assms by (simp add: admissible_def renewed_claim_def storable_def)
qed

definition worker_ok :: "(string \<Rightarrow> string) \<Rightarrow> index_template set \<Rightarrow> template_store \<Rightarrow> scenario \<Rightarrow> bool" where
  "worker_ok owner TS ts scn \<longleftrightarrow> sc_vertical scn = owner (sc_index_name scn) \<and> set (dict_values ts) \<subseteq> TS"

lemma claim_new_adm: "worker_ok owner TS ts scn \<Longrightarrow> pc_adm owner TS n (claim_new cfg ts scn)"
  by (auto simp: claim_new_def resolve_template_def template_get_or_raise_def worker_ok_def Let_def
      split: sum.split option.split if_splits dest!: dict_value_mem)

lemma claim_candidate_adm:
  "worker_ok owner TS ts scn \<Longrightarrow> t \<in> TS \<Longrightarrow> admissible owner TS (sc_index_name scn) (claim_candidate scn t d m now token)"
  by (simp add: worker_ok_def admissible_def claim_candidate_def storable_def)

context registry_contract
begin

lemma get_adm:
  assumes "registry_admissible contents views (admissible owner TS) R" and "on_registry k (gp_get (port c) n) (R, W) = (pc', sh')"
    and "\<And>e. admissible owner TS n e \<Longrightarrow> pc_adm owner TS m (k (Inr (Some e)))" and "pc_adm owner TS m (k (Inr None))" and "\<And>x. pc_adm owner TS m (k (Inl x))"
  shows "registry_admissible contents views (admissible owner TS) (fst sh') \<and> pc_adm owner TS m pc'"
proof -
  from assms(2) obtain res R' where f: "gp_get (port c) n R = (res, R')" "pc' = k res" "sh' = (R', W)" by (rule on_registryE)
  from admissible_get [OF assms(1) f(1)] f(2,3) assms(3-5) show ?thesis
    by (cases res; cases "projr res") auto
qed

lemma write_adm:
  assumes "registry_admissible contents views (admissible owner TS) R" and "on_registry k f (R, W) = (pc', sh')"
    and "call_ok contents views spec f" and "spec_admissible (admissible owner TS) n spec"
    and "\<And>e. admissible owner TS n e \<Longrightarrow> pc_adm owner TS m (k (Inr e))" and "\<And>x. pc_adm owner TS m (k (Inl x))"
  shows "registry_admissible contents views (admissible owner TS) (fst sh') \<and> pc_adm owner TS m pc'"
proof -
  from assms(2) obtain res R' where f: "f R = (res, R')" "pc' = k res" "sh' = (R', W)" by (rule on_registryE)
  from admissible_write [OF assms(3,4,1) f(1)] f(2,3) assms(5,6) show ?thesis by (cases res) auto
qed

lemma store_adm:
  assumes "registry_admissible contents views adm R" and "on_store k f (R, W) = (pc', sh')" and "\<And>x. pc_adm owner TS m (k x)"
  shows "registry_admissible contents views adm (fst sh') \<and> pc_adm owner TS m pc'"
  using assms by (auto elim: on_storeE)

lemma update_spec_adm:
  "spec_admissible (admissible owner TS) n (reg_update n t (verified_entry now))" "spec_admissible (admissible owner TS) n (reg_update n t (ready_entry now))"
  "spec_admissible (admissible owner TS) n (reg_update n t (failed_entry r))" "spec_admissible (admissible owner TS) n (reg_update n t retired_entry)"
  by (simp_all add: spec_admissible_ops admissible_updates)

lemma ensure_step_adm:
  assumes w: "worker_ok owner TS ts scn" and R: "registry_admissible contents views (admissible owner TS) (fst sh)"
    and pc: "pc_adm owner TS (sc_index_name scn) pc" and st: "ensure_step cfg ts (port c) ad scn now token pc sh = (pc', sh')"
  shows "registry_admissible contents views (admissible owner TS) (fst sh') \<and> pc_adm owner TS (sc_index_name scn) pc'"
proof -
  let ?n = "sc_index_name scn"
  obtain R0 W where sh [simp]: "sh = (R0, W)" by fastforce
  note R = R [unfolded sh fst_conv] and st = st [unfolded sh]
  note ans = pc_adm_answers and new = claim_new_adm [OF w]
  show ?thesis
  proof (cases pc)
    case AtGet
    show ?thesis by (rule get_adm [OF R st [unfolded AtGet ensure_step.simps]]) (simp_all add: after_get_def ans new)
  next
    case (AtTouch n)
    show ?thesis by (rule write_adm [OF R st [unfolded AtTouch ensure_step.simps] touch update_spec_adm(1)]) simp_all
  next
    case (AtRegister e)
    with pc have e: "admissible owner TS ?n e" and n: "re_index_name e = ?n" by (simp_all add: admissible_def)
    from spec_admissible_ops(1) [of "admissible owner TS" e] e n have sp: "spec_admissible (admissible owner TS) ?n (reg_register e)" by simp
    show ?thesis by (rule write_adm [OF R st [unfolded AtRegister ensure_step.simps] register sp]) (simp_all add: after_register_def ans)
  next
    case (AtMarkFailed e r x)
    show ?thesis
      by (rule write_adm [OF R st [unfolded AtMarkFailed ensure_step.simps] failed update_spec_adm(3)]) (simp_all add: after_mark_failed_def)
  next
    case (AtMarkReady e)
    show ?thesis
      by (rule write_adm [OF R st [unfolded AtMarkReady ensure_step.simps] ready update_spec_adm(2)])
        (use pc AtMarkReady in \<open>simp_all add: after_mark_ready_def\<close>)
  next
    case (AtReread e)
    with pc have n: "re_index_name e = ?n" by (simp add: admissible_def)
    show ?thesis by (rule get_adm [OF R st [unfolded AtReread ensure_step.simps n]]) (simp_all add: after_reread_def ans new)
  next
    case (AtReclaim m e e' d)
    with pc have "admissible owner TS ?n e'" and n: "re_index_name e = ?n" "m = ?n" by (simp_all add: admissible_def)
    then have sp: "spec_admissible (admissible owner TS) ?n (reg_reclaim ?n e e')" by (simp add: spec_admissible_ops)
    show ?thesis
      by (rule write_adm [OF R st [unfolded AtReclaim ensure_step.simps n] reclaim sp]) (simp_all add: after_reclaim_def)
  next
    case (AtPoll m d)
    with pc have n: "m = ?n" by simp
    show ?thesis by (rule get_adm [OF R st [unfolded AtPoll ensure_step.simps n]]) (simp_all add: after_poll_def ans new)
  next
    case (AtDescribeReady e t d m)
    show ?thesis
      by (rule store_adm [OF R st [unfolded AtDescribeReady ensure_step.simps]]) (simp add: after_describe_ready_def split: sum.split)
  next
    case (AtExists e)
    show ?thesis by (rule store_adm [OF R st [unfolded AtExists ensure_step.simps]]) (use pc AtExists in \<open>simp add: ans\<close>)
  next
    case (AtCreate e)
    show ?thesis by (rule store_adm [OF R st [unfolded AtCreate ensure_step.simps]]) (use pc AtCreate in \<open>simp add: ans\<close>)
  next
    case (AtDescribe e)
    show ?thesis by (rule store_adm [OF R st [unfolded AtDescribe ensure_step.simps]]) (use pc AtDescribe in \<open>simp add: ans\<close>)
  next
    case (AtClaim t d m)
    with R pc st claim_candidate_adm [OF w] show ?thesis by auto
  next
    case (AtVerify e)
    with R pc st ans(3) show ?thesis by auto
  next
    case (AtRenew m e d)
    with R pc st ans(7) show ?thesis by auto
  next
    case (AtDeadline m d)
    with R pc st show ?thesis by (auto simp: check_deadline_def)
  next
    case (AtWait e)
    with R pc st show ?thesis by (auto simp: admissible_def)
  qed (use R pc st in auto)
qed

end

section \<open>Runs over the table\<close>

definition port_keeps :: "('r \<Rightarrow> bool) \<Rightarrow> 'r registry_port \<Rightarrow> bool" where
  "port_keeps J P \<longleftrightarrow> (\<forall>R. J R \<longrightarrow> (\<forall>n. J (snd (gp_get P n R))) \<and> (\<forall>e. J (snd (gp_register P e R))) \<and>
     (\<forall>n e e'. J (snd (gp_reclaim P n e e' R))) \<and> (\<forall>now n. J (snd (gp_touch_verified P now n R))) \<and>
     (\<forall>now n t. J (snd (gp_mark_ready P now n t R))) \<and> (\<forall>n r t. J (snd (gp_mark_failed P n r t R))) \<and>
     (\<forall>n. J (snd (gp_mark_retired P n R))))"

lemma ensure_step_keeps:
  "port_keeps J P \<Longrightarrow> J (fst sh) \<Longrightarrow> J (fst (snd (ensure_step cfg ts P ad scn now token pc sh)))"
  by (cases pc) (simp_all add: port_keeps_def on_registry_def on_store_def case_prod_beta Let_def)

lemma fleet_port_keeps:
  assumes "port_keeps J P"
  shows "port_keeps (\<lambda>F. J (fl_shared F)) (fleet_port P d)"
  using assms
  by (auto simp: port_keeps_def fleet_port_def cached_registry_port_def at_process_def cached_registry_get_def delegate_def
      registry_invalidate_def fleet_view_def case_prod_beta Let_def split: option.split sum.split)

text \<open>In a good state, the guard around the registry is not noticed by the caches above it.\<close>

lemma fleet_guarded:
  assumes "good (fl_shared F)"
  shows "gp_get (fleet_port (guarded good adm P) d) n F = gp_get (fleet_port P d) n F"
    and "adm (re_index_name e) e \<Longrightarrow> gp_register (fleet_port (guarded good adm P) d) e F = gp_register (fleet_port P d) e F"
    and "adm n e \<Longrightarrow> adm n e' \<Longrightarrow> gp_reclaim (fleet_port (guarded good adm P) d) n e e' F = gp_reclaim (fleet_port P d) n e e' F"
    and "gp_touch_verified (fleet_port (guarded good adm P) d) now n F = gp_touch_verified (fleet_port P d) now n F"
    and "gp_mark_ready (fleet_port (guarded good adm P) d) now n t F = gp_mark_ready (fleet_port P d) now n t F"
    and "gp_mark_failed (fleet_port (guarded good adm P) d) n r t F = gp_mark_failed (fleet_port P d) n r t F"
    and "gp_mark_retired (fleet_port (guarded good adm P) d) n F = gp_mark_retired (fleet_port P d) n F"
proof -
  show "gp_get (fleet_port (guarded good adm P) d) n F = gp_get (fleet_port P d) n F"
    using assms by (cases "registry_fresh (cr_ttl_seconds (fl_caches F (fst d))) (fst (snd d)) (cr_by_name (fl_caches F (fst d))) n")
      (simp_all add: fleet_port_def cached_registry_port_def at_process_def cached_registry_get_def fleet_view_def guarded_def guard_def Let_def)
qed (use assms in \<open>simp_all add: fleet_port_def cached_registry_port_def at_process_def delegate_def fleet_view_def guarded_def guard_def Let_def\<close>)

lemma ensure_step_guarded:
  assumes "good (fl_shared (fst sh))" and "pc_adm owner TS n pc"
  shows "ensure_step cfg ts (fleet_port (guarded good (admissible owner TS) P) d) ad scn now token pc sh =
    ensure_step cfg ts (fleet_port P d) ad scn now token pc sh"
  using assms(2) fleet_guarded [where P = P and d = d and adm = "admissible owner TS" and good = good and F = "fst sh", OF assms(1)]
  by (cases pc) (auto simp: on_registry_def admissible_def)

context table_registry
begin

abbreviation "table_fleet \<equiv> \<lambda>(c, d). fleet_port (table_registry_port C grants T B c) d"

abbreviation "guarded_fleet \<equiv> \<lambda>(c, d). fleet_port (guarded_port c) d"

definition run_inv where
  "run_inv scn s \<longleftrightarrow> good (fl_shared (fst (sys_shared s))) \<and>
     registry_admissible (fleet_contents table_entries) (fleet_views (\<lambda>_ _. {})) (admissible owner TS) (fst (sys_shared s)) \<and>
     (\<forall>i. pc_adm owner TS (sc_index_name (scn i)) (sys_pcs s i))"

lemma guarded_fleet_contract: "registry_contract guarded_fleet (fleet_contents table_entries) (fleet_views (\<lambda>_ _. {}))"
  by (rule registry_contract.fleet_contract [OF guarded_contract])

lemma guarded_keeps: "port_keeps (\<lambda>F. good (fl_shared F)) (guarded_fleet c)"
proof -
  have "port_keeps good (guarded_port (fst c))"
    using port_calls by (simp add: port_keeps_def guarded_def guard_def)
  then show ?thesis using fleet_port_keeps by (simp add: case_prod_beta)
qed

lemma system_step_guarded:
  assumes inv: "run_inv scn s" and w: "\<And>i. worker_ok owner TS (ts i) (scn i)" and st: "system_step cfg ts table_fleet ad scn s s'"
  shows "system_step cfg ts guarded_fleet ad scn s s' \<and> run_inv scn s'"
  using st
proof (cases rule: system_step.cases)
  case (worker_call i c now token pc sh)
  have good: "good (fl_shared (fst (sys_shared s)))" and pc: "pc_adm owner TS (sc_index_name (scn i)) (sys_pcs s i)"
    and R: "registry_admissible (fleet_contents table_entries) (fleet_views (\<lambda>_ _. {})) (admissible owner TS) (fst (sys_shared s))"
    using inv by (simp_all add: run_inv_def)
  have g: "ensure_step (cfg i) (ts i) (guarded_fleet c) ad (scn i) now token (sys_pcs s i) (sys_shared s) = (pc, sh)"
    using worker_call(2) ensure_step_guarded [where good = good and sh = "sys_shared s" and P = "table_registry_port C grants T B (fst c)" and d = "snd c", OF good pc]
    by (simp add: case_prod_beta)
  have "good (fl_shared (fst sh))"
    using ensure_step_keeps [OF guarded_keeps, of "sys_shared s" "cfg i" "ts i" c ad "scn i" now token "sys_pcs s i"] good g by simp
  with registry_contract.ensure_step_adm [OF guarded_fleet_contract w R pc g] inv
  have "run_inv scn s'" unfolding worker_call(1) by (simp add: run_inv_def)
  with system_step.worker_call [where rp = guarded_fleet and c = c and cfg = cfg and ts = ts and scn = scn, OF g worker_call(3)] worker_call(1)
  show ?thesis by simp
next
  case (begin_call i)
  then show ?thesis using inv system_step.begin_call by (auto simp: run_inv_def)
next
  case (retire_call c n res R)
  let ?F = "fst (sys_shared s)"
  have good: "good (fl_shared ?F)" using inv by (simp add: run_inv_def)
  have g: "gp_mark_retired (guarded_fleet c) n ?F = (res, R)"
    using retire_call(2) fleet_guarded(7) [where good = good and F = ?F, OF good] by (simp add: case_prod_beta)
  have "registry_admissible (fleet_contents table_entries) (fleet_views (\<lambda>_ _. {})) (admissible owner TS) R"
    using registry_contract.admissible_write [OF guarded_fleet_contract registry_contract.retired [OF guarded_fleet_contract]
      registry_contract.update_spec_adm(4) [OF guarded_fleet_contract] _ g] inv by (simp add: run_inv_def)
  moreover have "good (fl_shared R)" using guarded_keeps [of c] good g unfolding port_keeps_def by (metis snd_conv)
  ultimately have "run_inv scn s'" using inv unfolding retire_call(1) by (simp add: run_inv_def)
  with system_step.retire_call [where rp = guarded_fleet and c = c, OF g] retire_call(1) show ?thesis by simp
qed

lemma system_run_guarded:
  assumes "run_inv scn s0" and "\<And>i. worker_ok owner TS (ts i) (scn i)" and "system_run cfg ts table_fleet ad scn s0 s"
  shows "system_run cfg ts guarded_fleet ad scn s0 s \<and> run_inv scn s"
  using assms(3)
proof (induction rule: rtranclp_induct)
  case (step s1 s2)
  with system_step_guarded [OF _ assms(2) step(2)] show ?case by (meson rtranclp.rtrancl_into_rtrancl)
qed (use assms(1) in simp)

text \<open>Workers over the table registry keep the guarantees of the protocol.\<close>

lemma table_run_sound:
  assumes ad: "index_service ad live" and w: "\<And>i. worker_ok owner TS (ts i) (scn i)" and start: "valid w0" "rows w0 = (\<lambda>_. None)"
    and run: "system_run cfg ts table_fleet ad scn (system_init (fleet_init \<lparr>th_now = w0, th_past = []\<rparr> ttl) W0) s"
  shows "(\<forall>n e. table_entries (fl_shared (fst (sys_shared s))) n = Some e \<and> re_status e = Ready \<longrightarrow>
       live (snd (sys_shared s)) n = Some (re_dimensions e, re_metric e)) \<and>
    (\<forall>i e. sys_pcs s i = Finished (Inr e) \<longrightarrow> re_index_name e = sc_index_name (scn i) \<and>
       live (snd (sys_shared s)) (sc_index_name (scn i)) = Some (re_dimensions e, re_metric e) \<and> re_status e \<in> {Ready, Retired})"
proof -
  let ?F = "fleet_init \<lparr>th_now = w0, th_past = []\<rparr> ttl"
  have c: "fleet_contents table_entries ?F n = None" "fleet_views (\<lambda>_ _. {}) ?F n \<subseteq> {None}" for n
    using start by (simp_all add: fleet_contents_def fleet_views_def fleet_init_def cached_registry_init_def cache_views_def entries_def)
  have "good (fl_shared ?F)" using start by (simp add: fleet_init_def good_history_def rows_ok_def)
  moreover have "registry_admissible (fleet_contents table_entries) (fleet_views (\<lambda>_ _. {})) (admissible owner TS) ?F"
    using c by (auto simp: registry_admissible_def map_admissible_def)
  ultimately have "run_inv scn (system_init ?F W0)" by (simp add: run_inv_def system_init_def)
  from system_run_guarded [OF this w run] have g: "system_run cfg ts guarded_fleet ad scn (system_init ?F W0) s" ..
  have "provisioning guarded_fleet (fleet_contents table_entries) (fleet_views (\<lambda>_ _. {})) ad live"
    by (rule provisioning.intro [OF guarded_fleet_contract ad])
  from provisioning.reachable_sound [OF this g c] show ?thesis by (simp add: fleet_contents_def)
qed

end

interpretation sdk_tables: table_registry "real_table_backend mem_sdk" mem_sdk_valid "\<lambda>w. plain_rows (mem_rows w)" mem_sdk_evolves
    demo_registry_codec "{demo_template}" "\<lambda>_. ''hr''" nat demo_client
  by (rule table_registry.intro [OF mem_sdk_service.real_backend_service]) (simp add: table_registry_axioms_def demo_codec_ok)

section \<open>The property\<close>

abbreviation production_registry where
  "production_registry C grants T K \<equiv> \<lambda>(c, d). fleet_port (table_registry_port C grants T (real_table_backend K) c) d"

text \<open>
  C11. Provisioning in production is sound, down to the two SDKs. Any number of processes, each with its cache,
  over the registry on Table Storage and the Azure adapter, start on an empty table; their calls
  interleave in any way, between the read and the write of one registry call too, with crashes,
  retirements, timeouts, retries and lost answers. Then every index that a row of the table calls ready
  exists in the search service with exactly the dimensions and the metric of the row, and every entry
  that \<open>ensure\<close> returned is that of the scenario's index, describes the live index, and is ready or was
  retired meanwhile. The hypotheses are the documented behaviour of the SDKs, that the text codecs are
  inverse to each other, and that the scenarios agree on which vertical owns an index.
\<close>

theorem production_ensure_sound:
  assumes "table_sdk K valid items evolves" and "search_index_service S L stored" and "registry_codec_ok C TS"
    and "\<And>i. worker_ok owner TS (ts i) (scn i)" and "valid w0" and "items w0 = (\<lambda>_. None)"
    and "system_run cfg ts (production_registry C grants T K) (azure_provisioner_port attempts A (real_backend S L)) scn
      (system_init (fleet_init \<lparr>th_now = w0, th_past = []\<rparr> ttl) W0) s"
  shows "(\<forall>n e. entries owner C (plain_rows (items (th_now (fl_shared (fst (sys_shared s)))))) n = Some e \<and> re_status e = Ready \<longrightarrow>
       Option.bind (stored (snd (sys_shared s)) n) (index_schema S) = Some (re_dimensions e, re_metric e)) \<and>
    (\<forall>i e. sys_pcs s i = Finished (Inr e) \<longrightarrow> re_index_name e = sc_index_name (scn i) \<and> re_status e \<in> {Ready, Retired} \<and>
       Option.bind (stored (snd (sys_shared s)) (sc_index_name (scn i))) (index_schema S) = Some (re_dimensions e, re_metric e))"
proof -
  have reg: "table_registry (real_table_backend K) valid (\<lambda>w. plain_rows (items w)) evolves C TS"
    using table_sdk.real_backend_service [OF assms(1)] assms(3) by (simp add: table_registry_def table_registry_axioms_def)
  have "plain_rows (items w0) = (\<lambda>_. None)" using assms(6) by (simp add: plain_rows_def fun_eq_iff)
  from table_registry.table_run_sound [OF reg search_index_service.azure_adapter_service [OF assms(2)] assms(4,5) this assms(7)]
  show ?thesis by blast
qed

text \<open>
  The seven calls of a new index in production; before the last one another process reads the row, and the
  call commits what it read before that.
\<close>

definition production_calls :: "(nat \<times> ((table_read list \<times> nat) \<times> nat \<times> int \<times> int) \<times> datetime \<times> string) list" where
  "production_calls = map (\<lambda>(i, c, now, token). (i, (if token = ''d'' then ([ReadRow ''hr'' ''hr''], 1) else ([], 0), c), now, token)) demo_calls"

abbreviation production_system :: "(mem_table table_history fleet, mem_search) provisioning_system" where
  "production_system \<equiv> run_calls (\<lambda>_. default_provisioning_config 1) (\<lambda>_. demo_templates)
     (production_registry demo_registry_codec nat demo_client mem_sdk) (azure_provisioner_port nat demo_azure (real_backend sdk_models mem_search_client))
     (\<lambda>_. demo_scenario) production_calls (system_init (fleet_init \<lparr>th_now = demo_table, th_past = []\<rparr> 10) [])"

theorem production_ensure_sound_witness:
  "sys_pcs production_system 0 = Finished (Inr demo_entry) \<and>
   Option.bind (map_of (snd (sys_shared production_system)) ''hr'') (index_schema sdk_models) = Some (512, ''cosine'')"
proof -
  have run: "system_run (\<lambda>_. default_provisioning_config 1) (\<lambda>_. demo_templates) (production_registry demo_registry_codec nat demo_client mem_sdk)
      (azure_provisioner_port nat demo_azure (real_backend sdk_models mem_search_client)) (\<lambda>_. demo_scenario)
      (system_init (fleet_init \<lparr>th_now = demo_table, th_past = []\<rparr> 10) []) production_system"
    by (rule run_calls_run) (simp_all add: production_calls_def demo_calls_def system_init_def)
  have w: "worker_ok (\<lambda>_. ''hr'') {demo_template} demo_templates demo_scenario"
    by (simp add: worker_ok_def demo_scenario_def demo_templates_def)
  have start: "mem_sdk_valid demo_table" "mem_rows demo_table = (\<lambda>_. None)"
    using demo_table_valid by (simp_all add: mem_sdk_valid_def mem_rows_def demo_table_def fun_eq_iff)
  have fin: "sys_pcs production_system 0 = Finished (Inr demo_entry)" by code_simp
  have e: "sc_index_name demo_scenario = ''hr''" "re_dimensions demo_entry = 512" "re_metric demo_entry = ''cosine''" by code_simp+
  from production_ensure_sound [OF mem_sdk_service.table_sdk_axioms mem_search.search_index_service_axioms demo_codec_ok w start run] fin e
  show ?thesis by metis
qed

end
