(* ===== verification/Pipeline.thy ===== *)
theory Pipeline
  imports Analyzer Chunker Indexer Scenario
begin

text \<open>
  The stages together. A scenario hands each stage its configuration (the conversions of
  \<open>src/vestibule/scenario/model.py\<close>); the checks of the scenario make these configurations agree, so that what one
  stage produces is accepted by the next: the chunker's metadata by the indexer's record model, the
  length of the embedder's vectors by the dimensions of the index. The result is the way of one
  document from arrival to the index.
\<close>

section \<open>The configurations of a scenario\<close>

definition to_chunker_config :: "scenario \<Rightarrow> chunker_config" where
  "to_chunker_config s = \<lparr>cc_target_chunk_tokens = cst_target_chunk_tokens (sc_chunker s),
     cc_overlap_tokens = cst_overlap_tokens (sc_chunker s), cc_min_chunk_tokens = cst_min_chunk_tokens (sc_chunker s),
     cc_max_chunk_tokens = cst_max_chunk_tokens (sc_chunker s), cc_token_counter = ''tiktoken_cl100k''\<rparr>"

definition to_embedder_config :: "scenario \<Rightarrow> embedder_config" where
  "to_embedder_config s = default_embedder_config\<lparr>emc_target_dimensions := emb_target_dimensions (sc_embedder s)\<rparr>"

definition to_indexer_config :: "scenario \<Rightarrow> indexer_config" where
  "to_indexer_config s = default_indexer_config\<lparr>xc_dimensions := ixs_dimensions (sc_indexer s), xc_metric := ixs_metric (sc_indexer s)\<rparr>"

section \<open>From the chunker to the indexer\<close>

definition path_ok :: "metadata \<Rightarrow> bool" where
  "path_ok m \<longleftrightarrow> (\<exists>p. section_path_of m = Inr p)"

lemma path_ok_none: "map_of m ''section_path'' = Some MNone \<Longrightarrow> path_ok m"
  by (simp add: path_ok_def section_path_of_def)

lemma retag_path_ok: "path_ok (cd_metadata (retag p d))"
  by (cases p) (simp_all add: path_ok_def section_path_of_def retag_def)

lemma recursive_path_ok:
  assumes "recursive_chunk_region split config tokens es = Inr ds" and "d \<in> set ds"
  shows "path_ok (cd_metadata d)"
proof -
  let ?f = "\<lambda>piece. bind_res (tokens piece) (\<lambda>n. Inr \<lparr>cd_element_types = unique_element_types es, cd_text = piece,
      cd_token_count = n, cd_metadata = [(''strategy'', MStr STRATEGY_RECURSIVE), (''section_path'', MNone)] @ page_metadata es\<rparr>)"
  from assms obtain pieces where "map_res ?f pieces = Inr ds"
    by (auto simp: recursive_chunk_region_def Let_def split: if_splits)
  from map_res_mem [OF this assms(2)] show ?thesis by (auto intro: path_ok_none)
qed

lemma dispatch_path_ok:
  assumes "dispatch_region x split config tokens h r = Inr ds" and "d \<in> set ds"
  shows "path_ok (cd_metadata d)"
proof (cases "rg_kind r = TableRegion")
  case True
  with assms show ?thesis
    by (cases "rg_elements r") (auto simp: dispatch_region_def table_atomic_Inr table_atomic_chunk_region_def intro!: path_ok_none)
next
  case False
  show ?thesis
  proof (cases h)
    case True
    with False assms structure_sections_mem [of split config tokens _ ds d] retag_path_ok show ?thesis
      by (fastforce simp: dispatch_region_def structure_aware_chunk_region_def)
  next
    case False
    with \<open>rg_kind r \<noteq> TableRegion\<close> assms recursive_path_ok show ?thesis by (simp add: dispatch_region_def)
  qed
qed

lemma merge_path_ok:
  "merge_undersized_tail config tokens ds = Inr ms \<Longrightarrow> \<forall>d \<in> set ds. path_ok (cd_metadata d) \<Longrightarrow> \<forall>d \<in> set ms. path_ok (cd_metadata d)"
proof (induction config tokens ds rule: merge_undersized_tail.induct)
  case (1 config tokens ds)
  show ?case
  proof (cases "must_merge config ds")
    case True
    then obtain m where m: "merge_two_drafts tokens (last (butlast ds)) (last ds) = Inr m"
        "merge_undersized_tail config tokens (butlast (butlast ds) @ [m]) = Inr ms"
      using 1(2) [unfolded merge_undersized_tail.simps [of config tokens ds]] by (auto split: sum.splits)
    have "length (butlast ds) > 0" using True by (simp add: must_merge_def)
    then have "last (butlast ds) \<in> set ds" by (metis in_set_butlastD last_in_set length_greater_0_conv)
    with 1(3) m(1) have "path_ok (cd_metadata m)" by (auto simp: merge_two_drafts_def Let_def)
    moreover have "\<forall>d \<in> set (butlast (butlast ds)). path_ok (cd_metadata d)" using 1(3) by (meson in_set_butlastD)
    ultimately have "\<forall>d \<in> set (butlast (butlast ds) @ [m]). path_ok (cd_metadata d)" by simp
    with 1(1) [OF True m] show ?thesis by blast
  qed (use 1 in \<open>simp add: merge_undersized_tail.simps [of config tokens ds]\<close>)
qed

lemma assembled_path_ok:
  assumes "assemble_chunks x split config tokens d es = Inr cs" and "c \<in> set cs"
  shows "path_ok (ch_metadata c)"
proof -
  have loop: "assemble_loop x split config tokens h rs = Inr ds \<Longrightarrow> \<forall>d \<in> set ds. path_ok (cd_metadata d)" for h rs ds
  proof (induction rs arbitrary: ds)
    case (Cons r rs)
    then obtain a m rest where "dispatch_region x split config tokens h r = Inr a" "merge_undersized_tail config tokens a = Inr m"
        "assemble_loop x split config tokens h rs = Inr rest" "ds = m @ rest" by auto
    with Cons.IH dispatch_path_ok merge_path_ok show ?case by (metis Un_iff set_append)
  qed simp
  from assms(1) obtain h ds where ds: "assemble_loop x split config tokens h (partition_regions es) = Inr ds" "assign_positions d ds = Inr cs"
    by (auto simp: assemble_chunks_def Let_def)
  from assms(2) obtain i where "i < length cs" "c = cs ! i" by (metis in_set_conv_nth)
  with loop [OF ds(1)] assign_positions_loop_Inr [OF ds(2) [unfolded assign_positions_def]] show ?thesis by (metis nth_mem)
qed

lemma build_record_fields:
  "build_record v d t e ec = Inr r \<Longrightarrow> ir_chunk_id r = ch_chunk_id (em_chunk ec) \<and> ir_text r = ch_text (em_chunk ec) \<and>
     ir_doc_version r = ae_content_hash e \<and> ir_vector r = em_vector ec"
  by (auto simp: build_record_def)

lemma records_build:
  assumes "\<forall>ec \<in> set ecs. path_ok (ch_metadata (em_chunk ec))"
  obtains rs where "build_records now d e ecs L = Inr rs"
proof -
  have "\<forall>ec \<in> set ecs. \<exists>r. build_record (config_version_for d L) d now e ec = Inr r"
    using assms by (auto simp: path_ok_def build_record_def)
  then have "\<forall>ec \<in> set ecs. build_record (config_version_for d L) d now e ec = Inr (projr (build_record (config_version_for d L) d now e ec))"
    by (metis sum.sel(2))
  from map_res_Inr [of ecs, OF this [rule_format]] that show ?thesis by (simp add: build_records_def)
qed

section \<open>From the embedder to the indexer\<close>

text \<open>The adapter the scenario names: every vector it returns has the dimensions registered for its model.\<close>

definition native_vectors :: "scenario \<Rightarrow> ('f, 'w) embedding_port \<Rightarrow> bool" where
  "native_vectors s A \<longleftrightarrow> (\<forall>b w vs w' v. ep_embed_batch A b w = (Inr vs, w') \<and> v \<in> set vs \<longrightarrow>
     map_of native_dimensions (adapter_value (emb_adapter (sc_embedder s)), emb_model (sc_embedder s)) = Some (int (length v)))"

lemma embed_batches_vectors:
  assumes "\<And>b w vs w' v. ep_embed_batch A b w = (Inr vs, w') \<Longrightarrow> v \<in> set vs \<Longrightarrow> P v"
  shows "embed_batches A bs acc w = (Inr vs, w') \<Longrightarrow> \<forall>v \<in> set acc. P v \<Longrightarrow> \<forall>v \<in> set vs. P v"
proof (induction bs arbitrary: acc w)
  case (Cons b bs)
  obtain r w1 where b: "ep_embed_batch A b w = (r, w1)" by fastforce
  with Cons.prems obtain us where us: "r = Inr us" "embed_batches A bs (acc @ us) w1 = (Inr vs, w')" by (cases r) auto
  from assms [OF b [unfolded us(1)]] Cons.prems(2) have "\<forall>v \<in> set (acc @ us). P v" by auto
  with Cons.IH [OF us(2)] show ?case by blast
qed simp

lemma truncated_length: "0 \<le> t \<Longrightarrow> int (length (truncate_and_renormalize F v t)) = min t (int (length v))"
  by (auto simp: truncate_and_renormalize_def slice_upto_def Let_def)

lemma embedded_fit_index:
  assumes "scenario_ok s" and "0 \<le> ixs_dimensions (sc_indexer s)" and "native_vectors s A" and "cs \<noteq> []"
    and "embed_all x F (to_embedder_config s) A cs w = (Inr es, w')"
  shows "map em_chunk es = cs \<and> batch_fault (to_indexer_config s) es = None \<and>
    (\<forall>ec \<in> set es. int (length (em_vector ec)) = ixs_dimensions (sc_indexer s) \<and> em_embedding_dimensions ec = ixs_dimensions (sc_indexer s))"
proof -
  let ?c = "to_embedder_config s" and ?k = "(adapter_value (emb_adapter (sc_embedder s)), emb_model (sc_embedder s))"
  from assms(5) obtain bs vs w1 where vs: "embed_batches A bs [] w = (Inr vs, w1)" "length vs = length cs"
      "es = map2 (build_embedded_chunk F ?c A) cs vs"
    by (auto simp: embed_all_def Let_def split: sum.splits prod.splits if_splits)
  have nat: "\<forall>v \<in> set vs. map_of native_dimensions ?k = Some (int (length v))"
    by (rule embed_batches_vectors [OF _ vs(1)]) (use assms(3) in \<open>auto simp: native_vectors_def\<close>)
  have one: "int (length (em_vector (build_embedded_chunk F ?c A c v))) = ixs_dimensions (sc_indexer s) \<and>
      em_embedding_dimensions (build_embedded_chunk F ?c A c v) = ixs_dimensions (sc_indexer s) \<and>
      em_embedding_model (build_embedded_chunk F ?c A c v) = ep_model_name A \<and> em_chunk (build_embedded_chunk F ?c A c v) = c"
    if "v \<in> set vs" for c v
    using nat [rule_format, OF that] assms(1,2) truncated_length [of _ F v]
    by (auto simp: scenario_ok_def effective_dimensions_def build_embedded_chunk_def to_embedder_config_def Let_def
        split: option.splits if_splits)
  have "map em_chunk es = cs"
    using vs one by (intro nth_equalityI) auto
  moreover from vs one have all: "\<forall>ec \<in> set es. int (length (em_vector ec)) = ixs_dimensions (sc_indexer s) \<and>
      em_embedding_dimensions ec = ixs_dimensions (sc_indexer s) \<and> em_embedding_model ec = ep_model_name A"
    by (auto dest: set_zip_rightD)
  moreover have "card (em_embedding_model ` set es) \<le> 1"
    using card_mono [of "{ep_model_name A}" "em_embedding_model ` set es"] all by fastforce
  moreover have "es \<noteq> []" using calculation(1) assms(4) by auto
  ultimately show ?thesis by (auto simp: batch_fault_def to_indexer_config_def)
qed

section \<open>One stage after the other\<close>

definition at_status :: "ledger_store \<Rightarrow> string \<Rightarrow> status \<Rightarrow> bool" where
  "at_status L d st \<longleftrightarrow> ledger_ok L \<and> (\<exists>r. ledger_get L d = Some r \<and> lr_status r = st)"

lemma advance_status:
  assumes "at_status L d a" and "fsm_edge a b" and "b \<noteq> FAILED"
  obtains r' L' where "ledger_transition now d b b None None None L = (Inr r', L')" "at_status L' d b"
proof -
  from assms(1) obtain r where r: "ledger_ok L" "ledger_get L d = Some r" "lr_status r = a" by (auto simp: at_status_def)
  let ?r = "next_row now d r b b None None None"
  have t: "ledger_transition now d b b None None None L = (Inr ?r, ledger_put d ?r L)"
    using transition_edge [OF r(1,2), of b None now None None] assms(2,3) r(3) by simp
  have "ledger_ok (ledger_put d ?r L)"
    using ledger_ok_step [OF r(1), of "TransitionOp now d b b None None None"] t by simp
  with that [OF t] show ?thesis by (simp add: at_status_def)
qed

lemma analyze_advances:
  assumes "at_status L (ae_doc_id e) PENDING" and "analysis py config reg e data w = (Elements els, w')"
  obtains L' where "analyzer_analyze py config reg now later [] e data (L, w) = (Inr els, (L', w'))" "at_status L' (ae_doc_id e) CHUNKING"
proof -
  obtain r1 L1 where t: "ledger_transition now (ae_doc_id e) ANALYZING ANALYZING None None None L = (Inr r1, L1)"
      and s1: "at_status L1 (ae_doc_id e) ANALYZING"
    by (rule advance_status [OF assms(1), of ANALYZING now]) simp_all
  obtain r2 L2 where "ledger_transition later (ae_doc_id e) CHUNKING CHUNKING None None None L1 = (Inr r2, L2)"
      "at_status L2 (ae_doc_id e) CHUNKING"
    by (rule advance_status [OF s1, of CHUNKING later]) simp_all
  with analyze_entered [OF t assms(2), of later "[]"] that show ?thesis by simp
qed

lemma chunk_advances:
  assumes "at_status L (ae_doc_id e) CHUNKING" and "es \<noteq> []" and "assemble_chunks x split config tokens (ae_doc_id e) es = Inr cs"
  obtains L' where "chunker_chunk x split config tokens now e es L = (Inr cs, L')" "at_status L' (ae_doc_id e) EMBEDDING"
proof -
  obtain r L' where "ledger_transition now (ae_doc_id e) EMBEDDING EMBEDDING None None None L = (Inr r, L')" "at_status L' (ae_doc_id e) EMBEDDING"
    by (rule advance_status [OF assms(1), of EMBEDDING now]) simp_all
  with assms(2,3) that show ?thesis by (simp add: chunker_chunk_def build_chunks_def transition_to_embedding_def)
qed

lemma embed_advances:
  assumes "at_status L (ae_doc_id e) EMBEDDING" and "cs \<noteq> []" and "\<forall>c \<in> set cs. ch_token_count c \<le> ep_max_input_tokens A"
    and "embed_all x F config A cs w = (Inr es, w')"
  obtains L' where "embedder_embed x F config A now e cs (L, w) = (Inr es, (L', w'))" "at_status L' (ae_doc_id e) INDEXING"
proof -
  obtain r L' where "ledger_transition now (ae_doc_id e) INDEXING INDEXING None None None L = (Inr r, L')" "at_status L' (ae_doc_id e) INDEXING"
    by (rule advance_status [OF assms(1), of INDEXING now]) simp_all
  with assms(2-4) that validate_input_lengths_ok [OF assms(3), of now "ae_doc_id e" L] show ?thesis
    by (simp add: embedder_embed_def embedder_run_with_recovery_def transition_to_indexing_def Let_def)
qed

text \<open>The last stage on a document the index does not know yet, once the embedded chunks fit the index.\<close>

definition holds_chunk :: "'f memory_index \<Rightarrow> scenario \<Rightarrow> arrival_envelope \<Rightarrow> chunk \<Rightarrow> bool" where
  "holds_chunk M s e c \<longleftrightarrow> (\<exists>r. memory_contents M (ch_chunk_id c) = Some r \<and> ir_text r = ch_text c \<and>
     ir_doc_version r = ae_content_hash e \<and> int (length (ir_vector r)) = ixs_dimensions (sc_indexer s))"

lemma built_record_holds:
  assumes "build_records t d e es L = Inr rs" and "c \<in> set (map em_chunk es)"
    and "\<forall>ec \<in> set es. int (length (em_vector ec)) = ixs_dimensions (sc_indexer s)"
    and "\<And>q. q \<in> set rs \<Longrightarrow> memory_contents M (ir_chunk_id q) = Some q"
  shows "holds_chunk M s e c"
proof -
  obtain i where i: "i < length es" "c = em_chunk (es ! i)" using assms(2) by (metis in_set_conv_nth length_map nth_map)
  have q: "build_record (config_version_for d L) d t e (es ! i) = Inr (rs ! i)" "rs ! i \<in> set rs"
    using map_res_nth [OF assms(1) [unfolded build_records_def] i(1)] build_records_Inr(2) [OF assms(1)] i(1) by simp_all
  from q(1) have "ir_chunk_id (rs ! i) = ch_chunk_id c" "ir_text (rs ! i) = ch_text c" "ir_doc_version (rs ! i) = ae_content_hash e"
      "ir_vector (rs ! i) = em_vector (es ! i)"
    using build_record_fields i(2) by blast+
  with assms(4) [OF q(2)] i(1) assms(3) show ?thesis unfolding holds_chunk_def by (intro exI [of _ "rs ! i"]) simp
qed

lemma index_new_document:
  fixes M :: "'f memory_index"
  assumes "at_status L (ae_doc_id e) INDEXING" and "batch_fault (to_indexer_config s) es = None"
    and "\<forall>ec \<in> set es. path_ok (ch_metadata (em_chunk ec)) \<and> int (length (em_vector ec)) = ixs_dimensions (sc_indexer s)"
    and "memory_ok M" and "doc_chunks (memory_contents M) (ae_doc_id e) = {}"
    and "distinct (map ch_chunk_id (map em_chunk es))" and "\<forall>c \<in> set (map em_chunk es). memory_contents M (ch_chunk_id c) = None"
  obtains k L' M' where "indexer_index y (to_indexer_config s) (memory_port y pick name) t e es (L, M) = (Inr k, (L', M'))"
    "row_status L' (ae_doc_id e) = Some INDEXED"
    "doc_chunks (memory_contents M') (ae_doc_id e) = ch_chunk_id ` set (map em_chunk es)"
    "\<forall>c \<in> set (map em_chunk es). holds_chunk M' s e c"
    "\<forall>c r. memory_contents M c = Some r \<longrightarrow> memory_contents M' c = Some r"
proof -
  let ?d = "ae_doc_id e" and ?m = "memory_contents M" and ?xc = "to_indexer_config s" and ?cs = "map em_chunk es"
  have "\<forall>ec \<in> set es. path_ok (ch_metadata (em_chunk ec))" using assms(3) by blast
  then obtain rs where rs: "build_records t ?d e es L = Inr rs" by (rule records_build)
  note b = build_records_Inr [OF rs]
  have ids: "map ir_chunk_id rs = map ch_chunk_id ?cs" unfolding b(1) by simp
  have set_ids: "ir_chunk_id ` set rs = ch_chunk_id ` set ?cs" using arg_cong [OF ids, of set] by (simp add: image_image)
  have "?m (ir_chunk_id q) = None" if "q \<in> set rs" for q
    using assms(7) imageI [OF that, of ir_chunk_id] unfolding set_ids by auto
  with b(3) have free: "ids_free ?d rs ?m" by (simp add: ids_free_def)
  have uv: "uniform_version ?m ?d" using assms(5) by (auto simp: uniform_version_def doc_chunks_def)
  from assms(1) obtain r where r: "ledger_ok L" "ledger_get L ?d = Some r" "lr_status r = INDEXING" by (auto simp: at_status_def)
  have bsz: "0 < index_batch_size ?xc (memory_port y pick name :: ('f, 'f memory_index) index_port)"
    by (simp add: index_batch_size_def to_indexer_config_def default_indexer_config_def memory_port_def)
  obtain k L' M' r' where M': "indexer_index y ?xc (memory_port y pick name) t e es (L, M) = (Inr k, (L', M'))"
      "memory_contents M' = put_all rs (purged ?xc ?d (ae_content_hash e) ?m)" "ledger_get L' ?d = Some r'" "lr_status r' = INDEXED"
    using memory.index_stores [OF r(1,2) disjI1 [OF r(3)] assms(4) uv assms(2) rs free bsz, of y] by auto
  have dist: "distinct (map ir_chunk_id rs)" using ids assms(6) by simp
  note ic = indexed_contents [OF free dist, where config = ?xc and v = "ae_content_hash e", folded M'(2)]
  show thesis
  proof (rule that [OF M'(1)])
    show "row_status L' ?d = Some INDEXED" using M'(3,4) by (simp add: row_status_def)
    show "doc_chunks (memory_contents M') ?d = ch_chunk_id ` set ?cs" using ic(2) assms(5) set_ids by simp
    show "\<forall>c \<in> set ?cs. holds_chunk M' s e c" using built_record_holds [OF rs _ _ ic(1)] assms(3) by blast
    show "\<forall>c q. ?m c = Some q \<longrightarrow> memory_contents M' c = Some q" using ic(3) assms(5) by (auto simp: doc_chunks_def)
  qed
qed

section \<open>Properties\<close>


text \<open>A sample: one paragraph, and an adapter that answers every text with a vector of 768 components.\<close>

definition unit_ops :: "unit float_ops" where
  "unit_ops = \<lparr>fl_zero = (), fl_mul = \<lambda>_ _. (), fl_div = \<lambda>_ _. (), fl_sum = \<lambda>_. (), fl_sqrt = \<lambda>_. ()\<rparr>"

definition sample_port :: "(unit, unit) embedding_port" where
  "sample_port = \<lparr>ep_model_name = ''nomic-ai/nomic-embed-text-v1.5'', ep_native_dimensions = 768, ep_max_batch_size = 64, ep_max_input_tokens = 8192,
     ep_supports_mrl = True, ep_document_prefix = None, ep_embed_batch = (\<lambda>b w. (Inr (map (\<lambda>t. replicate 768 ()) b), w))\<rparr>"

lemma sample_native: "native_vectors demo_scenario sample_port"
  by (auto simp: native_vectors_def sample_port_def demo_scenario_def native_dimensions_def)

lemma sample_embeds: "\<exists>es. embed_all y unit_ops (to_embedder_config demo_scenario) sample_port [c] w = (Inr es, w)"
  by (simp add: embed_all_def Let_def batched_eq_chunks_of effective_batch_size_def sample_port_def to_embedder_config_def
      default_embedder_config_def chunks_of_Cons zip_strict_def)

lemma sample_chunks:
  "\<exists>c. assemble_chunks x one_piece (to_chunker_config demo_scenario) char_count demo_id
     [\<lparr>el_type = PARAGRAPH, el_text = ''p'', el_metadata = []\<rparr>] = Inr [c] \<and> ch_token_count c = 1"
proof -
  have "valid_id demo_id" by simp
  then show ?thesis
    by (simp add: assemble_chunks_def partition_regions_def non_table_region_def dispatch_region_def char_count_def one_piece_def
        recursive_chunk_region_def merge_tail_single assign_positions_def derive_chunk_id_def Let_def validate_chunk_index_def
        join_element_text_def)
qed


section \<open>Where the stages do not fit\<close>

text \<open>
  The cloud parser emits all paragraphs and then all tables, so that for the chunker the first table of a
  document stands after its last paragraph, and takes this paragraph as its caption.
\<close>

lemma first_table_caption:
  assumes "dr_paragraphs res = Some ps" and "ps \<noteq> []" and "snd (last ps) \<notin> Some ` set heading_roles"
  shows "caption_for_table (elements_from_result heading_roles res) (length ps) = Some (fst (last ps))"
  using assms
  by (cases ps rule: rev_cases)
    (auto simp: caption_for_table_def elements_from_result_def paragraph_element_def nth_append split: option.splits)

text \<open>A document of headings only has no chunks, and the embedder fails it for good.\<close>

lemma headings_have_no_chunks:
  "assemble_chunks x split config tokens d [\<lparr>el_type = HEADING, el_text = t, el_metadata = m\<rparr>] = Inr []"
  by (simp add: assemble_chunks_def partition_regions_def non_table_region_def dispatch_region_def structure_aware_chunk_region_def
      split_into_sections_def merge_undersized_tail.simps must_merge_def assign_positions_def)

text \<open>
  A scenario with a negative target is accepted, and none of its vectors then fits its index: the slice
  counts from the end, so the vector keeps all but that many components.
\<close>

lemma negative_target_misfits:
  assumes "scenario_ok s" and "emb_target_dimensions (sc_embedder s) = Some (- int k)" and "0 < k"
  shows "int (length (em_vector (build_embedded_chunk F (to_embedder_config s) A c v))) \<noteq> xc_dimensions (to_indexer_config s)"
  using assms
  by (auto simp: scenario_ok_def effective_dimensions_def to_indexer_config_def split: option.splits if_splits)

lemma negative_target_accepted:
  "scenario_ok (demo_scenario\<lparr>sc_embedder := (sc_embedder demo_scenario)\<lparr>emb_target_dimensions := Some (-1)\<rparr>,
     sc_indexer := (sc_indexer demo_scenario)\<lparr>ixs_dimensions := -1\<rparr>\<rparr>)"
  using demo_scenario_ok by (simp add: scenario_ok_def) (simp add: demo_scenario_def effective_dimensions_def native_dimensions_def)

end
