(* ===== verification/Taxonomy.thy ===== *)
theory Taxonomy
  imports Errors
begin

text \<open>
  The error codes of the system. Every package registers its codes in the process-wide registry of
  \<open>src/vestibule/errors/registry.py\<close> when it is imported (the \<open>register_error\<close> calls at the end of each
  \<open>model.py\<close>, of \<open>ledger/store.py\<close> and of \<open>identity/derive.py\<close>, and the registry's own code). A process imports
  some of the packages, in an order that depends on its entry point, and each of them once; the
  theorems hold for every such order. In the descriptions a long dash of the source is written as a
  hyphen.
\<close>

section \<open>Registrations\<close>

type_synonym registration = "pyval \<times> severity_arg \<times> pyval"

definition errors_registrations :: "registration list" where
  "errors_registrations =
    [(PyStr ''ERROR_CODE_REGISTRATION_INVALID'', Sev PERMANENT,
      PyStr (''an error code was registered with an invalid code/severity/description, or was already registered '' @
        ''(registry is immutable after first registration)''))]"

definition identity_registrations :: "registration list" where
  "identity_registrations =
    [(PyStr ''IDENTITY_INVALID'', Sev PERMANENT,
      PyStr (''malformed identity input to doc_id/chunk_id derivation (REQ-002)''))]"

definition envelope_registrations :: "registration list" where
  "envelope_registrations =
    [(PyStr ''ENVELOPE_INVALID'', Sev PERMANENT,
      PyStr (''arrival envelope failed schema or doc_id cross-check validation (REQ-001)''))]"

definition ledger_registrations :: "registration list" where
  "ledger_registrations =
    [(PyStr ''LEDGER_TRANSITION_INVALID'', Sev PERMANENT,
      PyStr (''illegal or malformed ledger state transition, incl. benign concurrent races requiring caller-side '' @
        ''is_benign_concurrent_loss() triage (REQ-003)''))]"

definition scenario_registrations :: "registration list" where
  "scenario_registrations =
    [(PyStr ''SCENARIO_NOT_FOUND'', Sev PERMANENT,
      PyStr (''no scenario exists for the requested scenario_id or vertical, and no default_scenario_id resolved '' @
        ''either (REQ-010)'')),
     (PyStr ''SCENARIO_INVALID'', Sev PERMANENT,
      PyStr (''a scenario failed validation (dimension mismatch, impossible MRL truncation, invalid index_name, or '' @
        ''invalid chunker token bounds) - raised at construction, before any document is ever processed '' @
        ''(REQ-010)'')),
     (PyStr ''SCENARIO_STORE_READ_ONLY'', Sev PERMANENT,
      PyStr (''upsert/delete was attempted against a read-only ScenarioStore backend (REQ-010)'')),
     (PyStr ''SCENARIO_CONFLICT'', Sev TRANSIENT,
      PyStr (''an optimistic-concurrency ETag conflict occurred on a TableStorageScenarioStore upsert; the caller '' @
        ''should re-read and retry (REQ-010)'')),
     (PyStr ''SCENARIO_STORE_UNAVAILABLE'', Sev TRANSIENT,
      PyStr (''Table Storage returned an HTTP 429/5xx error or timed out after exhausting in-adapter retries '' @
        ''(REQ-010)'')),
     (PyStr ''SCENARIO_STORE_DEPENDENCY_MISSING'', Sev PERMANENT,
      PyStr (''TableStorageScenarioStore'' @ [CHR 0x27] @ ''s required optional dependency (azure-data-tables) is not installed; never'' @
        '' retryable - the caller must install the extra (REQ-010)''))]"

definition vertical_registrations :: "registration list" where
  "vertical_registrations =
    [(PyStr ''VERTICAL_UNRESOLVED'', Sev PERMANENT,
      PyStr (''no vertical/scenario_id signal on the envelope and no source mapping matched; document parked to '' @
        ''needs_review for human review - PERMANENT here means '' @ [CHR 0x27] @ ''stop redelivering this exact message,'' @ [CHR 0x27] @ '' not '' @
        [CHR 0x27] @ ''the document is dead'' @ [CHR 0x27] @ '': see this module'' @ [CHR 0x27] @ ''s own docstring (REQ-009)'')),
     (PyStr ''VERTICAL_MAPPING_INVALID'', Sev PERMANENT,
      PyStr (''a configured source mapping references a vertical with no enabled scenario in the ScenarioStore; '' @
        ''raised at VerticalLoader construction, before any document is ever processed (REQ-009)'')),
     (PyStr ''VERTICAL_REJECTED'', Sev PERMANENT,
      PyStr (''a human reviewer rejected a needs_review-parked document via ReviewQueue.reject (REQ-009)'')),
     (PyStr ''REVIEW_ITEM_NOT_FOUND'', Sev PERMANENT,
      PyStr (''ReviewQueue.assign/reject was called for a doc_id not currently in needs_review (REQ-009)''))]"

definition reprocessor_registrations :: "registration list" where
  "reprocessor_registrations =
    [(PyStr ''REPROCESS_NOT_FAILED'', Sev PERMANENT,
      PyStr (''Reprocessor.requeue()/archive() was called for a doc_id whose ledger row is not currently failed '' @
        ''(REQ-012)'')),
     (PyStr ''REPROCESS_DOC_NOT_FOUND'', Sev PERMANENT,
      PyStr (''Reprocessor.requeue()/archive() was called for a doc_id with no ledger row at all (REQ-012)''))]"

definition analyzer_registrations :: "registration list" where
  "analyzer_registrations =
    [(PyStr ''ANALYZER_UNSUPPORTED_TYPE'', Sev PERMANENT,
      PyStr (''detect_type could not classify the document as a supported type: unrecognized magic bytes, an '' @
        ''encrypted PDF, or a corrupt file (REQ-005)'')),
     (PyStr ''ANALYZER_NO_PARSER'', Sev PERMANENT,
      PyStr (''a supported DetectedType has no ParserAdapter registered against it in the ParserRegistry - a '' @
        ''registry misconfiguration (REQ-005)'')),
     (PyStr ''ANALYZER_DEPENDENCY_MISSING'', Sev PERMANENT,
      PyStr (''pymupdf (a core dependency) could not be imported when detect_type'' @ [CHR 0x27] @ ''s PDF sub-typing probe or '' @
        ''PyMuPDFParser needed it - a broken/partial install, not a per-document condition (issue #19)'')),
     (PyStr ''PARSER_TIMEOUT'', Sev TRANSIENT,
      PyStr (''a ParserAdapter.parse() call did not return within parser_timeout_seconds (REQ-005)'')),
     (PyStr ''DOCINT_RATE_LIMITED'', Sev TRANSIENT,
      PyStr (''Azure Document Intelligence returned HTTP 429 (REQ-005)'')),
     (PyStr ''DOCINT_UPSTREAM_ERROR'', Sev TRANSIENT,
      PyStr (''Azure Document Intelligence returned an HTTP 5xx error (REQ-005)'')),
     (PyStr ''PARSER_INTERNAL'', Sev TRANSIENT,
      PyStr (''a ParserAdapter raised an exception not mapped to any other declared Analyzer error code; the '' @
        ''original exception is logged (REQ-005)''))]"

definition chunker_registrations :: "registration list" where
  "chunker_registrations =
    [(PyStr ''CHUNKER_EMPTY_ELEMENTS'', Sev PERMANENT,
      PyStr (''Chunker.chunk was called with an empty elements list (the Analyzer returned zero elements) - nothing'' @
        '' to chunk (REQ-006)'')),
     (PyStr ''TOKENIZER_LOAD_FAILED'', Sev TRANSIENT,
      PyStr (''a TokenCounter failed to load its underlying tokenizer resource on first use, e.g. '' @
        ''tiktoken.get_encoding raised (REQ-006)'')),
     (PyStr ''CHUNKER_INTERNAL'', Sev TRANSIENT,
      PyStr (''an exception from a ChunkStrategy call, the min-chunk merge pass, or chunk_id assignment not mapped '' @
        ''to any other declared Chunker error code; the original exception is logged (REQ-006)''))]"

definition embedder_registrations :: "registration list" where
  "embedder_registrations =
    [(PyStr ''EMBEDDER_EMPTY_CHUNKS'', Sev PERMANENT,
      PyStr (''Embedder.embed was called with an empty chunks list (the Chunker returned zero chunks) - nothing to '' @
        ''embed (REQ-007)'')),
     (PyStr ''EMBEDDER_MRL_UNSUPPORTED'', Sev PERMANENT,
      PyStr (''EmbedderConfig.target_dimensions was set but the configured EmbedderAdapter reports '' @
        ''supports_mrl=False - raised at construction time, fail fast (REQ-007)'')),
     (PyStr ''EMBEDDER_INPUT_TOO_LONG'', Sev PERMANENT,
      PyStr (''a Chunk'' @ [CHR 0x27] @ ''s token_count exceeds the configured EmbedderAdapter'' @ [CHR 0x27] @ ''s max_input_tokens; indicates a '' @
        ''Chunker/Embedder token_counter config mismatch, not a transient condition (REQ-007)'')),
     (PyStr ''EMBEDDER_RATE_LIMITED'', Sev TRANSIENT,
      PyStr (''the embedding provider returned HTTP 429 after exhausting in-adapter retries (REQ-007)'')),
     (PyStr ''EMBEDDER_UPSTREAM_ERROR'', Sev TRANSIENT,
      PyStr (''the embedding provider returned an HTTP 5xx error after exhausting in-adapter retries (REQ-007)'')),
     (PyStr ''EMBEDDER_TIMEOUT'', Sev TRANSIENT,
      PyStr (''an EmbedderAdapter.embed_batch call did not return in time, after exhausting in-adapter retries '' @
        ''(REQ-007)'')),
     (PyStr ''EMBEDDER_INTERNAL'', Sev TRANSIENT,
      PyStr (''an exception from an EmbedderAdapter not mapped to any other declared Embedder error code; the '' @
        ''original exception is logged (REQ-007)'')),
     (PyStr ''EMBEDDER_DEPENDENCY_MISSING'', Sev PERMANENT,
      PyStr (''an EmbedderAdapter'' @ [CHR 0x27] @ ''s required optional dependency (e.g. fastembed) is not installed; never retryable'' @
        '' - the caller must install the extra (REQ-007)''))]"

definition indexer_registrations :: "registration list" where
  "indexer_registrations =
    [(PyStr ''INDEXER_EMPTY_RECORDS'', Sev PERMANENT,
      PyStr (''Indexer.index was called with an empty embedded_chunks list (the Embedder returned zero chunks) - '' @
        ''nothing to index (REQ-008)'')),
     (PyStr ''INDEXER_DIMENSION_MISMATCH'', Sev PERMANENT,
      PyStr (''a record'' @ [CHR 0x27] @ ''s embedding_dimensions does not match the schema'' @ [CHR 0x27] @ ''s configured dimension count; raised '' @
        ''before any write (REQ-008)'')),
     (PyStr ''INDEXER_MIXED_MODEL_BATCH'', Sev PERMANENT,
      PyStr (''a single Indexer.index call carried records from more than one distinct embedding_model; raised '' @
        ''before any write (REQ-008)'')),
     (PyStr ''INDEXER_SCHEMA_CONFLICT'', Sev PERMANENT,
      PyStr (''the store'' @ [CHR 0x27] @ ''s existing index has a schema incompatible with the configured dimensions/metric; requires'' @
        '' human intervention, never retried (REQ-008)'')),
     (PyStr ''INDEXER_RECORD_TOO_LARGE'', Sev PERMANENT,
      PyStr (''a single record exceeds the store'' @ [CHR 0x27] @ ''s size limit, typically an oversized table chunk from REQ-006 '' @
        ''(REQ-008)'')),
     (PyStr ''INDEXER_RATE_LIMITED'', Sev TRANSIENT,
      PyStr (''the vector store returned HTTP 429 after exhausting in-adapter retries (REQ-008)'')),
     (PyStr ''INDEXER_UPSTREAM_ERROR'', Sev TRANSIENT,
      PyStr (''the vector store returned an HTTP 5xx error after exhausting in-adapter retries (REQ-008)'')),
     (PyStr ''INDEXER_TIMEOUT'', Sev TRANSIENT,
      PyStr (''an IndexerAdapter call did not return in time, after exhausting in-adapter retries (REQ-008)'')),
     (PyStr ''INDEXER_PARTIAL_BATCH_FAILURE'', Sev TRANSIENT,
      PyStr (''some records in a batch failed to upsert after one in-orchestrator retry of only the failed '' @
        ''chunk_ids (REQ-008)'')),
     (PyStr ''INDEXER_INTERNAL'', Sev TRANSIENT,
      PyStr (''an exception from an IndexerAdapter not mapped to any other declared Indexer error code; the '' @
        ''original exception is logged (REQ-008)'')),
     (PyStr ''INDEXER_DEPENDENCY_MISSING'', Sev PERMANENT,
      PyStr (''an IndexerAdapter'' @ [CHR 0x27] @ ''s required optional dependency (e.g. azure-search-documents) is not installed; '' @
        ''never retryable - the caller must install the extra (REQ-008)''))]"

definition provisioning_registrations :: "registration list" where
  "provisioning_registrations =
    [(PyStr ''INDEX_TEMPLATE_NOT_FOUND'', Sev PERMANENT,
      PyStr (''no IndexTemplate is loaded for the resolved template_id (REQ-011)'')),
     (PyStr ''INDEX_TEMPLATE_INVALID'', Sev PERMANENT,
      PyStr (''a template file failed validation at load time, or its resolved dimensions disagree with '' @
        ''scenario.indexer.dimensions at provisioning time (REQ-011)'')),
     (PyStr ''INDEX_SCHEMA_DRIFT'', Sev PERMANENT,
      PyStr (''a live index'' @ [CHR 0x27] @ ''s dimensions/metric/template_version are incompatible with the resolved template; never'' @
        '' auto-migrated, requires human intervention (REQ-011)'')),
     (PyStr ''INDEX_PROVISION_FAILED'', Sev PERMANENT,
      PyStr (''the registry entry for this index_name is terminally failed; requires human intervention, never '' @
        ''retried automatically (REQ-011)'')),
     (PyStr ''INDEX_RETIRED'', Sev PERMANENT,
      PyStr (''the registry entry for this index_name has been retired (REQ-011)'')),
     (PyStr ''INDEX_AUTO_CREATE_DISABLED'', Sev PERMANENT,
      PyStr (''no index exists for this index_name and config.auto_create is False (REQ-011)'')),
     (PyStr ''INDEX_PROVISION_TIMEOUT'', Sev TRANSIENT,
      PyStr (''a waiting worker exceeded wait_for_provisioning_timeout_seconds without observing the claim reach '' @
        ''ready (REQ-011)'')),
     (PyStr ''INDEX_PROVISION_CONFLICT'', Sev TRANSIENT,
      PyStr (''an IndexRegistry CAS write (reclaim/mark_ready/mark_failed) lost a race against a concurrent writer;'' @
        '' the caller should re-read and retry (REQ-011)'')),
     (PyStr ''INDEX_REGISTRY_UNAVAILABLE'', Sev TRANSIENT,
      PyStr (''TableStorageIndexRegistry returned an HTTP 429/5xx error or timed out after exhausting in-adapter '' @
        ''retries (REQ-011)'')),
     (PyStr ''INDEX_PROVISIONER_UNAVAILABLE'', Sev TRANSIENT,
      PyStr (''an IndexProvisionerAdapter call exhausted retries against an HTTP 429/5xx/timeout, or raised an '' @
        ''exception not otherwise mapped (Assumption A7) (REQ-011)'')),
     (PyStr ''INDEX_PROVISIONER_DEPENDENCY_MISSING'', Sev PERMANENT,
      PyStr (''a required optional dependency (azure-search-documents/azure-data-tables) is not installed; never '' @
        ''retryable - the caller must install the extra (REQ-011)''))]"


section \<open>Importing packages\<close>

datatype package = P_errors | P_identity | P_envelope | P_ledger | P_scenario | P_vertical | P_reprocessor
  | P_analyzer | P_chunker | P_embedder | P_indexer | P_provisioning

fun registrations :: "package \<Rightarrow> registration list" where
  "registrations P_errors = errors_registrations"
| "registrations P_identity = identity_registrations"
| "registrations P_envelope = envelope_registrations"
| "registrations P_ledger = ledger_registrations"
| "registrations P_scenario = scenario_registrations"
| "registrations P_vertical = vertical_registrations"
| "registrations P_reprocessor = reprocessor_registrations"
| "registrations P_analyzer = analyzer_registrations"
| "registrations P_chunker = chunker_registrations"
| "registrations P_embedder = embedder_registrations"
| "registrations P_indexer = indexer_registrations"
| "registrations P_provisioning = provisioning_registrations"

text \<open>The imports of a process: the first registration that raises ends it.\<close>

fun import_calls :: "error_registry \<Rightarrow> registration list \<Rightarrow> registration_error + error_registry" where
  "import_calls r [] = Inr r"
| "import_calls r ((c, s, d) # calls) = (case register r c s d of
     (Inl e, _) \<Rightarrow> Inl e | (Inr _, r') \<Rightarrow> import_calls r' calls)"

definition import_packages :: "package list \<Rightarrow> registration_error + error_registry" where
  "import_packages order = import_calls empty_registry (concat (map registrations order))"

text \<open>What is asked of a registration on its own, and the entry it makes.\<close>

fun well_formed :: "registration \<Rightarrow> bool" where
  "well_formed (PyStr c, Sev s, PyStr d) = (c \<noteq> [] \<and> d \<noteq> [])"
| "well_formed _ = False"

fun entry_of :: "registration \<Rightarrow> error_code" where
  "entry_of (PyStr c, Sev s, PyStr d) = \<lparr>ec_code = c, ec_severity = s, ec_description = d\<rparr>"
| "entry_of _ = undefined"

definition all_packages :: "package list" where
  "all_packages = [P_errors, P_identity, P_envelope, P_ledger, P_scenario, P_vertical, P_reprocessor,
     P_analyzer, P_chunker, P_embedder, P_indexer, P_provisioning]"

definition package_of :: "string \<Rightarrow> package option" where
  "package_of c = find (\<lambda>p. c \<in> ec_code ` entry_of ` set (registrations p)) all_packages"

lemma well_formedE:
  assumes "well_formed g"
  obtains c s d where "g = (PyStr c, Sev s, PyStr d)" "c \<noteq> []" "d \<noteq> []"
  using assms by (cases g rule: well_formed.cases) auto

lemma import_calls_accepts:
  assumes "list_all well_formed calls" and "distinct (map (ec_code \<circ> entry_of) calls)"
    and "\<forall>g \<in> set calls. map_of r (ec_code (entry_of g)) = None"
  shows "import_calls r calls = Inr (r @ map (\<lambda>g. (ec_code (entry_of g), entry_of g)) calls)"
  using assms
proof (induction calls arbitrary: r)
  case (Cons g calls)
  obtain c s d where g: "g = (PyStr c, Sev s, PyStr d)" "c \<noteq> []" "d \<noteq> []" using Cons.prems(1) by (auto elim: well_formedE)
  let ?e = "\<lparr>ec_code = c, ec_severity = s, ec_description = d\<rparr>"
  have "register r (PyStr c) (Sev s) (PyStr d) = (Inr ?e, r @ [(c, ?e)])"
    using g Cons.prems(3) by (simp add: register_def codes_get_def Let_def dict_set_fresh)
  moreover have "import_calls (r @ [(c, ?e)]) calls =
      Inr ((r @ [(c, ?e)]) @ map (\<lambda>g. (ec_code (entry_of g), entry_of g)) calls)"
    by (rule Cons.IH) (use Cons.prems g in \<open>auto simp: map_add_def image_iff\<close>)
  ultimately show ?case using g by simp
qed simp

lemma packages_checked:
  "list_all (\<lambda>p. list_all well_formed (registrations p) \<and> distinct (map (ec_code \<circ> entry_of) (registrations p)) \<and>
     list_all (\<lambda>g. package_of (ec_code (entry_of g)) = Some p) (registrations p)) all_packages"
  by code_simp

lemma package_listed: "p \<in> set all_packages"
  by (cases p) (simp_all add: all_packages_def)

lemma package_registrations:
  "list_all well_formed (registrations p)" "distinct (map (ec_code \<circ> entry_of) (registrations p))"
  "g \<in> set (registrations p) \<Longrightarrow> package_of (ec_code (entry_of g)) = Some p"
  using packages_checked package_listed [of p] by (auto simp: list_all_iff)

lemma codes_distinct:
  "distinct order \<Longrightarrow> distinct (map (ec_code \<circ> entry_of) (concat (map registrations order)))"
proof (induction order)
  case (Cons p order)
  have "ec_code (entry_of g) \<noteq> ec_code (entry_of h)" if "g \<in> set (registrations p)" "q \<in> set order" "h \<in> set (registrations q)" for g q h
    using package_registrations(3) [OF that(1)] package_registrations(3) [OF that(3)] that(2) Cons.prems by auto
  then show ?case using Cons package_registrations(2) [of p] by (auto simp: comp_def)
qed simp

lemma import_packages_Inr:
  assumes "distinct order"
  shows "import_packages order = Inr (map (\<lambda>g. (ec_code (entry_of g), entry_of g)) (concat (map registrations order)))"
  unfolding import_packages_def
  using import_calls_accepts [OF _ codes_distinct [OF assms], of empty_registry] package_registrations(1)
  by (auto simp: list_all_iff empty_registry_def)

lemma classify_imported:
  assumes "distinct order" and "import_packages order = Inr R" and "p \<in> set order" and "g \<in> set (registrations p)"
  shows "classify R (ec_code (entry_of g)) = ec_severity (entry_of g)"
proof -
  let ?gs = "concat (map registrations order)" and ?f = "\<lambda>g. (ec_code (entry_of g), entry_of g)"
  have R: "R = map ?f ?gs" using import_packages_Inr [OF assms(1)] assms(2) by simp
  have "distinct (map fst R)" using codes_distinct [OF assms(1)] by (simp add: R comp_def)
  moreover have "?f g \<in> set R" using assms(3,4) unfolding R by auto
  ultimately have "map_of R (ec_code (entry_of g)) = Some (entry_of g)" by simp
  then show ?thesis by (simp add: classify_def)
qed

section \<open>Properties\<close>

text \<open>
  C35. The imports of any process succeed. Whatever packages it imports, in whatever order, each once, no
  registration is refused: the registry then lists exactly the codes of these packages, in the order
  of the imports, and a code is classified with the severity its package declares, while every code of
  a package that was not imported is classified as transient.
\<close>

theorem imports_register_everything:
  assumes "distinct order"
  shows "\<exists>R. import_packages order = Inr R \<and> all_codes R = map entry_of (concat (map registrations order)) \<and>
    (\<forall>p. \<forall>g \<in> set (registrations p). classify R (ec_code (entry_of g)) = (if p \<in> set order then ec_severity (entry_of g) else TRANSIENT))"
proof -
  let ?gs = "concat (map registrations order)"
  let ?R = "map (\<lambda>g. (ec_code (entry_of g), entry_of g)) ?gs"
  note R = import_packages_Inr [OF assms]
  have "classify ?R (ec_code (entry_of g)) = TRANSIENT" if "g \<in> set (registrations p)" "p \<notin> set order" for p g
  proof -
    have "ec_code (entry_of g) \<noteq> ec_code (entry_of h)" if "h \<in> set ?gs" for h
      using that \<open>p \<notin> set order\<close> package_registrations(3) [OF \<open>g \<in> set (registrations p)\<close>] package_registrations(3) [of h] by force
    then have "map_of ?R (ec_code (entry_of g)) = None" by (fastforce simp: map_of_eq_None_iff)
    then show ?thesis by (simp add: classify_def)
  qed
  with R classify_imported [OF assms R] show ?thesis
    by (intro exI [of _ ?R]) (auto simp: all_codes_def comp_def)
qed

theorem imports_register_everything_witness:
  "\<exists>R. import_packages [P_errors, P_ledger, P_chunker] = Inr R \<and> length (all_codes R) = 5 \<and>
     classify R ''CHUNKER_EMPTY_ELEMENTS'' = PERMANENT \<and> classify R ''INDEX_RETIRED'' = TRANSIENT"
proof -
  have d: "distinct [P_errors, P_ledger, P_chunker]" by simp
  obtain R where R: "import_packages [P_errors, P_ledger, P_chunker] = Inr R"
      "all_codes R = map entry_of (concat (map registrations [P_errors, P_ledger, P_chunker]))"
      "\<forall>p. \<forall>g \<in> set (registrations p). classify R (ec_code (entry_of g)) =
         (if p \<in> set [P_errors, P_ledger, P_chunker] then ec_severity (entry_of g) else TRANSIENT)"
    using imports_register_everything [OF d] by blast
  have "length (concat (map registrations [P_errors, P_ledger, P_chunker])) = 5" by code_simp
  then have "length (all_codes R) = 5" using R(2) by simp
  moreover have h: "hd (registrations P_chunker) \<in> set (registrations P_chunker)"
      "ec_code (entry_of (hd (registrations P_chunker))) = ''CHUNKER_EMPTY_ELEMENTS''"
      "ec_severity (entry_of (hd (registrations P_chunker))) = PERMANENT"
      "registrations P_provisioning ! 4 \<in> set (registrations P_provisioning)"
      "ec_code (entry_of (registrations P_provisioning ! 4)) = ''INDEX_RETIRED''"
    by code_simp+
  moreover note R(3) [THEN spec, THEN bspec, OF h(1)] R(3) [THEN spec, THEN bspec, OF h(4)]
  ultimately show ?thesis using R(1) by (intro exI [of _ R]) (simp del: registrations.simps)
qed

end
