(* ===== verification/Severity.thy ===== *)
theory Severity
  imports Taxonomy Vertical_Loader Reprocessor Analyzer Indexer
begin

text \<open>
  The failure taxonomy and the ledger together. A consumer decides from the severity of an error code
  whether a message is delivered again; the ledger says from the status of the row whether the
  document can go on. The two agree: in a deployment of the whole pipeline, whatever its workers,
  reviewers and operators do in whatever order, a row in \<open>FAILED\<close> carries a code that its package
  registers as permanent, and a row that waits in a stage for a retry carries a transient one.
\<close>

section \<open>Codes and rows\<close>

text \<open>The codes the components fail a document with, and those they record for a retry.\<close>

definition terminal_codes :: "string list" where
  "terminal_codes = [ANALYZER_UNSUPPORTED_TYPE, ANALYZER_NO_PARSER, ANALYZER_DEPENDENCY_MISSING, CHUNKER_EMPTY_ELEMENTS,
     EMBEDDER_EMPTY_CHUNKS, EMBEDDER_INPUT_TOO_LONG, INDEXER_EMPTY_RECORDS, INDEXER_MIXED_MODEL_BATCH, INDEXER_DIMENSION_MISMATCH,
     INDEXER_SCHEMA_CONFLICT, INDEXER_RECORD_TOO_LARGE, VERTICAL_REJECTED]"

definition retry_codes :: "string list" where
  "retry_codes = [PARSER_TIMEOUT, DOCINT_RATE_LIMITED, DOCINT_UPSTREAM_ERROR, PARSER_INTERNAL, TOKENIZER_LOAD_FAILED, CHUNKER_INTERNAL,
     EMBEDDER_RATE_LIMITED, EMBEDDER_UPSTREAM_ERROR, EMBEDDER_TIMEOUT, EMBEDDER_INTERNAL, INDEXER_RATE_LIMITED,
     INDEXER_UPSTREAM_ERROR, INDEXER_TIMEOUT, INDEXER_PARTIAL_BATCH_FAILURE, INDEXER_INTERNAL]"

definition active :: "status set" where
  "active = {ANALYZING, CHUNKING, EMBEDDING, INDEXING}"

definition coded :: "status \<Rightarrow> string option \<Rightarrow> bool" where
  "coded st ec \<longleftrightarrow> (\<forall>c. ec = Some c \<longrightarrow> (st = FAILED \<longrightarrow> c \<in> set terminal_codes) \<and> (st \<in> active \<longrightarrow> c \<in> set retry_codes))"

fun op_coded :: "ledger_op \<Rightarrow> bool" where
  "op_coded (CreateOp now d s) = True"
| "op_coded (TransitionOp now d to st ec em a) = coded to ec"

definition coded_ledger :: "ledger_store \<Rightarrow> bool" where
  "coded_ledger L \<longleftrightarrow> (\<forall>d r. ledger_get L d = Some r \<longrightarrow> coded (lr_status r) (lr_last_error_code r))"

lemma coded_None [simp]: "coded st None"
  by (simp add: coded_def)

lemma coded_other [simp]: "coded NEEDS_REVIEW ec" "coded PENDING ec" "coded ARCHIVED ec" "coded INDEXED ec"
  by (simp_all add: coded_def active_def)

lemma coded_put: "coded_ledger L \<Longrightarrow> coded (lr_status r) (lr_last_error_code r) \<Longrightarrow> coded_ledger (ledger_put d r L)"
  by (simp add: coded_ledger_def ledger_get_put)

lemma coded_step: "coded_ledger L \<Longrightarrow> op_coded a \<Longrightarrow> coded_ledger (ledger_step L a)"
proof (cases a)
  case (CreateOp now d s)
  assume "coded_ledger L"
  then show ?thesis unfolding CreateOp ledger_step.simps
    by (cases now d s L rule: ledger_create_cases) (auto intro!: coded_put simp: fresh_row_def)
next
  case (TransitionOp now d to st ec em b)
  assume L: "coded_ledger L" and "op_coded a"
  with TransitionOp have c: "coded to ec" by simp
  show ?thesis unfolding TransitionOp ledger_step.simps
  proof (cases now d to st ec em b L rule: ledger_transition_cases)
    case (applied r)
    with L c show "coded_ledger (snd (ledger_transition now d to st ec em b L))"
      by (auto intro!: coded_put simp: next_error_fields_def coded_ledger_def)
  qed (simp add: L)
qed

text \<open>The calls of a component amount to coded calls on the ledger.\<close>

definition codes :: "ledger_store \<Rightarrow> ledger_store \<Rightarrow> bool" where
  "codes L L' \<longleftrightarrow> (\<exists>ops. L' = ledger_run L ops \<and> list_all op_coded ops)"

lemma coded_run: "coded_ledger L \<Longrightarrow> list_all op_coded ops \<Longrightarrow> coded_ledger (ledger_run L ops)"
  by (induction ops arbitrary: L) (auto simp: coded_step)

lemma codes_coded: "codes L L' \<Longrightarrow> coded_ledger L \<Longrightarrow> coded_ledger L'"
  by (auto simp: codes_def coded_run)

lemma codes_refl [simp]: "codes L L"
  unfolding codes_def by (intro exI [of _ "[]"]) simp

lemma codes_run: "list_all op_coded ops \<Longrightarrow> codes L (ledger_run L ops)"
  unfolding codes_def by blast

lemma codes_trans: "codes L L' \<Longrightarrow> codes L' L'' \<Longrightarrow> codes L L''"
  unfolding codes_def by (metis ledger_run_append list_all_append)

lemma codes_write: "coded to ec \<Longrightarrow> codes L (snd (ledger_transition now d to st ec em a L))"
  using codes_run [of "[TransitionOp now d to st ec em a]" L] by simp

lemma codes_triaged: "coded to ec \<Longrightarrow> codes L (snd (triaged t (ledger_transition now d to st ec em a L)))"
  by (simp add: codes_write)

section \<open>The stages\<close>

lemma terminal_members [simp]:
  "ANALYZER_UNSUPPORTED_TYPE \<in> set terminal_codes" "ANALYZER_NO_PARSER \<in> set terminal_codes" "ANALYZER_DEPENDENCY_MISSING \<in> set terminal_codes"
  "CHUNKER_EMPTY_ELEMENTS \<in> set terminal_codes" "EMBEDDER_EMPTY_CHUNKS \<in> set terminal_codes" "EMBEDDER_INPUT_TOO_LONG \<in> set terminal_codes"
  "VERTICAL_REJECTED \<in> set terminal_codes" "c \<in> permanent_upsert_codes \<Longrightarrow> c \<in> set terminal_codes"
  "batch_fault config ecs = Some c \<Longrightarrow> c \<in> set terminal_codes"
  by (auto simp: terminal_codes_def permanent_upsert_codes_def batch_fault_def split: if_splits)

lemma retry_members [simp]:
  "PARSER_TIMEOUT \<in> set retry_codes" "PARSER_INTERNAL \<in> set retry_codes" "docint_status_code st = Some c \<Longrightarrow> c \<in> set retry_codes"
  "failure_code f \<in> set retry_codes" "embed_failure_code g \<in> set retry_codes"
  "index_failure_code h \<notin> permanent_upsert_codes \<Longrightarrow> index_failure_code h \<in> set retry_codes"
  by (auto simp: retry_codes_def docint_status_code_def failure_code_def embed_failure_code_def known_adapter_error_codes_def
      index_failure_code_def transient_upsert_codes_def
      split: if_splits option.splits strategy_exn.splits adapter_exn.splits store_exn.splits)

lemma coded_codes: "c \<in> set terminal_codes \<Longrightarrow> coded FAILED (Some c)"
  "c \<in> set retry_codes \<Longrightarrow> st \<noteq> FAILED \<Longrightarrow> coded st (Some c)"
  by (auto simp: coded_def active_def)

definition parsers_coded :: "'w parser_registry \<Rightarrow> bool" where
  "parsers_coded reg \<longleftrightarrow> (\<forall>dt parser e data w x w'. parser_get reg dt = Some parser \<longrightarrow>
     parser e data w = (Finished (Inl (ParserAnalyzerError x)), w') \<longrightarrow> an_error_code x \<in> set retry_codes)"

fun verdict_coded :: "verdict \<Rightarrow> bool" where
  "verdict_coded (Permanent c m dt) = (c \<in> set terminal_codes)"
| "verdict_coded (Retry c m dt) = (c \<in> set retry_codes)"
| "verdict_coded _ = True"

lemma detect_type_code:
  "detect_type py d data p n = Inl (ParserAnalyzerError x) \<Longrightarrow> an_error_code x = ANALYZER_DEPENDENCY_MISSING"
  by (auto simp: detect_type_def detect_pdf_subtype_def probe_failure_def analyzer_exn_def Let_def
      split: if_splits option.splits sum.splits pdf_error.splits)

lemma analysis_coded:
  assumes "parsers_coded reg" and "analysis py config reg e data w = (v, w')"
  shows "verdict_coded v"
proof (cases "detect_type py (ae_doc_id e) data (az_probe_pages config) (az_min_chars_per_page config)")
  case (Inl x)
  with assms(2) show ?thesis
    by (cases x) (auto simp: analysis_def dest: detect_type_code)
next
  case (Inr dt)
  show ?thesis
  proof (cases "dt = UNSUPPORTED \<or> parser_get reg dt = None")
    case True
    with Inr assms(2) show ?thesis by (cases dt) (auto simp: analysis_def)
  next
    case False
    then obtain parser out where p: "parser_get reg dt = Some parser" "parser e data w = (out, w')" "v = parser_verdict config dt out"
      using Inr assms(2) by (cases dt) (auto simp: analysis_def split: prod.splits)
    moreover have "an_error_code x \<in> set retry_codes" if "out = Finished (Inl (ParserAnalyzerError x))" for x
      using assms(1) p(1,2) that unfolding parsers_coded_def by blast
    ultimately show ?thesis
      by (auto simp: parser_verdict_def split: timed.splits sum.splits parser_exn.splits)
  qed
qed

lemma codes_transition: "ledger_transition now d to st ec em a L = (x, L') \<Longrightarrow> coded to ec \<Longrightarrow> codes L L'"
  using codes_write [of to ec L now d st em a] by simp

lemma deliver_codes: "verdict_coded v \<Longrightarrow> codes L (snd (deliver now d v L))"
  by (cases v)
    (auto simp: analyzer_terminalize_def analyzer_self_transition_def coded_codes dest!: codes_transition
      split: prod.splits sum.splits)

lemma analyze_codes:
  assumes "parsers_coded reg" and "list_all op_coded between"
    and run: "analyzer_analyze py config reg now later between e data (L, w) = (res, (L', w'))"
  shows "codes L L'"
proof -
  let ?d = "ae_doc_id e"
  obtain t L1 where t: "ledger_transition now ?d ANALYZING ANALYZING None None None L = (t, L1)" by fastforce
  then have c1: "codes L L1" using codes_write [of ANALYZING None L now ?d ANALYZING None None] by simp
  obtain v w1 where v: "analysis py config reg e data w = (v, w1)" by fastforce
  obtain dr L2 where d: "deliver later ?d v (ledger_run L1 between) = (dr, L2)" by fastforce
  have c2: "codes L L2"
    using codes_trans [OF codes_trans [OF c1 codes_run [OF assms(2)]] deliver_codes [OF analysis_coded [OF assms(1) v], of _ later ?d]] d by simp
  obtain tr L3 where tr: "triaged CHUNKING (ledger_transition later ?d CHUNKING CHUNKING None None None L2) = (tr, L3)" by fastforce
  have c3: "codes L L3"
    using codes_trans [OF c2 codes_triaged [of CHUNKING None L2 CHUNKING later ?d CHUNKING None None]] tr by simp
  show ?thesis
  proof (cases t)
    case (Inr r)
    with analyze_entered [OF t [unfolded Inr] v, of later between] d tr run c2 c3 show ?thesis
      by (cases dr; cases tr) auto
  next
    case (Inl x)
    show ?thesis
    proof (cases "\<exists>y. x = LedgerTransitionInvalid y \<and> is_benign_concurrent_loss (ti_observed_row y) ANALYZING ANALYZING = Some True")
      case True
      then obtain y where y: "x = LedgerTransitionInvalid y" "is_benign_concurrent_loss (ti_observed_row y) ANALYZING ANALYZING = Some True" by blast
      from analyze_lost [OF t [unfolded Inl y(1)] y(2) v, of later between] d run c2 show ?thesis by simp
    next
      case False
      then have "analyzer_analyze py config reg now later between e data (L, w) = (Inl (ALedgerError x), (L1, w))"
        using t Inl by (auto simp: analyzer_analyze_def Let_def split: ledger_exn.splits)
      with run c1 show ?thesis by simp
    qed
  qed
qed

text \<open>The parsers of the repository raise only transient codes of their own.\<close>

lemma repository_parsers_coded:
  assumes "\<And>dt parser. parser_get reg dt = Some parser \<Longrightarrow>
      (\<exists>open_pdf. parser = (\<lambda>e data w. (Finished (pymupdf_parse open_pdf data), w))) \<or>
      (\<exists>roles call. parser = (\<lambda>e data w. map_prod Finished id (docint_parse roles call (ae_doc_id e) data w)))"
  shows "parsers_coded reg"
  unfolding parsers_coded_def
proof (intro allI impI)
  fix dt parser e data w x w'
  assume "parser_get reg dt = Some parser" and out: "parser e data w = (Finished (Inl (ParserAnalyzerError x)), w')"
  from assms [OF this(1)] out show "an_error_code x \<in> set retry_codes"
    by (auto simp: pymupdf_parse_def docint_parse_def analyzer_exn_def map_sum_def
        split: prod.splits sum.splits docint_exn.splits option.splits)
qed

lemma chunk_codes:
  assumes "chunker_chunk x split config tokens now e es L = (res, L')"
  shows "codes L L'"
proof (cases "es = []")
  case True
  with assms have "L' = snd (terminalize_empty_elements now (ae_doc_id e) L)"
    by (cases "terminalize_empty_elements now (ae_doc_id e) L") (auto simp: chunker_chunk_def)
  then show ?thesis unfolding chunker_writes by (simp add: codes_write coded_codes)
next
  case False
  show ?thesis
  proof (cases "assemble_chunks x split config tokens (ae_doc_id e) es")
    case (Inl f)
    from build_chunks_failure [OF Inl] obtain m where "build_chunks x split config tokens now (ae_doc_id e) es L =
        map_prod Inl id (self_transition_and_raise now (ae_doc_id e) (failure_code f) m L)" by blast
    with False assms have "L' = snd (self_transition_and_raise now (ae_doc_id e) (failure_code f) m L)"
      by (cases "self_transition_and_raise now (ae_doc_id e) (failure_code f) m L") (simp add: chunker_chunk_def Let_def)
    then show ?thesis unfolding chunker_writes by (simp add: codes_write coded_codes)
  next
    case (Inr cs)
    with False assms have "L' = snd (transition_to_embedding now (ae_doc_id e) cs L)"
      by (simp add: chunker_chunk_def build_chunks_def)
    then show ?thesis unfolding chunker_writes by (simp add: codes_write)
  qed
qed

lemma embed_codes:
  assumes "embedder_embed x F config adapter now e cs (L, w) = (res, (L', w'))"
  shows "codes L L'"
proof (rule embedder_embed_cases [where cs = cs and adapter = adapter and x = x and F = F and config = config and
      now = now and e = e and L = L and w = w])
  fix c m
  assume "c = (if cs = [] then EMBEDDER_EMPTY_CHUNKS else EMBEDDER_INPUT_TOO_LONG)"
    "embedder_embed x F config adapter now e cs (L, w) =
       (case embedder_terminalize now (ae_doc_id e) c m L of (er, L') \<Rightarrow> (Inl er, (L', w)))"
  with assms embedder_writes(1) [of now "ae_doc_id e" c m L] show ?thesis
    by (auto simp: codes_write coded_codes split: prod.splits)
next
  fix f w1 m
  assume "embedder_embed x F config adapter now e cs (L, w) =
       (case embedder_self_transition now (ae_doc_id e) (embed_failure_code f) m L of (er, L') \<Rightarrow> (Inl er, (L', w1)))"
  with assms embedder_writes(2) [of now "ae_doc_id e" "embed_failure_code f" m L] show ?thesis
    by (auto simp: codes_write coded_codes split: prod.splits)
next
  fix es w1
  assume "embedder_embed x F config adapter now e cs (L, w) =
       (case transition_to_indexing now (ae_doc_id e) es L of (res, L') \<Rightarrow> (res, (L', w1)))"
  with assms embedder_writes(3) [of now "ae_doc_id e" es L] show ?thesis
    by (auto simp: codes_write split: prod.splits)
qed

lemma index_codes:
  assumes "indexer_index x config adapter now e ecs (L, w) = (res, (L', w'))"
  shows "codes L L'"
proof (rule indexer_index_cases [where ecs = ecs and adapter = adapter and x = x and config = config and now = now and e = e
      and L = L and w = w])
  fix c m
  assume "batch_fault config ecs = Some c"
    "indexer_index x config adapter now e ecs (L, w) =
       (case indexer_terminalize now (ae_doc_id e) c m L of (er, L') \<Rightarrow> (Inl er, (L', w)))"
  with assms indexer_writes(1) [of now "ae_doc_id e" c m L] show ?thesis
    by (auto simp: codes_write coded_codes split: prod.splits)
next
  fix er
  assume "indexer_index x config adapter now e ecs (L, w) = (Inl er, (L, w))"
  with assms show ?thesis by simp
next
  fix rs f w1 m
  let ?c = "index_failure_code f"
  assume "indexer_index x config adapter now e ecs (L, w) =
       (case (if ?c \<in> permanent_upsert_codes then indexer_terminalize now (ae_doc_id e) ?c m L
         else indexer_self_transition now (ae_doc_id e) ?c m L) of (er, L') \<Rightarrow> (Inl er, (L', w1)))"
  with assms indexer_writes(1,2) [of now "ae_doc_id e" ?c m L] show ?thesis
    by (auto simp: codes_write coded_codes split: prod.splits if_splits)
next
  fix rs k w1
  assume "indexer_index x config adapter now e ecs (L, w) =
       (case transition_to_indexed now (ae_doc_id e) k L of (res, L') \<Rightarrow> (res, (L', w1)))"
  with assms indexer_writes(3) [of now "ae_doc_id e" k L] show ?thesis
    by (auto simp: codes_write split: prod.splits)
qed

section \<open>Loader, reviewers and operators\<close>

lemma load_codes: "vertical_load lk lk2 cfg now e S = (res, S') \<Longrightarrow> codes (rs_ledger S) (rs_ledger S')"
  by (auto simp: vertical_load_def park_def Let_def codes_write dest!: triaged_state
      split: sum.splits option.splits prod.splits if_splits)

lemma review_commit_codes:
  assumes "\<And>L. codes L (snd (f L))" and "review_commit to_status d f S = (res, S')"
  shows "codes (rs_ledger S) (rs_ledger S')"
  using assms(1) [of "rs_ledger S"] assms(2)
  by (auto simp: review_commit_def dest!: triaged_state split: prod.splits sum.splits)

lemma assign_codes: "review_assign lk now d i S = (res, S') \<Longrightarrow> codes (rs_ledger S) (rs_ledger S')"
  by (auto simp: review_assign_def review_assign_commit_def codes_write split: sum.splits option.splits
      intro!: review_commit_codes [where S = S and S' = S'])

lemma reject_codes: "review_reject now d reason S = (res, S') \<Longrightarrow> codes (rs_ledger S) (rs_ledger S')"
  by (auto simp: review_reject_def review_reject_commit_def codes_write coded_codes split: sum.splits
      intro!: review_commit_codes [where S = S and S' = S'])

lemma codes_later_write: "list_all op_coded ops \<Longrightarrow> coded to ec \<Longrightarrow> codes L (snd (ledger_transition now d to st ec em a (ledger_run L ops)))"
  by (blast intro: codes_trans [OF codes_run codes_write])

lemma requeue_codes: "list_all op_coded between \<Longrightarrow> requeue now between d L = (res, L') \<Longrightarrow> codes L L'"
  by (auto simp: requeue_def Let_def codes_later_write dest!: triaged_state split: sum.splits prod.splits)

lemma archive_codes: "list_all op_coded between \<Longrightarrow> archive now between d reason L = (res, L') \<Longrightarrow> codes L L'"
  by (auto simp: archive_def codes_later_write dest!: triaged_state split: sum.splits prod.splits)

lemma requeue_loop_codes:
  assumes "\<forall>i. list_all op_coded (fst (env i)) \<and> list_all op_coded (fst (snd (env i)))"
  shows "requeue_loop env i ids rq sk L = (res, L') \<Longrightarrow> codes L L'"
proof (induction ids arbitrary: i rq sk L)
  case (Cons d ids)
  obtain bf bt now where env: "env i = (bf, bt, now)" by (cases "env i")
  obtain out L1 where q: "requeue now bt d (ledger_run L bf) = (out, L1)" by fastforce
  have ops: "list_all op_coded bf" "list_all op_coded bt" using assms [THEN spec, of i] env by simp_all
  have c: "codes L L1" by (rule codes_trans [OF codes_run [OF ops(1)] requeue_codes [OF ops(2) q]])
  have step: "codes L L'" if "requeue_loop env (Suc i) ids rq' sk' L1 = (res, L')" for rq' sk'
    using codes_trans [OF c Cons.IH [OF that]] .
  show ?case using Cons.prems env q c step by (auto split: sum.splits reprocessor_exn.splits if_splits)
qed simp

lemma batch_requeue_codes:
  assumes "\<forall>i. list_all op_coded (fst (env i)) \<and> list_all op_coded (fst (snd (env i)))"
    and "requeue_by_error_code reg m env c limit L = (res, L')"
  shows "codes L L'"
  using assms(2) requeue_loop_codes [OF assms(1)]
  by (auto simp: requeue_by_error_code_def Let_def split: sum.splits prod.splits)

section \<open>A deployment\<close>

text \<open>What a deployment fixes: configurations, adapters, and what the interpreter prints for an exception.\<close>

record ('wa, 'f, 'we, 'wi) deployment =
  dp_pymupdf :: "pymupdf option"
  dp_analyzer :: analyzer_config
  dp_parsers :: "'wa parser_registry"
  dp_strategy_text :: "interpreter_error \<Rightarrow> string"
  dp_split :: splitter
  dp_chunker :: chunker_config
  dp_tokens :: token_count
  dp_text :: "py_error \<Rightarrow> string"
  dp_floats :: "'f float_ops"
  dp_embedder :: embedder_config
  dp_embedding :: "('f, 'we) embedding_port"
  dp_indexer :: indexer_config
  dp_store :: "('f, 'wi) index_port"
  dp_loader :: vertical_loader_config

text \<open>
  One call of a component. Calls that read, release the lock and write later carry the ledger calls of
  others in between, which are calls of the components too (\<open>op_coded\<close>). The adapters may be in any state.
\<close>

inductive pipeline_step :: "('wa, 'f, 'we, 'wi) deployment \<Rightarrow> review_state \<Rightarrow> review_state \<Rightarrow> bool" for D where
  arrive: "ledger_create now d summary (rs_ledger S) = (res, L) \<Longrightarrow> pipeline_step D S (S\<lparr>rs_ledger := L\<rparr>)"
| load: "vertical_load lk lk2 (dp_loader D) now e S = (lres, S') \<Longrightarrow> pipeline_step D S S'"
| assign: "review_assign lk now d i S = (ares, S') \<Longrightarrow> pipeline_step D S S'"
| reject: "review_reject now d reason S = (rres, S') \<Longrightarrow> pipeline_step D S S'"
| analyze: "analyzer_analyze (dp_pymupdf D) (dp_analyzer D) (dp_parsers D) now later between e data (rs_ledger S, wa) = (nres, (L, wa')) \<Longrightarrow>
     list_all op_coded between \<Longrightarrow> pipeline_step D S (S\<lparr>rs_ledger := L\<rparr>)"
| chunk: "chunker_chunk (dp_strategy_text D) (dp_split D) (dp_chunker D) (dp_tokens D) now e es (rs_ledger S) = (cres, L) \<Longrightarrow>
     pipeline_step D S (S\<lparr>rs_ledger := L\<rparr>)"
| embed: "embedder_embed (dp_text D) (dp_floats D) (dp_embedder D) (dp_embedding D) now e cs (rs_ledger S, we) = (eres, (L, we')) \<Longrightarrow>
     pipeline_step D S (S\<lparr>rs_ledger := L\<rparr>)"
| index: "indexer_index (dp_text D) (dp_indexer D) (dp_store D) now e ecs (rs_ledger S, wi) = (xres, (L, wi')) \<Longrightarrow>
     pipeline_step D S (S\<lparr>rs_ledger := L\<rparr>)"
| requeue: "requeue now between d (rs_ledger S) = (qres, L) \<Longrightarrow> list_all op_coded between \<Longrightarrow> pipeline_step D S (S\<lparr>rs_ledger := L\<rparr>)"
| batch_requeue: "requeue_by_error_code reg m env code limit (rs_ledger S) = (bres, L) \<Longrightarrow>
     \<forall>i. list_all op_coded (fst (env i)) \<and> list_all op_coded (fst (snd (env i))) \<Longrightarrow> pipeline_step D S (S\<lparr>rs_ledger := L\<rparr>)"
| archive: "archive now between d reason (rs_ledger S) = (hres, L) \<Longrightarrow> list_all op_coded between \<Longrightarrow> pipeline_step D S (S\<lparr>rs_ledger := L\<rparr>)"

lemma pipeline_step_codes:
  assumes "pipeline_step D S S'" and "parsers_coded (dp_parsers D)"
  shows "codes (rs_ledger S) (rs_ledger S')"
  using assms(1)
proof cases
  case (arrive now d summary res L)
  then show ?thesis using codes_run [of "[CreateOp now d summary]" "rs_ledger S"] by simp
qed (auto dest: load_codes assign_codes reject_codes analyze_codes [OF assms(2)] chunk_codes embed_codes index_codes requeue_codes
    batch_requeue_codes archive_codes)

lemma pipeline_run_coded:
  assumes "(pipeline_step D)\<^sup>*\<^sup>* S S'" and "parsers_coded (dp_parsers D)" and "coded_ledger (rs_ledger S)"
  shows "coded_ledger (rs_ledger S')"
  using assms(1)
proof (induction rule: rtranclp_induct)
  case base
  show ?case by (rule assms(3))
next
  case (step y z)
  then show ?case using codes_coded [OF pipeline_step_codes [OF step(2) assms(2)]] by blast
qed

lemma coded_ledger_init: "coded_ledger (ledger_init n)"
  by (simp add: coded_ledger_def ledger_init_def ledger_get_def)

definition declared :: "package list \<Rightarrow> severity \<Rightarrow> string \<Rightarrow> bool" where
  "declared ps sv c \<longleftrightarrow> list_ex (\<lambda>p. list_ex (\<lambda>g. ec_code (entry_of g) = c \<and> ec_severity (entry_of g) = sv) (registrations p)) ps"

lemma codes_declared:
  "list_all (declared [P_vertical, P_analyzer, P_chunker, P_embedder, P_indexer] PERMANENT) terminal_codes"
  "list_all (declared [P_vertical, P_analyzer, P_chunker, P_embedder, P_indexer] TRANSIENT) retry_codes"
  by code_simp+

lemma declared_severity:
  assumes "distinct order" and "import_packages order = Inr R" and "set ps \<subseteq> set order" and "declared ps sv c"
  shows "classify R c = sv"
proof -
  from assms(4) obtain p g where "p \<in> set ps" "g \<in> set (registrations p)" "ec_code (entry_of g) = c" "ec_severity (entry_of g) = sv"
    by (auto simp: declared_def list_ex_iff)
  with classify_imported [OF assms(1,2), of p g] assms(3) show ?thesis by auto
qed

section \<open>Properties\<close>

text \<open>
  C4. Status and severity agree. In every run of a deployment from an empty ledger (arrivals, loads, review
  decisions, the four stages on whatever documents and adapters, requeues, archivals, in any order and
  interleaved), in a process that imported the packages of these components: the code recorded on a
  failed document is classified as permanent, and the code recorded on a document that waits in a
  stage is classified as transient, so that its message is delivered again. Of the parsers it is asked
  that the errors they raise themselves are the transient ones.
\<close>

theorem severity_agrees:
  assumes "(pipeline_step D)\<^sup>*\<^sup>* \<lparr>rs_ledger = ledger_init n, rs_registry = []\<rparr> S" and "parsers_coded (dp_parsers D)"
    and "distinct order" and "import_packages order = Inr R" and "{P_vertical, P_analyzer, P_chunker, P_embedder, P_indexer} \<subseteq> set order"
    and "ledger_get (rs_ledger S) d = Some r" and "lr_last_error_code r = Some c"
  shows "(lr_status r = FAILED \<longrightarrow> classify R c = PERMANENT) \<and>
    (lr_status r \<in> {ANALYZING, CHUNKING, EMBEDDING, INDEXING} \<longrightarrow> classify R c = TRANSIENT)"
proof -
  have "coded_ledger (rs_ledger S)" using pipeline_run_coded [OF assms(1,2)] coded_ledger_init by simp
  then have "coded (lr_status r) (Some c)" using assms(6,7) unfolding coded_ledger_def by metis
  moreover have ps: "set [P_vertical, P_analyzer, P_chunker, P_embedder, P_indexer] \<subseteq> set order" using assms(5) by simp
  have "classify R x = PERMANENT" if "x \<in> set terminal_codes" for x
    using declared_severity [OF assms(3,4) ps] codes_declared(1) that by (simp add: list_all_iff)
  moreover have "classify R x = TRANSIENT" if "x \<in> set retry_codes" for x
    using declared_severity [OF assms(3,4) ps] codes_declared(2) that by (simp add: list_all_iff)
  ultimately show ?thesis by (auto simp: coded_def active_def)
qed

text \<open>A deployment with one parser, on which a document of no supported type arrives.\<close>

definition demo_deployment :: "(unit, unit, unit, unit memory_index) deployment" where
  "demo_deployment = \<lparr>dp_pymupdf = None, dp_analyzer = default_analyzer_config, dp_parsers = demo_registry,
     dp_strategy_text = \<lambda>_. [], dp_split = \<lambda>_ _ s. Inr [s], dp_chunker = demo_chunker_config, dp_tokens = char_count, dp_text = \<lambda>_. [],
     dp_floats = \<lparr>fl_zero = (), fl_mul = \<lambda>_ _. (), fl_div = \<lambda>_ _. (), fl_sum = \<lambda>_. (), fl_sqrt = \<lambda>_. ()\<rparr>,
     dp_embedder = default_embedder_config,
     dp_embedding = \<lparr>ep_model_name = ''m'', ep_native_dimensions = 1, ep_max_batch_size = 1, ep_max_input_tokens = 9, ep_supports_mrl = False,
       ep_document_prefix = None, ep_embed_batch = (\<lambda>b w. (Inr (map (\<lambda>_. [()]) b), w))\<rparr>,
     dp_indexer = default_indexer_config, dp_store = memory_port (\<lambda>_. []) (\<lambda>_. 0) ''i'',
     dp_loader = demo_config\<rparr>"

theorem severity_agrees_witness:
  "\<exists>S R r. (pipeline_step demo_deployment)\<^sup>*\<^sup>* \<lparr>rs_ledger = ledger_init 100, rs_registry = []\<rparr> S \<and> import_packages all_packages = Inr R \<and>
     ledger_get (rs_ledger S) demo_id = Some r \<and> lr_status r = FAILED \<and> lr_last_error_code r = Some ANALYZER_UNSUPPORTED_TYPE \<and>
     classify R ANALYZER_UNSUPPORTED_TYPE = PERMANENT"
proof -
  let ?S0 = "\<lparr>rs_ledger = ledger_init 100, rs_registry = []\<rparr>"
  let ?row = "fresh_row 0 demo_id \<lparr>es_config_version = ''1''\<rparr>"
  let ?L1 = "ledger_put demo_id ?row (ledger_init 100)"
  have "ledger_create 0 demo_id \<lparr>es_config_version = ''1''\<rparr> (ledger_init 100) = (Inr ?row, ?L1)"
    by (simp add: ledger_create_def Let_def ledger_init_def ledger_get_def)
  then have s1: "pipeline_step demo_deployment ?S0 \<lparr>rs_ledger = ?L1, rs_registry = []\<rparr>"
    using pipeline_step.arrive [of 0 demo_id "\<lparr>es_config_version = ''1''\<rparr>" ?S0 "Inr ?row" ?L1 demo_deployment] by simp
  let ?out = "analyzer_analyze None default_analyzer_config demo_registry 1 2 [] demo_arrival_envelope ''text'' (?L1, ())"
  let ?L2 = "fst (snd ?out)"
  have "map_option (\<lambda>r. (lr_status r, lr_last_error_code r)) (ledger_get ?L2 demo_id) = Some (FAILED, Some ANALYZER_UNSUPPORTED_TYPE)"
    by code_simp
  then obtain r' where L2: "ledger_get ?L2 demo_id = Some r'" "lr_status r' = FAILED" "lr_last_error_code r' = Some ANALYZER_UNSUPPORTED_TYPE"
    by auto
  have s2: "pipeline_step demo_deployment \<lparr>rs_ledger = ?L1, rs_registry = []\<rparr> \<lparr>rs_ledger = ?L2, rs_registry = []\<rparr>"
    using pipeline_step.analyze [of demo_deployment 1 2 "[]" demo_arrival_envelope "''text''" "\<lparr>rs_ledger = ?L1, rs_registry = []\<rparr>" "()"
        "fst ?out" ?L2 "()"]
    by (simp add: demo_deployment_def prod_eq_iff)
  have run: "(pipeline_step demo_deployment)\<^sup>*\<^sup>* ?S0 \<lparr>rs_ledger = ?L2, rs_registry = []\<rparr>"
    using s1 s2 by (meson rtranclp.rtrancl_into_rtrancl rtranclp.rtrancl_refl)
  have ps: "parsers_coded (dp_parsers demo_deployment)"
    by (auto simp: parsers_coded_def demo_deployment_def demo_registry_def parser_register_def parser_get_def dict_set_def split: if_splits)
  have d: "distinct all_packages" "{P_vertical, P_analyzer, P_chunker, P_embedder, P_indexer} \<subseteq> set all_packages"
    by (simp_all add: all_packages_def)
  obtain R where R: "import_packages all_packages = Inr R" using import_packages_Inr [OF d(1)] by blast
  from severity_agrees [OF run ps d(1) R d(2), of demo_id r'] L2 R run show ?thesis by (intro exI [of _ "\<lparr>rs_ledger = ?L2, rs_registry = []\<rparr>"] exI [of _ R] exI [of _ r']) simp
qed

end
