(* ===== verification/Spec2Isabelle.thy ===== *)
theory Spec2Isabelle
  imports Errors Identity Envelope Ledger Scenario Scenario_Store Review_Queue Vertical_Loader Reprocessor Chunker
    Embedder_Adapters Retry_Waits Indexer Azure_Search Analyzer Provisioning_Progress Azure_Search_Sdk Table_Provisioning Pipeline Severity
begin

text \<open>
  \<^bold>\<open>Vestibule: a verification development.\<close>

  Vestibule is an ingestion pipeline for documents. A producer wraps an arriving blob into an envelope
  whose identity is a digest of its source and path; a ledger keeps one row per document and admits
  only the transitions of a status machine; a loader decides which scenario (configuration) a document
  belongs to, or parks it for a human; the pipeline stages (analyzer, chunker, embedder, indexer) each
  move the row on, fail it, or record a retry; an operator tool requeues or archives failed
  documents; and a provisioner makes sure that the search index of a scenario exists, once, before
  documents go there. Delivery is at least once and workers are concurrent, so every stage must be
  safe to repeat, every lost race must be triaged, and provisioning is a protocol between processes.

  \<^bold>\<open>Theories and what they model\<close> (paths under \<open>src/vestibule/\<close>).
  \<^item> \<open>Py_Prelude\<close>: what the code uses of Python: dictionaries in insertion order, slices, stable
    sorting, string helpers, \<open>repr\<close>, \<open>int\<close>/\<open>str\<close> conversion, results with exceptions.
  \<^item> \<open>Sha256\<close>, \<open>Fnmatch\<close>: \<open>hashlib.sha256\<close> on UTF-8 text and \<open>fnmatch.fnmatchcase\<close>, executable.
  \<^item> \<open>Errors\<close> (\<open>errors/registry.py\<close>): the registry of error codes and \<open>classify\<close>. \<open>Taxonomy\<close>: the registrations of all
    packages, and the imports of a process as the calls that make them.
  \<^item> \<open>Identity\<close> (\<open>identity/derive.py\<close>): document and chunk identifiers.
  \<^item> \<open>Envelope\<close> (\<open>envelope/model.py\<close>): the validators, \<open>build_envelope\<close>, the queue codec.
  \<^item> \<open>Ledger\<close> (\<open>ledger/store.py\<close>): \<open>Status\<close>, the transition table, \<open>validate_transition\<close>, the row
    update, \<open>is_benign_concurrent_loss\<close>, and \<open>InMemoryLedgerStore\<close>. The inductive relation
    \<open>fsm_edge\<close> is the abstract machine; the locale \<open>ledger_port\<close> is what the clients rely on, and
    \<open>mem\<close> interprets it on the store. \<open>triaged\<close> is the idiom every client wraps around a write.
  \<^item> \<open>Scenario\<close>, \<open>Scenario_Store\<close> (\<open>scenario/\<close>): the configuration records and their checks; the store
    port (locale \<open>scenario_port\<close>), the YAML store (interpretation \<open>yml\<close>), the TTL cache over a backend
    (locale \<open>cache_backend\<close>, interpretation \<open>yml_cache\<close>).
  \<^item> \<open>Review_Queue\<close>, \<open>Vertical_Loader\<close> (\<open>vertical/\<close>): parking metadata, the two reviewer decisions, the
    resolution order, loading and parking.
  \<^item> \<open>Reprocessor\<close> (\<open>reprocessor/\<close>): listing, summary, requeue of one or a batch, archive.
  \<^item> \<open>Stage_Worker\<close>: what the four stages share; the locale \<open>stage_worker\<close> is the contract of a stage with
    the ledger, interpreted for \<open>chunker\<close>, \<open>embedder\<close>, \<open>indexer\<close> and \<open>analyzer\<close> in their theories.
  \<^item> \<open>Parsers\<close>, \<open>Analyzer\<close> (\<open>analyzer/\<close>): type detection, the parsers, the parser registry, and the
    orchestrator with its ledger writes before and after the parsing.
  \<^item> \<open>Chunk_Strategies\<close>, \<open>Chunker\<close> (\<open>chunker/\<close>): the three strategies, the lazy token counter, and the
    orchestrator with its ledger writes.
  \<^item> \<open>Adapter_Support\<close>, \<open>Vectors\<close>: slices and batches, float operations, the bounded retry of a service
    call; vectors in exact arithmetic. \<open>Retry_Waits\<close>: the delays between the attempts.
  \<^item> \<open>Embedder\<close>, \<open>Embedder_Adapters\<close> (\<open>embedder/\<close>): input checks, batching, Matryoshka truncation, the
    ledger writes; the Azure OpenAI and the local adapter.
  \<^item> \<open>Index_Store\<close>, \<open>Indexer\<close>, \<open>Azure_Search\<close>, \<open>Azure_Search_Sdk\<close> (\<open>indexer/\<close>): the store port as the locale
    \<open>chunk_index\<close>, the in-memory store with its cosine search that interprets it, the orchestrator, the
    Azure AI Search adapter, and its production backend over the vendor's SDK.
  \<^item> \<open>Index_Templates\<close>, \<open>Index_Registry\<close>, \<open>Provisioner\<close> (\<open>provisioning/\<close>): the template catalogue; the
    registry port (locale \<open>registry_contract\<close>, interpreted on the in-memory registry and on a fleet of caches
    over it); \<open>ensure_index_ready\<close> as a machine with one external call per step (\<open>ensure_step\<close>), any number of
    workers interleaved by \<open>system_step\<close>; the store port (locale \<open>index_service\<close>) and the in-memory adapter.
  \<^item> \<open>Provisioning_Safety\<close>, \<open>Provisioning_Progress\<close>: the invariant of the provisioning protocol (locale
    \<open>provisioning\<close>, extending the two contracts; interpretation \<open>fleet_system\<close>), and its progress.
  \<^item> \<open>Azure_Provisioner\<close> (\<open>provisioning/adapters/\<close>): the Azure AI Search adapter and its production backend
    (locales \<open>provisioner_service\<close>, \<open>search_sdk\<close>, \<open>search_index_service\<close>, with a \<open>sublocale\<close> from the SDK to the
    contract of the adapter).
  \<^item> \<open>Table_Backend\<close>, \<open>Scenario_Table\<close>, \<open>Registry_Table\<close>, \<open>Azure_Table\<close> (\<open>scenario/stores/\<close>, \<open>provisioning/stores/\<close>): the
    table service (locale \<open>table_service\<close>, interpreted on a table in memory and on one that loses answers), the
    entity codecs, the scenario store and the index registry on Azure Table Storage, and the production
    backend of both over the table client of the SDK (locale \<open>table_sdk\<close>, with a \<open>sublocale\<close> into \<open>table_service\<close>).
  \<^item> \<open>Table_Provisioning\<close>: the provisioning protocol over the table registry, with the read and the write of a
    registry call apart in time (locale \<open>table_registry\<close>).
  \<^item> \<open>Pipeline\<close>: the conversions of a scenario into the configurations of the stages, and the way of one
    document from arrival to the index. \<open>Severity\<close>: all components that write the ledger as one system
    (\<open>pipeline_step\<close>), and the error codes they leave in its rows.
  \<^item> this theory: further properties that span components.

  \<^bold>\<open>How code becomes definitions.\<close> A dataclass or pydantic model is a record, an enum a datatype, a
  method one definition on an explicit state; an exception is the \<open>Inl\<close> of a sum, and a call that may
  raise after a write returns the state in both cases. A method that runs under one lock is one atomic
  step, and a concurrent execution is a sequence of steps (\<open>ledger_op\<close>, \<open>ledger_run\<close>, \<open>system_step\<close>). Where
  a method reads, releases the lock and writes later, the calls others make in between are an argument
  (\<open>between\<close>) or the second half is a definition of its own (\<open>review_assign_commit\<close>, \<open>cached_get_store\<close>).
  The clock is an argument. An adapter is a record of its methods, each a function of a world \<open>'w\<close>.

  \<^bold>\<open>Parameters.\<close> Code outside the repository is an argument of the definitions that use it: what
  pydantic made of the fields of a message (\<open>decode\<close>, \<open>dump\<close>, the text of a validation error), what
  the YAML parser returned (\<open>yaml_doc\<close>, \<open>template_doc\<close>), the text splitter (\<open>split\<close>), the tokenizer
  (\<open>get_encoding\<close>, and per call of the chunker the function \<open>count\<close>), the text of an interpreter's
  exception (\<open>exc_text\<close>), float arithmetic (\<open>float_ops\<close>; exact arithmetic is the instance \<open>real_ops\<close>), the
  attempts the retry library grants (\<open>grants\<close>, documented as \<open>tenacity_grants\<close>), the document libraries of
  the parsers, the embedding services, the search SDK (\<open>search_models\<close>, \<open>search_client\<close>, \<open>documents_client\<close>), the
  client of the table SDK (\<open>sdk_client\<close>), and the text codecs of timestamps and nested settings (\<open>scenario_codec\<close>, \<open>registry_codec\<close>).
  The theorems hold for all of them unless a hypothesis or a locale says what is relied on.

  \<^bold>\<open>What the theorems show.\<close>
  \<^item> Ledger: the table refines the abstract machine, reachable stores are well formed, stages are never
    skipped, final rows never change, no document is stuck, the triage is exactly its documented relation.
  \<^item> Identity and envelopes: identifiers are well formed, chunk identifiers are injective up to collisions
    of SHA-256, an accepted envelope is bound to its document, and the queue round trip keeps it.
  \<^item> Scenarios: the constructor accepts exactly the valid configurations, a reload is atomic, the cache is
    invisible to a sequential client; on the table, an update takes effect at one moment or not at all.
  \<^item> Loader and queue: the outcomes of a load, parking, the review round trip. Reprocessor: listings and
    summaries are exact, requeue and archive do what they say, races included.
  \<^item> Stages: every path of the four stages leaves the ledger in the right state. Partitioning, sections and
    merging lose nothing and tables stay whole; batching of embeddings is invisible and truncated vectors
    are normalised; an indexed document is exactly what the store holds of it, and repeating the stage
    changes nothing; search returns the best matches; the Azure adapter refines the abstract store.
  \<^item> Provisioning: under every interleaving of workers, crashes and retirements a returned entry describes
    an index that exists with these dimensions and this metric, a claim has one owner, an undisturbed
    worker provisions a new index and completes a stale claim, and waiting is bounded. The registry on
    the table refines the abstract registry as long as an index name belongs to one vertical, even when
    the service loses an answer; the production backends keep the contracts of their services; and the
    safety of the protocol holds for the whole production stack, from the caches down to the two SDKs.
  \<^item> The whole: a document whose scenario passed validation reaches the index. The imports of a process
    register every code once, in any order, and in every run the severity of the code in a row agrees
    with its status: failed documents carry permanent codes, waiting ones transient codes.
  Some theorems and lemmas record behaviour that differs from what a comment promises: \<open>requeue_race\<close>,
  \<open>park_of_moved_document\<close>, \<open>chunk_redelivery\<close>, \<open>embed_redelivery\<close>, \<open>analyze_straggler\<close>, \<open>requeued_assignment_sticks\<close>,
  \<open>negative_batch_size_indexes_nothing\<close>, \<open>ready_entry_outcomes\<close>, \<open>doc_id_boundary_collision\<close>,
  \<open>validate_id_format_accepts\<close>, \<open>cached_get_stale_after_write\<close>, \<open>merge_exceeds_ceiling\<close>, \<open>tiktoken_reload\<close>,
  \<open>retired_claim_revived\<close>, \<open>claims_of_two_verticals\<close>, \<open>touch_verified_conflicts\<close>, \<open>uploaded_fields_missing\<close>,
  \<open>first_table_caption\<close>, \<open>negative_target_misfits\<close>, \<open>negative_retry_after\<close>.

  \<^bold>\<open>Bounds.\<close> There is no fuel: every definition is total, the loops of the code are structural except
  the merge pass, the glob parser, \<open>range\<close> and the batches, whose termination is proved by a measure. The
  wait loop of the provisioner is unfolded by the step relation, and a bound on its steps is a theorem.
  \<open>SCAN_LIMIT\<close> is the code's own bound, and the statements that need it say so. Characters are code
  points below 256, and Python's limit on the digits of \<open>int\<close> conversions is left out.

  \<^bold>\<open>Not modelled.\<close> Logging; the public re-exports of the packages; \<open>confidence\<close> of an element, which no modelled
  code reads; strategies injected into the chunker in place of its defaults; the test doubles
  (\<open>conftest.py\<close>) and the example program. The delays between attempts are modelled on their own (\<open>Retry_Waits\<close>),
  since they change the result of a call only when \<open>sleep\<close> refuses them. In \<open>Table_Provisioning\<close> the read that follows
  a refused create comes right after it.
\<close>

section \<open>Lemmas\<close>

lemma envelope_from_json_doc_id:
  assumes "envelope_from_json m decode raw = Inr e"
  shows "valid_id (ae_doc_id e)" and "derive_doc_id (PyStr (ae_source e)) (PyStr (ae_blob_path e)) = Inr (ae_doc_id e)"
proof -
  have ok: "envelope_ok e" using assms by (auto simp: envelope_from_json_def make_envelope_Inr split: sum.splits)
  then show d: "derive_doc_id (PyStr (ae_source e)) (PyStr (ae_blob_path e)) = Inr (ae_doc_id e)"
    by (simp add: envelope_ok_def)
  then have "ae_doc_id e = sha256_hexdigest (utf8_encode (ae_source e @ ae_blob_path e))"
    by (auto simp: derive_doc_id_def)
  then have "hex64 (ae_doc_id e)" by (simp only: sha256_hexdigest_hex64)
  then show "valid_id (ae_doc_id e)" by (simp add: dollar_match_full)
qed

text \<open>A new document brought to \<open>CHUNKING\<close> by the calls of the stages before the chunker.\<close>

lemma create_to_chunking:
  assumes "ledger_ok L" and "valid_id d" and "ledger_get L d = None"
  shows "\<exists>r. ledger_get (ledger_run L [CreateOp now d s, advance_op d ANALYZING, advance_op d CHUNKING]) d = Some r \<and>
    lr_status r = CHUNKING"
proof -
  let ?L1 = "ledger_put d (fresh_row now d s) L"
  have c: "ledger_step L (CreateOp now d s) = ?L1" using assms(2,3) by (simp add: ledger_create_def Let_def)
  have "ledger_ok (ledger_step L (CreateOp now d s))" by (rule ledger_ok_step [OF assms(1)])
  then have ok: "ledger_ok ?L1" using c by simp
  have "row_status ?L1 d = Some PENDING" by (simp add: row_status_def fresh_row_def)
  from ledger_run_path [OF ok this, of "[ANALYZING, CHUNKING]"] c
  show ?thesis by (auto simp: row_status_def)
qed

section \<open>Properties that span components\<close>

text \<open>
  From the queue to the embedding stage: for every message the consumer accepts, of a document the
  ledger does not know yet, creating the row and passing the analysis stages lets the chunker run;
  when the document's elements assemble into chunks, the chunker returns them, the row is in
  \<open>EMBEDDING\<close>, and the \<open>i\<close>-th chunk carries the identifier derived from the envelope's own source and
  path and \<open>i\<close>.
\<close>

theorem arrival_to_chunks:
  assumes "envelope_from_json m decode raw = Inr e" and "ledger_ok L" and "ledger_get L (ae_doc_id e) = None"
    and "es \<noteq> []" and "assemble_chunks x split config tokens (ae_doc_id e) es = Inr cs"
    and "L2 = ledger_run L [CreateOp now (ae_doc_id e) s, advance_op (ae_doc_id e) ANALYZING, advance_op (ae_doc_id e) CHUNKING]"
  shows "\<exists>L3. chunker_chunk x split config tokens now3 e es L2 = (Inr cs, L3) \<and>
    row_status L3 (ae_doc_id e) = Some EMBEDDING \<and>
    (\<forall>i < length cs. \<exists>d. derive_doc_id (PyStr (ae_source e)) (PyStr (ae_blob_path e)) = Inr d \<and>
       derive_chunk_id (PyStr d) (PyInt (int i)) = Inr (ch_chunk_id (cs ! i)))"
proof -
  note id = envelope_from_json_doc_id [OF assms(1)]
  have ok: "ledger_ok L2" unfolding assms(6) by (rule ledger_ok_run [OF assms(2)])
  obtain r where r: "ledger_get L2 (ae_doc_id e) = Some r" "lr_status r = CHUNKING"
    using create_to_chunking [OF assms(2) id(1) assms(3)] assms(6) by blast
  have "fsm_edge (lr_status r) EMBEDDING" using r(2) by simp
  from mem.transition_along_edge [OF ok r(1) this, of None now3 None None] assms(4,5)
  obtain L3 where "chunker_chunk x split config tokens now3 e es L2 = (Inr cs, L3)" "row_status L3 (ae_doc_id e) = Some EMBEDDING"
    by (auto simp: chunker_chunk_def build_chunks_def transition_to_embedding_def row_status_def)
  moreover from assms(5) obtain ds where "assign_positions (ae_doc_id e) ds = Inr cs" by (auto simp: assemble_chunks_def Let_def)
  from assign_positions_loop_Inr [OF this [unfolded assign_positions_def]]
  have "\<forall>i < length cs. derive_chunk_id (PyStr (ae_doc_id e)) (PyInt (int i)) = Inr (ch_chunk_id (cs ! i))" by simp
  ultimately show ?thesis using id(2) by blast
qed

theorem arrival_to_chunks_witness:
  "\<exists>e L3 cs. envelope_from_json id (\<lambda>_. Inr e) ''message'' = Inr e \<and>
     chunker_chunk (\<lambda>_. []) (\<lambda>_ _ s. Inr [s]) demo_chunker_config char_count 9 e [demo_element PARAGRAPH ''p'']
       (ledger_run (ledger_init 100) [CreateOp 1 (ae_doc_id e) \<lparr>es_config_version = ''1''\<rparr>,
          advance_op (ae_doc_id e) ANALYZING, advance_op (ae_doc_id e) CHUNKING]) = (Inr cs, L3) \<and>
     row_status L3 (ae_doc_id e) = Some EMBEDDING"
proof -
  define d where "d = sha256_hexdigest (utf8_encode (''blob:hr'' @ ''a.pdf''))"
  let ?e = "\<lparr>ae_doc_id = d, ae_source = ''blob:hr'', ae_blob_path = ''a.pdf'', ae_vertical = None,
     ae_scenario_id = None, ae_allowed_groups = [], ae_trust_tier = PUBLIC, ae_content_hash = demo_id, ae_received_at = 5\<rparr>"
  have e: "envelope_from_json id (\<lambda>_. Inr ?e) ''message'' = Inr ?e"
    by (simp add: envelope_from_json_def make_envelope_Inr envelope_ok_def derive_doc_id_total d_def del: append.simps)
  have "valid_id d" using envelope_from_json_doc_id(1) [OF e] by simp
  then have "\<exists>cs. assemble_chunks (\<lambda>_. []) (\<lambda>_ _ s. Inr [s]) demo_chunker_config char_count d [demo_element PARAGRAPH ''p''] = Inr cs"
    by (simp add: assemble_chunks_def partition_regions_def non_table_region_def dispatch_region_def char_count_def
        recursive_chunk_region_def merge_tail_single assign_positions_def derive_chunk_id_def Let_def validate_chunk_index_def)
  then obtain cs where cs: "assemble_chunks (\<lambda>_. []) (\<lambda>_ _ s. Inr [s]) demo_chunker_config char_count (ae_doc_id ?e)
      [demo_element PARAGRAPH ''p''] = Inr cs" by auto
  have new: "ledger_get (ledger_init 100) (ae_doc_id ?e) = None" by (simp add: ledger_init_def ledger_get_def)
  from arrival_to_chunks [OF e ledger_ok_init new _ cs refl, of 9 1 "\<lparr>es_config_version = ''1''\<rparr>"] e show ?thesis by blast
qed



end
